(* ===== verification/Prelude.thy ===== *)
theory Prelude
  imports Main "HOL-Library.Word"
begin

unbundle bit_operations_syntax

text \<open>
  Shared vocabulary of the development: the fixed-width integer types of the C code, its
  byte buffers, the outcome type for undefined behaviour, decimal numerals as byte lists
  (the format that \<open>utils.c\<close> and \<open>uri.c\<close> read and write), and the generic lemmas on words and
  lists that every component uses.  A buffer is the list of its bytes; a C string is the
  list of the bytes before its terminating NUL.
\<close>

type_synonym u8 = "8 word"
type_synonym u16 = "16 word"
type_synonym u32 = "32 word"
type_synonym u64 = "64 word"
type_synonym bytes = "u8 list"

text \<open>The result of C code that may run into undefined behaviour.\<close>

datatype 'a outcome = UB | Ret 'a

text \<open>Sequencing of such results.\<close>

fun oc_bind :: "'a outcome \<Rightarrow> ('a \<Rightarrow> 'b outcome) \<Rightarrow> 'b outcome" where
  "oc_bind UB f = UB"
| "oc_bind (Ret a) f = f a"

lemma oc_bind_cong [fundef_cong]:
  "x = y \<Longrightarrow> (\<And>a. y = Ret a \<Longrightarrow> f a = g a) \<Longrightarrow> oc_bind x f = oc_bind y g"
  by (cases y) auto

lemma oc_bind_eq_Ret: "oc_bind x f = Ret b \<longleftrightarrow> (\<exists>a. x = Ret a \<and> f a = Ret b)"
  by (cases x) auto

lemma oc_bind_eq_UB: "oc_bind x f = UB \<longleftrightarrow> x = UB \<or> (\<exists>a. x = Ret a \<and> f a = UB)"
  by (cases x) auto

named_theorems byte_simps \<open>rewriting of byte-level expressions to arithmetic\<close>

subsection \<open>Characters\<close>

abbreviation (input) ch_slash :: u8 where "ch_slash \<equiv> 0x2F"
abbreviation (input) ch_minus :: u8 where "ch_minus \<equiv> 0x2D"
abbreviation (input) ch_colon :: u8 where "ch_colon \<equiv> 0x3A"
abbreviation (input) ch_zero :: u8 where "ch_zero \<equiv> 0x30"
abbreviation (input) ch_nine :: u8 where "ch_nine \<equiv> 0x39"
abbreviation (input) ch_amp :: u8 where "ch_amp \<equiv> 0x26"
abbreviation (input) ch_quest :: u8 where "ch_quest \<equiv> 0x3F"
abbreviation (input) ch_dot :: u8 where "ch_dot \<equiv> 0x2E"

subsection \<open>Result codes and methods\<close>

abbreviation (input) NO_ERROR :: u8 where "NO_ERROR \<equiv> 0"
abbreviation (input) COAP_IGNORE :: u8 where "COAP_IGNORE \<equiv> 1"
abbreviation (input) COAP_RETRANSMISSION :: u8 where "COAP_RETRANSMISSION \<equiv> 2"
abbreviation (input) COAP_201_CREATED :: u8 where "COAP_201_CREATED \<equiv> 0x41"
abbreviation (input) COAP_202_DELETED :: u8 where "COAP_202_DELETED \<equiv> 0x42"
abbreviation (input) COAP_204_CHANGED :: u8 where "COAP_204_CHANGED \<equiv> 0x44"
abbreviation (input) COAP_205_CONTENT :: u8 where "COAP_205_CONTENT \<equiv> 0x45"
abbreviation (input) COAP_231_CONTINUE :: u8 where "COAP_231_CONTINUE \<equiv> 0x5F"
abbreviation (input) COAP_400_BAD_REQUEST :: u8 where "COAP_400_BAD_REQUEST \<equiv> 0x80"
abbreviation (input) COAP_401_UNAUTHORIZED :: u8 where "COAP_401_UNAUTHORIZED \<equiv> 0x81"
abbreviation (input) COAP_402_BAD_OPTION :: u8 where "COAP_402_BAD_OPTION \<equiv> 0x82"
abbreviation (input) COAP_404_NOT_FOUND :: u8 where "COAP_404_NOT_FOUND \<equiv> 0x84"
abbreviation (input) COAP_405_METHOD_NOT_ALLOWED :: u8 where "COAP_405_METHOD_NOT_ALLOWED \<equiv> 0x85"
abbreviation (input) COAP_406_NOT_ACCEPTABLE :: u8 where "COAP_406_NOT_ACCEPTABLE \<equiv> 0x86"
abbreviation (input) COAP_408_REQ_ENTITY_INCOMPLETE :: u8 where "COAP_408_REQ_ENTITY_INCOMPLETE \<equiv> 0x88"
abbreviation (input) COAP_412_PRECONDITION_FAILED :: u8 where "COAP_412_PRECONDITION_FAILED \<equiv> 0x8C"
abbreviation (input) COAP_413_ENTITY_TOO_LARGE :: u8 where "COAP_413_ENTITY_TOO_LARGE \<equiv> 0x8D"
abbreviation (input) COAP_415_UNSUPPORTED_CONTENT_FORMAT :: u8 where "COAP_415_UNSUPPORTED_CONTENT_FORMAT \<equiv> 0x8F"
abbreviation (input) COAP_500_INTERNAL_SERVER_ERROR :: u8 where "COAP_500_INTERNAL_SERVER_ERROR \<equiv> 0xA0"
abbreviation (input) COAP_501_NOT_IMPLEMENTED :: u8 where "COAP_501_NOT_IMPLEMENTED \<equiv> 0xA1"
abbreviation (input) COAP_503_SERVICE_UNAVAILABLE :: u8 where "COAP_503_SERVICE_UNAVAILABLE \<equiv> 0xA3"
abbreviation (input) COAP_GET :: u8 where "COAP_GET \<equiv> 1"
abbreviation (input) COAP_POST :: u8 where "COAP_POST \<equiv> 2"
abbreviation (input) COAP_PUT :: u8 where "COAP_PUT \<equiv> 3"
abbreviation (input) COAP_DELETE :: u8 where "COAP_DELETE \<equiv> 4"

text \<open>The byte at an index of a C string: its terminator is the byte just after the last one.\<close>

definition cstr_at :: "bytes \<Rightarrow> nat \<Rightarrow> u8" where
  "cstr_at s i = (if i < length s then s ! i else 0)"

definition is_digit :: "u8 \<Rightarrow> bool" where
  "is_digit b \<longleftrightarrow> ch_zero \<le> b \<and> b \<le> ch_nine"

definition digit_val :: "u8 \<Rightarrow> nat" where
  "digit_val b = unat b - 48"

subsection \<open>Decimal numerals\<close>

fun dec_val_from :: "nat \<Rightarrow> bytes \<Rightarrow> nat" where
  "dec_val_from n [] = n"
| "dec_val_from n (b # bs) = dec_val_from (10 * n + digit_val b) bs"

definition dec_val :: "bytes \<Rightarrow> nat" where
  "dec_val bs = dec_val_from 0 bs"

definition digit_char :: "nat \<Rightarrow> u8" where
  "digit_char n = ch_zero + word_of_nat n"

fun dec_text :: "nat \<Rightarrow> bytes" where
  "dec_text n = (if n < 10 then [digit_char n]
                 else dec_text (n div 10) @ [digit_char (n mod 10)])"

declare dec_text.simps [simp del]

lemma dec_val_from_append: "dec_val_from n (xs @ ys) = dec_val_from (dec_val_from n xs) ys"
  by (induction xs arbitrary: n) auto

lemma dec_val_from_mono: "n \<le> dec_val_from n bs"
proof (induction bs arbitrary: n)
  case (Cons b bs)
  have "10 * n + digit_val b \<le> dec_val_from (10 * n + digit_val b) bs"
    by (rule Cons.IH)
  then show ?case by simp
qed simp

lemma unat_digit_char: "n < 10 \<Longrightarrow> unat (digit_char n) = 48 + n"
  by (simp add: digit_char_def unat_word_ariths unat_of_nat)

lemma digit_val_char [simp]: "n < 10 \<Longrightarrow> digit_val (digit_char n) = n"
  by (simp add: digit_val_def unat_digit_char)

lemma is_digit_char [simp]: "n < 10 \<Longrightarrow> is_digit (digit_char n)"
  by (simp add: is_digit_def word_le_nat_alt unat_digit_char)

lemma is_digit_val_less: "is_digit b \<Longrightarrow> digit_val b < 10"
  unfolding is_digit_def digit_val_def word_le_nat_alt by (simp, arith)

lemma dec_text_nonempty [simp]: "dec_text n \<noteq> []"
  by (subst dec_text.simps) simp

lemma dec_text_digits: "b \<in> set (dec_text n) \<Longrightarrow> is_digit b"
proof (induction n arbitrary: b rule: dec_text.induct)
  case (1 n)
  show ?case
  proof (cases "n < 10")
    case True
    with "1.prems" show ?thesis by (simp add: dec_text.simps [of n])
  next
    case False
    with 1 show ?thesis by (auto simp: dec_text.simps [of n])
  qed
qed

lemma dec_val_dec_text [simp]: "dec_val (dec_text n) = n"
proof (induction n rule: dec_text.induct)
  case (1 n)
  then show ?case
    by (cases "n < 10")
      (simp_all add: dec_text.simps [of n] dec_val_def dec_val_from_append)
qed

lemma dec_text_less_ten: "n < 10 \<Longrightarrow> dec_text n = [digit_char n]"
  by (simp add: dec_text.simps)

lemma dec_text_step: "10 \<le> n \<Longrightarrow> dec_text n = dec_text (n div 10) @ [digit_char (n mod 10)]"
  by (simp add: dec_text.simps [of n])

lemma length_dec_text_le: "0 < k \<Longrightarrow> length (dec_text n) \<le> k \<longleftrightarrow> n < 10 ^ k"
proof (induction k arbitrary: n)
  case 0
  then show ?case by simp
next
  case (Suc k)
  show ?case
  proof (cases "n < 10")
    case True
    have "(10::nat) \<le> 10 ^ Suc k" by simp
    with True have "n < 10 ^ Suc k" by linarith
    with True show ?thesis by (simp add: dec_text_less_ten)
  next
    case False
    show ?thesis
    proof (cases "k = 0")
      case True
      with False show ?thesis by (simp add: dec_text_step)
    next
      case k: False
      have "n div 10 < 10 ^ k \<longleftrightarrow> n < 10 ^ Suc k"
        by (simp add: div_less_iff_less_mult mult.commute)
      with False k Suc.IH [of "n div 10"] show ?thesis
        by (simp add: dec_text_step)
    qed
  qed
qed

subsection \<open>Conversions between widths\<close>

lemma unat_ucast_mod: "unat (ucast (w :: 'a::len word) :: 'b::len word) = unat w mod 2 ^ LENGTH('b)"
  by (simp add: unsigned_ucast_eq take_bit_eq_mod)

lemma unat_ucast_up:
  assumes "LENGTH('a::len) \<le> LENGTH('b::len)"
  shows "unat (ucast (w :: 'a word) :: 'b word) = unat w"
proof -
  have "unat w < 2 ^ LENGTH('a)" by (rule unsigned_less)
  also have "(2::nat) ^ LENGTH('a) \<le> 2 ^ LENGTH('b)" using assms by simp
  finally show ?thesis by (simp add: unat_ucast_mod)
qed

lemma unat_ucast_widths [simp]:
  "unat (ucast (a :: u8) :: u16) = unat a" "unat (ucast (a :: u8) :: u32) = unat a"
  "unat (ucast (a :: u8) :: u64) = unat a" "unat (ucast (b :: u16) :: u32) = unat b"
  "unat (ucast (b :: u16) :: u64) = unat b" "unat (ucast (c :: u32) :: u64) = unat c"
  by (simp_all add: unat_ucast_up)

lemma unat_u8_less [simp]: "unat (b :: u8) < 256"
  using unsigned_less [of b] by simp

lemma unat_u16_less [simp]: "unat (b :: u16) < 65536"
  using unsigned_less [of b] by simp

lemma unat_u32_less [simp]: "unat (b :: u32) < 4294967296"
  using unsigned_less [of b] by simp

lemma unat_u64_less [simp]: "unat (b :: u64) < 18446744073709551616"
  using unsigned_less [of b] by simp

subsection \<open>Lists\<close>

lemma take_drop_update_other:
  "length xs \<le> i \<Longrightarrow> take (length xs) ((xs @ ys)[i := v]) = xs"
  by (simp add: list_update_append)

lemma nth_drop_take_cons: "i < length xs \<Longrightarrow> drop i xs = xs ! i # drop (Suc i) xs"
  by (rule Cons_nth_drop_Suc [symmetric])

lemma find_eq_None_iff_notin: "(\<And>x. x \<in> set xs \<Longrightarrow> \<not> P x) \<Longrightarrow> find P xs = None"
  by (induction xs) auto

end
