(* ===== verification/SortedList.thy ===== *)
theory SortedList
  imports Prelude
begin

text \<open>
  The sorted linked lists of \<open>core/list.c\<close>.  Every list of the library (transactions,
  clients, objects, instances) is one: its node type starts with the fields of
  \<open>lwm2m_list_t\<close>, so the functions take the accessor \<open>key\<close> of the 16-bit \<open>id\<close> field and a list
  of nodes in \<open>next\<close> order.  The interface the rest of the library relies on is the locale
  \<open>id_store\<close>; the list functions are its instance.
\<close>

section \<open>The functions of list.c\<close>

text \<open>The \<open>while\<close> loop of \<open>lwm2m_list_add\<close>, over the nodes after \<open>target\<close>.\<close>

fun list_add_loop :: "('a \<Rightarrow> u16) \<Rightarrow> 'a list \<Rightarrow> 'a \<Rightarrow> 'a list" where
  "list_add_loop key [] node = [node]"
| "list_add_loop key (t # ts) node =
     (if key t < key node then t # list_add_loop key ts node else node # t # ts)"

fun lwm2m_list_add :: "('a \<Rightarrow> u16) \<Rightarrow> 'a list \<Rightarrow> 'a \<Rightarrow> 'a list" where
  "lwm2m_list_add key [] node = [node]"
| "lwm2m_list_add key (head # rest) node =
     (if key head > key node then node # head # rest
      else head # list_add_loop key rest node)"

fun lwm2m_list_find :: "('a \<Rightarrow> u16) \<Rightarrow> 'a list \<Rightarrow> u16 \<Rightarrow> 'a option" where
  "lwm2m_list_find key [] i = None"
| "lwm2m_list_find key (head # rest) i =
     (if key head < i then lwm2m_list_find key rest i
      else if key head = i then Some head else None)"

text \<open>The \<open>while\<close> loop of \<open>lwm2m_list_remove\<close> and the unlinking after it.\<close>

fun list_remove_loop :: "('a \<Rightarrow> u16) \<Rightarrow> 'a list \<Rightarrow> u16 \<Rightarrow> 'a list \<times> 'a option" where
  "list_remove_loop key [] i = ([], None)"
| "list_remove_loop key (t # ts) i =
     (if key t < i then (let (ts', r) = list_remove_loop key ts i in (t # ts', r))
      else if key t = i then (ts, Some t) else (t # ts, None))"

fun lwm2m_list_remove :: "('a \<Rightarrow> u16) \<Rightarrow> 'a list \<Rightarrow> u16 \<Rightarrow> 'a list \<times> 'a option" where
  "lwm2m_list_remove key [] i = ([], None)"
| "lwm2m_list_remove key (head # rest) i =
     (if key head = i then (rest, Some head)
      else (let (rest', r) = list_remove_loop key rest i in (head # rest', r)))"

text \<open>The counter is a \<open>uint16_t\<close>: \<open>target->id + 1\<close> wraps.\<close>

fun list_newId_loop :: "('a \<Rightarrow> u16) \<Rightarrow> u16 \<Rightarrow> 'a list \<Rightarrow> u16" where
  "list_newId_loop key i [] = i"
| "list_newId_loop key i (t # ts) = (if i = key t then list_newId_loop key (key t + 1) ts else i)"

definition lwm2m_list_newId :: "('a \<Rightarrow> u16) \<Rightarrow> 'a list \<Rightarrow> u16" where
  "lwm2m_list_newId key head = list_newId_loop key 0 head"

section \<open>The invariant and the abstraction\<close>

text \<open>Identifiers strictly increase along the list: it is sorted, and no id occurs twice.\<close>

definition id_sorted :: "('a \<Rightarrow> u16) \<Rightarrow> 'a list \<Rightarrow> bool" where
  "id_sorted key xs \<longleftrightarrow> sorted_wrt (<) (map key xs)"

definition id_map :: "('a \<Rightarrow> u16) \<Rightarrow> 'a list \<Rightarrow> u16 \<Rightarrow> 'a option" where
  "id_map key xs = map_of (map (\<lambda>x. (key x, x)) xs)"

lemma id_sorted_simps [simp]:
  "id_sorted key []"
  "id_sorted key (x # xs) \<longleftrightarrow> (\<forall>y\<in>set xs. key x < key y) \<and> id_sorted key xs"
  by (auto simp: id_sorted_def)

lemma id_map_simps [simp]:
  "id_map key [] = Map.empty"
  "id_map key (x # xs) = (id_map key xs)(key x \<mapsto> x)"
  by (simp_all add: id_map_def)

lemma id_map_eq_None: "id_map key xs i = None \<longleftrightarrow> i \<notin> key ` set xs"
  by (induction xs) auto

lemma id_map_key: "id_map key xs i = Some x \<Longrightarrow> key x = i \<and> x \<in> set xs"
  by (induction xs) (auto split: if_splits)

lemma id_sorted_distinct: "id_sorted key xs \<Longrightarrow> distinct (map key xs)"
  by (induction xs) (auto dest: less_imp_neq)

lemma id_sorted_sorted: "id_sorted key xs \<Longrightarrow> sorted (map key xs)"
  by (induction xs) (auto intro: less_imp_le)

lemma set_list_add_loop: "set (list_add_loop key xs x) = insert x (set xs)"
  by (induction xs) auto

lemma list_add_loop_correct:
  assumes "id_sorted key xs" "key x \<notin> key ` set xs"
  shows "id_sorted key (list_add_loop key xs x)"
    and "id_map key (list_add_loop key xs x) = (id_map key xs)(key x \<mapsto> x)"
  using assms
proof (induction xs)
  case (Cons y ys)
  { case 1
    with Cons show ?case
      by (auto simp: set_list_add_loop not_less)
  next
    case 2
    with Cons show ?case
      by (auto simp: fun_eq_iff) }
qed simp_all

lemma id_map_below:
  assumes "id_sorted key (x # xs)" "\<not> key x < i"
  shows "id_map key xs i = None"
  using assms by (auto simp: id_map_eq_None)

lemma list_remove_loop_correct:
  assumes "id_sorted key xs"
  shows "id_sorted key (fst (list_remove_loop key xs i))"
    and "set (fst (list_remove_loop key xs i)) \<subseteq> set xs"
    and "id_map key (fst (list_remove_loop key xs i)) = (id_map key xs)(i := None)"
    and "snd (list_remove_loop key xs i) = id_map key xs i"
  using assms
proof (induction xs)
  case (Cons x xs)
  { case 1 with Cons show ?case by (auto split: prod.splits)
  next case 2 with Cons show ?case by (auto split: prod.splits)
  next case 3 with Cons id_map_below [OF 3] show ?case
      by (auto split: prod.splits simp: fun_eq_iff)
  next case 4 with Cons id_map_below [OF 4] show ?case by (auto split: prod.splits) }
qed simp_all

lemma lwm2m_list_add_correct:
  assumes "id_sorted key xs" "key x \<notin> key ` set xs"
  shows "id_sorted key (lwm2m_list_add key xs x)"
    and "id_map key (lwm2m_list_add key xs x) = (id_map key xs)(key x \<mapsto> x)"
    and "set (lwm2m_list_add key xs x) = insert x (set xs)"
  using assms
  by (cases xs; auto simp: set_list_add_loop list_add_loop_correct fun_eq_iff
      dest: less_trans)+

lemma lwm2m_list_remove_correct:
  assumes "id_sorted key xs"
  shows "id_sorted key (fst (lwm2m_list_remove key xs i))"
    and "set (fst (lwm2m_list_remove key xs i)) \<subseteq> set xs"
    and "id_map key (fst (lwm2m_list_remove key xs i)) = (id_map key xs)(i := None)"
    and "snd (lwm2m_list_remove key xs i) = id_map key xs i"
proof -
  show "id_sorted key (fst (lwm2m_list_remove key xs i))"
    using assms list_remove_loop_correct(1,2) [of key "tl xs" i]
    by (cases xs) (auto split: prod.splits)
  show "set (fst (lwm2m_list_remove key xs i)) \<subseteq> set xs"
    using assms list_remove_loop_correct(2) [of key "tl xs" i]
    by (cases xs) (auto split: prod.splits)
  show "id_map key (fst (lwm2m_list_remove key xs i)) = (id_map key xs)(i := None)"
    using assms list_remove_loop_correct(3) [of key "tl xs" i] id_map_below [of key "hd xs" "tl xs" i]
    by (cases xs) (auto split: prod.splits simp: fun_eq_iff)
  show "snd (lwm2m_list_remove key xs i) = id_map key xs i"
    using assms list_remove_loop_correct(4) [of key "tl xs" i]
    by (cases xs) (auto split: prod.splits)
qed

lemma lwm2m_list_find_correct:
  "id_sorted key xs \<Longrightarrow> lwm2m_list_find key xs i = id_map key xs i"
proof (induction xs)
  case (Cons x xs)
  with id_map_below [OF Cons.prems] show ?case by auto
qed simp

section \<open>The interface of a store of nodes by identifier\<close>

text \<open>
  What the components keeping nodes by identifier rely on: looking a node up, adding one
  whose identifier is free, and unlinking one, as operations on the map \<open>abs\<close>.
\<close>

locale id_store =
  fixes key :: "'a \<Rightarrow> u16"
    and add :: "'s \<Rightarrow> 'a \<Rightarrow> 's"
    and find :: "'s \<Rightarrow> u16 \<Rightarrow> 'a option"
    and remove :: "'s \<Rightarrow> u16 \<Rightarrow> 's \<times> 'a option"
    and abs :: "'s \<Rightarrow> u16 \<Rightarrow> 'a option"
    and invar :: "'s \<Rightarrow> bool"
  assumes find_abs: "invar s \<Longrightarrow> find s i = abs s i"
    and abs_key: "abs s i = Some x \<Longrightarrow> key x = i"
    and add_abs: "invar s \<Longrightarrow> abs s (key x) = None \<Longrightarrow> abs (add s x) = (abs s)(key x \<mapsto> x)"
    and add_invar: "invar s \<Longrightarrow> abs s (key x) = None \<Longrightarrow> invar (add s x)"
    and remove_abs: "invar s \<Longrightarrow> abs (fst (remove s i)) = (abs s)(i := None)"
    and remove_result: "invar s \<Longrightarrow> snd (remove s i) = abs s i"
    and remove_invar: "invar s \<Longrightarrow> invar (fst (remove s i))"
begin

lemma find_add:
  "invar s \<Longrightarrow> find s (key x) = None \<Longrightarrow>
     find (add s x) i = (if i = key x then Some x else find s i)"
  by (simp add: find_abs add_abs add_invar)

lemma find_remove:
  "invar s \<Longrightarrow> find (fst (remove s i)) j = (if j = i then None else find s j)"
  by (simp add: find_abs remove_abs remove_invar)

lemma remove_add:
  "invar s \<Longrightarrow> find s (key x) = None \<Longrightarrow>
     snd (remove (add s x) (key x)) = Some x
     \<and> (\<forall>j. find (fst (remove (add s x) (key x))) j = find s j)"
  by (auto simp: find_abs remove_result remove_abs remove_invar add_abs add_invar)

lemma remove_idem:
  "invar s \<Longrightarrow> abs (fst (remove (fst (remove s i)) i)) = abs (fst (remove s i))
     \<and> snd (remove (fst (remove s i)) i) = None"
  by (simp add: remove_abs remove_invar remove_result)

end

interpretation sorted_list: id_store key "lwm2m_list_add key" "lwm2m_list_find key"
    "lwm2m_list_remove key" "id_map key" "id_sorted key" for key
  by unfold_locales
    (auto simp: lwm2m_list_find_correct lwm2m_list_remove_correct lwm2m_list_add_correct
      id_map_eq_None dest: id_map_key)

section \<open>Identifier allocation\<close>

lemma list_newId_loop_least:
  assumes "sorted_wrt (<) (map key xs)" "\<forall>x\<in>set xs. i \<le> key x"
    "unat i + length xs < 65536"
  shows "list_newId_loop key i xs \<notin> key ` set xs
    \<and> i \<le> list_newId_loop key i xs
    \<and> (\<forall>j. i \<le> j \<longrightarrow> j < list_newId_loop key i xs \<longrightarrow> j \<in> key ` set xs)"
  using assms
proof (induction xs arbitrary: i)
  case (Cons x xs)
  show ?case
  proof (cases "i = key x")
    case True
    from Cons.prems(3) have le: "unat i < 65535" by simp
    then have suc: "unat (key x + 1) = unat (key x) + 1"
      using True by (simp add: unat_word_ariths)
    then have next_le: "key x < j \<longleftrightarrow> key x + 1 \<le> j" for j
      by (simp add: word_le_nat_alt word_less_nat_alt Suc_le_eq)
    let ?n = "list_newId_loop key (key x + 1) xs"
    from Cons.prems suc True have "?n \<notin> key ` set xs \<and> key x + 1 \<le> ?n
      \<and> (\<forall>j. key x + 1 \<le> j \<longrightarrow> j < ?n \<longrightarrow> j \<in> key ` set xs)"
      by (intro Cons.IH) (auto simp: next_le [symmetric])
    then have "?n \<notin> key ` set xs" and below: "key x < ?n"
      and used: "\<And>j. key x < j \<Longrightarrow> j < ?n \<Longrightarrow> j \<in> key ` set xs"
      by (auto simp: next_le)
    moreover have "j \<in> key ` set (x # xs)" if "key x \<le> j" "j < ?n" for j
      using that used [of j] by (cases "j = key x") auto
    ultimately show ?thesis
      using True by (auto simp: less_imp_le)
  next
    case False
    with Cons.prems show ?thesis by fastforce
  qed
qed auto

text \<open>\<open>lwm2m_list_newId\<close> returns the lowest identifier no node of the list has, as its
  comment promises, as long as the list does not hold all 65536 of them.\<close>

theorem lwm2m_list_newId_least:
  assumes "id_sorted key xs" "length xs < 65536"
  shows "lwm2m_list_newId key xs \<notin> key ` set xs
    \<and> (\<forall>j < lwm2m_list_newId key xs. j \<in> key ` set xs)"
  using list_newId_loop_least [of key xs 0] assms
  by (simp add: lwm2m_list_newId_def id_sorted_def)

theorem lwm2m_list_newId_least_witness:
  "lwm2m_list_newId id [0, 1, 3 :: u16] \<notin> id ` set [0, 1, 3]"
  using lwm2m_list_newId_least [of id "[0, 1, 3 :: u16]"] by simp

text \<open>C12: on a list whose identifiers strictly increase, \<open>lwm2m_list_add\<close> of a node with a
  free identifier keeps that order and makes exactly this node found under its identifier;
  \<open>lwm2m_list_remove\<close> returns the node found before, keeps the order and unlinks nothing else.\<close>

theorem lwm2m_list_add_find_remove:
  assumes "id_sorted key xs" "lwm2m_list_find key xs (key x) = None"
  shows "id_sorted key (lwm2m_list_add key xs x)
    \<and> lwm2m_list_find key (lwm2m_list_add key xs x) j
        = (if j = key x then Some x else lwm2m_list_find key xs j)
    \<and> snd (lwm2m_list_remove key xs i) = lwm2m_list_find key xs i
    \<and> id_sorted key (fst (lwm2m_list_remove key xs i))
    \<and> lwm2m_list_find key (fst (lwm2m_list_remove key xs i)) j
        = (if j = i then None else lwm2m_list_find key xs j)"
  using assms sorted_list.find_add [OF assms, of j] sorted_list.find_remove [of key xs i j]
    sorted_list.add_invar [of key xs x] sorted_list.remove_invar [of key xs i]
    sorted_list.remove_result [of key xs i] sorted_list.find_abs [of key xs]
  by metis

theorem lwm2m_list_add_find_remove_witness:
  "lwm2m_list_find id (lwm2m_list_add id [2, 9 :: u16] 5) 5 = Some 5"
  using lwm2m_list_add_find_remove [of id "[2, 9 :: u16]" 5 5 5] by simp

end
