(* ===== verification/TextConv.thy ===== *)
theory TextConv
  imports Prelude
begin

text \<open>
  The number/text conversions of \<open>core/utils.c\<close>: \<open>utils_textToInt\<close>, \<open>utils_textToUInt\<close>,
  \<open>utils_textToObjLink\<close> read decimal text; \<open>utils_uintToText\<close>, \<open>utils_intToText\<close> and
  \<open>utils_objLinkToText\<close> write it into a buffer of given length.  \<open>uint64_t\<close> is a 64-bit word
  (arithmetic wraps as in C); \<open>int64_t\<close> is the same word read with \<open>sint\<close>.  A reader returns
  \<open>None\<close> where the C code returns 0; a writer returns its result and the buffer afterwards.
  The \<open>int\<close> index of \<open>utils_uintToText\<close> is the natural number one above it (the number of
  bytes still free in front), so \<open>index >= 0\<close> reads as a successor.
\<close>

section \<open>Reading numbers\<close>

abbreviation (input) UINT64_MAX :: u64 where "UINT64_MAX \<equiv> 0xFFFFFFFFFFFFFFFF"
abbreviation (input) INT64_MAX :: u64 where "INT64_MAX \<equiv> 0x7FFFFFFFFFFFFFFF"
abbreviation (input) INT64_MIN :: u64 where "INT64_MIN \<equiv> 0x8000000000000000"
abbreviation (input) LWM2M_MAX_ID :: u16 where "LWM2M_MAX_ID \<equiv> 0xFFFF"

fun textToUInt_loop :: "bytes \<Rightarrow> u64 \<Rightarrow> u64 option" where
  "textToUInt_loop [] result = Some result"
| "textToUInt_loop (b # bs) result =
     (if ch_zero \<le> b \<and> b \<le> ch_nine then
        (if result > UINT64_MAX div 10 then None
         else textToUInt_loop bs (result * 10 + ucast (b - ch_zero)))
      else None)"

definition utils_textToUInt :: "bytes \<Rightarrow> u64 option" where
  "utils_textToUInt buffer = (if buffer = [] then None else textToUInt_loop buffer 0)"

definition utils_textToInt :: "bytes \<Rightarrow> u64 option" where
  "utils_textToInt buffer =
     (if buffer = [] then None
      else let neg = (hd buffer = ch_minus);
               digits = (if neg then tl buffer else buffer)
           in case textToUInt_loop digits 0 of
                None \<Rightarrow> None
              | Some result \<Rightarrow>
                  if result > INT64_MAX + (if neg then 1 else 0) then None
                  else Some (if neg then 0 - result else result))"

definition utils_textToObjLink :: "bytes \<Rightarrow> (u16 \<times> u16) option" where
  "utils_textToObjLink buffer =
     (let sep = length (takeWhile (\<lambda>b. b \<noteq> ch_colon) buffer)
      in if sep = 0 \<or> sep = length buffer then None
         else case utils_textToUInt (take sep buffer) of
           None \<Rightarrow> None
         | Some object \<Rightarrow>
            (case utils_textToUInt (drop (sep + 1) buffer) of
               None \<Rightarrow> None
             | Some instance \<Rightarrow>
                 if object > ucast LWM2M_MAX_ID \<or> instance > ucast LWM2M_MAX_ID then None
                 else Some (ucast object, ucast instance)))"

section \<open>Writing numbers\<close>

fun uintToText_loop :: "u64 \<Rightarrow> bytes \<Rightarrow> nat \<Rightarrow> u64 \<times> bytes \<times> nat" where
  "uintToText_loop data string 0 = (data, string, 0)"
| "uintToText_loop data string (Suc index) =
     (let string' = string[index := ch_zero + ucast (data mod 10)];
          data' = data div 10
      in if data' > 0 then uintToText_loop data' string' index
         else (data', string', index))"

definition utils_uintToText :: "u64 \<Rightarrow> bytes \<Rightarrow> nat \<times> bytes" where
  "utils_uintToText data string =
     (if length string = 0 then (0, string)
      else let (data', string', index) = uintToText_loop data string (length string)
           in if data' > 0 then (0, string')
              else let result = length string - index
                   in (result,
                       if result < length string
                       then (take result (drop index string') @ drop result string')[result := 0]
                       else string'))"

definition int64_min_str :: bytes where
  "int64_min_str = ch_minus # dec_text 9223372036854775808"

definition utils_intToText :: "u64 \<Rightarrow> bytes \<Rightarrow> nat \<times> bytes" where
  "utils_intToText data string =
     (if sint data < 0 then
        (if length string = 0 then (0, string)
         else let string' = string[0 := ch_minus] in
           if data = INT64_MIN then
             (if length int64_min_str \<ge> length string then (0, string')
              else (length int64_min_str,
                    (int64_min_str @ drop (length int64_min_str) string')
                      [length int64_min_str := 0]))
           else let (result, rest) = utils_uintToText (- data) (tl string')
                in (if result \<noteq> 0 then result + 1 else result, hd string' # rest))
      else utils_uintToText data string)"

definition utils_objLinkToText :: "u16 \<Rightarrow> u16 \<Rightarrow> bytes \<Rightarrow> nat \<times> bytes" where
  "utils_objLinkToText objectId objectInstanceId string =
     (let (res, string1) = utils_uintToText (ucast objectId) string in
      if res = 0 then (0, string1)
      else if length string - res < 1 then (0, string1)
      else let head = res + 1;
               string2 = string1[res := ch_colon];
               (res2, rest) = utils_uintToText (ucast objectInstanceId) (drop head string2)
           in if res2 = 0 then (0, take head string2 @ rest)
              else (head + res2, take head string2 @ rest))"

section \<open>Correctness of the readers\<close>

lemma unat_ucast_digit: "is_digit b \<Longrightarrow> unat (ucast (b - ch_zero) :: u64) = digit_val b"
  by (simp add: is_digit_def digit_val_def unat_sub_if' word_le_nat_alt)

lemma textToUInt_step:
  assumes "is_digit b" "10 * unat r + digit_val b < 2 ^ 64"
  shows "unat (r * 10 + ucast (b - ch_zero) :: u64) = 10 * unat r + digit_val b"
  using assms
  by (simp add: unat_word_ariths unat_ucast_digit [OF assms(1)] mult.commute
      del: unat_ucast_widths)

lemma textToUInt_loop_value:
  assumes "\<forall>b\<in>set bs. is_digit b" "dec_val_from (unat r) bs < 2 ^ 64"
  shows "\<exists>v. textToUInt_loop bs r = Some v \<and> unat v = dec_val_from (unat r) bs"
  using assms
proof (induction bs arbitrary: r)
  case (Cons b bs)
  have bound: "10 * unat r + digit_val b < 2 ^ 64"
    using Cons.prems(2) dec_val_from_mono [of "10 * unat r + digit_val b" bs] by simp
  have "\<not> r > UINT64_MAX div 10"
    using bound by (simp add: word_less_nat_alt unat_div)
  with Cons.prems Cons.IH [of "r * 10 + ucast (b - ch_zero)"] textToUInt_step [OF _ bound]
  show ?case by (simp add: is_digit_def)
qed simp

lemma textToUInt_loop_None:
  "b \<in> set bs \<Longrightarrow> \<not> is_digit b \<Longrightarrow> textToUInt_loop bs r = None"
  by (induction bs arbitrary: r) (auto simp: is_digit_def)

lemma textToUInt_loop_append:
  "textToUInt_loop (xs @ ys) r = (case textToUInt_loop xs r of None \<Rightarrow> None | Some v \<Rightarrow> textToUInt_loop ys v)"
  by (induction xs arbitrary: r) auto

lemma textToUInt_loop_digits:
  "textToUInt_loop bs r = Some v \<Longrightarrow> b \<in> set bs \<Longrightarrow> is_digit b"
  by (induction bs arbitrary: r) (auto simp: is_digit_def split: if_splits)

text \<open>\<open>utils_textToUInt\<close> accepts every nonempty digit string whose decimal value fits
  \<open>uint64_t\<close>, with that value, and rejects the empty string and every string with a byte that
  is not a digit.\<close>

theorem utils_textToUInt_correct:
  "(buffer \<noteq> [] \<and> (\<forall>b\<in>set buffer. is_digit b) \<and> dec_val buffer < 2 ^ 64
      \<longrightarrow> (\<exists>v. utils_textToUInt buffer = Some v \<and> unat v = dec_val buffer))
   \<and> (buffer = [] \<or> (\<exists>b\<in>set buffer. \<not> is_digit b) \<longrightarrow> utils_textToUInt buffer = None)"
  using textToUInt_loop_value [of buffer 0] textToUInt_loop_None [of _ buffer 0]
  by (auto simp: utils_textToUInt_def dec_val_def)

theorem utils_textToUInt_correct_witness:
  "\<exists>v. utils_textToUInt [0x34, 0x32] = Some v \<and> unat v = dec_val [0x34, 0x32]"
  using utils_textToUInt_correct [of "[0x34, 0x32]"]
  by (simp add: is_digit_def dec_val_def digit_val_def)

text \<open>the overflow guard of \<open>utils_textToUInt\<close> tests the value before the last digit is
  added, so it lets \<open>2^64\<close> to \<open>2^64 + 3\<close> through, wrapped to \<open>0\<close> to \<open>3\<close>, and any digits after
  them: the text of a number far above \<open>UINT64_MAX\<close> is accepted as a small one.\<close>

theorem utils_textToUInt_wraps:
  assumes "n < 4" "\<forall>b\<in>set rest. is_digit b" "dec_val_from n rest < 2 ^ 64"
  shows "\<exists>v. utils_textToUInt (dec_text (2 ^ 64 + n) @ rest) = Some v
    \<and> unat v = dec_val_from n rest"
proof -
  let ?q = "dec_text 1844674407370955161"
  have split_text: "dec_text (2 ^ 64 + n) = ?q @ [digit_char (6 + n)]"
  proof -
    from assms(1) consider "n = 0" | "n = 1" | "n = 2" | "n = 3" by linarith
    then show ?thesis by cases (simp_all add: dec_text_step [of "18446744073709551616 + n"]
          dec_text_step [of 18446744073709551616] dec_text_step [of 18446744073709551617]
          dec_text_step [of 18446744073709551618] dec_text_step [of 18446744073709551619])
  qed
  have "dec_val ?q = 1844674407370955161" by (rule dec_val_dec_text)
  then obtain q where q: "textToUInt_loop ?q 0 = Some q" "unat q = 1844674407370955161"
    using textToUInt_loop_value [of ?q 0] by (auto simp: dec_val_def dest: dec_text_digits)
  then have q_eq: "q = 1844674407370955161"
    by (simp add: word_unat_eq_iff)
  have "digit_char (6 + n) - ch_zero = word_of_nat (6 + n)"
    by (simp add: digit_char_def)
  moreover have "is_digit (digit_char (6 + n))"
    using assms(1) by simp
  ultimately have "textToUInt_loop (digit_char (6 + n) # rest) q
      = textToUInt_loop rest (q * 10 + ucast (word_of_nat (6 + n) :: u8))"
    by (simp add: q_eq is_digit_def del: of_nat_add)
  moreover have "unat (q * 10 + ucast (word_of_nat (6 + n) :: u8)) = n"
    using assms(1) by (simp add: q_eq unat_word_ariths unat_of_nat)
  ultimately obtain v where "textToUInt_loop (digit_char (6 + n) # rest) q = Some v"
      "unat v = dec_val_from n rest"
    using textToUInt_loop_value [of rest "q * 10 + ucast (word_of_nat (6 + n) :: u8)"] assms(2,3)
    by auto
  then have "textToUInt_loop (?q @ [digit_char (6 + n)] @ rest) 0 = Some v"
    by (simp only: textToUInt_loop_append q(1) option.case append.simps)
  with \<open>unat v = dec_val_from n rest\<close> show ?thesis
    by (simp only: utils_textToUInt_def split_text) simp
qed

theorem utils_textToUInt_wraps_witness:
  "\<exists>v. utils_textToUInt (dec_text (2 ^ 64 + 3) @ [0x37]) = Some v
    \<and> unat v = dec_val_from 3 [0x37]"
  by (rule utils_textToUInt_wraps) (simp_all add: is_digit_def digit_val_def)

section \<open>Correctness of the writers\<close>

lemma digit_char_mod: "ch_zero + ucast (d mod 10 :: u64) = digit_char (unat d mod 10)"
proof -
  have "ucast (d mod 10) = (word_of_nat (unat (d mod 10)) :: u8)"
    by (simp add: unsigned_ucast_eq)
  then show ?thesis by (simp add: digit_char_def unat_mod)
qed

lemma uintToText_loop_correct:
  assumes "k \<le> length s" "0 < k"
  shows "let (d', s', i) = uintToText_loop d s k; ds = dec_text (unat d) in
    length s' = length s \<and>
    (if length ds \<le> k then d' = 0 \<and> i = k - length ds \<and> s' = take i s @ ds @ drop k s
     else d' > 0)"
  using assms
proof (induction d s k rule: uintToText_loop.induct)
  case (2 d s index)
  let ?c = "digit_char (unat d mod 10)"
  let ?s = "s[index := ?c]"
  have index: "index < length s" using "2.prems"(1) by simp
  show ?case
  proof (cases "d div 10 > 0")
    case False
    then have "unat d < 10" by (simp add: word_less_nat_alt unat_div div_eq_0_iff)
    moreover from False have "d div 10 = 0" using word_neq_0_conv by blast
    ultimately show ?thesis using index
      by (simp add: Let_def digit_char_mod dec_text_less_ten upd_conv_take_nth_drop)
  next
    case True
    then have big: "10 \<le> unat d" by (simp add: word_less_nat_alt unat_div)
    have dt: "dec_text (unat d) = dec_text (unat (d div 10)) @ [?c]"
      using big by (simp add: dec_text_step unat_div)
    have keep: "take i ?s = take i s" if "i \<le> index" for i using that by simp
    have rest: "drop index ?s = ?c # drop (Suc index) s"
      using index by (simp add: upd_conv_take_nth_drop)
    show ?thesis
    proof (cases "index = 0")
      case True
      with \<open>d div 10 > 0\<close> show ?thesis by (simp add: Let_def dt digit_char_mod)
    next
      case nz: False
      with "2.IH" [OF refl refl True] index True show ?thesis
        by (auto simp: Let_def dt digit_char_mod rest split: prod.splits if_splits)
    qed
  qed
qed simp

lemma utils_uintToText_fits:
  assumes "length (dec_text (unat d)) \<le> length s"
  shows "fst (utils_uintToText d s) = length (dec_text (unat d))
    \<and> take (length (dec_text (unat d))) (snd (utils_uintToText d s)) = dec_text (unat d)"
proof -
  have nonempty: "0 < length s" using assms by (cases "dec_text (unat d)") auto
  obtain d' s' i where r: "uintToText_loop d s (length s) = (d', s', i)"
    by (metis prod_cases3)
  with uintToText_loop_correct [of "length s" s d] nonempty assms
  have "d' = 0" "i = length s - length (dec_text (unat d))"
    "s' = take i s @ dec_text (unat d)" "length s' = length s" by (auto simp: Let_def)
  with r nonempty assms show ?thesis
    by (simp add: utils_uintToText_def Let_def take_update_cancel)
qed

lemma utils_uintToText_too_long:
  assumes "length s < length (dec_text (unat d))"
  shows "fst (utils_uintToText d s) = 0"
proof (cases "length s = 0")
  case True
  then show ?thesis by (simp add: utils_uintToText_def)
next
  case False
  obtain d' s' i where "uintToText_loop d s (length s) = (d', s', i)"
    by (metis prod_cases3)
  with uintToText_loop_correct [of "length s" s d] False assms show ?thesis
    by (auto simp: utils_uintToText_def Let_def)
qed

lemma length_uintToText_loop: "length (fst (snd (uintToText_loop d s k))) = length s"
  by (induction d s k rule: uintToText_loop.induct) (auto simp: Let_def)

lemma uintToText_loop_index: "snd (snd (uintToText_loop d s k)) \<le> k"
  by (induction d s k rule: uintToText_loop.induct) (auto simp: Let_def intro: le_SucI)

lemma length_utils_uintToText: "length (snd (utils_uintToText d s)) = length s"
  using length_uintToText_loop [of d s "length s"] uintToText_loop_index [of d s "length s"]
  by (auto simp: utils_uintToText_def Let_def split: prod.splits)

lemma int64_min_str_length: "length int64_min_str = 20"
  by (simp add: int64_min_str_def dec_text_step dec_text_less_ten)

text \<open>The decimal text of a signed 64-bit value.\<close>

definition int_text :: "u64 \<Rightarrow> bytes" where
  "int_text d = (if sint d < 0 then ch_minus # dec_text (nat (- sint d)) else dec_text (unat d))"

lemma sint_u64: "sint (d :: u64) = (if unat d < 2 ^ 63 then int (unat d) else int (unat d) - 2 ^ 64)"
proof -
  have lt: "uint d < 2 ^ 64" using unsigned_less [of d] by simp
  have "bit (uint d) 63 \<longleftrightarrow> 2 ^ 63 \<le> uint d"
  proof
    assume "bit (uint d) 63"
    then have "uint d div 2 ^ 63 \<noteq> 0" by (auto simp: bit_iff_odd)
    then show "2 ^ 63 \<le> uint d" by (simp add: zdiv_eq_0_iff)
  next
    assume "2 ^ 63 \<le> uint d"
    with lt have "uint d div 2 ^ 63 = 1"
      by (intro int_div_pos_eq [where r = "uint d - 2 ^ 63"]) simp_all
    then show "bit (uint d) 63" by (simp add: bit_iff_odd)
  qed
  moreover have "sint d = take_bit (Suc 63) (uint d) - 2 ^ Suc 63 * of_bool (bit (uint d) 63)"
    unfolding sint_uint by (simp only: signed_take_bit_eq_take_bit_minus len_num0 len_num1 len_bit0 len_bit1) simp
  moreover have "take_bit (Suc 63) (uint d) = uint d" using lt by (simp add: take_bit_int_eq_self)
  ultimately have signed: "sint d = uint d - 2 ^ 64 * of_bool (2 ^ 63 \<le> uint d)" by simp
  have u: "int (unat d) = uint d" by simp
  have "unat d < 2 ^ 63 \<longleftrightarrow> int (unat d) < int (2 ^ 63)" by (simp only: of_nat_less_iff)
  then have "unat d < 2 ^ 63 \<longleftrightarrow> uint d < 2 ^ 63" by (simp only: u) simp
  with signed show ?thesis by (simp only: u) (simp add: not_less)
qed

subsection \<open>The contract of a number codec\<close>

text \<open>
  A writer into a buffer of given length and a reader of the written text: what was written is
  exactly the text of the value, enough room for it and a terminating NUL always suffices, and
  reading the text gives the value back.
\<close>

locale text_codec =
  fixes put :: "'v \<Rightarrow> bytes \<Rightarrow> nat \<times> bytes"
    and get :: "bytes \<Rightarrow> 'v option"
    and text_of :: "'v \<Rightarrow> bytes"
  assumes written: "fst (put v s) \<noteq> 0 \<Longrightarrow>
      fst (put v s) = length (text_of v) \<and> take (length (text_of v)) (snd (put v s)) = text_of v"
    and enough_room: "length (text_of v) < length s \<Longrightarrow> fst (put v s) \<noteq> 0"
    and same_length: "length (snd (put v s)) = length s"
    and get_text: "get (text_of v) = Some v"
begin

lemma roundtrip:
  "fst (put v s) \<noteq> 0 \<Longrightarrow> get (take (fst (put v s)) (snd (put v s))) = Some v"
  using written [of v s] by (metis get_text)

lemma no_overrun: "fst (put v s) \<le> length s"
  using written [of v s] same_length [of v s]
  by (metis length_take min.absorb_iff2 nle_le zero_le)

lemma roundtrip_room:
  "length (text_of v) < length s \<Longrightarrow>
     fst (put v s) = length (text_of v) \<and>
     get (take (fst (put v s)) (snd (put v s))) = Some v"
  using enough_room [of v s] written [of v s] by (simp add: get_text)

end

lemma textToUInt_dec_text: "utils_textToUInt (dec_text (unat d)) = Some d"
  using textToUInt_loop_value [of "dec_text (unat d)" 0] dec_text_digits [of _ "unat d"]
  by (fastforce simp: utils_textToUInt_def word_unat_eq_iff dec_val_def [symmetric])

lemma uintToText_written:
  "fst (utils_uintToText v s) \<noteq> 0 \<Longrightarrow>
     fst (utils_uintToText v s) = length (dec_text (unat v))
     \<and> take (length (dec_text (unat v))) (snd (utils_uintToText v s)) = dec_text (unat v)"
  by (cases "length s < length (dec_text (unat v))")
    (simp_all add: utils_uintToText_too_long utils_uintToText_fits)

interpretation uint_codec: text_codec utils_uintToText utils_textToUInt "\<lambda>v. dec_text (unat v)"
proof (unfold_locales, goal_cases)
  case (1 v s)
  then show ?case by (rule uintToText_written)
next
  case (2 v s)
  then show ?case by (simp add: utils_uintToText_fits)
qed (simp_all add: length_utils_uintToText textToUInt_dec_text)

lemma two_pow_63: "(2::nat) ^ 63 = 9223372036854775808" "(2::int) ^ 63 = 9223372036854775808"
    "(2::nat) ^ 64 = 18446744073709551616" "(2::int) ^ 64 = 18446744073709551616"
  by simp_all

lemma sint_neg_iff: "sint (d :: u64) < 0 \<longleftrightarrow> 2 ^ 63 \<le> unat d"
  using unat_u64_less [of d]
  by (cases "unat d < 2 ^ 63") (simp_all only: sint_u64 two_pow_63 if_True if_False, linarith+)

lemma nat_neg_sint:
  assumes "sint (d :: u64) < 0"
  shows "nat (- sint d) = 2 ^ 64 - unat d"
proof -
  have "2 ^ 63 \<le> unat d" using assms by (simp only: sint_neg_iff)
  then have "- sint d = 2 ^ 64 - int (unat d)" using sint_u64 [of d] by simp
  also have "\<dots> = int (2 ^ 64 - unat d)" using unat_u64_less [of d] by (simp add: less_imp_le)
  finally show ?thesis by simp
qed

lemma neg_abs: "sint (d :: u64) < 0 \<Longrightarrow> unat (- d) = nat (- sint d)"
  using unat_sub_if' [of 0 d] by (simp add: nat_neg_sint) (simp add: sint_neg_iff)

lemma int64_min_iff: "sint (d :: u64) < 0 \<Longrightarrow> nat (- sint d) = 2 ^ 63 \<longleftrightarrow> d = INT64_MIN"
  using unat_u64_less [of d] by (simp add: nat_neg_sint word_unat_eq_iff) linarith

lemma textToInt_int_text: "utils_textToInt (int_text d) = Some d"
proof (cases "sint d < 0")
  case True
  let ?n = "unat (- d)"
  have eq: "nat (- sint d) = ?n" using neg_abs [OF True] by simp
  obtain v where v: "textToUInt_loop (dec_text ?n) 0 = Some v" "v = - d"
    using textToUInt_dec_text [of "- d"] by (simp add: utils_textToUInt_def)
  have "?n \<le> 2 ^ 63" using True by (simp add: neg_abs nat_neg_sint sint_neg_iff)
  then have "\<not> v > INT64_MAX + 1" by (simp add: v word_less_nat_alt)
  with True v eq show ?thesis
    by (simp add: utils_textToInt_def int_text_def)
next
  case False
  then have small: "unat d < 2 ^ 63" by (simp add: sint_neg_iff)
  have "is_digit (hd (dec_text (unat d)))"
    by (rule dec_text_digits [of _ "unat d"]) simp
  then have "hd (dec_text (unat d)) \<noteq> ch_minus" by (auto simp: is_digit_def)
  moreover have "textToUInt_loop (dec_text (unat d)) 0 = Some d"
    using textToUInt_dec_text [of d] by (simp add: utils_textToUInt_def)
  ultimately show ?thesis
    using False small by (simp add: utils_textToInt_def int_text_def word_less_nat_alt)
qed

lemma int_text_min: "int_text INT64_MIN = int64_min_str"
  by (simp add: int_text_def int64_min_str_def)

lemma length_int64_min_str: "length int64_min_str = 20"
  by (simp add: int64_min_str_def dec_text_step dec_text_less_ten)

lemma length_uintToText_eq: "utils_uintToText d s = (r, t) \<Longrightarrow> length t = length s"
  using length_utils_uintToText [of d s] by simp

lemma utils_uintToText_Nil [simp]: "utils_uintToText d [] = (0, [])"
  by (simp add: utils_uintToText_def)

lemma length_utils_intToText: "length (snd (utils_intToText d s)) = length s"
  by (cases s) (auto simp: utils_intToText_def length_utils_uintToText length_int64_min_str Let_def
      dest: length_uintToText_eq split: prod.splits)

lemma intToText_written:
  assumes "fst (utils_intToText d s) \<noteq> 0"
  shows "fst (utils_intToText d s) = length (int_text d)
    \<and> take (length (int_text d)) (snd (utils_intToText d s)) = int_text d"
proof (cases "sint d < 0 \<and> d \<noteq> INT64_MIN")
  case True
  then have s: "s \<noteq> []" using assms by (auto simp: utils_intToText_def)
  obtain r t where rt: "utils_uintToText (- d) (tl s) = (r, t)" by fastforce
  with True assms s have "r \<noteq> 0" "utils_intToText d s = (r + 1, ch_minus # t)"
    by (cases s; auto simp: utils_intToText_def split: if_splits)+
  with uintToText_written [of "- d" "tl s"] rt True show ?thesis
    by (simp add: int_text_def neg_abs)
next
  case False
  show ?thesis
  proof (cases "d = INT64_MIN")
    case True
    with assms show ?thesis
      by (auto simp: utils_intToText_def int_text_min length_int64_min_str Let_def split: if_splits)
  next
    case nm: False
    with False assms uintToText_written [of d s] show ?thesis
      by (simp add: utils_intToText_def int_text_def)
  qed
qed

lemma intToText_room:
  assumes "length (int_text d) < length s"
  shows "fst (utils_intToText d s) \<noteq> 0"
  using assms
  by (cases s)
    (auto simp: utils_intToText_def int_text_def utils_uintToText_fits length_int64_min_str
      int64_min_str_def neg_abs Let_def split: prod.splits if_splits
      dest!: arg_cong [of "utils_uintToText _ _" _ fst])

interpretation int_codec: text_codec utils_intToText utils_textToInt int_text
proof (unfold_locales, goal_cases)
  case (1 v s)
  then show ?case by (rule intToText_written)
next
  case (2 v s)
  then show ?case by (rule intToText_room)
qed (simp_all add: length_utils_intToText textToInt_int_text)

definition objlink_text :: "u16 \<times> u16 \<Rightarrow> bytes" where
  "objlink_text l = dec_text (unat (fst l)) @ ch_colon # dec_text (unat (snd l))"

definition put_objLink :: "u16 \<times> u16 \<Rightarrow> bytes \<Rightarrow> nat \<times> bytes" where
  "put_objLink l s = utils_objLinkToText (fst l) (snd l) s"

lemma dec_text_no_colon: "b \<in> set (dec_text n) \<Longrightarrow> b \<noteq> ch_colon"
  by (auto simp: is_digit_def dest!: dec_text_digits)

lemma ucast_u64_roundtrip: "ucast (ucast (v :: u16) :: u64) = v"
  by (simp add: word_unat_eq_iff unat_ucast_mod)

lemma not_above_max_id: "\<not> (ucast (v :: u16) :: u64) > ucast LWM2M_MAX_ID"
  using unat_u16_less [of v] by (simp add: word_less_nat_alt del: unat_u16_less)

lemma takeWhile_objlink: "takeWhile (\<lambda>b. b \<noteq> ch_colon) (objlink_text l) = dec_text (unat (fst l))"
  by (simp add: objlink_text_def takeWhile_append2 dec_text_no_colon)

lemma textToUInt_ucast: "utils_textToUInt (dec_text (unat (v :: u16))) = Some (ucast v)"
  using textToUInt_dec_text [of "ucast v"] by simp

lemma textToObjLink_text: "utils_textToObjLink (objlink_text l) = Some l"
  using textToUInt_ucast not_above_max_id
  by (simp add: utils_textToObjLink_def takeWhile_objlink)
    (simp add: objlink_text_def ucast_u64_roundtrip)

lemma uintToText_cases:
  "utils_uintToText d s =
     (if length (dec_text (unat d)) \<le> length s then length (dec_text (unat d)) else 0,
      snd (utils_uintToText d s))"
  by (cases "length (dec_text (unat d)) \<le> length s")
    (simp_all add: prod_eq_iff utils_uintToText_fits utils_uintToText_too_long)

lemma length_objLinkToText: "length (snd (put_objLink l s)) = length s"
  using length_utils_uintToText
  by (auto simp: put_objLink_def utils_objLinkToText_def Let_def split: prod.splits
      dest!: length_uintToText_eq)

lemma objLinkToText_written:
  assumes "fst (put_objLink l s) \<noteq> 0"
  shows "fst (put_objLink l s) = length (objlink_text l)
    \<and> take (length (objlink_text l)) (snd (put_objLink l s)) = objlink_text l"
proof -
  obtain n s1 where u1: "utils_uintToText (ucast (fst l)) s = (n, s1)" by fastforce
  then have s1: "length s1 = length s" by (rule length_uintToText_eq)
  let ?s2 = "s1[n := ch_colon]"
  obtain m t where u2: "utils_uintToText (ucast (snd l)) (drop (n + 1) ?s2) = (m, t)" by fastforce
  from assms u1 u2 have nz: "n \<noteq> 0" "n < length s" "m \<noteq> 0"
    and res: "put_objLink l s = (n + 1 + m, take (n + 1) ?s2 @ t)"
    by (auto simp: put_objLink_def utils_objLinkToText_def Let_def split: if_splits)
  have "n = length (dec_text (unat (fst l)))" "take n s1 = dec_text (unat (fst l))"
    using uintToText_written [of "ucast (fst l)" s] u1 nz by simp_all
  moreover have "m = length (dec_text (unat (snd l)))" "take m t = dec_text (unat (snd l))"
    using uintToText_written [of "ucast (snd l)" "drop (n + 1) ?s2"] u2 nz by simp_all
  moreover have "take (n + 1) ?s2 = take n s1 @ [ch_colon]"
    using nz(2) s1 by (simp add: take_Suc_conv_app_nth)
  ultimately show ?thesis using res by (simp add: objlink_text_def)
qed

lemma objLinkToText_room:
  assumes "length (objlink_text l) < length s"
  shows "fst (put_objLink l s) \<noteq> 0"
proof -
  obtain n s1 where u1: "utils_uintToText (ucast (fst l)) s = (n, s1)" by fastforce
  with uintToText_cases [of "ucast (fst l)" s] assms
  have n: "n = length (dec_text (unat (fst l)))" and s1: "length s1 = length s"
    using length_uintToText_eq [OF u1] by (simp_all add: objlink_text_def)
  let ?t = "drop (n + 1) (s1[n := ch_colon])"
  from assms n s1 have "length (dec_text (unat (snd l))) \<le> length ?t"
    by (simp add: objlink_text_def)
  then have "fst (utils_uintToText (ucast (snd l)) ?t) \<noteq> 0"
    using utils_uintToText_fits [of "ucast (snd l)" ?t] by simp
  with u1 n assms show ?thesis
    by (auto simp: put_objLink_def utils_objLinkToText_def objlink_text_def Let_def split: prod.splits)
qed

interpretation objlink_codec: text_codec put_objLink utils_textToObjLink objlink_text
proof (unfold_locales, goal_cases)
  case (1 v s)
  then show ?case by (rule objLinkToText_written)
next
  case (2 v s)
  then show ?case by (rule objLinkToText_room)
qed (simp_all add: length_objLinkToText textToObjLink_text)

lemma length_int_text: "length (int_text d) \<le> 20"
proof (cases "sint d < 0")
  case True
  then have "nat (- sint d) < 10 ^ 19"
    using sint_neg_iff [of d] by (simp add: nat_neg_sint)
  then have "length (dec_text (nat (- sint d))) \<le> 19" by (simp add: length_dec_text_le)
  with True show ?thesis by (simp add: int_text_def)
next
  case False
  then have "unat d < 10 ^ 19" by (simp add: sint_neg_iff)
  then have "length (dec_text (unat d)) \<le> 19" by (simp add: length_dec_text_le)
  with False show ?thesis by (simp add: int_text_def)
qed

text \<open>C13: every \<open>int64_t\<close> value written by \<open>utils_intToText\<close> into a buffer of at least 21 bytes
  (20 characters and the NUL) is read back unchanged by \<open>utils_textToInt\<close>, \<open>INT64_MIN\<close>
  included, and the writer stays within the buffer.\<close>

theorem utils_intToText_roundtrip:
  assumes "21 \<le> length string"
  shows "fst (utils_intToText d string) = length (int_text d)
    \<and> fst (utils_intToText d string) \<le> 20
    \<and> length (snd (utils_intToText d string)) = length string
    \<and> utils_textToInt (take (fst (utils_intToText d string)) (snd (utils_intToText d string))) = Some d"
  using assms length_int_text [of d] int_codec.roundtrip_room [of d string] int_codec.same_length
  by fastforce

theorem utils_intToText_roundtrip_witness:
  "utils_textToInt (take (fst (utils_intToText INT64_MIN (replicate 21 0)))
     (snd (utils_intToText INT64_MIN (replicate 21 0)))) = Some INT64_MIN"
proof -
  have "21 \<le> length (replicate 21 0 :: bytes)" by simp
  from utils_intToText_roundtrip [OF this, of INT64_MIN] show ?thesis by blast
qed

text \<open>\<open>utils_uintToText\<close> returns the number of decimal digits when they fit the buffer
  (leaving exactly them at its start) and 0 when they do not, and never changes the buffer's
  length.\<close>

theorem utils_uintToText_correct:
  "let n = length (dec_text (unat data)); (res, string') = utils_uintToText data string in
     length string' = length string
     \<and> res = (if n \<le> length string then n else 0)
     \<and> take res string' = (if n \<le> length string then dec_text (unat data) else [])"
  using uintToText_cases [of data string] utils_uintToText_fits [of data string]
    length_utils_uintToText [of data string]
  by (auto simp: Let_def split: prod.splits)

text \<open>an object link written as text is read back by \<open>utils_textToObjLink\<close>, in any buffer with
  room for the two numbers, the colon and a NUL.\<close>

theorem utils_objLinkToText_roundtrip:
  assumes "length (objlink_text (objectId, instanceId)) < length string"
  shows "utils_textToObjLink
      (take (fst (utils_objLinkToText objectId instanceId string))
            (snd (utils_objLinkToText objectId instanceId string)))
    = Some (objectId, instanceId)"
  using objlink_codec.roundtrip_room [OF assms] unfolding put_objLink_def fst_conv snd_conv by blast

theorem utils_objLinkToText_roundtrip_witness:
  "utils_textToObjLink (take (fst (utils_objLinkToText 3 65535 (replicate 12 0)))
     (snd (utils_objLinkToText 3 65535 (replicate 12 0)))) = Some (3, 65535)"
  by (rule utils_objLinkToText_roundtrip) (simp add: objlink_text_def dec_text_step dec_text_less_ten)

end
