(* ===== verification/Formats.thy ===== *)
theory Formats
  imports Prelude
begin

text \<open>
  The enumerations of \<open>include/liblwm2m.h\<close> that the rest of the model uses, the build options
  that select code, and the small classifiers of \<open>core/utils.c\<close>: protocol version, binding
  mode, media type, response format, alternative path, string copy.
\<close>

section \<open>Enumerations and build options\<close>

datatype lwm2m_data_type_t =
  LWM2M_TYPE_UNDEFINED | LWM2M_TYPE_OBJECT | LWM2M_TYPE_OBJECT_INSTANCE
| LWM2M_TYPE_MULTIPLE_RESOURCE | LWM2M_TYPE_STRING | LWM2M_TYPE_OPAQUE | LWM2M_TYPE_INTEGER
| LWM2M_TYPE_UNSIGNED_INTEGER | LWM2M_TYPE_FLOAT | LWM2M_TYPE_BOOLEAN
| LWM2M_TYPE_OBJECT_LINK | LWM2M_TYPE_CORE_LINK

datatype uri_depth_t =
  URI_DEPTH_NONE | URI_DEPTH_OBJECT | URI_DEPTH_OBJECT_INSTANCE
| URI_DEPTH_RESOURCE | URI_DEPTH_RESOURCE_INSTANCE

datatype lwm2m_media_type_t =
  LWM2M_CONTENT_TEXT | LWM2M_CONTENT_LINK | LWM2M_CONTENT_OPAQUE | LWM2M_CONTENT_TLV_OLD
| LWM2M_CONTENT_TLV | LWM2M_CONTENT_JSON_OLD | LWM2M_CONTENT_JSON | LWM2M_CONTENT_SENML_JSON
| LWM2M_CONTENT_CBOR | LWM2M_CONTENT_SENML_CBOR

datatype lwm2m_version_t = VERSION_MISSING | VERSION_UNRECOGNIZED | VERSION_1_0 | VERSION_1_1

text \<open>The values of \<open>lwm2m_media_type_t\<close> are the CoAP content formats.\<close>

fun media_code :: "lwm2m_media_type_t \<Rightarrow> u16" where
  "media_code LWM2M_CONTENT_TEXT = 0"
| "media_code LWM2M_CONTENT_LINK = 40"
| "media_code LWM2M_CONTENT_OPAQUE = 42"
| "media_code LWM2M_CONTENT_TLV_OLD = 1542"
| "media_code LWM2M_CONTENT_TLV = 11542"
| "media_code LWM2M_CONTENT_JSON_OLD = 1543"
| "media_code LWM2M_CONTENT_JSON = 11543"
| "media_code LWM2M_CONTENT_SENML_JSON = 110"
| "media_code LWM2M_CONTENT_CBOR = 60"
| "media_code LWM2M_CONTENT_SENML_CBOR = 112"

text \<open>Which optional formats a build supports (the \<open>LWM2M_SUPPORT_*\<close> macros).\<close>

record build =
  support_tlv :: bool
  support_json :: bool
  support_senml_json :: bool
  support_senml_cbor :: bool
  old_content_format :: bool

text \<open>What \<open>LWM2M_SERVER_MODE\<close> implies.\<close>

definition server_build :: build where
  "server_build = \<lparr>support_tlv = True, support_json = True, support_senml_json = True,
     support_senml_cbor = True, old_content_format = False\<rparr>"


section \<open>The classifiers of utils.c\<close>

definition utils_stringToVersion :: "bytes \<Rightarrow> lwm2m_version_t" where
  "utils_stringToVersion buffer =
     (if length buffer = 0 then VERSION_MISSING
      else if length buffer \<noteq> 3 then VERSION_UNRECOGNIZED
      else if buffer ! 1 \<noteq> ch_dot then VERSION_UNRECOGNIZED
      else if buffer ! 0 = 0x31 then
        (if buffer ! 2 = 0x30 then VERSION_1_0
         else if buffer ! 2 = 0x31 then VERSION_1_1 else VERSION_UNRECOGNIZED)
      else VERSION_UNRECOGNIZED)"

abbreviation (input) BINDING_UNKNOWN :: u8 where "BINDING_UNKNOWN \<equiv> 0x01"
abbreviation (input) BINDING_U :: u8 where "BINDING_U \<equiv> 0x02"
abbreviation (input) BINDING_T :: u8 where "BINDING_T \<equiv> 0x04"
abbreviation (input) BINDING_S :: u8 where "BINDING_S \<equiv> 0x08"
abbreviation (input) BINDING_N :: u8 where "BINDING_N \<equiv> 0x10"
abbreviation (input) BINDING_Q :: u8 where "BINDING_Q \<equiv> 0x20"

definition binding_flag :: "u8 \<Rightarrow> u8 option" where
  "binding_flag c =
     (if c = 0x4E then Some BINDING_N else if c = 0x51 then Some BINDING_Q
      else if c = 0x53 then Some BINDING_S else if c = 0x54 then Some BINDING_T
      else if c = 0x55 then Some BINDING_U else None)"

text \<open>The build without \<open>LWM2M_VERSION_1_0\<close>.\<close>

fun stringToBinding_loop :: "bytes \<Rightarrow> u8 \<Rightarrow> u8" where
  "stringToBinding_loop [] binding = binding"
| "stringToBinding_loop (c # cs) binding =
     (case binding_flag c of None \<Rightarrow> BINDING_UNKNOWN
      | Some f \<Rightarrow> stringToBinding_loop cs (binding OR f))"

definition utils_stringToBinding :: "bytes \<Rightarrow> u8" where
  "utils_stringToBinding buffer = stringToBinding_loop buffer BINDING_UNKNOWN"

definition utils_convertMediaType :: "build \<Rightarrow> u16 \<Rightarrow> lwm2m_media_type_t" where
  "utils_convertMediaType b type =
     (if type = 0 then LWM2M_CONTENT_TEXT
      else if type = 42 then LWM2M_CONTENT_OPAQUE
      else if old_content_format b \<and> type = 1542 then LWM2M_CONTENT_TLV_OLD
      else if type = 11542 then LWM2M_CONTENT_TLV
      else if old_content_format b \<and> type = 1543 then LWM2M_CONTENT_JSON_OLD
      else if type = 11543 then LWM2M_CONTENT_JSON
      else if type = 110 then LWM2M_CONTENT_SENML_JSON
      else if type = 60 then LWM2M_CONTENT_CBOR
      else if type = 112 then LWM2M_CONTENT_SENML_CBOR
      else if type = 40 then LWM2M_CONTENT_LINK
      else LWM2M_CONTENT_TEXT)"

text \<open>
  \<open>responseFormat_case\<close> is the \<open>switch\<close> on one accepted format: the format to answer with when
  it is found acceptable.  \<open>singular\<close> restricts text, opaque and CBOR to a single resource.
\<close>

definition responseFormat_case :: "build \<Rightarrow> bool \<Rightarrow> u16 \<Rightarrow> lwm2m_media_type_t option" where
  "responseFormat_case b singular a =
     (if a = 0 then (if singular then Some LWM2M_CONTENT_TEXT else None)
      else if a = 42 then (if singular then Some LWM2M_CONTENT_OPAQUE else None)
      else if support_tlv b \<and> old_content_format b \<and> a = 1542 then Some LWM2M_CONTENT_TLV_OLD
      else if support_tlv b \<and> a = 11542 then Some LWM2M_CONTENT_TLV
      else if support_json b \<and> old_content_format b \<and> a = 1543 then Some LWM2M_CONTENT_JSON_OLD
      else if support_json b \<and> a = 11543 then Some LWM2M_CONTENT_JSON
      else if support_senml_json b \<and> a = 110 then Some LWM2M_CONTENT_SENML_JSON
      else if support_senml_cbor b \<and> a = 60 then (if singular then Some LWM2M_CONTENT_CBOR else None)
      else if support_senml_cbor b \<and> a = 112 then Some LWM2M_CONTENT_SENML_CBOR
      else None)"

fun responseFormat_loop :: "build \<Rightarrow> bool \<Rightarrow> u16 list \<Rightarrow> lwm2m_media_type_t option" where
  "responseFormat_loop b singular [] = None"
| "responseFormat_loop b singular (a # as) =
     (case responseFormat_case b singular a of
        None \<Rightarrow> responseFormat_loop b singular as
      | Some f \<Rightarrow> Some f)"

text \<open>\<open>types\<close> are the types of the \<open>numData\<close> elements of \<open>dataP\<close>.\<close>

definition utils_getResponseFormat ::
    "build \<Rightarrow> u16 list \<Rightarrow> lwm2m_data_type_t list \<Rightarrow> bool \<Rightarrow> u8 \<times> lwm2m_media_type_t" where
  "utils_getResponseFormat b accept types singleResource =
     (let singular =
        (case types of
           [t] \<Rightarrow> (if t \<in> {LWM2M_TYPE_OBJECT, LWM2M_TYPE_OBJECT_INSTANCE, LWM2M_TYPE_MULTIPLE_RESOURCE}
                   then False else singleResource)
         | _ \<Rightarrow> singleResource)
      in if accept \<noteq> [] then
           (case responseFormat_loop b singular accept of
              None \<Rightarrow> (COAP_406_NOT_ACCEPTABLE, LWM2M_CONTENT_TEXT)
            | Some f \<Rightarrow> (COAP_205_CONTENT, f))
         else if singular then (COAP_205_CONTENT, LWM2M_CONTENT_TEXT)
         else if support_senml_cbor b then (COAP_205_CONTENT, LWM2M_CONTENT_SENML_CBOR)
         else if support_senml_json b then (COAP_205_CONTENT, LWM2M_CONTENT_SENML_JSON)
         else if support_json b then (COAP_205_CONTENT, LWM2M_CONTENT_JSON)
         else if support_tlv b then (COAP_205_CONTENT, LWM2M_CONTENT_TLV)
         else (COAP_500_INTERNAL_SERVER_ERROR, LWM2M_CONTENT_TEXT))"

definition altPath_char :: "u8 \<Rightarrow> bool" where
  "altPath_char c \<longleftrightarrow> (0x41 \<le> c \<and> c \<le> 0x5A) \<or> (0x61 \<le> c \<and> c \<le> 0x7A) \<or> is_digit c
     \<or> c = ch_minus \<or> c = ch_dot \<or> c = 0x5F \<or> c = 0x7E \<or> c = 0x25"

fun altPath_loop :: "bytes \<Rightarrow> bool" where
  "altPath_loop [] = True"
| "altPath_loop (c # cs) =
     (if c = ch_slash then False else if \<not> altPath_char c then False else altPath_loop cs)"

definition utils_isAltPathValid :: "bytes option \<Rightarrow> bool" where
  "utils_isAltPathValid altPath =
     (case altPath of None \<Rightarrow> False
      | Some p \<Rightarrow> if cstr_at p 0 \<noteq> ch_slash then False else altPath_loop (tl p))"

text \<open>\<open>utils_stringCopy\<close> into a buffer: the loop over the rest of the buffer and of the string
  (whose end is the terminating NUL) returns the number of bytes copied, \<open>None\<close> for the
  \<open>-1\<close> of a buffer that is too small, and the buffer.\<close>

fun utils_stringCopy :: "bytes \<Rightarrow> bytes \<Rightarrow> nat option \<times> bytes" where
  "utils_stringCopy [] str = (None, [])"
| "utils_stringCopy (b # bs) [] = (Some 0, 0 # bs)"
| "utils_stringCopy (b # bs) (c # cs) =
     (let (r, bs') = utils_stringCopy bs cs in (map_option Suc r, c # bs'))"

fun utils_depthToDatatype :: "uri_depth_t \<Rightarrow> lwm2m_data_type_t" where
  "utils_depthToDatatype URI_DEPTH_OBJECT = LWM2M_TYPE_OBJECT"
| "utils_depthToDatatype URI_DEPTH_OBJECT_INSTANCE = LWM2M_TYPE_OBJECT_INSTANCE"
| "utils_depthToDatatype _ = LWM2M_TYPE_UNDEFINED"

section \<open>Their properties\<close>

lemma stringToBinding_loop_bits:
  "\<forall>c\<in>set cs. binding_flag c \<noteq> None \<Longrightarrow>
     stringToBinding_loop cs b = fold (\<lambda>c b. b OR the (binding_flag c)) cs b"
  by (induction cs arbitrary: b) auto

lemma responseFormat_case_code:
  "responseFormat_case b s a = Some f \<Longrightarrow> media_code f = a \<and> (a \<in> {0, 42, 60} \<longrightarrow> s)"
  by (auto simp: responseFormat_case_def split: if_splits)

lemma responseFormat_loop_code:
  "responseFormat_loop b s as = Some f \<Longrightarrow>
     media_code f \<in> set as \<and> (f \<in> {LWM2M_CONTENT_TEXT, LWM2M_CONTENT_OPAQUE, LWM2M_CONTENT_CBOR} \<longrightarrow> s)"
  by (induction as) (auto split: option.splits dest!: responseFormat_case_code)

lemma responseFormat_loop_first:
  "responseFormat_loop b s as = None \<longleftrightarrow> (\<forall>a\<in>set as. responseFormat_case b s a = None)"
  by (induction as) (auto split: option.splits)

text \<open>an answer with \<open>2.05\<close> to a request that names accepted formats uses one of them, and
  uses the formats of a single value (text, opaque, CBOR) only for a single resource; \<open>4.06\<close> is
  returned exactly when none of the named formats can be served.\<close>

theorem utils_getResponseFormat_acceptable:
  assumes "accept \<noteq> []" "utils_getResponseFormat b accept types single = (result, f)"
  shows "(result = COAP_205_CONTENT \<and> media_code f \<in> set accept
        \<and> (f \<in> {LWM2M_CONTENT_TEXT, LWM2M_CONTENT_OPAQUE, LWM2M_CONTENT_CBOR} \<longrightarrow>
             single \<and> types \<notin> {[LWM2M_TYPE_OBJECT], [LWM2M_TYPE_OBJECT_INSTANCE],
                                [LWM2M_TYPE_MULTIPLE_RESOURCE]}))
    \<or> (result = COAP_406_NOT_ACCEPTABLE \<and>
        (\<forall>a\<in>set accept. responseFormat_case b
           (single \<and> types \<notin> {[LWM2M_TYPE_OBJECT], [LWM2M_TYPE_OBJECT_INSTANCE],
                                [LWM2M_TYPE_MULTIPLE_RESOURCE]}) a = None))"
proof -
  let ?s = "single \<and> types \<notin> {[LWM2M_TYPE_OBJECT], [LWM2M_TYPE_OBJECT_INSTANCE],
                                [LWM2M_TYPE_MULTIPLE_RESOURCE]}"
  have "utils_getResponseFormat b accept types single =
      (case responseFormat_loop b ?s accept of
         None \<Rightarrow> (COAP_406_NOT_ACCEPTABLE, LWM2M_CONTENT_TEXT)
       | Some f \<Rightarrow> (COAP_205_CONTENT, f))"
    using assms(1) by (auto simp: utils_getResponseFormat_def split: list.splits)
  with assms(2) show ?thesis
    using responseFormat_loop_code [of b ?s accept f] responseFormat_loop_first [of b ?s accept]
    by (auto split: option.splits)
qed

theorem utils_getResponseFormat_acceptable_witness:
  "utils_getResponseFormat server_build [50, 11542] [LWM2M_TYPE_OBJECT] True
     = (COAP_205_CONTENT, LWM2M_CONTENT_TLV) \<and> media_code LWM2M_CONTENT_TLV \<in> set [50, 11542]"
proof -
  have "utils_getResponseFormat server_build [50, 11542] [LWM2M_TYPE_OBJECT] True
     = (COAP_205_CONTENT, LWM2M_CONTENT_TLV)"
    by (simp add: utils_getResponseFormat_def responseFormat_case_def server_build_def)
  with utils_getResponseFormat_acceptable [OF _ this] show ?thesis by simp
qed

lemma utils_stringCopy_fits:
  "length str < length buffer \<Longrightarrow>
     utils_stringCopy buffer str
       = (Some (length str), str @ 0 # drop (Suc (length str)) buffer)"
  by (induction buffer str rule: utils_stringCopy.induct) auto

lemma utils_stringCopy_overflow:
  "length buffer \<le> length str \<Longrightarrow> utils_stringCopy buffer str = (None, take (length buffer) str)"
  by (induction buffer str rule: utils_stringCopy.induct) auto

end
