(* ===== verification/Base64.thy ===== *)
theory Base64
  imports Prelude
begin

text \<open>
  The base64 codec of \<open>core/utils.c\<close>.  The encoder returns the bytes it writes (its result is
  their number, 0 when the buffer is too small).  The decoder is modelled with its output
  buffer of \<open>bufferLen\<close> bytes: a write beyond the buffer is the outcome \<open>UB\<close>, the early
  \<open>return 0\<close> is \<open>Ret None\<close>, and success carries the decoded bytes.
\<close>

definition b64Alphabet :: bytes where
  "b64Alphabet = map word_of_nat ([65..<91] @ [97..<123] @ [48..<58] @ [43, 47])"

abbreviation (input) PRV_B64_PADDING :: u8 where "PRV_B64_PADDING \<equiv> 0x3D"

definition b64_char :: "u8 \<Rightarrow> u8" where
  "b64_char v = b64Alphabet ! unat v"

definition prv_encodeBlock :: "u8 \<Rightarrow> u8 \<Rightarrow> u8 \<Rightarrow> bytes" where
  "prv_encodeBlock i0 i1 i2 =
     [b64_char (drop_bit 2 i0),
      b64_char (push_bit 4 (i0 AND 0x03) OR drop_bit 4 i1),
      b64_char (push_bit 2 (i1 AND 0x0F) OR drop_bit 6 i2),
      b64_char (i2 AND 0x3F)]"

definition utils_base64GetSize :: "nat \<Rightarrow> nat" where
  "utils_base64GetSize dataLen = 4 * (dataLen div 3) + (if dataLen mod 3 \<noteq> 0 then 4 else 0)"

fun base64Encode_loop :: "bytes \<Rightarrow> bytes" where
  "base64Encode_loop [] = []"
| "base64Encode_loop [a] =
     [b64_char (drop_bit 2 a), b64_char (push_bit 4 (a AND 0x03)), PRV_B64_PADDING, PRV_B64_PADDING]"
| "base64Encode_loop [a, b] =
     [b64_char (drop_bit 2 a), b64_char (push_bit 4 (a AND 0x03) OR drop_bit 4 b),
      b64_char (push_bit 2 (b AND 0x0F)), PRV_B64_PADDING]"
| "base64Encode_loop (a # b # c # rest) = prv_encodeBlock a b c @ base64Encode_loop rest"

definition utils_base64Encode :: "bytes \<Rightarrow> nat \<Rightarrow> bytes" where
  "utils_base64Encode dataP bufferLen =
     (if utils_base64GetSize (length dataP) > bufferLen then [] else base64Encode_loop dataP)"

definition utils_base64GetDecodedSize :: "bytes \<Rightarrow> nat" where
  "utils_base64GetDecodedSize dataP =
     (let dataLen = length dataP; result = 3 * (dataLen div 4) in
      if dataLen mod 4 = 0 then
        (if result > 0 then
           (if dataP ! (dataLen - 2) = PRV_B64_PADDING then result - 2
            else if dataP ! (dataLen - 1) = PRV_B64_PADDING then result - 1
            else result)
         else result)
      else if dataLen mod 4 = 2 then result + 1
      else if dataLen mod 4 = 3 then result + 2
      else result)"

definition prv_base64Value :: "u8 \<Rightarrow> u8" where
  "prv_base64Value digit =
     (if digit \<ge> 0x41 \<and> digit \<le> 0x5A then digit - 0x41
      else if digit \<ge> 0x61 \<and> digit \<le> 0x7A then digit - 0x61 + 26
      else if digit \<ge> 0x30 \<and> digit \<le> 0x39 then digit - 0x30 + 52
      else if digit = 0x2B then 62
      else if digit = 0x2F then 63
      else 0xFF)"

text \<open>One write \<open>bufferP[bufferIndex++] = b\<close>.\<close>

definition put_byte :: "nat \<Rightarrow> bytes \<Rightarrow> u8 \<Rightarrow> (bytes \<Rightarrow> bytes option outcome) \<Rightarrow> bytes option outcome" where
  "put_byte bufferLen out b k = (if length out < bufferLen then k (out @ [b]) else UB)"

text \<open>The \<open>while\<close> loop over the characters left; \<open>out\<close> holds what is written so far.\<close>

fun base64Decode_loop :: "nat \<Rightarrow> nat \<Rightarrow> bytes \<Rightarrow> bytes \<Rightarrow> bytes option outcome" where
  "base64Decode_loop n decodedSize [] out = Ret (Some out)"
| "base64Decode_loop n decodedSize [c1] out = Ret None"
| "base64Decode_loop n decodedSize (c1 # c2 # rest) out =
     (let v1 = prv_base64Value c1; v2 = prv_base64Value c2 in
      if v1 \<ge> 64 then Ret None else if v2 \<ge> 64 then Ret None
      else put_byte n out (push_bit 2 v1 + drop_bit 4 v2) (\<lambda>out1.
        case rest of
          [] \<Rightarrow> base64Decode_loop n decodedSize [] out1
        | c3 # rest3 \<Rightarrow>
          (if c3 = PRV_B64_PADDING
           then (if length out1 \<noteq> decodedSize then Ret None
                 else base64Decode_loop n decodedSize (drop 1 rest3) out1)
           else let v3 = prv_base64Value c3 in
             if v3 \<ge> 64 then Ret None
             else put_byte n out1 (push_bit 4 v2 + drop_bit 2 v3) (\<lambda>out2.
               case rest3 of
                 [] \<Rightarrow> base64Decode_loop n decodedSize [] out2
               | c4 # rest4 \<Rightarrow>
                 (if c4 = PRV_B64_PADDING
                  then (if length out2 \<noteq> decodedSize then Ret None
                        else base64Decode_loop n decodedSize rest4 out2)
                  else let v4 = prv_base64Value c4 in
                    if v4 \<ge> 64 then Ret None
                    else put_byte n out2 (push_bit 6 v3 + v4)
                      (\<lambda>out3. base64Decode_loop n decodedSize rest4 out3))))))"

definition utils_base64Decode :: "bytes \<Rightarrow> nat \<Rightarrow> bytes option outcome" where
  "utils_base64Decode dataP bufferLen =
     (let decodedSize = utils_base64GetDecodedSize dataP in
      if decodedSize > bufferLen then Ret None
      else base64Decode_loop bufferLen decodedSize dataP [])"

section \<open>The alphabet\<close>

lemma b64Alphabet_inverse:
  "list_all (\<lambda>n. prv_base64Value (b64Alphabet ! n) = word_of_nat n
      \<and> b64Alphabet ! n \<noteq> PRV_B64_PADDING) [0..<64]"
  by code_simp

lemma b64_char_inverse:
  assumes "v < 64"
  shows "prv_base64Value (b64_char v) = v" "b64_char v \<noteq> PRV_B64_PADDING"
proof -
  have "unat v \<in> set [0..<64]" using assms by (simp add: word_less_nat_alt)
  with b64Alphabet_inverse show "prv_base64Value (b64_char v) = v" "b64_char v \<noteq> PRV_B64_PADDING"
    by (auto simp: list_all_iff b64_char_def)
qed

section \<open>Splitting bytes into sextets and back\<close>

lemma and_masks: "(a :: u8) AND 0x03 = take_bit 2 a" "(a :: u8) AND 0x0F = take_bit 4 a"
  "(a :: u8) AND 0x3F = take_bit 6 a"
  by (simp_all add: take_bit_eq_mask mask_eq_exp_minus_1)

lemma sum_of_disjoint_bits:
  assumes "\<And>n. bit a n \<Longrightarrow> \<not> bit b n" "\<And>n. n < 8 \<Longrightarrow> bit (a OR b) n = bit c n"
  shows "(a :: u8) + b = c"
proof -
  have "a + b = a OR b" using assms(1) by (intro disjunctive_add) blast
  also have "\<dots> = c" using assms(2) by (intro bit_word_eqI) simp
  finally show ?thesis .
qed

lemma shifted_index:
  "2 \<le> n \<Longrightarrow> Suc (Suc (n - 2)) = n" "4 \<le> n \<Longrightarrow> 4 + (n - 4) = n" "6 \<le> n \<Longrightarrow> 6 + (n - 6) = n"
  for n :: nat
  by simp_all

lemma sum_of_bits_cases:
  assumes "\<And>n. bit a n \<Longrightarrow> \<not> bit b n"
    and "\<And>n. n < 2 \<Longrightarrow> bit (a OR b) n = bit c n"
    and "\<And>n. 2 \<le> n \<Longrightarrow> n < 4 \<Longrightarrow> bit (a OR b) n = bit c n"
    and "\<And>n. 4 \<le> n \<Longrightarrow> n < 6 \<Longrightarrow> bit (a OR b) n = bit c n"
    and "\<And>n. 6 \<le> n \<Longrightarrow> n < 8 \<Longrightarrow> bit (a OR b) n = bit c n"
  shows "(a :: u8) + b = c"
  using assms by (intro sum_of_disjoint_bits) (meson not_less)+

lemma less_64I:
  assumes "\<And>n. bit (x :: u8) n \<Longrightarrow> n < 6"
  shows "x < 64"
proof -
  have "take_bit 6 x = x" using assms by (intro bit_word_eqI) (auto simp: bit_simps)
  then have "unat x = take_bit 6 (unat x)" by (metis unsigned_take_bit_eq)
  then have "unat x < 64" using take_bit_nat_less_exp [of 6 "unat x"] by simp
  then show ?thesis by (simp add: word_less_nat_alt)
qed

lemma sextets:
  "(drop_bit 2 a :: u8) < 64"
  "(push_bit 4 (take_bit 2 a) OR drop_bit 4 b :: u8) < 64"
  "(push_bit 2 (take_bit 4 b) OR drop_bit 6 c :: u8) < 64"
  "(take_bit 6 c :: u8) < 64"
  "(push_bit 4 (take_bit 2 a) :: u8) < 64"
  "(push_bit 2 (take_bit 4 b) :: u8) < 64"
  by (rule less_64I; auto simp: bit_simps dest: bit_imp_le_length)+

lemma octets_first:
  "push_bit 2 (drop_bit 2 a) + drop_bit 4 (push_bit 4 (take_bit 2 a) OR drop_bit 4 b) = (a :: u8)"
  by (rule sum_of_bits_cases) (auto simp: bit_simps shifted_index dest: bit_imp_le_length)

lemma octets_first':
  "push_bit 2 (drop_bit 2 a) + drop_bit 4 (push_bit 4 (take_bit 2 a)) = (a :: u8)"
  by (rule sum_of_bits_cases) (auto simp: bit_simps shifted_index dest: bit_imp_le_length)

lemma octets_second:
  "push_bit 4 (push_bit 4 (take_bit 2 a) OR drop_bit 4 b)
     + drop_bit 2 (push_bit 2 (take_bit 4 b) OR drop_bit 6 c) = (b :: u8)"
  by (rule sum_of_bits_cases) (auto simp: bit_simps shifted_index dest: bit_imp_le_length)

lemma octets_second':
  "push_bit 4 (push_bit 4 (take_bit 2 a) OR drop_bit 4 b) + drop_bit 2 (push_bit 2 (take_bit 4 b)) = (b :: u8)"
  by (rule sum_of_bits_cases) (auto simp: bit_simps shifted_index dest: bit_imp_le_length)

lemma octets_third:
  "push_bit 6 (push_bit 2 (take_bit 4 b) OR drop_bit 6 c) + take_bit 6 c = (c :: u8)"
  by (rule sum_of_bits_cases) (auto simp: bit_simps shifted_index dest: bit_imp_le_length)

lemma octets_rest:
  "push_bit 4 (drop_bit 4 b) + drop_bit 2 (push_bit 2 (take_bit 4 b)) = (b :: u8)"
  "push_bit 6 (drop_bit 6 c) + take_bit 6 c = (c :: u8)"
  by (rule sum_of_bits_cases; auto simp: bit_simps shifted_index dest: bit_imp_le_length)+

section \<open>The decoded size, group by group\<close>

lemma decodedSize_short [simp]:
  "utils_base64GetDecodedSize [] = 0"
  "utils_base64GetDecodedSize [a] = 0"
  "utils_base64GetDecodedSize [a, b] = 1"
  "utils_base64GetDecodedSize [a, b, c] = 2"
  "utils_base64GetDecodedSize [a, b, c, d] =
     (if c = PRV_B64_PADDING then 1 else if d = PRV_B64_PADDING then 2 else 3)"
  by (simp_all add: utils_base64GetDecodedSize_def)

lemma decodedSize_group:
  assumes "rest \<noteq> []"
  shows "utils_base64GetDecodedSize (a # b # c # d # rest) = 3 + utils_base64GetDecodedSize rest"
proof (cases "length rest mod 4 = 0")
  case True
  with assms have long: "4 \<le> length rest"
    by (metis dvd_imp_le length_greater_0_conv mod_0_imp_dvd)
  have last: "(a # b # c # d # rest) ! (length rest + 4 - i) = rest ! (length rest - i)"
    if "i \<le> 4" "0 < i" for i
  proof -
    have "length rest + 4 - i = length [a, b, c, d] + (length rest - i)" using that long by simp
    then show ?thesis using nth_append_length_plus [of "[a, b, c, d]" rest "length rest - i"] by simp
  qed
  have "3 \<le> 3 * (length rest div 4)" using long by (simp add: div_le_mono [of 4])
  moreover have "(4 + length rest) div 4 = Suc (length rest div 4)" by simp
  ultimately show ?thesis using True long
    using last [of 2] last [of 1]
    by (simp add: utils_base64GetDecodedSize_def Let_def)
next
  case False
  have "(4 + length rest) div 4 = Suc (length rest div 4)" by simp
  with False show ?thesis by (simp add: utils_base64GetDecodedSize_def Let_def)
qed

lemma decodedSize_pos:
  "2 \<le> length rest \<Longrightarrow> 1 \<le> utils_base64GetDecodedSize rest"
proof (induction rest rule: length_induct)
  case (1 rest)
  then obtain a b r where r: "rest = a # b # r" by (cases rest; cases "tl rest") auto
  show ?case
  proof (cases "length r \<le> 2")
    case True
    with r show ?thesis by (cases r; cases "tl r") auto
  next
    case False
    then obtain c d e r' where "r = c # d # e # r'" by (cases r; cases "tl r"; cases "tl (tl r)") auto
    with r show ?thesis by (simp add: decodedSize_group)
  qed
qed

section \<open>Memory safety of the decoder\<close>

lemma base64Decode_loop_safe:
  assumes "length out + utils_base64GetDecodedSize data = decodedSize" "decodedSize \<le> n"
  shows "base64Decode_loop n decodedSize data out \<noteq> UB
    \<and> (\<forall>r. base64Decode_loop n decodedSize data out = Ret (Some r) \<longrightarrow> length r = decodedSize)"
  using assms(1)
proof (induction data arbitrary: out rule: length_induct)
  case (1 data)
  consider (zero) "data = []" | (one) c1 where "data = [c1]" | (two) c1 c2 where "data = [c1, c2]"
    | (three) c1 c2 c3 where "data = [c1, c2, c3]"
    | (four) c1 c2 c3 c4 where "data = [c1, c2, c3, c4]"
    | (more) c1 c2 c3 c4 c5 r where "data = c1 # c2 # c3 # c4 # c5 # r"
    by (metis neq_Nil_conv)
  then show ?case
  proof cases
    case more
    let ?r = "c5 # r"
    have ds: "decodedSize = length out + 3 + utils_base64GetDecodedSize ?r"
      using "1.prems" more by (simp add: decodedSize_group)
    have IH: "base64Decode_loop n decodedSize ?r o4 \<noteq> UB
        \<and> (\<forall>x. base64Decode_loop n decodedSize ?r o4 = Ret (Some x) \<longrightarrow> length x = decodedSize)"
      if "length o4 = length out + 3" for o4
      using "1.IH" [rule_format, of ?r o4] more ds that by simp
    show ?thesis
      using IH [of "out @ [_, _, _]"] ds assms(2)
      by (simp add: more Let_def put_byte_def del: base64Decode_loop.simps(2))
  next
    case four
    with "1.prems" assms(2) show ?thesis
      by (auto simp: Let_def put_byte_def split: if_splits)
  qed (use "1.prems" assms(2) in \<open>simp_all add: Let_def put_byte_def\<close>)
qed

section \<open>The encoder and the round trip\<close>

lemma length_base64Encode_loop: "length (base64Encode_loop d) = utils_base64GetSize (length d)"
proof (induction d rule: base64Encode_loop.induct)
  case (4 a b c rest)
  have "(3 + length rest) div 3 = Suc (length rest div 3)" by simp
  with 4 show ?case by (simp add: utils_base64GetSize_def prv_encodeBlock_def)
qed (simp_all add: utils_base64GetSize_def)

lemma base64Encode_loop_eq_Nil: "base64Encode_loop d = [] \<longleftrightarrow> d = []"
  by (cases d rule: base64Encode_loop.cases) (auto simp: prv_encodeBlock_def)

lemma decodedSize_encode: "utils_base64GetDecodedSize (base64Encode_loop d) = length d"
proof (induction d rule: base64Encode_loop.induct)
  case (4 a b c rest)
  then show ?case
    by (cases "rest = []")
      (simp_all add: prv_encodeBlock_def and_masks b64_char_inverse sextets decodedSize_group
        base64Encode_loop_eq_Nil)
qed (simp_all add: and_masks b64_char_inverse sextets)

lemma decode_encode_loop:
  "length out + length d = decodedSize \<Longrightarrow> decodedSize \<le> n \<Longrightarrow>
     base64Decode_loop n decodedSize (base64Encode_loop d) out = Ret (Some (out @ d))"
proof (induction d arbitrary: out rule: base64Encode_loop.induct)
  case (4 a b c rest)
  then show ?case
    using "4.IH" [of "out @ [a, b, c]"]
    by (simp add: prv_encodeBlock_def and_masks b64_char_inverse sextets not_le Let_def
        put_byte_def octets_first octets_first' octets_second octets_third octets_rest)
qed (simp_all add: and_masks b64_char_inverse sextets not_le Let_def put_byte_def
    octets_first octets_first' octets_second octets_second' octets_rest)

text \<open>C16: decoding the base64 text of any data gives the data back, in every buffer that has room
  for it, and the encoder writes exactly \<open>utils_base64GetSize\<close> bytes.\<close>

theorem utils_base64_roundtrip:
  assumes "utils_base64GetSize (length dataP) \<le> bufferLen" "length dataP \<le> outLen"
  shows "length (utils_base64Encode dataP bufferLen) = utils_base64GetSize (length dataP)
    \<and> utils_base64Decode (utils_base64Encode dataP bufferLen) outLen = Ret (Some dataP)"
  using assms decode_encode_loop [of "[]" dataP "length dataP" outLen]
  by (simp add: utils_base64Encode_def utils_base64Decode_def length_base64Encode_loop
      decodedSize_encode Let_def)

theorem utils_base64_roundtrip_witness:
  "utils_base64Decode (utils_base64Encode [0x4D, 0x61] 4) 2 = Ret (Some [0x4D, 0x61])"
  using utils_base64_roundtrip [of "[0x4D, 0x61]" 4 2] by (simp add: utils_base64GetSize_def)

text \<open>whatever text it is given, \<open>utils_base64Decode\<close> never writes outside its output buffer,
  and when it succeeds the size it announces, \<open>utils_base64GetDecodedSize\<close>, is the number of
  bytes it wrote.\<close>

theorem utils_base64Decode_safe:
  "utils_base64Decode dataP bufferLen \<noteq> UB
   \<and> (\<forall>r. utils_base64Decode dataP bufferLen = Ret (Some r) \<longrightarrow>
        length r = utils_base64GetDecodedSize dataP \<and> length r \<le> bufferLen)"
  using base64Decode_loop_safe [of "[]" dataP "utils_base64GetDecodedSize dataP" bufferLen]
  by (auto simp: utils_base64Decode_def Let_def)

theorem utils_base64Decode_safe_witness:
  "utils_base64Decode [0x54, 0x51, 0x3D, 0x3D] 1 \<noteq> UB"
  using utils_base64Decode_safe [of "[0x54, 0x51, 0x3D, 0x3D]" 1] by blast

end
