(* ===== verification/Uri.thy ===== *)
theory Uri
  imports TextConv Formats
begin

text \<open>
  The URI functions of \<open>core/uri.c\<close>: parsing numbers, decoding the Uri-Path option of a request
  (\<open>uri_decode\<close>), and the string forms (\<open>lwm2m_stringToUri\<close>, \<open>lwm2m_uriToString\<close>), in the build
  without \<open>LWM2M_VERSION_1_0\<close>.  The \<open>int\<close> of \<open>prv_parseNumber\<close> overflows with undefined
  behaviour, which is the outcome \<open>UB\<close>, as is a read outside the buffer or the segment given.
  The option list is the list of its segments; a \<open>NULL\<close> list is the empty one.  The characters of
  \<open>altPath\<close> are compared as bytes (\<open>utils_isAltPathValid\<close> only lets ASCII through).
\<close>

section \<open>Data\<close>

record lwm2m_uri_t =
  objectId :: u16
  instanceId :: u16
  resourceId :: u16
  resourceInstanceId :: u16

definition LWM2M_URI_RESET :: lwm2m_uri_t where
  "LWM2M_URI_RESET = \<lparr>objectId = LWM2M_MAX_ID, instanceId = LWM2M_MAX_ID,
     resourceId = LWM2M_MAX_ID, resourceInstanceId = LWM2M_MAX_ID\<rparr>"

abbreviation is_set_object :: "lwm2m_uri_t \<Rightarrow> bool" where
  "is_set_object u \<equiv> objectId u \<noteq> LWM2M_MAX_ID"
abbreviation is_set_instance :: "lwm2m_uri_t \<Rightarrow> bool" where
  "is_set_instance u \<equiv> instanceId u \<noteq> LWM2M_MAX_ID"
abbreviation is_set_resource :: "lwm2m_uri_t \<Rightarrow> bool" where
  "is_set_resource u \<equiv> resourceId u \<noteq> LWM2M_MAX_ID"
abbreviation is_set_resource_instance :: "lwm2m_uri_t \<Rightarrow> bool" where
  "is_set_resource_instance u \<equiv> resourceInstanceId u \<noteq> LWM2M_MAX_ID"

datatype lwm2m_request_type_t =
  LWM2M_REQUEST_TYPE_UNKNOWN | LWM2M_REQUEST_TYPE_DM | LWM2M_REQUEST_TYPE_REGISTRATION
| LWM2M_REQUEST_TYPE_BOOTSTRAP | LWM2M_REQUEST_TYPE_DELETE_ALL

abbreviation URI_REGISTRATION_SEGMENT :: bytes where "URI_REGISTRATION_SEGMENT \<equiv> [0x72, 0x64]"
abbreviation URI_BOOTSTRAP_SEGMENT :: bytes where "URI_BOOTSTRAP_SEGMENT \<equiv> [0x62, 0x73]"
abbreviation (input) INT_MAX :: int where "INT_MAX \<equiv> 2147483647"

section \<open>Numbers\<close>

text \<open>The \<open>while\<close> loop, over the bytes from \<open>*headP\<close> on: the result and \<open>*headP\<close>.\<close>

fun parseNumber_loop :: "bytes \<Rightarrow> int \<Rightarrow> nat \<Rightarrow> (int \<times> nat) outcome" where
  "parseNumber_loop [] result head = Ret (result, head)"
| "parseNumber_loop (c # cs) result head =
     (if c = ch_slash then Ret (result, head)
      else if ch_zero \<le> c \<and> c \<le> ch_nine then
        (if result * 10 > INT_MAX then UB
         else if result * 10 + (uint c - 48) > INT_MAX then UB
         else parseNumber_loop cs (result * 10 + (uint c - 48)) (head + 1))
      else Ret (-1, head))"

definition prv_parseNumber :: "bytes \<Rightarrow> nat \<Rightarrow> (int \<times> nat) outcome" where
  "prv_parseNumber uriString head =
     (if head \<ge> length uriString then UB
      else if uriString ! head = ch_slash then Ret (-1, head)
      else parseNumber_loop (drop head uriString) 0 head)"

definition uri_getNumber :: "bytes \<Rightarrow> int outcome" where
  "uri_getNumber uriString = oc_bind (prv_parseNumber uriString 0) (\<lambda>(n, head). Ret n)"

section \<open>The Uri-Path option\<close>

text \<open>The comparison loop with \<open>altPath + 1\<close>, whose terminating NUL may be read, but no byte
  after it.\<close>

fun altPath_match :: "bytes \<Rightarrow> bytes \<Rightarrow> bool outcome" where
  "altPath_match [] as = Ret True"
| "altPath_match (d # ds) [] =
     (if d \<noteq> 0 then Ret False else if ds = [] then Ret True else UB)"
| "altPath_match (d # ds) (a # as) = (if d \<noteq> a then Ret False else altPath_match ds as)"

text \<open>\<open>readNum = uri_getNumber(...); if (readNum < 0 || readNum >= LWM2M_MAX_ID) goto error\<close>:
  \<open>None\<close> is the jump.\<close>

definition uri_segmentId :: "bytes \<Rightarrow> u16 option outcome" where
  "uri_segmentId seg = oc_bind (uri_getNumber seg) (\<lambda>readNum.
     if readNum < 0 \<or> readNum \<ge> uint LWM2M_MAX_ID then Ret None
     else Ret (Some (word_of_int readNum)))"

abbreviation uri_error :: "(lwm2m_request_type_t \<times> lwm2m_uri_t) outcome" where
  "uri_error \<equiv> Ret (LWM2M_REQUEST_TYPE_UNKNOWN, LWM2M_URI_RESET)"

text \<open>From the resource instance segment on.\<close>

definition uri_decode_resourceInstance ::
    "bytes list \<Rightarrow> lwm2m_uri_t \<Rightarrow> (lwm2m_request_type_t \<times> lwm2m_uri_t) outcome" where
  "uri_decode_resourceInstance uriPath uriP =
     (case uriPath of
        [] \<Rightarrow> Ret (LWM2M_REQUEST_TYPE_DM, uriP)
      | seg # rest \<Rightarrow>
          if seg \<noteq> [] then
            (if \<not> is_set_resource uriP then uri_error
             else oc_bind (uri_segmentId seg) (\<lambda>r. case r of None \<Rightarrow> uri_error
               | Some i \<Rightarrow> if rest = [] then Ret (LWM2M_REQUEST_TYPE_DM, uriP\<lparr>resourceInstanceId := i\<rparr>)
                           else uri_error))
          else if rest = [] then Ret (LWM2M_REQUEST_TYPE_DM, uriP) else uri_error)"

text \<open>From the resource segment on.\<close>

definition uri_decode_resource ::
    "bytes list \<Rightarrow> lwm2m_uri_t \<Rightarrow> (lwm2m_request_type_t \<times> lwm2m_uri_t) outcome" where
  "uri_decode_resource uriPath uriP =
     (case uriPath of
        [] \<Rightarrow> Ret (LWM2M_REQUEST_TYPE_DM, uriP)
      | seg # rest \<Rightarrow>
          if seg \<noteq> [] then
            (if \<not> is_set_instance uriP then uri_error
             else oc_bind (uri_segmentId seg) (\<lambda>r. case r of None \<Rightarrow> uri_error
               | Some i \<Rightarrow> uri_decode_resourceInstance rest (uriP\<lparr>resourceId := i\<rparr>)))
          else uri_decode_resourceInstance rest uriP)"

text \<open>From the object instance segment on.\<close>

definition uri_decode_instance ::
    "bytes list \<Rightarrow> lwm2m_uri_t \<Rightarrow> (lwm2m_request_type_t \<times> lwm2m_uri_t) outcome" where
  "uri_decode_instance uriPath uriP =
     (case uriPath of
        [] \<Rightarrow> Ret (LWM2M_REQUEST_TYPE_DM, uriP)
      | seg # rest \<Rightarrow>
          if seg \<noteq> [] then
            oc_bind (uri_segmentId seg) (\<lambda>r. case r of None \<Rightarrow> uri_error
               | Some i \<Rightarrow> uri_decode_resource rest (uriP\<lparr>instanceId := i\<rparr>))
          else uri_decode_resource rest uriP)"

text \<open>From the object segment on, for a device management request.\<close>

definition uri_decode_object ::
    "bytes list \<Rightarrow> u8 \<Rightarrow> (lwm2m_request_type_t \<times> lwm2m_uri_t) outcome" where
  "uri_decode_object uriPath code =
     (case uriPath of
        [] \<Rightarrow> Ret (if code = COAP_DELETE then LWM2M_REQUEST_TYPE_DELETE_ALL
                   else LWM2M_REQUEST_TYPE_DM, LWM2M_URI_RESET)
      | seg # rest \<Rightarrow>
          if seg = [] then
            Ret (if code = COAP_DELETE then LWM2M_REQUEST_TYPE_DELETE_ALL
                 else LWM2M_REQUEST_TYPE_DM, LWM2M_URI_RESET)
          else oc_bind (uri_segmentId seg) (\<lambda>r. case r of None \<Rightarrow> uri_error
            | Some i \<Rightarrow> uri_decode_instance rest (LWM2M_URI_RESET\<lparr>objectId := i\<rparr>)))"

definition uri_decode ::
    "bytes option \<Rightarrow> bytes list \<Rightarrow> u8 \<Rightarrow> (lwm2m_request_type_t \<times> lwm2m_uri_t) outcome" where
  "uri_decode altPath uriPath code =
     (if uriPath \<noteq> [] \<and> hd uriPath = URI_REGISTRATION_SEGMENT then
        (case tl uriPath of
           [] \<Rightarrow> Ret (LWM2M_REQUEST_TYPE_REGISTRATION, LWM2M_URI_RESET)
         | seg # rest \<Rightarrow>
             oc_bind (uri_segmentId seg) (\<lambda>r. case r of None \<Rightarrow> uri_error
               | Some i \<Rightarrow> if rest \<noteq> [] then uri_error
                   else Ret (LWM2M_REQUEST_TYPE_REGISTRATION, LWM2M_URI_RESET\<lparr>objectId := i\<rparr>)))
      else if uriPath \<noteq> [] \<and> hd uriPath = URI_BOOTSTRAP_SEGMENT then
        (if tl uriPath \<noteq> [] then uri_error
         else Ret (LWM2M_REQUEST_TYPE_BOOTSTRAP, LWM2M_URI_RESET))
      else
        (case altPath of
           None \<Rightarrow> uri_decode_object uriPath code
         | Some path \<Rightarrow>
             (case uriPath of
                [] \<Rightarrow> Ret (LWM2M_REQUEST_TYPE_UNKNOWN, LWM2M_URI_RESET)
              | seg # rest \<Rightarrow>
                  (if path = [] \<and> seg \<noteq> [] then UB
                   else oc_bind (altPath_match seg (tl path)) (\<lambda>same.
                     if same then uri_decode_object rest code
                     else Ret (LWM2M_REQUEST_TYPE_UNKNOWN, LWM2M_URI_RESET))))))"

section \<open>URI strings\<close>

definition isspace :: "u8 \<Rightarrow> bool" where
  "isspace c \<longleftrightarrow> c = 0x20 \<or> (0x09 \<le> c \<and> c \<le> 0x0D)"

text \<open>\<open>readNum = prv_parseNumber(...); if (readNum < 0 || readNum >= LWM2M_MAX_ID) return 0\<close>:
  the identifier and the new \<open>head\<close>.\<close>

definition uri_readId :: "bytes \<Rightarrow> nat \<Rightarrow> (u16 \<times> nat) option outcome" where
  "uri_readId buffer head = oc_bind (prv_parseNumber buffer head) (\<lambda>(readNum, head').
     if readNum < 0 \<or> readNum \<ge> uint LWM2M_MAX_ID then Ret None
     else Ret (Some (word_of_int readNum, head')))"

definition uri_skipSlash :: "bytes \<Rightarrow> nat \<Rightarrow> nat" where
  "uri_skipSlash buffer head =
     (if head < length buffer \<and> buffer ! head = ch_slash then head + 1 else head)"

definition lwm2m_stringToUri :: "bytes \<Rightarrow> (nat \<times> lwm2m_uri_t) outcome" where
  "lwm2m_stringToUri buffer =
     (let n = length buffer; head = length (takeWhile isspace buffer); u0 = LWM2M_URI_RESET in
      if n = 0 then Ret (0, u0)
      else if head = n then Ret (0, u0)
      else if buffer ! head \<noteq> ch_slash then Ret (0, u0)
      else if head + 1 < n then
        oc_bind (uri_readId buffer (head + 1)) (\<lambda>r1. case r1 of None \<Rightarrow> Ret (0, u0)
        | Some (i1, head1) \<Rightarrow>
          let u1 = u0\<lparr>objectId := i1\<rparr>; h1 = uri_skipSlash buffer head1 in
          if h1 < n then
            oc_bind (uri_readId buffer h1) (\<lambda>r2. case r2 of None \<Rightarrow> Ret (0, u1)
            | Some (i2, head2) \<Rightarrow>
              let u2 = u1\<lparr>instanceId := i2\<rparr>; h2 = uri_skipSlash buffer head2 in
              if h2 < n then
                oc_bind (uri_readId buffer h2) (\<lambda>r3. case r3 of None \<Rightarrow> Ret (0, u2)
                | Some (i3, head3) \<Rightarrow>
                  let u3 = u2\<lparr>resourceId := i3\<rparr>; h3 = uri_skipSlash buffer head3 in
                  if h3 < n then
                    oc_bind (uri_readId buffer h3) (\<lambda>r4. case r4 of None \<Rightarrow> Ret (0, u3)
                    | Some (i4, head4) \<Rightarrow>
                      let u4 = u3\<lparr>resourceInstanceId := i4\<rparr> in
                      if head4 \<noteq> n then Ret (0, u4) else Ret (head4, u4))
                  else if h3 \<noteq> n then Ret (0, u3) else Ret (h3, u3))
              else Ret (h2, u2))
          else Ret (h1, u1))
      else Ret (head + 1, u0))"

text \<open>One segment of \<open>lwm2m_uriToString\<close>: the slash and the number.  The new \<open>head\<close>, or
  \<open>None\<close> for \<open>return -1\<close>, and the buffer.\<close>

definition uriToString_segment :: "u16 \<Rightarrow> bytes \<Rightarrow> nat \<Rightarrow> nat option \<times> bytes" where
  "uriToString_segment i buffer head =
     (if head \<ge> length buffer - 1 then (None, buffer)
      else let buffer1 = buffer[head := ch_slash];
               (res, rest) = utils_intToText (ucast i) (drop (head + 1) buffer1)
           in (if res = 0 then None else Some (head + 1 + res), take (head + 1) buffer1 @ rest))"

text \<open>The result (\<open>None\<close> for -1), the buffer and \<open>*depthP\<close>, which is only written on success.
  An empty buffer is written to: \<open>bufferLen - 1\<close> wraps to the largest \<open>size_t\<close>.\<close>

definition lwm2m_uriToString ::
    "lwm2m_uri_t \<Rightarrow> bytes \<Rightarrow> (nat option \<times> bytes \<times> uri_depth_t option) outcome" where
  "lwm2m_uriToString uriP buffer =
     (if buffer = [] then UB
      else if is_set_object uriP then
        (case uriToString_segment (objectId uriP) buffer 0 of
           (None, b1) \<Rightarrow> Ret (None, b1, None)
         | (Some h1, b1) \<Rightarrow>
           if \<not> is_set_instance uriP then Ret (Some h1, b1, Some URI_DEPTH_OBJECT)
           else (case uriToString_segment (instanceId uriP) b1 h1 of
              (None, b2) \<Rightarrow> Ret (None, b2, None)
            | (Some h2, b2) \<Rightarrow>
              if \<not> is_set_resource uriP then Ret (Some h2, b2, Some URI_DEPTH_OBJECT_INSTANCE)
              else (case uriToString_segment (resourceId uriP) b2 h2 of
                 (None, b3) \<Rightarrow> Ret (None, b3, None)
               | (Some h3, b3) \<Rightarrow>
                 if \<not> is_set_resource_instance uriP then Ret (Some h3, b3, Some URI_DEPTH_RESOURCE)
                 else (case uriToString_segment (resourceInstanceId uriP) b3 h3 of
                    (None, b4) \<Rightarrow> Ret (None, b4, None)
                  | (Some h4, b4) \<Rightarrow> Ret (Some h4, b4, Some URI_DEPTH_RESOURCE_INSTANCE)))))
      else if 0 \<ge> length buffer - 1 then Ret (None, buffer, None)
      else Ret (Some 1, buffer[0 := ch_slash], Some URI_DEPTH_NONE))"

section \<open>Parsing numbers\<close>

definition ends_segment :: "bytes \<Rightarrow> bool" where
  "ends_segment rest \<longleftrightarrow> rest = [] \<or> hd rest = ch_slash"

lemma digit_not_slash: "is_digit c \<Longrightarrow> c \<noteq> ch_slash"
  by (auto simp: is_digit_def word_le_nat_alt)

lemma digit_uint: "is_digit c \<Longrightarrow> uint c - 48 = int (digit_val c)"
  by (simp add: is_digit_def digit_val_def word_le_nat_alt of_nat_diff flip: uint_nat)

lemma parseNumber_loop_digits:
  assumes "\<forall>c\<in>set ds. is_digit c" "ends_segment rest" "int (dec_val_from r ds) \<le> INT_MAX"
  shows "parseNumber_loop (ds @ rest) (int r) h = Ret (int (dec_val_from r ds), h + length ds)"
  using assms
proof (induction ds arbitrary: r h)
  case Nil
  then show ?case by (cases rest) (auto simp: ends_segment_def)
next
  case (Cons c ds)
  have d: "is_digit c" using Cons.prems(1) by simp
  have "10 * r + digit_val c \<le> dec_val_from (10 * r + digit_val c) ds" by (rule dec_val_from_mono)
  then have small: "int r * 10 + int (digit_val c) \<le> INT_MAX"
    using Cons.prems(3) by simp
  have eq: "int r * 10 + (uint c - 48) = int (10 * r + digit_val c)"
    by (simp add: digit_uint [OF d])
  show ?case
    using Cons.IH [of "10 * r + digit_val c" "Suc h"] Cons.prems small d
    by (simp add: eq digit_not_slash is_digit_def [symmetric] del: of_nat_add of_nat_mult)
qed

text \<open>The value grows with every digit, so a value that does not fit overflows on the way.\<close>

lemma parseNumber_loop_overflow:
  assumes "\<forall>c\<in>set ds. is_digit c" "int r \<le> INT_MAX" "INT_MAX < int (dec_val_from r ds)"
  shows "parseNumber_loop (ds @ rest) (int r) h = UB"
  using assms
proof (induction ds arbitrary: r h)
  case (Cons c ds)
  have d: "is_digit c" using Cons.prems(1) by simp
  have eq: "int r * 10 + (uint c - 48) = int (10 * r + digit_val c)"
    by (simp add: digit_uint [OF d])
  show ?case
    using Cons.IH [of "10 * r + digit_val c" "Suc h"] Cons.prems d
    by (simp add: eq digit_not_slash is_digit_def [symmetric] not_le del: of_nat_add of_nat_mult)
qed simp

lemma prv_parseNumber_dec_text:
  assumes "ends_segment rest" "int n \<le> INT_MAX"
  shows "prv_parseNumber (pre @ dec_text n @ rest) (length pre)
    = Ret (int n, length pre + length (dec_text n))"
proof -
  obtain c cs where t: "dec_text n = c # cs" by (cases "dec_text n") auto
  then have "is_digit c" using dec_text_digits [of c n] by simp
  with t digit_not_slash have "c \<noteq> ch_slash" by blast
  moreover have "parseNumber_loop (dec_text n @ rest) (int 0) (length pre)
      = Ret (int (dec_val_from 0 (dec_text n)), length pre + length (dec_text n))"
    using assms dec_val_dec_text [of n] dec_text_digits [of _ n]
    by (intro parseNumber_loop_digits) (auto simp: dec_val_def)
  moreover have "dec_val_from 0 (dec_text n) = n" using dec_val_dec_text [of n] by (simp add: dec_val_def)
  ultimately show ?thesis using t by (simp add: prv_parseNumber_def)
qed

lemma id_of_readNum: "word_of_int (int (unat (i :: u16))) = i"
  by (simp add: word_unat_eq_iff)

lemma id_readNum_bound:
  assumes "i \<noteq> LWM2M_MAX_ID"
  shows "int (unat (i :: u16)) < 65535"
proof -
  have "unat i \<noteq> 65535" using assms by (simp add: word_unat_eq_iff)
  then have "unat i < 65535" using unat_u16_less [of i] by linarith
  then have "int (unat i) < int 65535" by (simp only: of_nat_less_iff)
  then show ?thesis by simp
qed

lemma uri_segmentId_text:
  assumes "i \<noteq> LWM2M_MAX_ID"
  shows "uri_segmentId (dec_text (unat i)) = Ret (Some i)"
  using prv_parseNumber_dec_text [of "[]" "unat i" "[]"] id_readNum_bound [OF assms] id_of_readNum [of i]
  by (simp add: uri_segmentId_def uri_getNumber_def ends_segment_def flip: uint_nat)

lemma uri_readId_text:
  assumes "i \<noteq> LWM2M_MAX_ID" "ends_segment rest" "b = pre @ dec_text (unat i) @ rest" "h = length pre"
  shows "uri_readId b h = Ret (Some (i, h + length (dec_text (unat i))))"
  using prv_parseNumber_dec_text [of rest "unat i" pre] id_readNum_bound [OF assms(1)]
    id_of_readNum [of i] assms(2-)
  by (simp add: uri_readId_def flip: uint_nat)

section \<open>The text of a URI\<close>

text \<open>The URIs of the data model: no identifier is set below one that is not.\<close>

definition uri_wf :: "lwm2m_uri_t \<Rightarrow> bool" where
  "uri_wf u \<longleftrightarrow> (is_set_instance u \<longrightarrow> is_set_object u) \<and> (is_set_resource u \<longrightarrow> is_set_instance u)
     \<and> (is_set_resource_instance u \<longrightarrow> is_set_resource u)"

definition uri_ids :: "lwm2m_uri_t \<Rightarrow> u16 list" where
  "uri_ids u = takeWhile (\<lambda>i. i \<noteq> LWM2M_MAX_ID)
     [objectId u, instanceId u, resourceId u, resourceInstanceId u]"

definition uri_text :: "u16 list \<Rightarrow> bytes" where
  "uri_text is = (if is = [] then [ch_slash]
     else concat (map (\<lambda>i. ch_slash # dec_text (unat i)) is))"

definition uri_of :: "u16 list \<Rightarrow> lwm2m_uri_t" where
  "uri_of is = \<lparr>objectId = (if 0 < length is then is ! 0 else LWM2M_MAX_ID),
     instanceId = (if 1 < length is then is ! 1 else LWM2M_MAX_ID),
     resourceId = (if 2 < length is then is ! 2 else LWM2M_MAX_ID),
     resourceInstanceId = (if 3 < length is then is ! 3 else LWM2M_MAX_ID)\<rparr>"

lemma uri_of_ids: "uri_wf u \<Longrightarrow> uri_of (uri_ids u) = u"
  by (cases u) (auto simp: uri_wf_def uri_of_def uri_ids_def)

lemma uri_ids_set: "i \<in> set (uri_ids u) \<Longrightarrow> i \<noteq> LWM2M_MAX_ID"
  by (auto simp: uri_ids_def dest: set_takeWhileD)

lemma length_uri_ids: "length (uri_ids u) \<le> 4"
  by (simp add: uri_ids_def)

lemma ends_segment_uri [simp]:
  "ends_segment []" "ends_segment (ch_slash # cs)"
  by (simp_all add: ends_segment_def)

lemma length_dec_text_id: "length (dec_text (unat (i :: u16))) \<le> 5"
  using unat_u16_less [of i] by (simp add: length_dec_text_le del: unat_u16_less)

lemma length_dec_text_pos: "0 < length (dec_text n)"
  by simp

lemma uri_ids_cases:
  obtains "uri_ids u = []" | a where "uri_ids u = [a]" | a b where "uri_ids u = [a, b]"
  | a b c where "uri_ids u = [a, b, c]" | a b c d where "uri_ids u = [a, b, c, d]"
proof -
  consider "length (uri_ids u) = 0" | "length (uri_ids u) = 1" | "length (uri_ids u) = 2"
    | "length (uri_ids u) = 3" | "length (uri_ids u) = 4"
    using length_uri_ids [of u] by linarith
  then show thesis
    using that by cases (auto simp: length_Suc_conv numeral_eq_Suc)
qed

lemma not_isspace_slash: "\<not> isspace ch_slash"
  by (simp add: isspace_def)

lemma nth_at_length: "b = pre @ c # cs \<Longrightarrow> h = length pre \<Longrightarrow> b ! h = c"
  by simp

lemma stringToUri_ids:
  assumes "uri_wf u"
  shows "lwm2m_stringToUri (uri_text (uri_ids u)) = Ret (length (uri_text (uri_ids u)), u)"
proof -
  let ?is = "uri_ids u"
  let ?n = "\<lambda>i. length (dec_text (unat (i :: u16)))"
  have rd: "uri_readId (uri_text ?is) h = Ret (Some (i, h'))"
    if "uri_text ?is = pre @ dec_text (unat i) @ rest" "h = length pre" "h' = h + ?n i" "i \<in> set ?is"
      "ends_segment rest"
    for pre i rest h h' using uri_readId_text [of i rest "uri_text ?is" pre h] that uri_ids_set by blast
  note defs = lwm2m_stringToUri_def Let_def not_isspace_slash uri_skipSlash_def uri_of_def
    LWM2M_URI_RESET_def uri_text_def nth_append
  have "lwm2m_stringToUri (uri_text ?is) = Ret (length (uri_text ?is), uri_of ?is)"
  proof (cases rule: uri_ids_cases [of u])
    case 1
    then show ?thesis by (simp add: defs)
  next
    case (2 a)
    have "uri_readId (uri_text ?is) 1 = Ret (Some (a, 1 + ?n a))"
      by (rule rd [of "[ch_slash]" _ "[]"]) (auto simp: 2 uri_text_def)
    with 2 show ?thesis by (simp add: defs)
  next
    case (3 a b)
    have "uri_readId (uri_text ?is) 1 = Ret (Some (a, 1 + ?n a))"
      by (rule rd [of "[ch_slash]" _ "ch_slash # dec_text (unat b)"]) (auto simp: 3 uri_text_def)
    moreover have "uri_readId (uri_text ?is) (2 + ?n a) = Ret (Some (b, 2 + ?n a + ?n b))"
      by (rule rd [of "[ch_slash] @ dec_text (unat a) @ [ch_slash]" _ "[]"]) (auto simp: 3 uri_text_def)
    ultimately show ?thesis using 3 by (simp add: defs)
  next
    case (4 a b c)
    have "uri_readId (uri_text ?is) 1 = Ret (Some (a, 1 + ?n a))"
      by (rule rd [of "[ch_slash]" _ "ch_slash # dec_text (unat b) @ ch_slash # dec_text (unat c)"])
        (auto simp: 4 uri_text_def)
    moreover have "uri_readId (uri_text ?is) (2 + ?n a) = Ret (Some (b, 2 + ?n a + ?n b))"
      by (rule rd [of "[ch_slash] @ dec_text (unat a) @ [ch_slash]" _ "ch_slash # dec_text (unat c)"])
        (auto simp: 4 uri_text_def)
    moreover have "uri_readId (uri_text ?is) (Suc (Suc (Suc (?n a + ?n b)))) = Ret (Some (c, Suc (Suc (Suc (?n a + ?n b + ?n c)))))"
      by (rule rd [of "[ch_slash] @ dec_text (unat a) @ [ch_slash] @ dec_text (unat b) @ [ch_slash]" _ "[]"])
        (auto simp: 4 uri_text_def)
    ultimately show ?thesis using 4 by (simp add: defs add.assoc)
  next
    case (5 a b c d)
    have "uri_readId (uri_text ?is) 1 = Ret (Some (a, 1 + ?n a))"
      by (rule rd [of "[ch_slash]" _ "ch_slash # dec_text (unat b) @ ch_slash # dec_text (unat c)
            @ ch_slash # dec_text (unat d)"]) (auto simp: 5 uri_text_def)
    moreover have "uri_readId (uri_text ?is) (2 + ?n a) = Ret (Some (b, 2 + ?n a + ?n b))"
      by (rule rd [of "[ch_slash] @ dec_text (unat a) @ [ch_slash]" _
            "ch_slash # dec_text (unat c) @ ch_slash # dec_text (unat d)"]) (auto simp: 5 uri_text_def)
    moreover have "uri_readId (uri_text ?is) (Suc (Suc (Suc (?n a + ?n b)))) = Ret (Some (c, Suc (Suc (Suc (?n a + ?n b + ?n c)))))"
      by (rule rd [of "[ch_slash] @ dec_text (unat a) @ [ch_slash] @ dec_text (unat b) @ [ch_slash]" _
            "ch_slash # dec_text (unat d)"]) (auto simp: 5 uri_text_def)
    moreover have "uri_readId (uri_text ?is) (Suc (Suc (Suc (Suc (?n a + ?n b + ?n c)))))
        = Ret (Some (d, Suc (Suc (Suc (Suc (?n a + ?n b + ?n c + ?n d))))))"
      by (rule rd [of "[ch_slash] @ dec_text (unat a) @ [ch_slash] @ dec_text (unat b) @ [ch_slash]
            @ dec_text (unat c) @ [ch_slash]" _ "[]"]) (auto simp: 5 uri_text_def)
    ultimately show ?thesis using 5 by (simp add: defs add.assoc)
  qed
  then show ?thesis using uri_of_ids [OF assms] by simp
qed

section \<open>Writing a URI\<close>

lemma intToText_id: "utils_intToText (ucast (i :: u16)) s = utils_uintToText (ucast i) s"
proof -
  have "unat (ucast i :: u64) < 2 ^ 63" using unat_u16_less [of i] by (simp del: unat_u16_less)
  then have "\<not> sint (ucast i :: u64) < 0" by (simp only: sint_neg_iff not_le)
  then show ?thesis by (simp add: utils_intToText_def)
qed

lemma uriToString_segment_fits:
  assumes "h + 1 + length (dec_text (unat i)) \<le> length buffer"
  obtains b where "uriToString_segment i buffer h = (Some (h + 1 + length (dec_text (unat i))), b)"
    "length b = length buffer"
    "take (h + 1 + length (dec_text (unat i))) b = take h buffer @ ch_slash # dec_text (unat i)"
proof -
  let ?d = "dec_text (unat i)" and ?b1 = "buffer[h := ch_slash]"
  obtain r t where rt: "utils_intToText (ucast i) (drop (h + 1) ?b1) = (r, t)" by fastforce
  have "r = length ?d" "take (length ?d) t = ?d" "length t = length buffer - (h + 1)"
    using utils_uintToText_fits [of "ucast i" "drop (h + 1) ?b1"] assms rt
      length_uintToText_eq [of "ucast i" "drop (h + 1) ?b1" r t] by (auto simp: intToText_id)
  moreover have "h < length buffer - 1" using assms length_dec_text_pos [of "unat i"] by linarith
  moreover from this have "take (h + 1) ?b1 = take h buffer @ [ch_slash]"
    by (simp add: take_Suc_conv_app_nth)
  ultimately show thesis using assms rt
    by (intro that [of "take (h + 1) ?b1 @ t"])
      (auto simp: uriToString_segment_def Let_def not_le simp del: One_nat_def, simp)
qed

lemma uriToString_segment_short:
  assumes "length buffer < h + 1 + length (dec_text (unat i))"
  shows "fst (uriToString_segment i buffer h) = None"
proof (cases "h < length buffer - 1")
  case True
  with assms have "length (drop (h + 1) (buffer[h := ch_slash])) < length (dec_text (unat (ucast i :: u64)))"
    by simp
  from utils_uintToText_too_long [OF this] show ?thesis
    by (auto simp: uriToString_segment_def Let_def intToText_id split: prod.splits)
qed (simp add: uriToString_segment_def)

definition uri_depth :: "u16 list \<Rightarrow> uri_depth_t" where
  "uri_depth is = [URI_DEPTH_NONE, URI_DEPTH_OBJECT, URI_DEPTH_OBJECT_INSTANCE, URI_DEPTH_RESOURCE,
     URI_DEPTH_RESOURCE_INSTANCE] ! length is"

lemma uriToString_written:
  assumes "length (uri_text (uri_ids u)) \<le> length buffer" "2 \<le> length buffer"
  shows "\<exists>b. lwm2m_uriToString u buffer
      = Ret (Some (length (uri_text (uri_ids u))), b, Some (uri_depth (uri_ids u)))
    \<and> length b = length buffer \<and> take (length (uri_text (uri_ids u))) b = uri_text (uri_ids u)"
proof -
  let ?n = "\<lambda>i. length (dec_text (unat (i :: u16)))"
  have seg: "\<exists>b'. uriToString_segment i b h = (Some h', b') \<and> length b' = length buffer
      \<and> take h' b' = t @ ch_slash # dec_text (unat i)"
    if "take h b = t" "length b = length buffer" "h' = h + 1 + ?n i" "h' \<le> length buffer" for i b h h' t
    using uriToString_segment_fits [of h i b] that by metis
  note defs = lwm2m_uriToString_def uri_depth_def uri_text_def uri_ids_def
  have ne: "buffer \<noteq> []" using assms(2) by auto
  show ?thesis
  proof (cases rule: uri_ids_cases [of u])
    case 1
    with assms ne show ?thesis
      by (auto simp: defs take_Suc_conv_app_nth split: if_splits)
  next
    case (2 a)
    from 2 assms obtain b1 where "uriToString_segment a buffer 0 = (Some (1 + ?n a), b1)"
        "length b1 = length buffer" "take (1 + ?n a) b1 = ch_slash # dec_text (unat a)"
      using seg [of 0 buffer "[]" "1 + ?n a" a] by (auto simp: uri_text_def)
    with 2 assms ne show ?thesis by (auto simp: defs split: if_splits)
  next
    case (3 a b)
    from 3 assms obtain b1 where "uriToString_segment a buffer 0 = (Some (1 + ?n a), b1)"
        "length b1 = length buffer" "take (1 + ?n a) b1 = ch_slash # dec_text (unat a)"
      using seg [of 0 buffer "[]" "1 + ?n a" a] by (auto simp: uri_text_def)
    moreover from this 3 assms obtain b2 where
        "uriToString_segment b b1 (1 + ?n a) = (Some (2 + ?n a + ?n b), b2)"
        "length b2 = length buffer"
        "take (2 + ?n a + ?n b) b2 = ch_slash # dec_text (unat a) @ ch_slash # dec_text (unat b)"
      using seg [of "1 + ?n a" b1 _ "2 + ?n a + ?n b" b] by (auto simp: uri_text_def)
    ultimately show ?thesis using 3 assms ne by (auto simp: defs split: if_splits)
  next
    case (4 a b c)
    from 4 assms obtain b1 where "uriToString_segment a buffer 0 = (Some (1 + ?n a), b1)"
        "length b1 = length buffer" "take (1 + ?n a) b1 = ch_slash # dec_text (unat a)"
      using seg [of 0 buffer "[]" "1 + ?n a" a] by (auto simp: uri_text_def)
    moreover from this 4 assms obtain b2 where
        "uriToString_segment b b1 (1 + ?n a) = (Some (2 + ?n a + ?n b), b2)"
        "length b2 = length buffer"
        "take (2 + ?n a + ?n b) b2 = ch_slash # dec_text (unat a) @ ch_slash # dec_text (unat b)"
      using seg [of "1 + ?n a" b1 _ "2 + ?n a + ?n b" b] by (auto simp: uri_text_def)
    moreover from this 4 assms obtain b3 where
        "uriToString_segment c b2 (2 + ?n a + ?n b) = (Some (3 + ?n a + ?n b + ?n c), b3)"
        "length b3 = length buffer"
        "take (3 + ?n a + ?n b + ?n c) b3
          = ch_slash # dec_text (unat a) @ ch_slash # dec_text (unat b) @ ch_slash # dec_text (unat c)"
      using seg [of "2 + ?n a + ?n b" b2 _ "3 + ?n a + ?n b + ?n c" c] by (auto simp: uri_text_def)
    ultimately show ?thesis using 4 assms ne
      by (auto simp: defs add.assoc numeral_eq_Suc split: if_splits)
  next
    case (5 a b c d)
    from 5 assms obtain b1 where "uriToString_segment a buffer 0 = (Some (1 + ?n a), b1)"
        "length b1 = length buffer" "take (1 + ?n a) b1 = ch_slash # dec_text (unat a)"
      using seg [of 0 buffer "[]" "1 + ?n a" a] by (auto simp: uri_text_def)
    moreover from this 5 assms obtain b2 where
        "uriToString_segment b b1 (1 + ?n a) = (Some (2 + ?n a + ?n b), b2)"
        "length b2 = length buffer"
        "take (2 + ?n a + ?n b) b2 = ch_slash # dec_text (unat a) @ ch_slash # dec_text (unat b)"
      using seg [of "1 + ?n a" b1 _ "2 + ?n a + ?n b" b] by (auto simp: uri_text_def)
    moreover from this 5 assms obtain b3 where
        "uriToString_segment c b2 (2 + ?n a + ?n b) = (Some (3 + ?n a + ?n b + ?n c), b3)"
        "length b3 = length buffer"
        "take (3 + ?n a + ?n b + ?n c) b3
          = ch_slash # dec_text (unat a) @ ch_slash # dec_text (unat b) @ ch_slash # dec_text (unat c)"
      using seg [of "2 + ?n a + ?n b" b2 _ "3 + ?n a + ?n b + ?n c" c] by (auto simp: uri_text_def)
    moreover from this 5 assms obtain b4 where
        "uriToString_segment d b3 (3 + ?n a + ?n b + ?n c) = (Some (4 + ?n a + ?n b + ?n c + ?n d), b4)"
        "length b4 = length buffer"
        "take (4 + ?n a + ?n b + ?n c + ?n d) b4
          = ch_slash # dec_text (unat a) @ ch_slash # dec_text (unat b) @ ch_slash # dec_text (unat c)
            @ ch_slash # dec_text (unat d)"
      using seg [of "3 + ?n a + ?n b + ?n c" b3 _ "4 + ?n a + ?n b + ?n c + ?n d" d]
      by (auto simp: uri_text_def)
    ultimately show ?thesis using 5 assms ne
      by (auto simp: defs add.assoc numeral_eq_Suc split: if_splits)
  qed
qed

lemma length_uri_text: "length (uri_text (uri_ids u)) \<le> 24"
proof (cases rule: uri_ids_cases [of u])
  case (5 a b c d)
  then show ?thesis
    using length_dec_text_id [of a] length_dec_text_id [of b] length_dec_text_id [of c]
      length_dec_text_id [of d] by (simp add: uri_text_def)
next
  case (4 a b c)
  then show ?thesis
    using length_dec_text_id [of a] length_dec_text_id [of b] length_dec_text_id [of c]
    by (simp add: uri_text_def)
next
  case (3 a b)
  then show ?thesis
    using length_dec_text_id [of a] length_dec_text_id [of b] by (simp add: uri_text_def)
next
  case (2 a)
  then show ?thesis using length_dec_text_id [of a] by (simp add: uri_text_def)
qed (simp add: uri_text_def)

section \<open>Decoding without undefined behaviour\<close>

lemma parseNumber_loop_short:
  assumes "0 \<le> r" "r < 10 ^ k" "k + length ds \<le> 9"
  shows "parseNumber_loop ds r h \<noteq> UB"
  using assms
proof (induction ds arbitrary: r h k)
  case (Cons c ds)
  show ?case
  proof (cases "ch_zero \<le> c \<and> c \<le> ch_nine \<and> c \<noteq> ch_slash")
    case True
    then have c: "0 \<le> uint c - 48" "uint c - 48 \<le> 9"
      by (simp_all add: word_le_def)
    let ?v = "r * 10 + (uint c - 48)"
    have v: "0 \<le> ?v" "?v < 10 ^ Suc k" using Cons.prems(1,2) c by simp_all
    have "(10::int) ^ Suc k \<le> 10 ^ 9" using Cons.prems(3) by (intro power_increasing) simp_all
    then have "?v \<le> INT_MAX" "r * 10 \<le> INT_MAX" using v c by simp_all
    with True v Cons.prems(3) show ?thesis
      using Cons.IH [of ?v "Suc k" "h + 1"] by simp
  qed auto
qed simp

lemma uri_segmentId_short: "seg \<noteq> [] \<Longrightarrow> length seg \<le> 9 \<Longrightarrow> uri_segmentId seg \<noteq> UB"
  using parseNumber_loop_short [of 0 0 seg 0]
  by (auto simp: uri_segmentId_def uri_getNumber_def prv_parseNumber_def oc_bind_eq_UB split: if_splits)

lemma uri_segmentId_set: "uri_segmentId seg = Ret (Some i) \<Longrightarrow> i \<noteq> LWM2M_MAX_ID"
proof
  assume "uri_segmentId seg = Ret (Some i)" "i = LWM2M_MAX_ID"
  then obtain n :: int where "0 \<le> n" "n < 65535" "word_of_int n = (LWM2M_MAX_ID :: u16)"
    by (auto simp: uri_segmentId_def oc_bind_eq_Ret not_le not_less split: if_splits)
  then have "uint (word_of_int n :: u16) = 65535" by simp
  moreover have "uint (word_of_int n :: u16) = n"
    using \<open>0 \<le> n\<close> \<open>n < 65535\<close> by (simp add: uint_word_of_int_eq take_bit_int_eq_self)
  ultimately show False using \<open>n < 65535\<close> by simp
qed

lemma dec_text_not_rd_bs:
  "dec_text n \<noteq> URI_REGISTRATION_SEGMENT" "dec_text n \<noteq> URI_BOOTSTRAP_SEGMENT"
  using dec_text_digits [of "0x72" n] dec_text_digits [of "0x62" n] by (auto simp: is_digit_def)

lemma uri_wf_reset [simp]: "uri_wf LWM2M_URI_RESET"
  by (simp add: uri_wf_def LWM2M_URI_RESET_def)

text \<open>What \<open>uri_decode\<close> returns at each depth, given the identifiers set so far.\<close>

lemma uri_decode_resourceInstance_ok:
  assumes "\<forall>seg\<in>set segs. length seg \<le> 9" "uri_wf u" "\<not> is_set_resource_instance u"
  shows "\<exists>t v. uri_decode_resourceInstance segs u = Ret (t, v) \<and> uri_wf v"
proof (cases segs)
  case (Cons seg rest)
  have "length seg \<le> 9" using assms(1) Cons by simp
  then show ?thesis
    using assms(2,3) uri_segmentId_short [of seg] Cons
    by (cases "uri_segmentId seg")
      (auto simp: uri_decode_resourceInstance_def uri_wf_def LWM2M_URI_RESET_def split: option.split)
qed (use assms in \<open>simp add: uri_decode_resourceInstance_def\<close>)

lemma uri_decode_resource_ok:
  assumes "\<forall>seg\<in>set segs. length seg \<le> 9" "uri_wf u" "\<not> is_set_resource u"
  shows "\<exists>t v. uri_decode_resource segs u = Ret (t, v) \<and> uri_wf v"
proof (cases segs)
  case (Cons seg rest)
  have "length seg \<le> 9" and rest: "\<forall>seg\<in>set rest. length seg \<le> 9" using assms(1) Cons by simp_all
  then show ?thesis
    using assms(2,3) uri_segmentId_short [of seg] uri_segmentId_set [of seg] Cons
    by (cases "uri_segmentId seg")
      (auto simp: uri_decode_resource_def uri_wf_def LWM2M_URI_RESET_def split: option.split
        intro!: uri_decode_resourceInstance_ok [OF rest, unfolded uri_wf_def])
qed (use assms in \<open>simp add: uri_decode_resource_def\<close>)

lemma uri_decode_instance_ok:
  assumes "\<forall>seg\<in>set segs. length seg \<le> 9" "uri_wf u" "is_set_object u" "\<not> is_set_instance u"
  shows "\<exists>t v. uri_decode_instance segs u = Ret (t, v) \<and> uri_wf v"
proof (cases segs)
  case (Cons seg rest)
  have "length seg \<le> 9" and rest: "\<forall>seg\<in>set rest. length seg \<le> 9" using assms(1) Cons by simp_all
  then show ?thesis
    using assms(2-) uri_segmentId_short [of seg] uri_segmentId_set [of seg] Cons
    by (cases "uri_segmentId seg")
      (auto simp: uri_decode_instance_def uri_wf_def LWM2M_URI_RESET_def split: option.split
        intro!: uri_decode_resource_ok [OF rest, unfolded uri_wf_def])
qed (use assms in \<open>simp add: uri_decode_instance_def\<close>)

lemma uri_decode_object_ok:
  assumes "\<forall>seg\<in>set segs. length seg \<le> 9"
  shows "\<exists>t v. uri_decode_object segs code = Ret (t, v) \<and> uri_wf v"
proof (cases segs)
  case (Cons seg rest)
  have "length seg \<le> 9" and rest: "\<forall>seg\<in>set rest. length seg \<le> 9" using assms(1) Cons by simp_all
  then show ?thesis
    using uri_segmentId_short [of seg] uri_segmentId_set [of seg] Cons
    by (cases "uri_segmentId seg")
      (auto simp: uri_decode_object_def uri_wf_def LWM2M_URI_RESET_def split: option.split
        intro!: uri_decode_instance_ok [OF rest, unfolded uri_wf_def])
qed (simp add: uri_decode_object_def)

lemma altPath_match_ret: "0 \<notin> set seg \<Longrightarrow> \<exists>b. altPath_match seg as = Ret b"
  by (induction seg "as" rule: altPath_match.induct) auto

lemma uri_segmentId_empty: "uri_segmentId [] = UB"
  by (simp add: uri_segmentId_def uri_getNumber_def prv_parseNumber_def)

text \<open>C10: decoding a Uri-Path whose segments have at most nine bytes, with or without an
  alternative path.  The alternative path, if any, is a string that is not empty, and the first
  segment then has no NUL (a NUL could match the one that ends the string, and the comparison goes
  on behind it).  Under these conditions an empty segment after \<open>rd\<close> is undefined behaviour (its
  first byte is read), and nothing else is: on every other path the function returns, and the URI
  it leaves in \<open>*uriP\<close> never has an identifier below one that is not set.\<close>

theorem uri_decode_wf:
  assumes "\<forall>seg\<in>set uriPath. length seg \<le> 9"
    and "\<forall>path. altPath = Some path \<longrightarrow> path \<noteq> [] \<and> (uriPath = [] \<or> 0 \<notin> set (hd uriPath))"
  shows "if \<exists>rest. uriPath = URI_REGISTRATION_SEGMENT # [] # rest
    then uri_decode altPath uriPath code = UB
    else \<exists>t u. uri_decode altPath uriPath code = Ret (t, u) \<and> uri_wf u"
proof (cases "uriPath \<noteq> [] \<and> hd uriPath = URI_REGISTRATION_SEGMENT")
  case rd: True
  show ?thesis
  proof (cases "tl uriPath")
    case (Cons seg rest)
    with rd have path: "uriPath = URI_REGISTRATION_SEGMENT # seg # rest" by (cases uriPath) auto
    show ?thesis
    proof (cases "seg = []")
      case True
      with path show ?thesis by (simp add: uri_decode_def uri_segmentId_empty)
    next
      case False
      moreover have "length seg \<le> 9" using assms(1) path by simp
      ultimately show ?thesis
        using uri_segmentId_short [of seg] path
        by (cases "uri_segmentId seg")
          (auto simp: uri_decode_def uri_wf_def LWM2M_URI_RESET_def dest: uri_segmentId_set split: option.split)
    qed
  qed (use rd in \<open>auto simp: uri_decode_def\<close>)
next
  case not_rd: False
  then have rd: "\<nexists>rest. uriPath = URI_REGISTRATION_SEGMENT # rest" by auto
  show ?thesis
  proof (cases altPath)
    case None
    with rd not_rd uri_decode_object_ok [OF assms(1)] show ?thesis by (auto simp: uri_decode_def)
  next
    case (Some path)
    show ?thesis
    proof (cases uriPath)
      case (Cons seg rest)
      obtain same where "altPath_match seg (tl path) = Ret same"
        using altPath_match_ret [of seg "tl path"] assms(2) Some Cons by auto
      moreover have "\<exists>t u. uri_decode_object rest code = Ret (t, u) \<and> uri_wf u"
        using assms(1) Cons by (intro uri_decode_object_ok) simp
      ultimately show ?thesis
        using Some Cons rd not_rd assms(2) by (auto simp: uri_decode_def)
    qed (use Some in \<open>simp add: uri_decode_def\<close>)
  qed
qed

theorem uri_decode_wf_witness:
  "(\<exists>t u. uri_decode (Some [0x2F, 0x61]) [[0x61], [0x33], [0x30]] 1 = Ret (t, u) \<and> uri_wf u)
    \<and> uri_decode None [URI_REGISTRATION_SEGMENT, []] 2 = UB"
  using uri_decode_wf [of "[[0x61], [0x33], [0x30]]" "Some [0x2F, 0x61]" 1]
    uri_decode_wf [of "[URI_REGISTRATION_SEGMENT, []]" None 2] by simp

lemma uri_decode_ids_lemma:
  assumes "uri_wf u" "is_set_object u"
    and "prefix = [] \<and> altPath = None \<or> prefix = [p] \<and> altPath = Some (ch_slash # p)
      \<and> p \<noteq> URI_REGISTRATION_SEGMENT \<and> p \<noteq> URI_BOOTSTRAP_SEGMENT"
  shows "uri_decode altPath (prefix @ map (\<lambda>i. dec_text (unat i)) (uri_ids u)) code
    = Ret (LWM2M_REQUEST_TYPE_DM, u)"
proof -
  have match: "altPath_match p p = Ret True" for p by (induction p) auto
  have seg: "uri_segmentId (dec_text (unat i)) = Ret (Some i)" if "i \<in> set (uri_ids u)" for i
    using uri_segmentId_text uri_ids_set that by blast
  have "uri_ids u \<noteq> []" using assms(2) by (simp add: uri_ids_def)
  then have "uri_decode altPath (prefix @ map (\<lambda>i. dec_text (unat i)) (uri_ids u)) code
      = uri_decode_object (map (\<lambda>i. dec_text (unat i)) (uri_ids u)) code"
    using assms(3) dec_text_not_rd_bs match by (cases "uri_ids u") (auto simp: uri_decode_def)
  also have "\<dots> = Ret (LWM2M_REQUEST_TYPE_DM, uri_of (uri_ids u))"
    using seg uri_ids_set [of _ u] \<open>uri_ids u \<noteq> []\<close>
    by (cases rule: uri_ids_cases [of u])
      (auto simp: uri_decode_object_def uri_decode_instance_def uri_decode_resource_def
        uri_decode_resourceInstance_def uri_of_def LWM2M_URI_RESET_def)
  finally show ?thesis using uri_of_ids [OF assms(1)] by simp
qed

text \<open>C11: the segments of the identifiers of a URI, after the client's alternative path when it
  has one, decode to a device management request for that URI.\<close>

theorem uri_decode_ids:
  assumes "uri_wf u" "is_set_object u"
    and "prefix = [] \<and> altPath = None \<or> prefix = [p] \<and> altPath = Some (ch_slash # p)
      \<and> p \<noteq> URI_REGISTRATION_SEGMENT \<and> p \<noteq> URI_BOOTSTRAP_SEGMENT"
  shows "uri_decode altPath (prefix @ map (\<lambda>i. dec_text (unat i)) (uri_ids u)) code
    = Ret (LWM2M_REQUEST_TYPE_DM, u)"
  by (rule uri_decode_ids_lemma [OF assms])

theorem uri_decode_ids_witness:
  "uri_decode None (map (\<lambda>i. dec_text (unat i)) (uri_ids (uri_of [3, 0, 9]))) 1
    = Ret (LWM2M_REQUEST_TYPE_DM, uri_of [3, 0, 9])"
  using uri_decode_ids [of "uri_of [3, 0, 9]" "[]" None "[]" 1]
  by (simp add: uri_wf_def uri_of_def)

text \<open>a Uri-Path segment that is a decimal number above \<open>INT_MAX\<close>, which any peer can
  send, overflows the \<open>int\<close> accumulator of \<open>prv_parseNumber\<close>: undefined behaviour instead of
  the rejection of an identifier out of range.\<close>

theorem uri_decode_int_overflow:
  assumes "INT_MAX < int n"
  shows "uri_decode None (dec_text n # rest) code = UB"
proof -
  have "parseNumber_loop (dec_text n) 0 0 = UB"
    using parseNumber_loop_overflow [of "dec_text n" 0 "[]" 0] assms dec_val_dec_text [of n]
      dec_text_digits [of _ n] by (simp add: dec_val_def)
  moreover have "dec_text n ! 0 \<noteq> ch_slash"
    using dec_text_digits [of "dec_text n ! 0" n] digit_not_slash by auto
  ultimately show ?thesis
    by (simp add: uri_decode_def uri_decode_object_def uri_segmentId_def uri_getNumber_def
        prv_parseNumber_def dec_text_not_rd_bs)
qed

theorem uri_decode_int_overflow_witness:
  "uri_decode None [dec_text 4294967299] 1 = UB"
  by (rule uri_decode_int_overflow) simp

text \<open>C9: \<open>lwm2m_uriToString\<close> into a buffer of \<open>URI_MAX_STRING_LEN\<close> bytes never fails and never
  writes more than these 24 bytes, and \<open>lwm2m_stringToUri\<close> reads the string back to the same URI,
  consuming all of it.\<close>

theorem uri_string_roundtrip:
  assumes "uri_wf u" "24 \<le> length buffer"
  shows "\<exists>n b d. lwm2m_uriToString u buffer = Ret (Some n, b, Some d) \<and> n \<le> 24
    \<and> length b = length buffer \<and> lwm2m_stringToUri (take n b) = Ret (n, u)"
  using uriToString_written [of u buffer] length_uri_text [of u] stringToUri_ids [OF assms(1)] assms(2)
  by fastforce

theorem uri_string_roundtrip_witness:
  "\<exists>n b d. lwm2m_uriToString (uri_of [1, 2]) (replicate 24 0) = Ret (Some n, b, Some d) \<and> n \<le> 24
    \<and> length b = 24 \<and> lwm2m_stringToUri (take n b) = Ret (n, uri_of [1, 2])"
  using uri_string_roundtrip [of "uri_of [1, 2]" "replicate 24 0"]
  by (simp add: uri_wf_def uri_of_def)

end
