(* ===== verification/Coap.thy ===== *)
theory Coap
  imports Prelude
begin

text \<open>
  The CoAP packets of \<open>coap/er-coap-13\<close>: the parsed packet with its option bitmap, the option
  setters and getters, serialization and parsing.  A pointer with a length is the byte list it
  delimits (\<open>None\<close> for \<open>NULL\<close> where the code tests it), so \<open>token_len\<close>, \<open>etag_len\<close>,
  \<open>accept_num\<close> and the like are the lengths of the lists.  A list of \<open>multi_option_t\<close> is the
  list of its segments; \<open>lwm2m_malloc\<close> is the parameter \<open>mem\<close>: whether the allocation for the
  segment at a given distance from the end of the input succeeds.
\<close>

section \<open>Data\<close>

datatype coap_message_type_t = COAP_TYPE_CON | COAP_TYPE_NON | COAP_TYPE_ACK | COAP_TYPE_RST

fun type_code :: "coap_message_type_t \<Rightarrow> u8" where
  "type_code COAP_TYPE_CON = 0"
| "type_code COAP_TYPE_NON = 1"
| "type_code COAP_TYPE_ACK = 2"
| "type_code COAP_TYPE_RST = 3"

definition type_of_code :: "u8 \<Rightarrow> coap_message_type_t" where
  "type_of_code c = (if c = 0 then COAP_TYPE_CON else if c = 1 then COAP_TYPE_NON
     else if c = 2 then COAP_TYPE_ACK else COAP_TYPE_RST)"

abbreviation (input) BAD_REQUEST_4_00 :: u8 where "BAD_REQUEST_4_00 \<equiv> 128"
abbreviation (input) BAD_OPTION_4_02 :: u8 where "BAD_OPTION_4_02 \<equiv> 130"
abbreviation (input) PROXYING_NOT_SUPPORTED_5_05 :: u8 where "PROXYING_NOT_SUPPORTED_5_05 \<equiv> 165"

abbreviation (input) OPT_IF_MATCH :: nat where "OPT_IF_MATCH \<equiv> 1"
abbreviation (input) OPT_URI_HOST :: nat where "OPT_URI_HOST \<equiv> 3"
abbreviation (input) OPT_ETAG :: nat where "OPT_ETAG \<equiv> 4"
abbreviation (input) OPT_IF_NONE_MATCH :: nat where "OPT_IF_NONE_MATCH \<equiv> 5"
abbreviation (input) OPT_OBSERVE :: nat where "OPT_OBSERVE \<equiv> 6"
abbreviation (input) OPT_URI_PORT :: nat where "OPT_URI_PORT \<equiv> 7"
abbreviation (input) OPT_LOCATION_PATH :: nat where "OPT_LOCATION_PATH \<equiv> 8"
abbreviation (input) OPT_URI_PATH :: nat where "OPT_URI_PATH \<equiv> 11"
abbreviation (input) OPT_CONTENT_TYPE :: nat where "OPT_CONTENT_TYPE \<equiv> 12"
abbreviation (input) OPT_MAX_AGE :: nat where "OPT_MAX_AGE \<equiv> 14"
abbreviation (input) OPT_URI_QUERY :: nat where "OPT_URI_QUERY \<equiv> 15"
abbreviation (input) OPT_ACCEPT :: nat where "OPT_ACCEPT \<equiv> 17"
abbreviation (input) OPT_TOKEN :: nat where "OPT_TOKEN \<equiv> 19"
abbreviation (input) OPT_LOCATION_QUERY :: nat where "OPT_LOCATION_QUERY \<equiv> 20"
abbreviation (input) OPT_BLOCK2 :: nat where "OPT_BLOCK2 \<equiv> 23"
abbreviation (input) OPT_BLOCK1 :: nat where "OPT_BLOCK1 \<equiv> 27"
abbreviation (input) OPT_SIZE :: nat where "OPT_SIZE \<equiv> 28"
abbreviation (input) OPT_PROXY_URI :: nat where "OPT_PROXY_URI \<equiv> 35"

abbreviation (input) COAP_HEADER_LEN :: nat where "COAP_HEADER_LEN \<equiv> 4"
abbreviation (input) COAP_ETAG_LEN :: nat where "COAP_ETAG_LEN \<equiv> 8"
abbreviation (input) COAP_TOKEN_LEN :: nat where "COAP_TOKEN_LEN \<equiv> 8"
abbreviation (input) COAP_MAX_ACCEPT_NUM :: nat where "COAP_MAX_ACCEPT_NUM \<equiv> 2"
abbreviation (input) COAP_MAX_OPTION_HEADER_LEN :: nat where "COAP_MAX_OPTION_HEADER_LEN \<equiv> 5"
abbreviation (input) COAP_DEFAULT_MAX_AGE :: u32 where "COAP_DEFAULT_MAX_AGE \<equiv> 60"
abbreviation (input) OPTION_MAP_SIZE :: nat where "OPTION_MAP_SIZE \<equiv> 8"

record coap_packet_t =
  version :: u8
  msg_type :: coap_message_type_t
  code :: u8
  mid :: u16
  options :: "u8 list"
  content_type :: u32
  max_age :: u32
  proxy_uri :: "bytes option"
  etag :: bytes
  uri_host :: "bytes option"
  location_path :: "bytes list"
  uri_port :: u16
  location_query :: "bytes option"
  uri_path :: "bytes list"
  observe :: u32
  token :: bytes
  accept :: "u16 list"
  if_match :: bytes
  block2_num :: u32
  block2_more :: u8
  block2_size :: u16
  block2_offset :: u32
  block1_num :: u32
  block1_more :: u8
  block1_size :: u16
  block1_offset :: u32
  opt_size :: u32
  uri_query :: "bytes list"
  if_none_match :: u8
  payload :: "bytes option"

text \<open>The bytes of a pointer that may be \<open>NULL\<close> with length 0.\<close>

definition ptr_bytes :: "bytes option \<Rightarrow> bytes" where
  "ptr_bytes p = (case p of None \<Rightarrow> [] | Some b \<Rightarrow> b)"

text \<open>What \<open>memset\<close> to 0 leaves.\<close>

definition coap_zero :: coap_packet_t where
  "coap_zero = \<lparr>version = 0, msg_type = COAP_TYPE_CON, code = 0, mid = 0,
     options = replicate (OPT_PROXY_URI div OPTION_MAP_SIZE + 1) 0,
     content_type = 0, max_age = 0, proxy_uri = None, etag = [], uri_host = None,
     location_path = [], uri_port = 0, location_query = None, uri_path = [], observe = 0,
     token = [], accept = [], if_match = [], block2_num = 0, block2_more = 0, block2_size = 0,
     block2_offset = 0, block1_num = 0, block1_more = 0, block1_size = 0, block1_offset = 0,
     opt_size = 0, uri_query = [], if_none_match = 0, payload = None\<rparr>"

section \<open>The bitmap of set options\<close>

definition SET_OPTION :: "coap_packet_t \<Rightarrow> nat \<Rightarrow> coap_packet_t" where
  "SET_OPTION packet opt =
     (if opt < length (options packet) * OPTION_MAP_SIZE
      then packet\<lparr>options := (options packet)[opt div OPTION_MAP_SIZE :=
             options packet ! (opt div OPTION_MAP_SIZE) OR push_bit (opt mod OPTION_MAP_SIZE) 1]\<rparr>
      else packet)"

definition IS_OPTION :: "coap_packet_t \<Rightarrow> nat \<Rightarrow> bool" where
  "IS_OPTION packet opt =
     (if opt < length (options packet) * OPTION_MAP_SIZE
      then options packet ! (opt div OPTION_MAP_SIZE) AND push_bit (opt mod OPTION_MAP_SIZE) 1 \<noteq> 0
      else False)"

section \<open>Helpers\<close>

function coap_log_2_loop :: "u16 \<Rightarrow> u16 \<Rightarrow> u16" where
  "coap_log_2_loop value result =
     (let value' = drop_bit 1 value; result' = result + 1 in
      if value' \<noteq> 0 then coap_log_2_loop value' result' else result')"
  by pat_completeness auto

termination
proof (relation "measure (\<lambda>(v, r). unat v)", simp)
  fix v r v' r' :: u16
  assume "v' = drop_bit 1 v" "v' \<noteq> 0"
  then have "unat v' = unat v div 2" by (simp add: drop_bit_eq_div unat_div)
  moreover have "0 < unat v'" using \<open>v' \<noteq> 0\<close> by (simp add: unat_gt_0)
  ultimately show "((v', r'), v, r) \<in> measure (\<lambda>(v, r). unat v)" by simp
qed

definition coap_log_2 :: "u16 \<Rightarrow> u16" where
  "coap_log_2 value = (let result = coap_log_2_loop value 0 in
     if result \<noteq> 0 then result - 1 else result)"

fun parse_int_loop :: "bytes \<Rightarrow> u32 \<Rightarrow> u32" where
  "parse_int_loop [] var = var"
| "parse_int_loop (b # bs) var = parse_int_loop bs (push_bit 8 var OR ucast b)"

definition coap_parse_int_option :: "bytes \<Rightarrow> u32" where
  "coap_parse_int_option bs = parse_int_loop bs 0"

text \<open>Option numbers and lengths are \<open>unsigned int\<close>: a \<open>size_t\<close> length is cut to 32 bits.\<close>

definition coap_option_nibble :: "nat \<Rightarrow> u8" where
  "coap_option_nibble v = (if v < 13 then word_of_nat v else if v \<le> 0xFF + 13 then 13 else 14)"

definition option_ext :: "nat \<Rightarrow> bytes" where
  "option_ext x =
     (if x > 268 then [word_of_nat ((x - 269) div 256), word_of_nat (x - 269)]
      else if x > 12 then [word_of_nat (x - 13)] else [])"

definition coap_set_option_header :: "nat \<Rightarrow> nat \<Rightarrow> bytes" where
  "coap_set_option_header delta len =
     (let d = delta mod 2 ^ 32; l = len mod 2 ^ 32 in
      (push_bit 4 (coap_option_nibble d) OR coap_option_nibble l) # option_ext d @ option_ext l)"

text \<open>The bytes of a value, from the first one that is not zero.\<close>

definition int_option_bytes :: "u32 \<Rightarrow> bytes" where
  "int_option_bytes value =
     (if 0xFF000000 AND value \<noteq> 0 then [ucast (drop_bit 24 value)] else [])
     @ (if 0xFFFF0000 AND value \<noteq> 0 then [ucast (drop_bit 16 value)] else [])
     @ (if 0xFFFFFF00 AND value \<noteq> 0 then [ucast (drop_bit 8 value)] else [])
     @ (if 0xFFFFFFFF AND value \<noteq> 0 then [ucast value] else [])"

definition coap_serialize_int_option :: "nat \<Rightarrow> nat \<Rightarrow> u32 \<Rightarrow> bytes" where
  "coap_serialize_int_option number current_number value =
     coap_set_option_header (number - current_number) (length (int_option_bytes value))
     @ int_option_bytes value"

text \<open>The splitting loop: \<open>j\<close> runs to \<open>length\<close> included; after a part it is incremented twice.  The
  code reads \<open>array[j]\<close> before it tests \<open>j == length\<close>: the byte behind the option is the NUL of the
  string, and whatever it is the same branch is taken.\<close>

function array_split_loop :: "nat \<Rightarrow> nat \<Rightarrow> bytes \<Rightarrow> u8 \<Rightarrow> nat \<Rightarrow> nat \<Rightarrow> bytes" where
  "array_split_loop number current_number array split_char j part_start =
     (if j > length array then []
      else if j = length array \<or> array ! j = split_char then
        (let part = take (j - part_start) (drop part_start array) in
         coap_set_option_header (number - current_number) (length part) @ part
         @ array_split_loop number number array split_char (j + 2) (j + 1))
      else array_split_loop number current_number array split_char (j + 1) part_start)"
  by pat_completeness auto

termination
  by (relation "measure (\<lambda>(number, current_number, array, split_char, j, part_start).
        Suc (length array) - j)") auto

definition coap_serialize_array_option :: "nat \<Rightarrow> nat \<Rightarrow> bytes \<Rightarrow> u8 \<Rightarrow> bytes" where
  "coap_serialize_array_option number current_number array split_char =
     (if split_char \<noteq> 0 then array_split_loop number current_number array split_char 0 0
      else coap_set_option_header (number - current_number) (length array) @ array)"

fun coap_serialize_multi_option :: "nat \<Rightarrow> nat \<Rightarrow> bytes list \<Rightarrow> bytes" where
  "coap_serialize_multi_option number current_number [] = []"
| "coap_serialize_multi_option number current_number (seg # segs) =
     coap_set_option_header (number - current_number) (length seg) @ seg
     @ coap_serialize_multi_option number number segs"

definition coap_merge_multi_option :: "bytes option \<Rightarrow> bytes \<Rightarrow> u8 \<Rightarrow> bytes option" where
  "coap_merge_multi_option dst option separator =
     (if length (ptr_bytes dst) > 0 then Some (ptr_bytes dst @ separator # option) else Some option)"

text \<open>The length of a segment is kept in a \<open>uint8_t\<close>.\<close>

definition coap_add_multi_option :: "bool \<Rightarrow> bytes list \<Rightarrow> bytes \<Rightarrow> bytes list" where
  "coap_add_multi_option allocated dst option =
     (if allocated then dst @ [take (length option mod 256) option] else dst)"

fun multi_option_string_loop :: "bool \<Rightarrow> bytes list \<Rightarrow> u8 \<Rightarrow> u8 \<Rightarrow> bytes" where
  "multi_option_string_loop first [] prefix delimiter = []"
| "multi_option_string_loop first (opt # opts) prefix delimiter =
     (if first then prefix else delimiter) # opt @ multi_option_string_loop False opts prefix delimiter"

definition coap_get_multi_option_as_path_string :: "bytes list \<Rightarrow> bytes" where
  "coap_get_multi_option_as_path_string opt = multi_option_string_loop True opt ch_slash ch_slash"

definition coap_get_multi_option_as_query_string :: "bytes list \<Rightarrow> bytes" where
  "coap_get_multi_option_as_query_string opt = multi_option_string_loop True opt ch_quest ch_amp"

definition coap_get_mid :: "u16 \<Rightarrow> u16 \<times> u16" where
  "coap_get_mid current_mid = (current_mid + 1, current_mid + 1)"

section \<open>Messages\<close>

definition coap_init_message :: "coap_message_type_t \<Rightarrow> u8 \<Rightarrow> u16 \<Rightarrow> coap_packet_t" where
  "coap_init_message type c m = coap_zero\<lparr>msg_type := type, code := c, mid := m\<rparr>"

definition coap_free_header :: "coap_packet_t \<Rightarrow> coap_packet_t" where
  "coap_free_header packet = packet\<lparr>uri_path := [], uri_query := [], location_path := []\<rparr>"

definition multi_size :: "bytes list \<Rightarrow> nat" where
  "multi_size segs = sum_list (map (\<lambda>seg. COAP_MAX_OPTION_HEADER_LEN + length seg) segs)"

definition coap_serialize_get_size :: "coap_packet_t \<Rightarrow> nat" where
  "coap_serialize_get_size p =
     COAP_HEADER_LEN + length (ptr_bytes (payload p)) + length (token p)
     + (if IS_OPTION p OPT_IF_MATCH then COAP_MAX_OPTION_HEADER_LEN + length (if_match p) else 0)
     + (if IS_OPTION p OPT_URI_HOST then COAP_MAX_OPTION_HEADER_LEN + length (ptr_bytes (uri_host p)) else 0)
     + (if IS_OPTION p OPT_ETAG then COAP_MAX_OPTION_HEADER_LEN + length (etag p) else 0)
     + (if IS_OPTION p OPT_IF_NONE_MATCH then COAP_MAX_OPTION_HEADER_LEN else 0)
     + (if IS_OPTION p OPT_OBSERVE then COAP_MAX_OPTION_HEADER_LEN else 0)
     + (if IS_OPTION p OPT_URI_PORT then COAP_MAX_OPTION_HEADER_LEN else 0)
     + (if IS_OPTION p OPT_LOCATION_PATH then multi_size (location_path p) else 0)
     + (if IS_OPTION p OPT_URI_PATH then multi_size (uri_path p) else 0)
     + (if IS_OPTION p OPT_CONTENT_TYPE then COAP_MAX_OPTION_HEADER_LEN else 0)
     + (if IS_OPTION p OPT_MAX_AGE then COAP_MAX_OPTION_HEADER_LEN else 0)
     + (if IS_OPTION p OPT_URI_QUERY then multi_size (uri_query p) else 0)
     + (if IS_OPTION p OPT_ACCEPT then length (accept p) * COAP_MAX_OPTION_HEADER_LEN else 0)
     + (if IS_OPTION p OPT_LOCATION_QUERY
        then COAP_MAX_OPTION_HEADER_LEN + length (ptr_bytes (location_query p)) else 0)
     + (if IS_OPTION p OPT_BLOCK2 then COAP_MAX_OPTION_HEADER_LEN else 0)
     + (if IS_OPTION p OPT_BLOCK1 then COAP_MAX_OPTION_HEADER_LEN else 0)
     + (if IS_OPTION p OPT_SIZE then COAP_MAX_OPTION_HEADER_LEN else 0)
     + (if IS_OPTION p OPT_PROXY_URI then COAP_MAX_OPTION_HEADER_LEN + length (ptr_bytes (proxy_uri p)) else 0)
     + (if length (ptr_bytes (payload p)) \<noteq> 0 then 1 else 0)"

text \<open>The \<open>COAP_SERIALIZE_*\<close> macros: each takes \<open>current_number\<close> and the bytes written so far.
  The last two give the bytes of the value from the packet.\<close>

definition COAP_SERIALIZE_INT_OPTION ::
    "coap_packet_t \<Rightarrow> nat \<Rightarrow> u32 \<Rightarrow> nat \<times> bytes \<Rightarrow> nat \<times> bytes" where
  "COAP_SERIALIZE_INT_OPTION p number field = (\<lambda>(current_number, out).
     if IS_OPTION p number
     then (number, out @ coap_serialize_int_option number current_number field)
     else (current_number, out))"

definition COAP_SERIALIZE_STRING_OPTION ::
    "coap_packet_t \<Rightarrow> nat \<Rightarrow> bytes \<Rightarrow> u8 \<Rightarrow> nat \<times> bytes \<Rightarrow> nat \<times> bytes" where
  "COAP_SERIALIZE_STRING_OPTION p number field splitter = (\<lambda>(current_number, out).
     if IS_OPTION p number
     then (number, out @ coap_serialize_array_option number current_number field splitter)
     else (current_number, out))"

definition COAP_SERIALIZE_MULTI_OPTION ::
    "coap_packet_t \<Rightarrow> nat \<Rightarrow> bytes list \<Rightarrow> nat \<times> bytes \<Rightarrow> nat \<times> bytes" where
  "COAP_SERIALIZE_MULTI_OPTION p number field = (\<lambda>(current_number, out).
     if IS_OPTION p number
     then (number, out @ coap_serialize_multi_option number current_number field)
     else (current_number, out))"

fun accept_loop :: "nat \<Rightarrow> u16 list \<Rightarrow> nat \<times> bytes \<Rightarrow> nat \<times> bytes" where
  "accept_loop number [] s = s"
| "accept_loop number (a # as) (current_number, out) =
     accept_loop number as (number, out @ coap_serialize_int_option number current_number (ucast a))"

definition COAP_SERIALIZE_ACCEPT_OPTION ::
    "coap_packet_t \<Rightarrow> nat \<Rightarrow> u16 list \<Rightarrow> nat \<times> bytes \<Rightarrow> nat \<times> bytes" where
  "COAP_SERIALIZE_ACCEPT_OPTION p number field s =
     (if IS_OPTION p number then accept_loop number field s else s)"

definition block_value :: "u32 \<Rightarrow> u8 \<Rightarrow> u16 \<Rightarrow> u32" where
  "block_value num m sz =
     (let block = push_bit 4 num; block' = (if m \<noteq> 0 then block OR 0x8 else block)
      in block' OR (0xF AND ucast (coap_log_2 (sz div 16))))"

definition COAP_SERIALIZE_BLOCK_OPTION ::
    "coap_packet_t \<Rightarrow> nat \<Rightarrow> u32 \<Rightarrow> u8 \<Rightarrow> u16 \<Rightarrow> nat \<times> bytes \<Rightarrow> nat \<times> bytes" where
  "COAP_SERIALIZE_BLOCK_OPTION p number num m sz = (\<lambda>(current_number, out).
     if IS_OPTION p number
     then (number, out @ coap_serialize_int_option number current_number (block_value num m sz))
     else (current_number, out))"

definition coap_serialize_options :: "coap_packet_t \<Rightarrow> nat \<times> bytes \<Rightarrow> nat \<times> bytes" where
  "coap_serialize_options p s0 =
    (let s1 = COAP_SERIALIZE_STRING_OPTION p OPT_IF_MATCH (if_match p) 0 s0;
         s2 = COAP_SERIALIZE_STRING_OPTION p OPT_URI_HOST (ptr_bytes (uri_host p)) 0 s1;
         s3 = COAP_SERIALIZE_STRING_OPTION p OPT_ETAG (etag p) 0 s2;
         s4 = COAP_SERIALIZE_INT_OPTION p OPT_IF_NONE_MATCH (content_type p - content_type p) s3;
         s5 = COAP_SERIALIZE_INT_OPTION p OPT_OBSERVE (observe p) s4;
         s6 = COAP_SERIALIZE_INT_OPTION p OPT_URI_PORT (ucast (uri_port p)) s5;
         s7 = COAP_SERIALIZE_MULTI_OPTION p OPT_LOCATION_PATH (location_path p) s6;
         s8 = COAP_SERIALIZE_MULTI_OPTION p OPT_URI_PATH (uri_path p) s7;
         s9 = COAP_SERIALIZE_INT_OPTION p OPT_CONTENT_TYPE (content_type p) s8;
         s10 = COAP_SERIALIZE_INT_OPTION p OPT_MAX_AGE (max_age p) s9;
         s11 = COAP_SERIALIZE_MULTI_OPTION p OPT_URI_QUERY (uri_query p) s10;
         s12 = COAP_SERIALIZE_ACCEPT_OPTION p OPT_ACCEPT (accept p) s11;
         s13 = COAP_SERIALIZE_STRING_OPTION p OPT_LOCATION_QUERY (ptr_bytes (location_query p)) ch_amp s12;
         s14 = COAP_SERIALIZE_BLOCK_OPTION p OPT_BLOCK2 (block2_num p) (block2_more p) (block2_size p) s13;
         s15 = COAP_SERIALIZE_BLOCK_OPTION p OPT_BLOCK1 (block1_num p) (block1_more p) (block1_size p) s14;
         s16 = COAP_SERIALIZE_INT_OPTION p OPT_SIZE (opt_size p) s15
     in COAP_SERIALIZE_STRING_OPTION p OPT_PROXY_URI (ptr_bytes (proxy_uri p)) 0 s16)"

definition coap_header_bytes :: "coap_packet_t \<Rightarrow> bytes" where
  "coap_header_bytes p =
     [((0x00 OR (0xC0 AND push_bit 6 (version p))) OR (0x30 AND push_bit 4 (type_code (msg_type p))))
        OR (0x0F AND word_of_nat (length (token p))),
      code p, ucast (drop_bit 8 (mid p)), ucast (mid p)]"

text \<open>The bytes written and the packet left: its header lists are freed.\<close>

definition coap_serialize_message :: "coap_packet_t \<Rightarrow> bytes \<times> coap_packet_t" where
  "coap_serialize_message packet =
     (let p = packet\<lparr>version := 1\<rparr>;
          (number, out) = coap_serialize_options p (0, coap_header_bytes p @ token p);
          p' = coap_free_header p;
          pl = ptr_bytes (payload p')
      in (out @ (if length pl \<noteq> 0 then [0xFF] else []) @ pl, p'))"

section \<open>Parsing\<close>

text \<open>One of the two extended fields of an option header; \<open>None\<close> is the parse error at the end
  of the data.\<close>

definition parse_ext :: "nat \<Rightarrow> bytes \<Rightarrow> (nat \<times> bytes) option" where
  "parse_ext x rest =
     (if x = 13 then (case rest of [] \<Rightarrow> None | b # r \<Rightarrow> Some (x + unat b, r))
      else if x = 14 then
        (case rest of b1 # b2 # r \<Rightarrow> Some (x + 255 + unat b1 * 256 + unat b2, r) | _ \<Rightarrow> None)
      else Some (x, rest))"

text \<open>The block option: number and flags as the parser splits them.\<close>

definition block_num_of :: "u32 \<Rightarrow> u32" where "block_num_of v = drop_bit 4 v"
definition block_more_of :: "u32 \<Rightarrow> u8" where "block_more_of v = ucast (drop_bit 3 (v AND 0x08))"
definition block_size_of :: "u32 \<Rightarrow> u16" where "block_size_of v = push_bit (unat (v AND 0x07)) 16"
definition block_offset_of :: "u32 \<Rightarrow> u32" where
  "block_offset_of v = push_bit (unat (v AND 0x07)) (v AND NOT 0x0000000F)"

text \<open>The \<open>switch\<close> on one option with its value: \<open>None\<close> is \<open>break\<close> out of it, a status is what
  the parser returns.  \<open>server\<close> is \<open>LWM2M_SERVER_MODE\<close>.\<close>

definition coap_parse_option ::
    "bool \<Rightarrow> bool \<Rightarrow> nat \<Rightarrow> bytes \<Rightarrow> coap_packet_t \<Rightarrow> u8 option \<times> coap_packet_t" where
  "coap_parse_option server allocated n v p =
     (if n = OPT_CONTENT_TYPE then
        (if length v > 2 then (Some BAD_REQUEST_4_00, coap_free_header p)
         else (None, p\<lparr>content_type := coap_parse_int_option v\<rparr>))
      else if n = OPT_MAX_AGE then (None, p\<lparr>max_age := coap_parse_int_option v\<rparr>)
      else if n = OPT_ETAG then (None, p\<lparr>etag := take COAP_ETAG_LEN v\<rparr>)
      else if n = OPT_ACCEPT then
        (None, if length (accept p) < COAP_MAX_ACCEPT_NUM
               then p\<lparr>accept := accept p @ [ucast (coap_parse_int_option v)]\<rparr> else p)
      else if n = OPT_IF_MATCH then (None, p\<lparr>if_match := take COAP_ETAG_LEN v\<rparr>)
      else if n = OPT_IF_NONE_MATCH then (None, p\<lparr>if_none_match := 1\<rparr>)
      else if n = OPT_URI_HOST then (None, p\<lparr>uri_host := Some v\<rparr>)
      else if n = OPT_URI_PORT then (None, p\<lparr>uri_port := ucast (coap_parse_int_option v)\<rparr>)
      else if n = OPT_URI_PATH then (None, p\<lparr>uri_path := coap_add_multi_option allocated (uri_path p) v\<rparr>)
      else if n = OPT_URI_QUERY then (None, p\<lparr>uri_query := coap_add_multi_option allocated (uri_query p) v\<rparr>)
      else if n = OPT_LOCATION_PATH then
        (None, p\<lparr>location_path := coap_add_multi_option allocated (location_path p) v\<rparr>)
      else if n = OPT_LOCATION_QUERY then
        (None, p\<lparr>location_query := coap_merge_multi_option (location_query p) v ch_amp\<rparr>)
      else if n = OPT_PROXY_URI then (Some PROXYING_NOT_SUPPORTED_5_05, p\<lparr>proxy_uri := Some v\<rparr>)
      else if n = OPT_OBSERVE \<or> server \<and> (n = 2048 \<or> n = 2049) then
        (None, p\<lparr>observe := coap_parse_int_option v\<rparr>)
      else if n = OPT_BLOCK2 then
        (let b = coap_parse_int_option v in
         (None, p\<lparr>block2_more := block_more_of b, block2_size := block_size_of b,
                   block2_offset := block_offset_of b, block2_num := block_num_of b\<rparr>))
      else if n = OPT_BLOCK1 then
        (let b = coap_parse_int_option v in
         (None, p\<lparr>block1_more := block_more_of b, block1_size := block_size_of b,
                   block1_offset := block_offset_of b, block1_num := block_num_of b\<rparr>))
      else if n = OPT_SIZE then (None, p\<lparr>opt_size := coap_parse_int_option v\<rparr>)
      else if server \<or> odd n then (Some BAD_OPTION_4_02, coap_free_header p)
      else (None, p))"

text \<open>An option header: number delta, length and the bytes after it; \<open>None\<close> is a parse error.\<close>

definition parse_option_header :: "u8 \<Rightarrow> bytes \<Rightarrow> (nat \<times> nat \<times> bytes) option" where
  "parse_option_header b rest =
     (let delta = unat (drop_bit 4 b); len = unat (b AND 0x0F) in
      if delta = 15 \<or> len = 15 then None
      else case parse_ext delta rest of None \<Rightarrow> None
        | Some (delta', r1) \<Rightarrow>
          (case parse_ext len r1 of None \<Rightarrow> None
           | Some (len', r2) \<Rightarrow> Some (delta', len', r2)))"

lemma parse_ext_length: "parse_ext x rest = Some (y, r) \<Longrightarrow> length r \<le> length rest"
  by (auto simp: parse_ext_def split: if_splits list.splits)

lemma parse_option_header_length:
  "parse_option_header b rest = Some (d, l, r) \<Longrightarrow> length r \<le> length rest"
  by (auto simp: parse_option_header_def Let_def split: if_splits option.splits dest!: parse_ext_length)

text \<open>The \<open>while\<close> loop, over the bytes from \<open>current_option\<close> on.\<close>

function coap_parse_loop ::
    "bool \<Rightarrow> (nat \<Rightarrow> bool) \<Rightarrow> bytes \<Rightarrow> nat \<Rightarrow> coap_packet_t \<Rightarrow> u8 \<times> coap_packet_t" where
  "coap_parse_loop server mem [] option_number p = (NO_ERROR, p)"
| "coap_parse_loop server mem (b # rest) option_number p =
     (if b = 0xFF then
        (if rest = [] then (BAD_REQUEST_4_00, coap_free_header p)
         else (NO_ERROR, p\<lparr>payload := Some rest\<rparr>))
      else case parse_option_header b rest of
        None \<Rightarrow> (BAD_REQUEST_4_00, coap_free_header p)
      | Some (delta, len, r) \<Rightarrow>
        (if len > length r then (BAD_REQUEST_4_00, coap_free_header p)
         else let n = option_number + delta in
           case coap_parse_option server (mem (length r)) n (take len r) (SET_OPTION p n) of
             (Some status, p') \<Rightarrow> (status, p')
           | (None, p') \<Rightarrow> coap_parse_loop server mem (drop len r) n p'))"
  by pat_completeness auto

termination
  by (relation "measure (\<lambda>(server, mem, bs, n, p). length bs)")
    (auto dest!: parse_option_header_length)

text \<open>\<open>data\<close> is the datagram: the \<open>data_len\<close> bytes from \<open>data\<close> on, so less than 65536 of them, as
  \<open>data_len\<close> is a \<open>uint16_t\<close>.  The token length of the header is stored before it is tested: where
  the header is refused it stays, up to 15, over the zeros of the eight byte array.\<close>

definition coap_parse_message ::
    "bool \<Rightarrow> (nat \<Rightarrow> bool) \<Rightarrow> bytes \<Rightarrow> u8 \<times> coap_packet_t" where
  "coap_parse_message server mem data =
     (if length data < COAP_HEADER_LEN then (BAD_REQUEST_4_00, coap_free_header coap_zero)
      else let tkl = unat (data ! 0 AND 0x0F);
               p = coap_zero\<lparr>version := drop_bit 6 (data ! 0 AND 0xC0),
                     msg_type := type_of_code (drop_bit 4 (data ! 0 AND 0x30)),
                     code := data ! 1,
                     mid := push_bit 8 (ucast (data ! 2)) OR ucast (data ! 3), token := replicate tkl 0\<rparr> in
        if version p \<noteq> 1 then (BAD_REQUEST_4_00, p)
        else if code p = 0 \<and> length data > COAP_HEADER_LEN then (BAD_REQUEST_4_00, coap_free_header p)
        else if tkl > COAP_TOKEN_LEN then (BAD_REQUEST_4_00, coap_free_header p)
        else if tkl \<noteq> 0 then
          (if COAP_HEADER_LEN + tkl > length data then (BAD_REQUEST_4_00, coap_free_header p)
           else coap_parse_loop server mem (drop (COAP_HEADER_LEN + tkl) data) 0
                  (SET_OPTION (p\<lparr>token := take tkl (drop COAP_HEADER_LEN data)\<rparr>) OPT_TOKEN))
        else coap_parse_loop server mem (drop COAP_HEADER_LEN data) 0 p)"

section \<open>Getters and setters\<close>

text \<open>A getter that returns 0 without writing its result is \<open>None\<close>.\<close>

definition coap_set_status_code :: "coap_packet_t \<Rightarrow> nat \<Rightarrow> nat \<times> coap_packet_t" where
  "coap_set_status_code p c = (if c \<le> 0xFF then (1, p\<lparr>code := word_of_nat c\<rparr>) else (0, p))"

definition coap_get_header_content_type :: "coap_packet_t \<Rightarrow> u32" where
  "coap_get_header_content_type p =
     (if \<not> IS_OPTION p OPT_CONTENT_TYPE then - 1 else content_type p)"

definition coap_set_header_content_type :: "coap_packet_t \<Rightarrow> u32 \<Rightarrow> coap_packet_t" where
  "coap_set_header_content_type p c = SET_OPTION (p\<lparr>content_type := c\<rparr>) OPT_CONTENT_TYPE"

definition coap_get_header_accept :: "coap_packet_t \<Rightarrow> u16 list" where
  "coap_get_header_accept p = (if \<not> IS_OPTION p OPT_ACCEPT then [] else accept p)"

definition coap_set_header_accept :: "coap_packet_t \<Rightarrow> u16 \<Rightarrow> coap_packet_t" where
  "coap_set_header_accept p a =
     (if length (accept p) < COAP_MAX_ACCEPT_NUM
      then SET_OPTION (p\<lparr>accept := accept p @ [a]\<rparr>) OPT_ACCEPT else p)"

definition coap_get_header_max_age :: "coap_packet_t \<Rightarrow> u32" where
  "coap_get_header_max_age p =
     (if \<not> IS_OPTION p OPT_MAX_AGE then COAP_DEFAULT_MAX_AGE else max_age p)"

definition coap_set_header_max_age :: "coap_packet_t \<Rightarrow> u32 \<Rightarrow> coap_packet_t" where
  "coap_set_header_max_age p age = SET_OPTION (p\<lparr>max_age := age\<rparr>) OPT_MAX_AGE"

definition coap_get_header_etag :: "coap_packet_t \<Rightarrow> bytes" where
  "coap_get_header_etag p = (if \<not> IS_OPTION p OPT_ETAG then [] else etag p)"

definition coap_set_header_etag :: "coap_packet_t \<Rightarrow> bytes \<Rightarrow> coap_packet_t" where
  "coap_set_header_etag p e = SET_OPTION (p\<lparr>etag := take COAP_ETAG_LEN e\<rparr>) OPT_ETAG"

definition coap_get_header_if_match :: "coap_packet_t \<Rightarrow> bytes" where
  "coap_get_header_if_match p = (if \<not> IS_OPTION p OPT_IF_MATCH then [] else if_match p)"

definition coap_set_header_if_match :: "coap_packet_t \<Rightarrow> bytes \<Rightarrow> coap_packet_t" where
  "coap_set_header_if_match p e = SET_OPTION (p\<lparr>if_match := take COAP_ETAG_LEN e\<rparr>) OPT_IF_MATCH"

definition coap_get_header_if_none_match :: "coap_packet_t \<Rightarrow> bool" where
  "coap_get_header_if_none_match p = IS_OPTION p OPT_IF_NONE_MATCH"

definition coap_set_header_if_none_match :: "coap_packet_t \<Rightarrow> coap_packet_t" where
  "coap_set_header_if_none_match p = SET_OPTION p OPT_IF_NONE_MATCH"

definition coap_get_header_token :: "coap_packet_t \<Rightarrow> bytes" where
  "coap_get_header_token p = (if \<not> IS_OPTION p OPT_TOKEN then [] else token p)"

definition coap_set_header_token :: "coap_packet_t \<Rightarrow> bytes \<Rightarrow> coap_packet_t" where
  "coap_set_header_token p t = SET_OPTION (p\<lparr>token := take COAP_TOKEN_LEN t\<rparr>) OPT_TOKEN"

definition coap_get_header_proxy_uri :: "coap_packet_t \<Rightarrow> bytes option" where
  "coap_get_header_proxy_uri p = (if \<not> IS_OPTION p OPT_PROXY_URI then None else proxy_uri p)"

definition coap_set_header_proxy_uri :: "coap_packet_t \<Rightarrow> bytes \<Rightarrow> coap_packet_t" where
  "coap_set_header_proxy_uri p u = SET_OPTION (p\<lparr>proxy_uri := Some u\<rparr>) OPT_PROXY_URI"

definition coap_get_header_uri_host :: "coap_packet_t \<Rightarrow> bytes option" where
  "coap_get_header_uri_host p = (if \<not> IS_OPTION p OPT_URI_HOST then None else uri_host p)"

definition coap_set_header_uri_host :: "coap_packet_t \<Rightarrow> bytes \<Rightarrow> coap_packet_t" where
  "coap_set_header_uri_host p h = SET_OPTION (p\<lparr>uri_host := Some h\<rparr>) OPT_URI_HOST"

text \<open>The \<open>do\<close> loops of the path and query setters, over the rest of the string: the segments and
  the number of characters consumed.\<close>

function split_segments_loop ::
    "u8 \<Rightarrow> (nat \<Rightarrow> bool) \<Rightarrow> bytes list \<Rightarrow> bytes \<Rightarrow> bytes list \<times> nat" where
  "split_segments_loop sep mem dst path =
     (let i = length (takeWhile (\<lambda>c. c \<noteq> sep) path);
          dst' = coap_add_multi_option (mem (length path)) dst (take i path);
          i' = (if i < length path then i + 1 else i);
          rest = drop i' path
      in if rest \<noteq> [] then (let (d, n) = split_segments_loop sep mem dst' rest in (d, i' + n))
         else (dst', i'))"
  by pat_completeness auto

termination
proof (relation "measure (\<lambda>(sep, mem, dst, path). length path)", simp)
  fix sep :: u8 and mem dst path i dst' i' rest
  assume "i = length (takeWhile (\<lambda>c. c \<noteq> sep) path)" "i' = (if i < length path then i + 1 else i)"
    "rest = drop i' path" "rest \<noteq> []"
  then show "((sep, mem, dst', rest), sep, mem, dst, path) \<in> measure (\<lambda>(sep, mem, dst, path). length path)"
    by (auto split: if_splits)
qed

definition skip_first :: "u8 \<Rightarrow> bytes \<Rightarrow> bytes" where
  "skip_first c s = (if cstr_at s 0 = c then tl s else s)"

definition coap_set_header_uri_path :: "(nat \<Rightarrow> bool) \<Rightarrow> coap_packet_t \<Rightarrow> bytes \<Rightarrow> nat \<times> coap_packet_t" where
  "coap_set_header_uri_path mem p path =
     (let (segs, n) = split_segments_loop ch_slash mem [] (skip_first ch_slash path)
      in (n, SET_OPTION (p\<lparr>uri_path := segs\<rparr>) OPT_URI_PATH))"

definition coap_set_header_uri_path_segment ::
    "bool \<Rightarrow> coap_packet_t \<Rightarrow> bytes option \<Rightarrow> nat \<times> coap_packet_t" where
  "coap_set_header_uri_path_segment allocated p segment =
     (let s = ptr_bytes segment in
      (length s, SET_OPTION (p\<lparr>uri_path := coap_add_multi_option allocated (uri_path p) s\<rparr>) OPT_URI_PATH))"

definition coap_get_header_uri_port :: "coap_packet_t \<Rightarrow> u16" where
  "coap_get_header_uri_port p = (if \<not> IS_OPTION p OPT_URI_PORT then 0 else uri_port p)"

definition coap_set_header_uri_port :: "coap_packet_t \<Rightarrow> u16 \<Rightarrow> coap_packet_t" where
  "coap_set_header_uri_port p port = SET_OPTION (p\<lparr>uri_port := port\<rparr>) OPT_URI_PORT"

definition coap_set_header_uri_query :: "(nat \<Rightarrow> bool) \<Rightarrow> coap_packet_t \<Rightarrow> bytes \<Rightarrow> nat \<times> coap_packet_t" where
  "coap_set_header_uri_query mem p query =
     (let (segs, n) = split_segments_loop ch_amp mem [] (skip_first ch_quest query)
      in (n, SET_OPTION (p\<lparr>uri_query := segs\<rparr>) OPT_URI_QUERY))"

definition coap_set_header_uri_query_segment ::
    "bool \<Rightarrow> coap_packet_t \<Rightarrow> bytes option \<Rightarrow> nat \<times> coap_packet_t" where
  "coap_set_header_uri_query_segment allocated p segment =
     (let s = ptr_bytes segment in
      (length s, SET_OPTION (p\<lparr>uri_query := coap_add_multi_option allocated (uri_query p) s\<rparr>) OPT_URI_QUERY))"

definition coap_set_header_location_path ::
    "(nat \<Rightarrow> bool) \<Rightarrow> coap_packet_t \<Rightarrow> bytes \<Rightarrow> nat \<times> coap_packet_t" where
  "coap_set_header_location_path mem p path =
     (let (segs, n) = split_segments_loop ch_slash mem [] (skip_first ch_slash path)
      in (n, SET_OPTION (p\<lparr>location_path := segs\<rparr>) OPT_LOCATION_PATH))"

definition coap_get_header_location_query :: "coap_packet_t \<Rightarrow> bytes option" where
  "coap_get_header_location_query p =
     (if \<not> IS_OPTION p OPT_LOCATION_QUERY then None else location_query p)"

definition coap_set_header_location_query :: "coap_packet_t \<Rightarrow> bytes \<Rightarrow> coap_packet_t" where
  "coap_set_header_location_query p query =
     SET_OPTION (p\<lparr>location_query := Some (dropWhile (\<lambda>c. c = ch_quest) query)\<rparr>) OPT_LOCATION_QUERY"

definition coap_get_header_observe :: "coap_packet_t \<Rightarrow> u32 option" where
  "coap_get_header_observe p = (if \<not> IS_OPTION p OPT_OBSERVE then None else Some (observe p))"

definition coap_set_header_observe :: "coap_packet_t \<Rightarrow> u32 \<Rightarrow> coap_packet_t" where
  "coap_set_header_observe p v = SET_OPTION (p\<lparr>observe := 0x00FFFFFF AND v\<rparr>) OPT_OBSERVE"

text \<open>Number, more flag, size and offset.\<close>

definition coap_get_header_block2 :: "coap_packet_t \<Rightarrow> (u32 \<times> u8 \<times> u16 \<times> u32) option" where
  "coap_get_header_block2 p = (if \<not> IS_OPTION p OPT_BLOCK2 then None
     else Some (block2_num p, block2_more p, block2_size p, block2_offset p))"

definition coap_set_header_block2 :: "coap_packet_t \<Rightarrow> u32 \<Rightarrow> u8 \<Rightarrow> u16 \<Rightarrow> nat \<times> coap_packet_t" where
  "coap_set_header_block2 p num m sz =
     (if sz < 16 then (0, p) else if sz > 2048 then (0, p) else if num > 0x0FFFFF then (0, p)
      else (1, SET_OPTION (p\<lparr>block2_num := num, block2_more := (if m \<noteq> 0 then 1 else 0),
                             block2_size := sz\<rparr>) OPT_BLOCK2))"

definition coap_get_header_block1 :: "coap_packet_t \<Rightarrow> (u32 \<times> u8 \<times> u16 \<times> u32) option" where
  "coap_get_header_block1 p = (if \<not> IS_OPTION p OPT_BLOCK1 then None
     else Some (block1_num p, block1_more p, block1_size p, block1_offset p))"

definition coap_set_header_block1 :: "coap_packet_t \<Rightarrow> u32 \<Rightarrow> u8 \<Rightarrow> u16 \<Rightarrow> nat \<times> coap_packet_t" where
  "coap_set_header_block1 p num m sz =
     (if sz < 16 then (0, p) else if sz > 2048 then (0, p) else if num > 0x0FFFFF then (0, p)
      else (1, SET_OPTION (p\<lparr>block1_num := num, block1_more := m, block1_size := sz\<rparr>) OPT_BLOCK1))"

definition coap_get_header_block :: "coap_packet_t \<Rightarrow> (u32 \<times> u8 \<times> u16 \<times> u32) option" where
  "coap_get_header_block p =
     (case coap_get_header_block1 p of Some b \<Rightarrow> Some b | None \<Rightarrow> coap_get_header_block1 p)"

definition coap_get_header_size :: "coap_packet_t \<Rightarrow> u32 option" where
  "coap_get_header_size p = (if \<not> IS_OPTION p OPT_SIZE then None else Some (opt_size p))"

definition coap_set_header_size :: "coap_packet_t \<Rightarrow> u32 \<Rightarrow> coap_packet_t" where
  "coap_set_header_size p s = SET_OPTION (p\<lparr>opt_size := s\<rparr>) OPT_SIZE"

definition coap_get_payload :: "coap_packet_t \<Rightarrow> bytes" where
  "coap_get_payload p = ptr_bytes (payload p)"

text \<open>The length of the payload is kept modulo \<open>2^16\<close>.\<close>

definition coap_set_payload :: "coap_packet_t \<Rightarrow> bytes option \<Rightarrow> nat \<times> coap_packet_t" where
  "coap_set_payload p pl =
     (let n = length (ptr_bytes pl) mod 65536 in (n, p\<lparr>payload := map_option (take n) pl\<rparr>))"

section \<open>Variables of a form body\<close>

text \<open>The search loop of \<open>coap_get_variable\<close>, over the rest of the buffer; \<open>atStart\<close> is
  \<open>start == buffer || start[-1] == '&'\<close>.\<close>

fun get_variable_loop :: "bool \<Rightarrow> bytes \<Rightarrow> bytes \<Rightarrow> bytes option" where
  "get_variable_loop atStart name [] = None"
| "get_variable_loop atStart name (c # cs) =
     (if length name < length (c # cs) then
        (if atStart \<and> (c # cs) ! length name = 0x3D \<and> take (length name) (c # cs) = name
         then Some (takeWhile (\<lambda>b. b \<noteq> ch_amp) (drop (length name + 1) (c # cs)))
         else get_variable_loop (c = ch_amp) name cs)
      else None)"

definition coap_get_post_variable :: "coap_packet_t \<Rightarrow> bytes \<Rightarrow> bytes option" where
  "coap_get_post_variable p name = get_variable_loop True name (ptr_bytes (payload p))"

end
