(* ===== verification/CoapCodec.thy ===== *)
theory CoapCodec
  imports Coap
begin

text \<open>
  The correctness of serialization and parsing (\<open>er-coap-13.c\<close>).  A packet's options are the
  list \<open>coap_options\<close> of numbers and values, in the order they are sent; the serializer writes
  exactly the encoding of this list (\<open>encode_options\<close>), the parser folds the \<open>switch\<close> of
  \<open>coap_parse_option\<close> over it, and the two are put together in the round trip.
\<close>

section \<open>The bitmap\<close>

lemma IS_OPTION_bit:
  "IS_OPTION p m \<longleftrightarrow> m < length (options p) * 8 \<and> bit (options p ! (m div 8)) (m mod 8)"
  by (simp add: IS_OPTION_def push_bit_eq_mult and_exp_eq_0_iff_not_bit)

lemma length_options_SET [simp]: "length (options (SET_OPTION p n)) = length (options p)"
  by (simp add: SET_OPTION_def)

lemma IS_SET_OPTION [simp]:
  "IS_OPTION (SET_OPTION p n) m \<longleftrightarrow> IS_OPTION p m \<or> m = n \<and> n < length (options p) * 8"
proof (cases "n < length (options p) * 8")
  case True
  then have div: "n div 8 < length (options p)" by (simp add: div_less_iff_less_mult)
  have eq: "m = n \<longleftrightarrow> m div 8 = n div 8 \<and> m mod 8 = n mod 8" by (metis div_mult_mod_eq)
  have bit: "bit (push_bit (n mod 8) 1 :: u8) (m mod 8) \<longleftrightarrow> m mod 8 = n mod 8"
    by (auto simp: bit_simps)
  show ?thesis
  proof (cases "m div 8 = n div 8")
    case same: True
    then have "m < length (options p) * 8" using div by (simp add: div_less_iff_less_mult [symmetric])
    with True div same eq bit show ?thesis by (simp add: IS_OPTION_bit SET_OPTION_def bit_or_iff)
  next
    case False
    with True div eq show ?thesis by (auto simp: IS_OPTION_bit SET_OPTION_def)
  qed
qed (auto simp: SET_OPTION_def)

lemma SET_OPTION_fields [simp]:
  "version (SET_OPTION p n) = version p" "msg_type (SET_OPTION p n) = msg_type p"
  "code (SET_OPTION p n) = code p" "mid (SET_OPTION p n) = mid p"
  "content_type (SET_OPTION p n) = content_type p" "max_age (SET_OPTION p n) = max_age p"
  "proxy_uri (SET_OPTION p n) = proxy_uri p" "etag (SET_OPTION p n) = etag p"
  "uri_host (SET_OPTION p n) = uri_host p" "location_path (SET_OPTION p n) = location_path p"
  "uri_port (SET_OPTION p n) = uri_port p" "location_query (SET_OPTION p n) = location_query p"
  "uri_path (SET_OPTION p n) = uri_path p" "observe (SET_OPTION p n) = observe p"
  "token (SET_OPTION p n) = token p" "accept (SET_OPTION p n) = accept p"
  "if_match (SET_OPTION p n) = if_match p" "block2_num (SET_OPTION p n) = block2_num p"
  "block2_more (SET_OPTION p n) = block2_more p" "block2_size (SET_OPTION p n) = block2_size p"
  "block2_offset (SET_OPTION p n) = block2_offset p" "block1_num (SET_OPTION p n) = block1_num p"
  "block1_more (SET_OPTION p n) = block1_more p" "block1_size (SET_OPTION p n) = block1_size p"
  "block1_offset (SET_OPTION p n) = block1_offset p" "opt_size (SET_OPTION p n) = opt_size p"
  "uri_query (SET_OPTION p n) = uri_query p" "if_none_match (SET_OPTION p n) = if_none_match p"
  "payload (SET_OPTION p n) = payload p"
  by (simp_all add: SET_OPTION_def)

lemma IS_OPTION_update [simp]:
  "IS_OPTION (p\<lparr>version := v1\<rparr>) n = IS_OPTION p n" "IS_OPTION (p\<lparr>msg_type := v2\<rparr>) n = IS_OPTION p n"
  "IS_OPTION (p\<lparr>code := v3\<rparr>) n = IS_OPTION p n" "IS_OPTION (p\<lparr>mid := v4\<rparr>) n = IS_OPTION p n"
  "IS_OPTION (p\<lparr>content_type := v5\<rparr>) n = IS_OPTION p n" "IS_OPTION (p\<lparr>max_age := v6\<rparr>) n = IS_OPTION p n"
  "IS_OPTION (p\<lparr>proxy_uri := v7\<rparr>) n = IS_OPTION p n" "IS_OPTION (p\<lparr>etag := v8\<rparr>) n = IS_OPTION p n"
  "IS_OPTION (p\<lparr>uri_host := v9\<rparr>) n = IS_OPTION p n" "IS_OPTION (p\<lparr>location_path := v10\<rparr>) n = IS_OPTION p n"
  "IS_OPTION (p\<lparr>uri_port := v11\<rparr>) n = IS_OPTION p n" "IS_OPTION (p\<lparr>location_query := v12\<rparr>) n = IS_OPTION p n"
  "IS_OPTION (p\<lparr>uri_path := v13\<rparr>) n = IS_OPTION p n" "IS_OPTION (p\<lparr>observe := v14\<rparr>) n = IS_OPTION p n"
  "IS_OPTION (p\<lparr>token := v15\<rparr>) n = IS_OPTION p n" "IS_OPTION (p\<lparr>accept := v16\<rparr>) n = IS_OPTION p n"
  "IS_OPTION (p\<lparr>if_match := v17\<rparr>) n = IS_OPTION p n" "IS_OPTION (p\<lparr>block2_num := v18\<rparr>) n = IS_OPTION p n"
  "IS_OPTION (p\<lparr>block2_more := v19\<rparr>) n = IS_OPTION p n" "IS_OPTION (p\<lparr>block2_size := v20\<rparr>) n = IS_OPTION p n"
  "IS_OPTION (p\<lparr>block2_offset := v21\<rparr>) n = IS_OPTION p n" "IS_OPTION (p\<lparr>block1_num := v22\<rparr>) n = IS_OPTION p n"
  "IS_OPTION (p\<lparr>block1_more := v23\<rparr>) n = IS_OPTION p n" "IS_OPTION (p\<lparr>block1_size := v24\<rparr>) n = IS_OPTION p n"
  "IS_OPTION (p\<lparr>block1_offset := v25\<rparr>) n = IS_OPTION p n" "IS_OPTION (p\<lparr>opt_size := v26\<rparr>) n = IS_OPTION p n"
  "IS_OPTION (p\<lparr>uri_query := v27\<rparr>) n = IS_OPTION p n" "IS_OPTION (p\<lparr>if_none_match := v28\<rparr>) n = IS_OPTION p n"
  "IS_OPTION (p\<lparr>payload := v29\<rparr>) n = IS_OPTION p n"
  by (simp_all add: IS_OPTION_def)

lemma coap_zero_options [simp]: "\<not> IS_OPTION coap_zero n" "length (options coap_zero) = 5"
proof -
  show "length (options coap_zero) = 5" by (simp add: coap_zero_def)
  show "\<not> IS_OPTION coap_zero n"
  proof
    assume a: "IS_OPTION coap_zero n"
    then have "n div 8 < 5" by (simp add: IS_OPTION_bit coap_zero_def div_less_iff_less_mult)
    with a show False by (simp add: IS_OPTION_bit coap_zero_def nth_replicate)
  qed
qed

section \<open>Integer values\<close>

fun be_val :: "nat \<Rightarrow> bytes \<Rightarrow> nat" where
  "be_val n [] = n"
| "be_val n (b # bs) = be_val (256 * n + unat b) bs"

lemma unat_or_disjoint: "unat (push_bit 8 (v :: u32) OR ucast (b :: u8)) = unat (v * 256 + ucast b)"
proof -
  have "push_bit 8 v OR ucast b = push_bit 8 v + ucast b"
    by (rule disjunctive_add [symmetric]) (auto simp: bit_simps dest: bit_imp_le_length)
  then show ?thesis by (simp add: push_bit_eq_mult)
qed

lemma be_val_mono: "n \<le> be_val n bs"
proof (induction bs arbitrary: n)
  case (Cons b bs)
  have "256 * n + unat b \<le> be_val (256 * n + unat b) bs" by (rule Cons.IH)
  then show ?case by simp
qed simp

lemma parse_int_loop_val:
  "be_val (unat v) bs < 2 ^ 32 \<Longrightarrow> unat (parse_int_loop bs v) = be_val (unat v) bs"
proof (induction bs arbitrary: v)
  case (Cons b bs)
  have "256 * unat v + unat b < 2 ^ 32"
    using Cons.prems be_val_mono [of "256 * unat v + unat b" bs] by simp
  then have "unat (push_bit 8 v OR ucast b) = 256 * unat v + unat b"
    by (simp add: unat_or_disjoint unat_word_ariths mult.commute)
  with Cons show ?case by simp
qed simp

lemma mask_test:
  "0xFF000000 AND (v :: u32) = 0 \<longleftrightarrow> unat v < 2 ^ 24"
  "0xFFFF0000 AND v = 0 \<longleftrightarrow> unat v < 2 ^ 16"
  "0xFFFFFF00 AND v = 0 \<longleftrightarrow> unat v < 2 ^ 8"
  "0xFFFFFFFF AND v = 0 \<longleftrightarrow> unat v < 2 ^ 0"
proof -
  have mask: "NOT (mask n) AND v = 0 \<longleftrightarrow> unat v < 2 ^ n" if "n < 32" for n
  proof -
    have "NOT (mask n) AND v = 0 \<longleftrightarrow> take_bit n v = v"
      by (auto simp: bit_eq_iff bit_simps)
    also have "\<dots> \<longleftrightarrow> take_bit n (unat v) = unat v"
      by (metis unsigned_take_bit_eq word_unat_eq_iff)
    also have "\<dots> \<longleftrightarrow> unat v < 2 ^ n"
      by (rule take_bit_nat_eq_self_iff)
    finally show ?thesis .
  qed
  have eq: "0xFF000000 = NOT (mask 24 :: u32)" "0xFFFF0000 = NOT (mask 16 :: u32)"
    "0xFFFFFF00 = NOT (mask 8 :: u32)" "0xFFFFFFFF = NOT (mask 0 :: u32)"
    by (simp_all add: mask_eq_exp_minus_1)
  show "0xFF000000 AND v = 0 \<longleftrightarrow> unat v < 2 ^ 24" unfolding eq by (rule mask) simp
  show "0xFFFF0000 AND v = 0 \<longleftrightarrow> unat v < 2 ^ 16" unfolding eq by (rule mask) simp
  show "0xFFFFFF00 AND v = 0 \<longleftrightarrow> unat v < 2 ^ 8" unfolding eq by (rule mask) simp
  show "0xFFFFFFFF AND v = 0 \<longleftrightarrow> unat v < 2 ^ 0" unfolding eq by (rule mask) simp
qed

lemma unat_byte_of: "unat (ucast (drop_bit k (v :: u32)) :: u8) = unat v div 2 ^ k mod 256"
  by (simp only: unat_ucast_mod unat_drop_bit_eq) (simp add: drop_bit_eq_div)

lemma int_option_bytes_cases:
  obtains "unat v = 0" "int_option_bytes v = []"
  | a where "unat v < 2 ^ 8" "int_option_bytes v = [a]" "unat a = unat v"
  | a b where "unat v < 2 ^ 16" "2 ^ 8 \<le> unat v" "int_option_bytes v = [a, b]" "256 * unat a + unat b = unat v"
  | a b c where "unat v < 2 ^ 24" "2 ^ 16 \<le> unat v" "int_option_bytes v = [a, b, c]"
      "256 * (256 * unat a + unat b) + unat c = unat v"
  | a b c d where "2 ^ 24 \<le> unat v" "int_option_bytes v = [a, b, c, d]"
      "256 * (256 * (256 * unat a + unat b) + unat c) + unat d = unat v"
proof -
  let ?n = "unat v"
  let ?b = "\<lambda>k. ucast (drop_bit k v) :: u8"
  have n: "?n < 4294967296" by simp
  have val: "unat (?b 24) = ?n div 16777216 mod 256" "unat (?b 16) = ?n div 65536 mod 256"
    "unat (?b 8) = ?n div 256 mod 256" "unat (ucast v :: u8) = ?n mod 256"
    using unat_byte_of [of 24 v] unat_byte_of [of 16 v] unat_byte_of [of 8 v] unat_byte_of [of 0 v]
    by (simp_all del: drop_bit_eq_div)
  have bytes: "int_option_bytes v
      = (if 2 ^ 24 \<le> ?n then [?b 24] else []) @ (if 2 ^ 16 \<le> ?n then [?b 16] else [])
        @ (if 2 ^ 8 \<le> ?n then [?b 8] else []) @ (if 2 ^ 0 \<le> ?n then [ucast v] else [])"
    unfolding int_option_bytes_def by (simp only: mask_test not_less if_not_P)
  have join: "256 * (m div 256) + m mod 256 = m" for m :: nat by simp
  have divs: "?n div 65536 = ?n div 256 div 256" "?n div 16777216 = ?n div 65536 div 256"
    by (simp_all flip: div_mult2_eq)
  have top: "?n div 16777216 mod 256 = ?n div 16777216" using n by (simp add: div_less_iff_less_mult)
  have join4: "256 * (256 * (256 * (?n div 16777216 mod 256) + ?n div 65536 mod 256) + ?n div 256 mod 256)
      + ?n mod 256 = ?n"
    unfolding top unfolding divs by (simp only: join)
  consider "?n = 0" | "1 \<le> ?n" "?n < 256" | "256 \<le> ?n" "?n < 65536"
    | "65536 \<le> ?n" "?n < 16777216" | "16777216 \<le> ?n" by linarith
  then show thesis
  proof cases
    case 1
    with bytes that(1) show thesis by simp
  next
    case 2
    with bytes val show thesis by (intro that(2) [of "ucast v"]) simp_all
  next
    case 3
    from 3 have "?n div 256 mod 256 = ?n div 256" by (simp add: div_less_iff_less_mult)
    then have "256 * (?n div 256 mod 256) + ?n mod 256 = ?n" by (simp only: join)
    with 3 bytes val show thesis by (intro that(3) [of "?b 8" "ucast v"]) simp_all
  next
    case 4
    from 4 have "?n div 65536 mod 256 = ?n div 256 div 256" by (simp add: div_less_iff_less_mult divs)
    then have "256 * (256 * (?n div 65536 mod 256) + ?n div 256 mod 256) + ?n mod 256 = ?n"
      by (simp only: join)
    with 4 bytes val show thesis by (intro that(4) [of "?b 16" "?b 8" "ucast v"]) simp_all
  next
    case 5
    with bytes val join4 show thesis
      by (intro that(5) [of "?b 24" "?b 16" "?b 8" "ucast v"]) simp_all
  qed
qed

lemma parse_int_option_bytes [simp]: "coap_parse_int_option (int_option_bytes v) = v"
proof -
  have "be_val 0 (int_option_bytes v) = unat v"
    by (rule int_option_bytes_cases [of v]) simp_all
  then have "unat (parse_int_loop (int_option_bytes v) 0) = unat v"
    using parse_int_loop_val [of 0 "int_option_bytes v"] by simp
  then show ?thesis by (simp add: coap_parse_int_option_def word_unat_eq_iff)
qed

lemma length_int_option_bytes:
  "length (int_option_bytes v) \<le> 4"
  "unat v < 2 ^ 24 \<Longrightarrow> length (int_option_bytes v) \<le> 3"
  "unat v < 2 ^ 16 \<Longrightarrow> length (int_option_bytes v) \<le> 2"
  by (rule int_option_bytes_cases [of v]; simp)+

section \<open>Option headers\<close>

lemma nibble_bytes:
  "list_all (\<lambda>a. list_all (\<lambda>b. unat (drop_bit 4 (push_bit 4 (word_of_nat a) OR word_of_nat b :: u8)) = a
     \<and> unat ((push_bit 4 (word_of_nat a) OR word_of_nat b :: u8) AND 0x0F) = b
     \<and> (push_bit 4 (word_of_nat a) OR word_of_nat b :: u8) \<noteq> 0xFF) [0..<15]) [0..<15]"
  by code_simp

lemma nibble_less: "unat (coap_option_nibble x) < 15"
  by (simp add: coap_option_nibble_def unat_of_nat)

lemma header_byte:
  assumes "unat a < 15" "unat b < 15"
  shows "unat (drop_bit 4 (push_bit 4 a OR b :: u8)) = unat a"
    "unat ((push_bit 4 a OR b :: u8) AND 0x0F) = unat b" "(push_bit 4 a OR b :: u8) \<noteq> 0xFF"
proof -
  have "unat a \<in> set [0..<15]" "unat b \<in> set [0..<15]" using assms by simp_all
  with nibble_bytes have *: "unat (drop_bit 4 (push_bit 4 (word_of_nat (unat a)) OR word_of_nat (unat b) :: u8)) = unat a
     \<and> unat ((push_bit 4 (word_of_nat (unat a)) OR word_of_nat (unat b) :: u8) AND 0x0F) = unat b
     \<and> (push_bit 4 (word_of_nat (unat a)) OR word_of_nat (unat b) :: u8) \<noteq> 0xFF"
    unfolding list_all_iff by blast
  have "word_of_nat (unat a) = a" "word_of_nat (unat b) = b" by simp_all
  with * show "unat (drop_bit 4 (push_bit 4 a OR b :: u8)) = unat a"
    "unat ((push_bit 4 a OR b :: u8) AND 0x0F) = unat b" "(push_bit 4 a OR b :: u8) \<noteq> 0xFF"
    by (simp_all only: not_False_eq_True)
qed

lemma parse_ext_option_ext:
  "x \<le> 65804 \<Longrightarrow> parse_ext (unat (coap_option_nibble x)) (option_ext x @ rest) = Some (x, rest)"
  by (auto simp: parse_ext_def coap_option_nibble_def option_ext_def unat_of_nat simp del: of_nat_diff)

lemma parse_option_header_set:
  assumes "d \<le> 65804" "l \<le> 65804"
  obtains b r where "coap_set_option_header d l = b # r" "b \<noteq> 0xFF"
    "\<And>rest. parse_option_header b (r @ rest) = Some (d, l, rest)"
proof -
  let ?h = "push_bit 4 (coap_option_nibble d) OR coap_option_nibble l"
  have mods: "d mod 4294967296 = d" "l mod 4294967296 = l" using assms by simp_all
  note h = header_byte [OF nibble_less nibble_less, of d l]
  have "parse_option_header ?h ((option_ext d @ option_ext l) @ rest) = Some (d, l, rest)" for rest
    unfolding parse_option_header_def Let_def h
    using nibble_less [of d] nibble_less [of l] parse_ext_option_ext assms by simp
  moreover have "coap_set_option_header d l = ?h # option_ext d @ option_ext l"
    by (simp add: coap_set_option_header_def mods Let_def)
  ultimately show thesis using h(3) by (intro that)
qed

section \<open>The options of a packet\<close>

fun encode_options :: "nat \<Rightarrow> (nat \<times> bytes) list \<Rightarrow> bytes" where
  "encode_options cur [] = []"
| "encode_options cur ((n, v) # os) =
     coap_set_option_header (n - cur) (length v) @ v @ encode_options n os"

definition last_number :: "nat \<Rightarrow> (nat \<times> bytes) list \<Rightarrow> nat" where
  "last_number cur os = (if os = [] then cur else fst (last os))"

lemma last_number_simps [simp]:
  "last_number cur [] = cur" "last_number cur ((n, v) # os) = last_number n os"
  "last_number cur (os @ os') = last_number (last_number cur os) os'"
  by (auto simp: last_number_def)

lemma encode_options_append:
  "encode_options cur (os @ os') = encode_options cur os @ encode_options (last_number cur os) os'"
  by (induction cur os rule: encode_options.induct) auto

text \<open>The parts of a text between separators, and the text they make.\<close>

fun sep_parts :: "u8 \<Rightarrow> bytes \<Rightarrow> bytes list" where
  "sep_parts c [] = [[]]"
| "sep_parts c (b # bs) =
     (if b = c then [] # sep_parts c bs
      else case sep_parts c bs of [] \<Rightarrow> [[b]] | p # ps \<Rightarrow> (b # p) # ps)"

fun sep_join :: "u8 \<Rightarrow> bytes list \<Rightarrow> bytes" where
  "sep_join c [] = []"
| "sep_join c [p] = p"
| "sep_join c (p # ps) = p @ c # sep_join c ps"

lemma sep_parts_nonempty [simp]: "sep_parts c bs \<noteq> []"
  by (cases bs) (auto split: list.split)

lemma sep_join_Cons: "ps \<noteq> [] \<Longrightarrow> sep_join c (p # ps) = p @ c # sep_join c ps"
  by (cases ps) simp_all

lemma sep_join_parts [simp]: "sep_join c (sep_parts c bs) = bs"
proof (induction bs)
  case (Cons b bs)
  then show ?case
  proof (cases "sep_parts c bs")
    case (Cons p ps)
    with Cons.IH show ?thesis by (cases ps) (auto simp: sep_join_Cons)
  qed (simp add: sep_join_Cons)
qed simp

lemma sep_parts_sep: "p \<in> set (sep_parts c bs) \<Longrightarrow> c \<notin> set p"
proof (induction bs arbitrary: p)
  case (Cons b bs)
  then show ?case by (cases "sep_parts c bs") (auto split: if_splits)
qed simp

text \<open>The options in the order of transmission: each option that is set with its value, repeated
  options once per segment.\<close>

definition opt_group :: "coap_packet_t \<Rightarrow> nat \<Rightarrow> bytes list \<Rightarrow> (nat \<times> bytes) list" where
  "opt_group p n vs = (if IS_OPTION p n then map (Pair n) vs else [])"

definition coap_options :: "coap_packet_t \<Rightarrow> (nat \<times> bytes) list" where
  "coap_options p =
     opt_group p OPT_IF_MATCH [if_match p] @ opt_group p OPT_URI_HOST [ptr_bytes (uri_host p)]
     @ opt_group p OPT_ETAG [etag p] @ opt_group p OPT_IF_NONE_MATCH [[]]
     @ opt_group p OPT_OBSERVE [int_option_bytes (observe p)]
     @ opt_group p OPT_URI_PORT [int_option_bytes (ucast (uri_port p))]
     @ opt_group p OPT_LOCATION_PATH (location_path p) @ opt_group p OPT_URI_PATH (uri_path p)
     @ opt_group p OPT_CONTENT_TYPE [int_option_bytes (content_type p)]
     @ opt_group p OPT_MAX_AGE [int_option_bytes (max_age p)] @ opt_group p OPT_URI_QUERY (uri_query p)
     @ opt_group p OPT_ACCEPT (map (\<lambda>a. int_option_bytes (ucast a)) (accept p))
     @ opt_group p OPT_LOCATION_QUERY (sep_parts ch_amp (ptr_bytes (location_query p)))
     @ opt_group p OPT_BLOCK2 [int_option_bytes (block_value (block2_num p) (block2_more p) (block2_size p))]
     @ opt_group p OPT_BLOCK1 [int_option_bytes (block_value (block1_num p) (block1_more p) (block1_size p))]
     @ opt_group p OPT_SIZE [int_option_bytes (opt_size p)]
     @ opt_group p OPT_PROXY_URI [ptr_bytes (proxy_uri p)]"

definition emit :: "(nat \<times> bytes) list \<Rightarrow> nat \<times> bytes \<Rightarrow> nat \<times> bytes" where
  "emit os = (\<lambda>(cur, out). (last_number cur os, out @ encode_options cur os))"

lemma emit_emit: "emit os' (emit os s) = emit (os @ os') s"
  by (cases s) (simp add: emit_def encode_options_append)

lemma emit_Nil [simp]: "emit [] s = s"
  by (cases s) (simp add: emit_def)

lemma serialize_int_emit:
  "COAP_SERIALIZE_INT_OPTION p n v s = emit (opt_group p n [int_option_bytes v]) s"
  by (cases s) (simp add: COAP_SERIALIZE_INT_OPTION_def emit_def opt_group_def coap_serialize_int_option_def)

lemma serialize_string_emit:
  "COAP_SERIALIZE_STRING_OPTION p n v 0 s = emit (opt_group p n [v]) s"
  by (cases s) (simp add: COAP_SERIALIZE_STRING_OPTION_def emit_def opt_group_def coap_serialize_array_option_def)

lemma serialize_block_emit:
  "COAP_SERIALIZE_BLOCK_OPTION p n num m sz s = emit (opt_group p n [int_option_bytes (block_value num m sz)]) s"
  by (cases s) (simp add: COAP_SERIALIZE_BLOCK_OPTION_def emit_def opt_group_def coap_serialize_int_option_def)

lemma accept_loop_emit:
  "accept_loop n as s = emit (map (\<lambda>a. (n, int_option_bytes (ucast a))) as) s"
  by (induction n as s rule: accept_loop.induct)
    (simp_all add: emit_def coap_serialize_int_option_def)

lemma serialize_accept_emit:
  "COAP_SERIALIZE_ACCEPT_OPTION p n as s = emit (opt_group p n (map (\<lambda>a. int_option_bytes (ucast a)) as)) s"
  by (simp add: COAP_SERIALIZE_ACCEPT_OPTION_def accept_loop_emit opt_group_def comp_def)

lemma multi_option_encode: "coap_serialize_multi_option n cur segs = encode_options cur (map (Pair n) segs)"
  by (induction n cur segs rule: coap_serialize_multi_option.induct) simp_all

lemma last_number_map: "last_number cur (map (Pair n) vs) = (if vs = [] then cur else n)"
  by (induction vs arbitrary: cur) auto

text \<open>A list option that is set needs a segment: an empty one would move \<open>current_number\<close>
  without sending anything.\<close>

lemma serialize_multi_emit:
  "IS_OPTION p n \<longrightarrow> segs \<noteq> [] \<Longrightarrow> COAP_SERIALIZE_MULTI_OPTION p n segs s = emit (opt_group p n segs) s"
  by (cases s)
    (simp add: COAP_SERIALIZE_MULTI_OPTION_def emit_def opt_group_def multi_option_encode last_number_map)

declare array_split_loop.simps [simp del]

text \<open>The splitting loop finds the next part \<open>v\<close> of the text.\<close>

lemma array_split_scan:
  assumes "array = pre @ v @ rest" "c \<notin> set v" "ps = length pre" "ps \<le> j" "j \<le> ps + length v"
    "rest = [] \<or> hd rest = c"
  shows "array_split_loop n cur array c j ps =
    coap_set_option_header (n - cur) (length v) @ v
      @ array_split_loop n n array c (ps + length v + 2) (ps + length v + 1)"
  using assms(4,5)
proof (induction "ps + length v - j" arbitrary: j)
  case 0
  then have j: "j = ps + length v" by simp
  have "j = length array \<or> array ! j = c"
    using assms(1,3,6) j by (cases rest) (auto simp: nth_append)
  moreover have "j \<le> length array" using assms(1,3) j by simp
  ultimately show ?case
    using assms(1,3) j by (subst array_split_loop.simps) (simp add: Let_def)
next
  case (Suc k)
  then have "array ! j \<in> set v" using assms(1,3) by (auto simp: nth_append)
  then have "array ! j \<noteq> c" using assms(2) by auto
  moreover have "j < length array" using Suc assms(1,3) by simp
  ultimately have "array_split_loop n cur array c j ps = array_split_loop n cur array c (j + 1) ps"
    by (subst array_split_loop.simps) simp
  with Suc show ?case by simp
qed

lemma array_split_parts:
  assumes "\<forall>v\<in>set vs. v \<noteq> [] \<and> c \<notin> set v" "vs \<noteq> []" "array = pre @ sep_join c vs"
    "ps = length pre" "j = ps \<or> j = ps + 1"
  shows "array_split_loop n cur array c j ps = encode_options cur (map (Pair n) vs)"
  using assms
proof (induction vs arbitrary: pre cur j ps)
  case (Cons v vs)
  have v: "Suc 0 \<le> length v" "c \<notin> set v" using Cons.prems(1) by (simp_all add: Suc_le_eq)
  show ?case
  proof (cases "vs = []")
    case True
    have "array_split_loop n n array c (ps + length v + 2) (ps + length v + 1) = []"
      using Cons.prems True by (subst array_split_loop.simps) simp
    then show ?thesis
      using Cons.prems v True array_split_scan [of array pre v "[]" c ps j n cur] by auto
  next
    case False
    then have arr: "array = (pre @ v @ [c]) @ sep_join c vs"
      using Cons.prems(3) by (simp add: sep_join_Cons)
    have "array_split_loop n n array c (ps + length v + 2) (ps + length v + 1) = encode_options n (map (Pair n) vs)"
      using Cons.prems(1,4) False arr by (intro Cons.IH) auto
    then show ?thesis
      using Cons.prems(4,5) v arr array_split_scan [of array pre v "c # sep_join c vs" c ps j n cur]
      by auto
  qed
qed simp

lemma serialize_query_emit:
  assumes "IS_OPTION p n \<longrightarrow> [] \<notin> set (sep_parts c v)" "c \<noteq> 0"
  shows "COAP_SERIALIZE_STRING_OPTION p n v c s = emit (opt_group p n (sep_parts c v)) s"
  using assms array_split_parts [of "sep_parts c v" c v "[]" 0 0 n] sep_parts_sep [of _ c v]
  by (cases s) (auto simp: COAP_SERIALIZE_STRING_OPTION_def emit_def opt_group_def
      coap_serialize_array_option_def last_number_map)

text \<open>The lists of segments that are set have a segment, and the location query is a sequence of
  nonempty parts.\<close>

definition coap_lists_ok :: "coap_packet_t \<Rightarrow> bool" where
  "coap_lists_ok p \<longleftrightarrow>
     (IS_OPTION p OPT_LOCATION_PATH \<longrightarrow> location_path p \<noteq> [])
     \<and> (IS_OPTION p OPT_URI_PATH \<longrightarrow> uri_path p \<noteq> [])
     \<and> (IS_OPTION p OPT_URI_QUERY \<longrightarrow> uri_query p \<noteq> [])
     \<and> (IS_OPTION p OPT_LOCATION_QUERY \<longrightarrow> [] \<notin> set (sep_parts ch_amp (ptr_bytes (location_query p))))"

lemma int_option_bytes_0 [simp]: "int_option_bytes 0 = []"
  by (simp add: int_option_bytes_def)

lemma serialize_options_emit:
  assumes "coap_lists_ok p"
  shows "coap_serialize_options p s = emit (coap_options p) s"
proof -
  note ok = assms [unfolded coap_lists_ok_def]
  have amp: "ch_amp \<noteq> 0" by simp
  have lp: "COAP_SERIALIZE_MULTI_OPTION p OPT_LOCATION_PATH (location_path p) t = emit (opt_group p OPT_LOCATION_PATH (location_path p)) t" for t
    using ok by (intro serialize_multi_emit) simp
  have up: "COAP_SERIALIZE_MULTI_OPTION p OPT_URI_PATH (uri_path p) t = emit (opt_group p OPT_URI_PATH (uri_path p)) t" for t
    using ok by (intro serialize_multi_emit) simp
  have uq: "COAP_SERIALIZE_MULTI_OPTION p OPT_URI_QUERY (uri_query p) t = emit (opt_group p OPT_URI_QUERY (uri_query p)) t" for t
    using ok by (intro serialize_multi_emit) simp
  have lq: "COAP_SERIALIZE_STRING_OPTION p OPT_LOCATION_QUERY (ptr_bytes (location_query p)) ch_amp t
      = emit (opt_group p OPT_LOCATION_QUERY (sep_parts ch_amp (ptr_bytes (location_query p)))) t" for t
    using ok by (intro serialize_query_emit) simp_all
  show ?thesis
    unfolding coap_serialize_options_def Let_def coap_options_def
    by (simp only: serialize_string_emit serialize_int_emit serialize_block_emit serialize_accept_emit
        lp up uq lq emit_emit append_assoc diff_self int_option_bytes_0)
qed

section \<open>The size of the buffer\<close>

lemma length_option_ext: "length (option_ext x) = (if x > 268 then 2 else if x > 12 then 1 else 0)"
  by (simp add: option_ext_def)

lemma length_option_header:
  "length (coap_set_option_header d l) =
     1 + length (option_ext (d mod 2 ^ 32)) + length (option_ext (l mod 2 ^ 32))"
  by (simp add: coap_set_option_header_def Let_def)

text \<open>What an option of a number that is at most 35 costs at most.\<close>

definition option_cost :: "bytes \<Rightarrow> nat" where
  "option_cost v = (if length v \<le> 12 then 2 else 4) + length v"

lemma length_encode_options:
  "\<forall>(n, v)\<in>set os. n \<le> 35 \<Longrightarrow>
     length (encode_options cur os) \<le> sum_list (map (\<lambda>(n, v). option_cost v) os)"
proof (induction cur os rule: encode_options.induct)
  case (2 cur n v os)
  then have "n - cur \<le> 35" by auto
  then have d: "length (option_ext ((n - cur) mod 2 ^ 32)) \<le> 1" by (simp add: length_option_ext)
  have l: "length (option_ext (length v mod 2 ^ 32)) \<le> (if length v \<le> 12 then 0 else 2)"
    by (simp add: length_option_ext)
  have "length (coap_set_option_header (n - cur) (length v)) \<le> 2 + (if length v \<le> 12 then 0 else 2)"
    unfolding length_option_header using d l by linarith
  with 2 show ?case by (auto simp: option_cost_def split: if_splits)
qed simp

lemma cost_group:
  "sum_list (map (\<lambda>(n, v). option_cost v) (opt_group p m vs))
     = (if IS_OPTION p m then sum_list (map option_cost vs) else 0)"
  by (simp add: opt_group_def comp_def)

lemma cost_int: "unat v < 2 ^ 24 \<Longrightarrow> option_cost (int_option_bytes v) \<le> 5"
  using length_int_option_bytes(2) [of v] by (simp add: option_cost_def)

lemma cost_bytes: "option_cost v \<le> 5 + length v"
  by (simp add: option_cost_def)

lemma cost_multi: "sum_list (map option_cost segs) \<le> multi_size segs"
  by (induction segs) (auto simp: multi_size_def option_cost_def)

lemma cost_accept: "sum_list (map option_cost (map (\<lambda>a. int_option_bytes (ucast (a :: u16))) as)) \<le> length as * 5"
proof (induction as)
  case (Cons a as)
  have "option_cost (int_option_bytes (ucast a)) \<le> 5"
    by (rule cost_int) (use unat_u16_less [of a] in \<open>simp del: unat_u16_less\<close>)
  with Cons show ?case by simp
qed simp

text \<open>Values that fit the five bytes \<open>coap_serialize_get_size\<close> counts for an option.\<close>

definition coap_sizes_ok :: "coap_packet_t \<Rightarrow> bool" where
  "coap_sizes_ok p \<longleftrightarrow>
     (IS_OPTION p OPT_OBSERVE \<longrightarrow> unat (observe p) < 2 ^ 24)
     \<and> (IS_OPTION p OPT_CONTENT_TYPE \<longrightarrow> unat (content_type p) < 2 ^ 24)
     \<and> (IS_OPTION p OPT_MAX_AGE \<longrightarrow> unat (max_age p) < 2 ^ 24)
     \<and> (IS_OPTION p OPT_LOCATION_QUERY \<longrightarrow> ch_amp \<notin> set (ptr_bytes (location_query p)))
     \<and> (IS_OPTION p OPT_BLOCK2 \<longrightarrow> unat (block2_num p) < 2 ^ 20)
     \<and> (IS_OPTION p OPT_BLOCK1 \<longrightarrow> unat (block1_num p) < 2 ^ 20)
     \<and> (IS_OPTION p OPT_SIZE \<longrightarrow> unat (opt_size p) < 2 ^ 24)"

text \<open>The flags of a block value are below its number.\<close>

definition block_low :: "u8 \<Rightarrow> u16 \<Rightarrow> u32" where
  "block_low m sz = (if m \<noteq> 0 then 0x8 else 0) OR (0xF AND ucast (coap_log_2 (sz div 16)))"

lemma block_value_low: "block_value num m sz = push_bit 4 num OR block_low m sz"
  by (simp add: block_value_def block_low_def Let_def or.assoc)

lemma block_low_bits: "take_bit 4 (block_low m sz) = block_low m sz"
proof -
  have "0xF AND (x :: u32) = take_bit 4 x" for x by (simp add: take_bit_eq_mask mask_eq_exp_minus_1 and.commute)
  then show ?thesis by (simp add: block_low_def)
qed

lemma unat_lt_of_bits:
  assumes "take_bit n (w :: 'a::len word) = w"
  shows "unat w < 2 ^ n"
proof -
  have "take_bit n (unat w) = unat w" using assms by (metis unsigned_take_bit_eq)
  then show ?thesis by (simp only: take_bit_nat_eq_self_iff)
qed

lemma unat_block_value:
  assumes "unat num < 2 ^ 20"
  shows "unat (block_value num m sz) = 16 * unat num + unat (block_low m sz)"
proof -
  have low: "unat (block_low m sz) < 16" using unat_lt_of_bits [OF block_low_bits] by simp
  have "bit (block_low m sz) n \<Longrightarrow> n < 4" for n using block_low_bits by (metis bit_take_bit_iff)
  then have "block_value num m sz = push_bit 4 num + block_low m sz"
    unfolding block_value_low by (intro disjunctive_add [symmetric]) (auto simp: bit_simps not_less [symmetric])
  then show ?thesis using assms low by (simp add: push_bit_eq_mult unat_word_ariths mult.commute)
qed

lemma block_value_less:
  assumes "unat num < 2 ^ 20"
  shows "unat (block_value num m sz) < 2 ^ 24"
  using unat_block_value [OF assms, of m sz] unat_lt_of_bits [OF block_low_bits, of m sz] assms by simp

lemma sep_parts_no_sep: "c \<notin> set v \<Longrightarrow> sep_parts c v = [v]"
  by (induction v) auto

lemma length_serialized:
  assumes "coap_lists_ok p"
  shows "length (fst (coap_serialize_message p))
    = 4 + length (token p) + length (encode_options 0 (coap_options p))
      + (if length (ptr_bytes (payload p)) \<noteq> 0 then 1 else 0) + length (ptr_bytes (payload p))"
proof -
  have same: "coap_options (p\<lparr>version := 1\<rparr>) = coap_options p" by (simp add: coap_options_def opt_group_def)
  have "coap_lists_ok (p\<lparr>version := 1\<rparr>)" using assms by (simp add: coap_lists_ok_def)
  then show ?thesis
    by (simp add: coap_serialize_message_def serialize_options_emit same emit_def coap_header_bytes_def
        coap_free_header_def)
qed

lemma coap_serialize_fits_lemma:
  assumes "coap_lists_ok p" "coap_sizes_ok p"
  shows "length (fst (coap_serialize_message p)) \<le> coap_serialize_get_size p"
proof -
  note ok = assms(2) [unfolded coap_sizes_ok_def]
  have nums: "\<forall>(n, v)\<in>set (coap_options p). n \<le> 35"
    by (auto simp: coap_options_def opt_group_def split: if_splits)
  have q: "IS_OPTION p OPT_LOCATION_QUERY \<longrightarrow>
      sum_list (map option_cost (sep_parts ch_amp (ptr_bytes (location_query p))))
        \<le> 5 + length (ptr_bytes (location_query p))"
    using ok cost_bytes by (simp add: sep_parts_no_sep)
  let ?cost = "\<lambda>n vs. if IS_OPTION p n then sum_list (map option_cost vs) else 0"
  have one: "?cost n [v] \<le> (if IS_OPTION p n then 5 + length v else 0)" for n v
    using cost_bytes [of v] by simp
  have int: "?cost n [int_option_bytes v] \<le> (if IS_OPTION p n then 5 else 0)"
    if "IS_OPTION p n \<longrightarrow> unat v < 2 ^ 24" for n v using that cost_int [of v] by simp
  have multi: "?cost n segs \<le> (if IS_OPTION p n then multi_size segs else 0)" for n segs
    using cost_multi [of segs] by simp
  have port: "unat (ucast (uri_port p) :: u32) < 2 ^ 24"
    using unat_u16_less [of "uri_port p"] by (simp del: unat_u16_less)
  have none: "?cost OPT_IF_NONE_MATCH [[]] \<le> (if IS_OPTION p OPT_IF_NONE_MATCH then 5 else 0)"
    by (simp add: option_cost_def)
  have acc: "?cost OPT_ACCEPT (map (\<lambda>a. int_option_bytes (ucast a)) (accept p))
      \<le> (if IS_OPTION p OPT_ACCEPT then length (accept p) * 5 else 0)"
    using cost_accept [of "accept p"] by simp
  have query: "?cost OPT_LOCATION_QUERY (sep_parts ch_amp (ptr_bytes (location_query p)))
      \<le> (if IS_OPTION p OPT_LOCATION_QUERY then 5 + length (ptr_bytes (location_query p)) else 0)"
    using q by simp
  have c: "IS_OPTION p OPT_OBSERVE \<longrightarrow> unat (observe p) < 2 ^ 24"
    "IS_OPTION p OPT_URI_PORT \<longrightarrow> unat (ucast (uri_port p) :: u32) < 2 ^ 24"
    "IS_OPTION p OPT_CONTENT_TYPE \<longrightarrow> unat (content_type p) < 2 ^ 24"
    "IS_OPTION p OPT_MAX_AGE \<longrightarrow> unat (max_age p) < 2 ^ 24"
    "IS_OPTION p OPT_BLOCK2 \<longrightarrow> unat (block_value (block2_num p) (block2_more p) (block2_size p)) < 2 ^ 24"
    "IS_OPTION p OPT_BLOCK1 \<longrightarrow> unat (block_value (block1_num p) (block1_more p) (block1_size p)) < 2 ^ 24"
    "IS_OPTION p OPT_SIZE \<longrightarrow> unat (opt_size p) < 2 ^ 24"
    using ok block_value_less port by blast+
  have "sum_list (map (\<lambda>(n, v). option_cost v) (coap_options p)) + 4 + length (token p)
      + (if length (ptr_bytes (payload p)) \<noteq> 0 then 1 else 0) + length (ptr_bytes (payload p))
      \<le> coap_serialize_get_size p"
    unfolding coap_options_def map_append sum_list_append cost_group coap_serialize_get_size_def
    using one [of OPT_IF_MATCH "if_match p"] one [of OPT_URI_HOST "ptr_bytes (uri_host p)"]
      one [of OPT_ETAG "etag p"] none int [OF c(1)] int [OF c(2)] multi [of OPT_LOCATION_PATH "location_path p"]
      multi [of OPT_URI_PATH "uri_path p"] int [OF c(3)] int [OF c(4)]
      multi [of OPT_URI_QUERY "uri_query p"] acc query int [OF c(5)] int [OF c(6)] int [OF c(7)]
      one [of OPT_PROXY_URI "ptr_bytes (proxy_uri p)"] by linarith
  then show ?thesis
    unfolding length_serialized [OF assms(1)] using length_encode_options [OF nums, of 0] by linarith
qed

text \<open>C4: when the integer options are below \<open>2^24\<close>, the block numbers below \<open>2^20\<close>, the location query
  is one part, and no path, query or part of the location query that is set is empty, the buffer of
  \<open>coap_serialize_get_size\<close> bytes that \<open>transaction_send\<close> and \<open>message_send\<close> allocate is large enough
  for the message.  The two bounds that are the code's own fault are needed: see
  \<open>coap_max_age_overflow\<close> and \<open>coap_location_query_overflow\<close> below.\<close>

theorem coap_serialize_fits:
  assumes "coap_lists_ok p" "coap_sizes_ok p"
  shows "length (fst (coap_serialize_message p)) \<le> coap_serialize_get_size p"
  using assms by (rule coap_serialize_fits_lemma)

text \<open>A packet with the default size option and no other.\<close>

definition sized_request :: coap_packet_t where
  "sized_request = coap_set_header_size (coap_init_message COAP_TYPE_CON 1 7) 4096"

lemma IS_init [simp]: "\<not> IS_OPTION (coap_init_message t c m) n" "length (options (coap_init_message t c m)) = 5"
  by (simp_all add: coap_init_message_def)

theorem coap_serialize_fits_witness:
  "length (fst (coap_serialize_message sized_request)) \<le> coap_serialize_get_size sized_request"
proof (rule coap_serialize_fits)
  have "IS_OPTION sized_request n \<longleftrightarrow> n = 28" for n
    by (auto simp: sized_request_def coap_set_header_size_def)
  then show "coap_lists_ok sized_request" "coap_sizes_ok sized_request"
    by (simp_all add: coap_lists_ok_def coap_sizes_ok_def)
      (simp add: sized_request_def coap_set_header_size_def)
qed

text \<open>a Max-Age of \<open>2^24\<close> or more as first option takes two header bytes and four value
  bytes, one more than \<open>coap_serialize_get_size\<close> counts: the serializer writes one byte past the
  buffer allocated for the message.\<close>

theorem coap_max_age_overflow:
  assumes "2 ^ 24 \<le> unat age"
  shows "length (fst (coap_serialize_message (coap_set_header_max_age (coap_init_message t c m) age)))
    = coap_serialize_get_size (coap_set_header_max_age (coap_init_message t c m) age) + 1"
proof -
  let ?p = "coap_set_header_max_age (coap_init_message t c m) age"
  have is_opt: "IS_OPTION ?p n \<longleftrightarrow> n = 14" for n
    by (auto simp: coap_set_header_max_age_def)
  have fields: "token ?p = []" "payload ?p = None" "max_age ?p = age"
    by (simp_all add: coap_set_header_max_age_def coap_init_message_def coap_zero_def)
  have four: "length (int_option_bytes age) = 4"
    by (rule int_option_bytes_cases [of age]) (use assms in simp_all)
  have "coap_options ?p = [(14, int_option_bytes age)]"
    by (simp add: coap_options_def opt_group_def is_opt fields)
  then show ?thesis
    by (simp add: length_serialized coap_lists_ok_def is_opt fields ptr_bytes_def four length_option_header
        length_option_ext coap_serialize_get_size_def)
qed

theorem coap_max_age_overflow_witness:
  "length (fst (coap_serialize_message (coap_set_header_max_age (coap_init_message COAP_TYPE_ACK 69 1) 31536000)))
    = coap_serialize_get_size (coap_set_header_max_age (coap_init_message COAP_TYPE_ACK 69 1) 31536000) + 1"
  by (rule coap_max_age_overflow) simp

lemma sep_parts_append_sep: "c \<notin> set v \<Longrightarrow> sep_parts c (v @ c # rest) = v # sep_parts c rest"
  by (induction v) auto

lemma sep_parts_join:
  "vs \<noteq> [] \<Longrightarrow> \<forall>v\<in>set vs. c \<notin> set v \<Longrightarrow> sep_parts c (sep_join c vs) = vs"
proof (induction vs)
  case (Cons v vs)
  then show ?case
    by (cases "vs = []") (simp_all add: sep_parts_no_sep sep_join_Cons sep_parts_append_sep)
qed simp

lemma length_sep_join: "vs \<noteq> [] \<Longrightarrow> length (sep_join c vs) + 1 = sum_list (map length vs) + length vs"
proof (induction vs)
  case (Cons v vs)
  then show ?case by (cases "vs = []") (simp_all add: sep_join_Cons)
qed simp

lemma length_encode_13:
  "\<forall>v\<in>set vs. length v = 13 \<Longrightarrow> length (encode_options n (map (Pair n) vs)) = 15 * length vs"
  by (induction vs) (auto simp: length_option_header length_option_ext)

text \<open>a location query is sent one option per part, but only one option header is counted
  for it: a query of \<open>k\<close> parts of 13 bytes overruns the buffer by \<open>k - 3\<close> bytes.\<close>

theorem coap_location_query_overflow:
  assumes "\<forall>v\<in>set vs. length v = 13 \<and> ch_amp \<notin> set v" "vs \<noteq> []" "hd (hd vs) \<noteq> ch_quest"
  shows "length (fst (coap_serialize_message (coap_set_header_location_query (coap_init_message t c m) (sep_join ch_amp vs)))) + 3
    = coap_serialize_get_size (coap_set_header_location_query (coap_init_message t c m) (sep_join ch_amp vs)) + length vs"
proof -
  let ?q = "sep_join ch_amp vs"
  let ?p = "coap_set_header_location_query (coap_init_message t c m) ?q"
  obtain v vs' where vs: "vs = v # vs'" using assms(2) by (cases vs) auto
  then obtain b bs where v: "v = b # bs" using assms(1) by (cases v) auto
  have q: "dropWhile (\<lambda>c. c = ch_quest) ?q = ?q"
    using assms(3) vs v by (cases vs') simp_all
  have is_opt: "IS_OPTION ?p n \<longleftrightarrow> n = 20" for n
    by (auto simp: coap_set_header_location_query_def)
  have fields: "token ?p = []" "payload ?p = None" "location_query ?p = Some ?q"
    by (simp_all add: coap_set_header_location_query_def coap_init_message_def coap_zero_def q)
  have parts: "sep_parts ch_amp ?q = vs" using assms by (intro sep_parts_join) auto
  then have opts: "coap_options ?p = map (Pair 20) vs"
    by (simp add: coap_options_def opt_group_def is_opt fields ptr_bytes_def)
  have "coap_lists_ok ?p"
    using assms(1) by (auto simp: coap_lists_ok_def is_opt fields ptr_bytes_def parts)
  moreover have "length ?q = 14 * length vs - 1" "1 \<le> length vs"
  proof -
    have "map length vs = replicate (length vs) 13"
      using assms(1) by (simp add: map_replicate_const [symmetric])
    then show "length ?q = 14 * length vs - 1"
      using length_sep_join [OF assms(2), of ch_amp] by (simp add: sum_list_replicate)
  qed (use vs in simp)
  moreover have "length (encode_options 0 (map (Pair 20) vs)) = 15 * length vs + 1"
    using assms(1) vs length_encode_13 [of vs' 20] by (simp add: length_option_header length_option_ext)
  ultimately show ?thesis
    by (simp add: length_serialized opts fields ptr_bytes_def coap_serialize_get_size_def is_opt)
qed

theorem coap_location_query_overflow_witness:
  "length (fst (coap_serialize_message (coap_set_header_location_query (coap_init_message COAP_TYPE_ACK 65 1)
      (sep_join ch_amp (replicate 8 (replicate 13 0x61)))))) + 3
    = coap_serialize_get_size (coap_set_header_location_query (coap_init_message COAP_TYPE_ACK 65 1)
      (sep_join ch_amp (replicate 8 (replicate 13 0x61)))) + 8"
  using coap_location_query_overflow [of "replicate 8 (replicate 13 0x61)" COAP_TYPE_ACK 65 1]
  by simp

end
