(* ===== verification/CoapRoundtrip.thy ===== *)
theory CoapRoundtrip
  imports CoapCodec
begin

text \<open>
  Parsing what was serialized.  The parser's loop over an encoded option list is the fold
  \<open>apply_options\<close> of its \<open>switch\<close>; each group of options of a packet sets one field; the result
  shows the same packet through the getters (\<open>coap_view\<close>).
\<close>

section \<open>The parser as a fold over the options\<close>

fun apply_options :: "bool \<Rightarrow> (nat \<times> bytes) list \<Rightarrow> coap_packet_t \<Rightarrow> u8 option \<times> coap_packet_t" where
  "apply_options server [] q = (None, q)"
| "apply_options server ((n, v) # os) q =
     (case coap_parse_option server True n v (SET_OPTION q n) of
        (None, q') \<Rightarrow> apply_options server os q'
      | (Some status, q') \<Rightarrow> (Some status, q'))"

lemma apply_options_append:
  "apply_options server os q = (None, q') \<Longrightarrow>
     apply_options server (os @ os') q = apply_options server os' q'"
  by (induction os arbitrary: q) (auto split: prod.splits option.splits)

text \<open>Numbers do not decrease, and deltas and lengths fit the extended fields.\<close>

fun encodable :: "nat \<Rightarrow> (nat \<times> bytes) list \<Rightarrow> bool" where
  "encodable cur [] = True"
| "encodable cur ((n, v) # os) \<longleftrightarrow> cur \<le> n \<and> n - cur \<le> 65804 \<and> length v \<le> 65804 \<and> encodable n os"

lemma coap_parse_loop_encoded:
  assumes "encodable cur os" "apply_options server os q = (None, q')"
  shows "coap_parse_loop server (\<lambda>_. True) (encode_options cur os @ tail) cur q
    = coap_parse_loop server (\<lambda>_. True) tail (last_number cur os) q'"
  using assms
proof (induction os arbitrary: cur q)
  case (Cons o1 os)
  obtain n v where o1: "o1 = (n, v)" by fastforce
  with Cons.prems have n: "cur \<le> n" "n - cur \<le> 65804" "length v \<le> 65804" "encodable n os" by simp_all
  then obtain b r where h: "coap_set_option_header (n - cur) (length v) = b # r" "b \<noteq> 0xFF"
      "\<And>rest. parse_option_header b (r @ rest) = Some (n - cur, length v, rest)"
    by (rule_tac parse_option_header_set [of "n - cur" "length v"]) auto
  obtain q1 where q1: "coap_parse_option server True n v (SET_OPTION q n) = (None, q1)"
      "apply_options server os q1 = (None, q')"
    using Cons.prems(2) by (auto simp: o1 split: prod.splits option.splits)
  have "coap_parse_loop server (\<lambda>_. True) (encode_options cur (o1 # os) @ tail) cur q
      = coap_parse_loop server (\<lambda>_. True) (b # r @ v @ encode_options n os @ tail) cur q"
    by (simp add: o1 h(1))
  also have "\<dots> = coap_parse_loop server (\<lambda>_. True) (encode_options n os @ tail) n q1"
    using h(2,3) n(1) q1(1) by simp
  also have "\<dots> = coap_parse_loop server (\<lambda>_. True) tail (last_number n os) q'"
    using Cons.IH [OF n(4) q1(2)] .
  finally show ?case by (simp add: o1)
qed simp

section \<open>What each group of options sets\<close>

definition set_opt :: "bool \<Rightarrow> nat \<Rightarrow> coap_packet_t \<Rightarrow> coap_packet_t" where
  "set_opt c n q = (if c then SET_OPTION q n else q)"

lemma set_opt_fields [simp]:
  "version (set_opt c n q) = version q" "msg_type (set_opt c n q) = msg_type q"
  "code (set_opt c n q) = code q" "mid (set_opt c n q) = mid q"
  "content_type (set_opt c n q) = content_type q" "max_age (set_opt c n q) = max_age q"
  "proxy_uri (set_opt c n q) = proxy_uri q" "etag (set_opt c n q) = etag q"
  "uri_host (set_opt c n q) = uri_host q" "location_path (set_opt c n q) = location_path q"
  "uri_port (set_opt c n q) = uri_port q" "location_query (set_opt c n q) = location_query q"
  "uri_path (set_opt c n q) = uri_path q" "observe (set_opt c n q) = observe q"
  "token (set_opt c n q) = token q" "accept (set_opt c n q) = accept q"
  "if_match (set_opt c n q) = if_match q" "block2_num (set_opt c n q) = block2_num q"
  "block2_more (set_opt c n q) = block2_more q" "block2_size (set_opt c n q) = block2_size q"
  "block2_offset (set_opt c n q) = block2_offset q" "block1_num (set_opt c n q) = block1_num q"
  "block1_more (set_opt c n q) = block1_more q" "block1_size (set_opt c n q) = block1_size q"
  "block1_offset (set_opt c n q) = block1_offset q" "opt_size (set_opt c n q) = opt_size q"
  "uri_query (set_opt c n q) = uri_query q" "if_none_match (set_opt c n q) = if_none_match q"
  "payload (set_opt c n q) = payload q" "length (options (set_opt c n q)) = length (options q)"
  by (simp_all add: set_opt_def)

lemma IS_set_opt [simp]:
  "IS_OPTION (set_opt c n q) m \<longleftrightarrow> IS_OPTION q m \<or> c \<and> m = n \<and> n < length (options q) * 8"
  by (simp add: set_opt_def)

lemma apply_group_single:
  assumes "coap_parse_option server True n v (SET_OPTION q n) = (None, f (SET_OPTION q n))"
  shows "apply_options server (opt_group p n [v]) q = (None, if IS_OPTION p n then f (SET_OPTION q n) else q)"
  using assms by (simp add: opt_group_def)

lemma update_self [simp]:
  "q\<lparr>if_match := if_match q\<rparr> = q" "q\<lparr>uri_host := uri_host q\<rparr> = q" "q\<lparr>etag := etag q\<rparr> = q"
  "q\<lparr>if_none_match := if_none_match q\<rparr> = q" "q\<lparr>observe := observe q\<rparr> = q"
  "q\<lparr>uri_port := uri_port q\<rparr> = q" "q\<lparr>content_type := content_type q\<rparr> = q"
  "q\<lparr>max_age := max_age q\<rparr> = q" "q\<lparr>opt_size := opt_size q\<rparr> = q"
  "q\<lparr>location_path := location_path q\<rparr> = q" "q\<lparr>uri_path := uri_path q\<rparr> = q"
  "q\<lparr>uri_query := uri_query q\<rparr> = q" "q\<lparr>accept := accept q\<rparr> = q"
  "q\<lparr>location_query := location_query q\<rparr> = q"
  by simp_all

lemma ucast_u16_back: "ucast (ucast (v :: u16) :: u32) = v"
  by (simp add: word_unat_eq_iff unat_ucast_mod)

lemma apply_simple_groups:
  "length (if_match p) \<le> 8 \<Longrightarrow> apply_options server (opt_group p OPT_IF_MATCH [if_match p]) q
     = (None, (set_opt (IS_OPTION p OPT_IF_MATCH) OPT_IF_MATCH q)
         \<lparr>if_match := if IS_OPTION p OPT_IF_MATCH then if_match p else if_match q\<rparr>)"
  "apply_options server (opt_group p OPT_URI_HOST [ptr_bytes (uri_host p)]) q
     = (None, (set_opt (IS_OPTION p OPT_URI_HOST) OPT_URI_HOST q)
         \<lparr>uri_host := if IS_OPTION p OPT_URI_HOST then Some (ptr_bytes (uri_host p)) else uri_host q\<rparr>)"
  "length (etag p) \<le> 8 \<Longrightarrow> apply_options server (opt_group p OPT_ETAG [etag p]) q
     = (None, (set_opt (IS_OPTION p OPT_ETAG) OPT_ETAG q)
         \<lparr>etag := if IS_OPTION p OPT_ETAG then etag p else etag q\<rparr>)"
  "apply_options server (opt_group p OPT_IF_NONE_MATCH [[]]) q
     = (None, (set_opt (IS_OPTION p OPT_IF_NONE_MATCH) OPT_IF_NONE_MATCH q)
         \<lparr>if_none_match := if IS_OPTION p OPT_IF_NONE_MATCH then 1 else if_none_match q\<rparr>)"
  "apply_options server (opt_group p OPT_OBSERVE [int_option_bytes (observe p)]) q
     = (None, (set_opt (IS_OPTION p OPT_OBSERVE) OPT_OBSERVE q)
         \<lparr>observe := if IS_OPTION p OPT_OBSERVE then observe p else observe q\<rparr>)"
  "apply_options server (opt_group p OPT_URI_PORT [int_option_bytes (ucast (uri_port p))]) q
     = (None, (set_opt (IS_OPTION p OPT_URI_PORT) OPT_URI_PORT q)
         \<lparr>uri_port := if IS_OPTION p OPT_URI_PORT then uri_port p else uri_port q\<rparr>)"
  "IS_OPTION p OPT_CONTENT_TYPE \<longrightarrow> unat (content_type p) < 2 ^ 16 \<Longrightarrow>
   apply_options server (opt_group p OPT_CONTENT_TYPE [int_option_bytes (content_type p)]) q
     = (None, (set_opt (IS_OPTION p OPT_CONTENT_TYPE) OPT_CONTENT_TYPE q)
         \<lparr>content_type := if IS_OPTION p OPT_CONTENT_TYPE then content_type p else content_type q\<rparr>)"
  "apply_options server (opt_group p OPT_MAX_AGE [int_option_bytes (max_age p)]) q
     = (None, (set_opt (IS_OPTION p OPT_MAX_AGE) OPT_MAX_AGE q)
         \<lparr>max_age := if IS_OPTION p OPT_MAX_AGE then max_age p else max_age q\<rparr>)"
  "apply_options server (opt_group p OPT_SIZE [int_option_bytes (opt_size p)]) q
     = (None, (set_opt (IS_OPTION p OPT_SIZE) OPT_SIZE q)
         \<lparr>opt_size := if IS_OPTION p OPT_SIZE then opt_size p else opt_size q\<rparr>)"
  using length_int_option_bytes(3) [of "content_type p"]
  by (auto simp: opt_group_def set_opt_def coap_parse_option_def ucast_u16_back)

lemma SET_OPTION_twice [simp]: "SET_OPTION (SET_OPTION q n) n = SET_OPTION q n"
  by (simp add: SET_OPTION_def or.assoc list_update_overwrite div_less_iff_less_mult)

lemma SET_OPTION_update:
  "SET_OPTION (q\<lparr>location_path := a\<rparr>) n = (SET_OPTION q n)\<lparr>location_path := a\<rparr>"
  "SET_OPTION (q\<lparr>uri_path := a\<rparr>) n = (SET_OPTION q n)\<lparr>uri_path := a\<rparr>"
  "SET_OPTION (q\<lparr>uri_query := a\<rparr>) n = (SET_OPTION q n)\<lparr>uri_query := a\<rparr>"
  "SET_OPTION (q\<lparr>accept := b\<rparr>) n = (SET_OPTION q n)\<lparr>accept := b\<rparr>"
  "SET_OPTION (q\<lparr>location_query := c\<rparr>) n = (SET_OPTION q n)\<lparr>location_query := c\<rparr>"
  by (simp_all add: SET_OPTION_def)

lemma add_segment: "length v < 256 \<Longrightarrow> coap_add_multi_option True dst v = dst @ [v]"
  by (simp add: coap_add_multi_option_def)

lemma apply_segments:
  assumes "\<forall>v\<in>set segs. length v < 256"
  shows "apply_options server (map (Pair OPT_LOCATION_PATH) segs) q
      = (None, (set_opt (segs \<noteq> []) OPT_LOCATION_PATH q)\<lparr>location_path := location_path q @ segs\<rparr>)"
    "apply_options server (map (Pair OPT_URI_PATH) segs) q
      = (None, (set_opt (segs \<noteq> []) OPT_URI_PATH q)\<lparr>uri_path := uri_path q @ segs\<rparr>)"
    "apply_options server (map (Pair OPT_URI_QUERY) segs) q
      = (None, (set_opt (segs \<noteq> []) OPT_URI_QUERY q)\<lparr>uri_query := uri_query q @ segs\<rparr>)"
  using assms
  by (induction segs arbitrary: q)
    (simp_all add: set_opt_def coap_parse_option_def add_segment SET_OPTION_update)

lemma apply_segment_groups:
  "IS_OPTION p OPT_LOCATION_PATH \<longrightarrow> location_path p \<noteq> [] \<and> (\<forall>v\<in>set (location_path p). length v < 256) \<Longrightarrow>
   apply_options server (opt_group p OPT_LOCATION_PATH (location_path p)) q
     = (None, (set_opt (IS_OPTION p OPT_LOCATION_PATH) OPT_LOCATION_PATH q)
         \<lparr>location_path := if IS_OPTION p OPT_LOCATION_PATH then location_path q @ location_path p else location_path q\<rparr>)"
  "IS_OPTION p OPT_URI_PATH \<longrightarrow> uri_path p \<noteq> [] \<and> (\<forall>v\<in>set (uri_path p). length v < 256) \<Longrightarrow>
   apply_options server (opt_group p OPT_URI_PATH (uri_path p)) q
     = (None, (set_opt (IS_OPTION p OPT_URI_PATH) OPT_URI_PATH q)
         \<lparr>uri_path := if IS_OPTION p OPT_URI_PATH then uri_path q @ uri_path p else uri_path q\<rparr>)"
  "IS_OPTION p OPT_URI_QUERY \<longrightarrow> uri_query p \<noteq> [] \<and> (\<forall>v\<in>set (uri_query p). length v < 256) \<Longrightarrow>
   apply_options server (opt_group p OPT_URI_QUERY (uri_query p)) q
     = (None, (set_opt (IS_OPTION p OPT_URI_QUERY) OPT_URI_QUERY q)
         \<lparr>uri_query := if IS_OPTION p OPT_URI_QUERY then uri_query q @ uri_query p else uri_query q\<rparr>)"
  by (auto simp: opt_group_def apply_segments set_opt_def)

lemma apply_accept_list:
  assumes "length (accept q) + length as \<le> 2"
  shows "apply_options server (map (\<lambda>a. (OPT_ACCEPT, int_option_bytes (ucast a))) as) q
      = (None, (set_opt (as \<noteq> []) OPT_ACCEPT q)\<lparr>accept := accept q @ as\<rparr>)"
  using assms
  by (induction as arbitrary: q)
    (simp_all add: set_opt_def coap_parse_option_def SET_OPTION_update ucast_u16_back)

lemma apply_accept_group:
  assumes "accept q = []" "length (accept p) \<le> 2"
  shows "apply_options server (opt_group p OPT_ACCEPT (map (\<lambda>a. int_option_bytes (ucast a)) (accept p))) q
    = (None, (set_opt (IS_OPTION p OPT_ACCEPT \<and> accept p \<noteq> []) OPT_ACCEPT q)
        \<lparr>accept := if IS_OPTION p OPT_ACCEPT then accept p else accept q\<rparr>)"
  using apply_accept_list [of q "accept p" server] assms
  by (simp add: opt_group_def comp_def) (simp add: set_opt_def)

lemma ptr_bytes_simps [simp]: "ptr_bytes None = []" "ptr_bytes (Some v) = v"
  by (simp_all add: ptr_bytes_def)

lemma apply_query_parts:
  assumes "location_query q = Some acc" "acc \<noteq> []" "vs \<noteq> []"
  shows "apply_options server (map (Pair OPT_LOCATION_QUERY) vs) q
      = (None, (SET_OPTION q OPT_LOCATION_QUERY)\<lparr>location_query := Some (acc @ ch_amp # sep_join ch_amp vs)\<rparr>)"
  using assms
proof (induction vs arbitrary: q acc)
  case (Cons v vs)
  show ?case
  proof (cases "vs = []")
    case True
    with Cons.prems show ?thesis
      by (simp add: coap_parse_option_def coap_merge_multi_option_def)
  next
    case False
    with Cons.prems Cons.IH [of "(SET_OPTION q OPT_LOCATION_QUERY)\<lparr>location_query := Some (acc @ ch_amp # v)\<rparr>" "acc @ ch_amp # v"]
    show ?thesis
      by (simp add: coap_parse_option_def coap_merge_multi_option_def SET_OPTION_update sep_join_Cons)
  qed
qed simp

lemma apply_query_group:
  assumes "location_query q = None"
    "IS_OPTION p OPT_LOCATION_QUERY \<longrightarrow> [] \<notin> set (sep_parts ch_amp (ptr_bytes (location_query p)))"
  shows "apply_options server (opt_group p OPT_LOCATION_QUERY (sep_parts ch_amp (ptr_bytes (location_query p)))) q
    = (None, (set_opt (IS_OPTION p OPT_LOCATION_QUERY) OPT_LOCATION_QUERY q)
        \<lparr>location_query := if IS_OPTION p OPT_LOCATION_QUERY then Some (ptr_bytes (location_query p))
                           else location_query q\<rparr>)"
proof (cases "IS_OPTION p OPT_LOCATION_QUERY")
  case True
  let ?q = "ptr_bytes (location_query p)"
  obtain v vs where vs: "sep_parts ch_amp ?q = v # vs" by (cases "sep_parts ch_amp ?q") auto
  with assms(2) True have "v \<noteq> []" by auto
  moreover have "sep_join ch_amp (v # vs) = ?q" using sep_join_parts [of ch_amp ?q] vs by simp
  ultimately show ?thesis
    using True assms(1) apply_query_parts [of "(SET_OPTION q OPT_LOCATION_QUERY)\<lparr>location_query := Some v\<rparr>" v vs server]
    by (cases "vs = []")
      (simp_all add: opt_group_def vs set_opt_def coap_parse_option_def coap_merge_multi_option_def SET_OPTION_update sep_join_Cons)
qed (simp add: opt_group_def set_opt_def)

lemma apply_block_groups:
  "apply_options server (opt_group p OPT_BLOCK2 [int_option_bytes b]) q
     = (None, (set_opt (IS_OPTION p OPT_BLOCK2) OPT_BLOCK2 q)
         \<lparr>block2_num := if IS_OPTION p OPT_BLOCK2 then block_num_of b else block2_num q,
          block2_more := if IS_OPTION p OPT_BLOCK2 then block_more_of b else block2_more q,
          block2_size := if IS_OPTION p OPT_BLOCK2 then block_size_of b else block2_size q,
          block2_offset := if IS_OPTION p OPT_BLOCK2 then block_offset_of b else block2_offset q\<rparr>)"
  "apply_options server (opt_group p OPT_BLOCK1 [int_option_bytes b]) q
     = (None, (set_opt (IS_OPTION p OPT_BLOCK1) OPT_BLOCK1 q)
         \<lparr>block1_num := if IS_OPTION p OPT_BLOCK1 then block_num_of b else block1_num q,
          block1_more := if IS_OPTION p OPT_BLOCK1 then block_more_of b else block1_more q,
          block1_size := if IS_OPTION p OPT_BLOCK1 then block_size_of b else block1_size q,
          block1_offset := if IS_OPTION p OPT_BLOCK1 then block_offset_of b else block1_offset q\<rparr>)"
  by (simp_all add: opt_group_def set_opt_def coap_parse_option_def Let_def)

section \<open>Block values\<close>

definition szx_sizes :: "u16 list" where
  "szx_sizes = [16, 32, 64, 128, 256, 512, 1024, 2048]"

lemma szx_cases:
  "list_all (\<lambda>sz. list_all (\<lambda>m. block_size_of (block_low m sz) = sz
     \<and> block_more_of (block_low m sz) = m
     \<and> (ucast sz :: u32) = push_bit (unat (block_low m sz AND 0x07)) 16) [0, 1]) szx_sizes"
  by code_simp

lemma block_low_flag: "block_low m sz = block_low (if m \<noteq> 0 then 1 else 0) sz"
  by (simp add: block_low_def)

lemma and_below_16:
  assumes "take_bit 4 k = k"
  shows "(push_bit 4 num OR low) AND k = low AND (k :: u32)"
proof -
  have "bit k n \<Longrightarrow> n < 4" for n using assms by (metis bit_take_bit_iff)
  then show ?thesis by (intro bit_word_eqI) (auto simp: bit_simps not_less [symmetric])
qed

lemma block_flags:
  "block_more_of (block_value num m sz) = block_more_of (block_low m sz)"
  "block_value num m sz AND 0x07 = block_low m sz AND 0x07"
  "block_size_of (block_value num m sz) = block_size_of (block_low m sz)"
  by (simp_all add: block_more_of_def block_size_of_def block_value_low and_below_16)

lemma block_value_fields:
  assumes "unat num < 2 ^ 20" "sz \<in> set szx_sizes"
  shows "block_num_of (block_value num m sz) = num"
    "block_more_of (block_value num m sz) = (if m \<noteq> 0 then 1 else 0)"
    "block_size_of (block_value num m sz) = sz"
    "block_offset_of (block_value num m sz) = num * ucast sz"
proof -
  let ?m = "if m \<noteq> 0 then 1 else 0 :: u8"
  have "?m \<in> set [0, 1]" by simp
  with assms(2) szx_cases have f: "block_size_of (block_low ?m sz) = sz"
    "block_more_of (block_low ?m sz) = ?m"
    "(ucast sz :: u32) = push_bit (unat (block_low ?m sz AND 0x07)) 16"
    unfolding list_all_iff by blast+
  show "block_more_of (block_value num m sz) = ?m" "block_size_of (block_value num m sz) = sz"
    unfolding block_flags block_low_flag [of m] by (rule f(2), rule f(1))
  have low: "unat (block_low m sz) < 16" using unat_lt_of_bits [OF block_low_bits, of m sz] by simp
  have "unat (block_num_of (block_value num m sz)) = unat num"
    unfolding block_num_of_def unat_drop_bit_eq using unat_block_value [OF assms(1), of m sz] low
    by (simp add: drop_bit_eq_div)
  then show "block_num_of (block_value num m sz) = num" by (simp only: word_unat_eq_iff)
  have "bit (block_low m sz) n \<Longrightarrow> n < 4" for n using block_low_bits by (metis bit_take_bit_iff)
  moreover have mask: "0x0000000F = (mask 4 :: u32)" by (simp add: mask_eq_exp_minus_1)
  ultimately have high: "block_value num m sz AND NOT 0x0000000F = push_bit 4 num"
    unfolding block_value_low mask by (intro bit_word_eqI) (auto simp: bit_simps not_less [symmetric])
  have "block_offset_of (block_value num m sz) = push_bit (unat (block_low m sz AND 0x07)) (push_bit 4 num)"
    unfolding block_offset_of_def block_flags high ..
  also have "\<dots> = num * ucast sz"
    unfolding block_low_flag [of m] f(3) by (simp add: push_bit_eq_mult mult_ac)
  finally show "block_offset_of (block_value num m sz) = num * ucast sz" .
qed

section \<open>The header\<close>

lemma header_byte_cases:
  "list_all (\<lambda>t. list_all (\<lambda>n.
      let b = ((0x00 OR (0xC0 AND push_bit 6 1)) OR (0x30 AND push_bit 4 (type_code t)))
                OR (0x0F AND word_of_nat n) :: u8
      in unat (b AND 0x0F) = n \<and> drop_bit 6 (b AND 0xC0) = 1
         \<and> type_of_code (drop_bit 4 (b AND 0x30)) = t) [0..<9])
     [COAP_TYPE_CON, COAP_TYPE_NON, COAP_TYPE_ACK, COAP_TYPE_RST]"
  by code_simp

lemma header_byte_fields:
  assumes "n \<le> 8" and b: "b = ((0x00 OR (0xC0 AND push_bit 6 1)) OR (0x30 AND push_bit 4 (type_code t)))
                OR (0x0F AND word_of_nat n)"
  shows "unat (b AND 0x0F) = n" "drop_bit 6 (b AND 0xC0) = (1 :: u8)" "type_of_code (drop_bit 4 (b AND 0x30)) = t"
proof -
  have "t \<in> set [COAP_TYPE_CON, COAP_TYPE_NON, COAP_TYPE_ACK, COAP_TYPE_RST]" by (cases t) simp_all
  moreover have "n \<in> set [0..<9]" using assms(1) by simp
  ultimately show "unat (b AND 0x0F) = n" "drop_bit 6 (b AND 0xC0) = (1 :: u8)"
    "type_of_code (drop_bit 4 (b AND 0x30)) = t"
    using header_byte_cases unfolding list_all_iff b Let_def by blast+
qed

lemma mid_bytes: "push_bit 8 (ucast (ucast (drop_bit 8 m) :: u8)) OR ucast (ucast m :: u8) = (m :: u16)"
proof (rule bit_word_eqI)
  fix n assume "n < LENGTH(16)"
  then show "bit (push_bit 8 (ucast (ucast (drop_bit 8 m) :: u8)) OR ucast (ucast m :: u8) :: u16) n = bit m n"
    by (cases "n < 8") (auto simp: bit_simps)
qed

section \<open>The round trip\<close>

text \<open>The packets the setters build: every option that is set has a value of its range.\<close>

definition coap_wf :: "coap_packet_t \<Rightarrow> bool" where
  "coap_wf p \<longleftrightarrow>
     length (options p) = 5 \<and> coap_lists_ok p \<and> \<not> IS_OPTION p OPT_PROXY_URI
     \<and> length (token p) \<le> 8 \<and> (token p \<noteq> [] \<longrightarrow> IS_OPTION p OPT_TOKEN)
     \<and> length (if_match p) \<le> 8 \<and> length (etag p) \<le> 8 \<and> length (accept p) \<le> 2
     \<and> (IS_OPTION p OPT_URI_HOST \<longrightarrow> uri_host p \<noteq> None \<and> length (ptr_bytes (uri_host p)) \<le> 65804)
     \<and> (\<forall>v\<in>set (location_path p) \<union> set (uri_path p) \<union> set (uri_query p). length v < 256)
     \<and> (IS_OPTION p OPT_CONTENT_TYPE \<longrightarrow> unat (content_type p) < 2 ^ 16)
     \<and> (IS_OPTION p OPT_LOCATION_QUERY \<longrightarrow> location_query p \<noteq> None \<and> length (ptr_bytes (location_query p)) \<le> 65804)
     \<and> (IS_OPTION p OPT_BLOCK2 \<longrightarrow> unat (block2_num p) < 2 ^ 20 \<and> block2_size p \<in> set szx_sizes)
     \<and> (IS_OPTION p OPT_BLOCK1 \<longrightarrow> unat (block1_num p) < 2 ^ 20 \<and> block1_size p \<in> set szx_sizes)"

text \<open>What a reader sees through the getters; \<open>more\<close> flags as truth values.\<close>

definition block_view :: "(u32 \<times> u8 \<times> u16 \<times> u32) option \<Rightarrow> (u32 \<times> bool \<times> u16) option" where
  "block_view b = map_option (\<lambda>(num, m, sz, off). (num, m \<noteq> 0, sz)) b"

record coap_view_t =
  v_type :: coap_message_type_t
  v_code :: u8
  v_mid :: u16
  v_token :: bytes
  v_if_match :: bytes
  v_uri_host :: "bytes option"
  v_etag :: bytes
  v_if_none_match :: bool
  v_observe :: "u32 option"
  v_uri_port :: u16
  v_location_path :: "bytes list"
  v_uri_path :: "bytes list"
  v_content_type :: u32
  v_max_age :: u32
  v_uri_query :: "bytes list"
  v_accept :: "u16 list"
  v_location_query :: "bytes option"
  v_block2 :: "(u32 \<times> bool \<times> u16) option"
  v_block1 :: "(u32 \<times> bool \<times> u16) option"
  v_size :: "u32 option"
  v_payload :: bytes

definition coap_view :: "coap_packet_t \<Rightarrow> coap_view_t" where
  "coap_view p = \<lparr>v_type = msg_type p, v_code = code p, v_mid = mid p,
     v_token = coap_get_header_token p, v_if_match = coap_get_header_if_match p,
     v_uri_host = coap_get_header_uri_host p, v_etag = coap_get_header_etag p,
     v_if_none_match = coap_get_header_if_none_match p, v_observe = coap_get_header_observe p,
     v_uri_port = coap_get_header_uri_port p,
     v_location_path = (if IS_OPTION p OPT_LOCATION_PATH then location_path p else []),
     v_uri_path = (if IS_OPTION p OPT_URI_PATH then uri_path p else []),
     v_content_type = coap_get_header_content_type p, v_max_age = coap_get_header_max_age p,
     v_uri_query = (if IS_OPTION p OPT_URI_QUERY then uri_query p else []),
     v_accept = coap_get_header_accept p, v_location_query = coap_get_header_location_query p,
     v_block2 = block_view (coap_get_header_block2 p), v_block1 = block_view (coap_get_header_block1 p),
     v_size = coap_get_header_size p, v_payload = coap_get_payload p\<rparr>"

lemma coap_wf_pointers:
  assumes "coap_wf p"
  shows "IS_OPTION p OPT_URI_HOST \<Longrightarrow> Some (ptr_bytes (uri_host p)) = uri_host p"
    "IS_OPTION p OPT_LOCATION_QUERY \<Longrightarrow> Some (ptr_bytes (location_query p)) = location_query p"
  using assms unfolding coap_wf_def by (elim conjE; force)+

lemma apply_coap_options:
  assumes wf: "coap_wf p" and q: "accept q = []" "location_query q = None" "location_path q = []"
    "uri_path q = []" "uri_query q = []" "length (options q) = 5" "\<forall>n. IS_OPTION q n \<longrightarrow> n = OPT_TOKEN"
    "IS_OPTION p OPT_TOKEN \<and> IS_OPTION q OPT_TOKEN \<and> token q = token p
      \<or> token p = [] \<and> token q = [] \<and> \<not> IS_OPTION q OPT_TOKEN"
    "msg_type q = msg_type p" "code q = code p" "mid q = mid p"
  obtains q' where "apply_options server (coap_options p) q = (None, q')"
    "coap_view (q'\<lparr>payload := payload p\<rparr>) = coap_view p" "payload q' = payload q"
proof -
  note wf' = wf [unfolded coap_wf_def coap_lists_ok_def]
  have proxy: "opt_group p OPT_PROXY_URI [ptr_bytes (proxy_uri p)] = []"
    using wf' by (simp add: opt_group_def)
  define q1 where "q1 = (set_opt (IS_OPTION p OPT_IF_MATCH) OPT_IF_MATCH q)
    \<lparr>if_match := if IS_OPTION p OPT_IF_MATCH then if_match p else if_match q\<rparr>"
  define q2 where "q2 = (set_opt (IS_OPTION p OPT_URI_HOST) OPT_URI_HOST q1)
    \<lparr>uri_host := if IS_OPTION p OPT_URI_HOST then Some (ptr_bytes (uri_host p)) else uri_host q1\<rparr>"
  define q3 where "q3 = (set_opt (IS_OPTION p OPT_ETAG) OPT_ETAG q2)
    \<lparr>etag := if IS_OPTION p OPT_ETAG then etag p else etag q2\<rparr>"
  define q4 where "q4 = (set_opt (IS_OPTION p OPT_IF_NONE_MATCH) OPT_IF_NONE_MATCH q3)
    \<lparr>if_none_match := if IS_OPTION p OPT_IF_NONE_MATCH then 1 else if_none_match q3\<rparr>"
  define q5 where "q5 = (set_opt (IS_OPTION p OPT_OBSERVE) OPT_OBSERVE q4)
    \<lparr>observe := if IS_OPTION p OPT_OBSERVE then observe p else observe q4\<rparr>"
  define q6 where "q6 = (set_opt (IS_OPTION p OPT_URI_PORT) OPT_URI_PORT q5)
    \<lparr>uri_port := if IS_OPTION p OPT_URI_PORT then uri_port p else uri_port q5\<rparr>"
  define q7 where "q7 = (set_opt (IS_OPTION p OPT_LOCATION_PATH) OPT_LOCATION_PATH q6)
    \<lparr>location_path := if IS_OPTION p OPT_LOCATION_PATH then location_path q6 @ location_path p else location_path q6\<rparr>"
  define q8 where "q8 = (set_opt (IS_OPTION p OPT_URI_PATH) OPT_URI_PATH q7)
    \<lparr>uri_path := if IS_OPTION p OPT_URI_PATH then uri_path q7 @ uri_path p else uri_path q7\<rparr>"
  define q9 where "q9 = (set_opt (IS_OPTION p OPT_CONTENT_TYPE) OPT_CONTENT_TYPE q8)
    \<lparr>content_type := if IS_OPTION p OPT_CONTENT_TYPE then content_type p else content_type q8\<rparr>"
  define q10 where "q10 = (set_opt (IS_OPTION p OPT_MAX_AGE) OPT_MAX_AGE q9)
    \<lparr>max_age := if IS_OPTION p OPT_MAX_AGE then max_age p else max_age q9\<rparr>"
  define q11 where "q11 = (set_opt (IS_OPTION p OPT_URI_QUERY) OPT_URI_QUERY q10)
    \<lparr>uri_query := if IS_OPTION p OPT_URI_QUERY then uri_query q10 @ uri_query p else uri_query q10\<rparr>"
  define q12 where "q12 = (set_opt (IS_OPTION p OPT_ACCEPT \<and> accept p \<noteq> []) OPT_ACCEPT q11)
    \<lparr>accept := if IS_OPTION p OPT_ACCEPT then accept p else accept q11\<rparr>"
  define q13 where "q13 = (set_opt (IS_OPTION p OPT_LOCATION_QUERY) OPT_LOCATION_QUERY q12)
    \<lparr>location_query := if IS_OPTION p OPT_LOCATION_QUERY then Some (ptr_bytes (location_query p)) else location_query q12\<rparr>"
  define q14 where "q14 = (set_opt (IS_OPTION p OPT_BLOCK2) OPT_BLOCK2 q13)
    \<lparr>block2_num := if IS_OPTION p OPT_BLOCK2 then block_num_of (block_value (block2_num p) (block2_more p) (block2_size p)) else block2_num q13,
      block2_more := if IS_OPTION p OPT_BLOCK2 then block_more_of (block_value (block2_num p) (block2_more p) (block2_size p)) else block2_more q13,
      block2_size := if IS_OPTION p OPT_BLOCK2 then block_size_of (block_value (block2_num p) (block2_more p) (block2_size p)) else block2_size q13,
      block2_offset := if IS_OPTION p OPT_BLOCK2 then block_offset_of (block_value (block2_num p) (block2_more p) (block2_size p)) else block2_offset q13\<rparr>"
  define q15 where "q15 = (set_opt (IS_OPTION p OPT_BLOCK1) OPT_BLOCK1 q14)
    \<lparr>block1_num := if IS_OPTION p OPT_BLOCK1 then block_num_of (block_value (block1_num p) (block1_more p) (block1_size p)) else block1_num q14,
      block1_more := if IS_OPTION p OPT_BLOCK1 then block_more_of (block_value (block1_num p) (block1_more p) (block1_size p)) else block1_more q14,
      block1_size := if IS_OPTION p OPT_BLOCK1 then block_size_of (block_value (block1_num p) (block1_more p) (block1_size p)) else block1_size q14,
      block1_offset := if IS_OPTION p OPT_BLOCK1 then block_offset_of (block_value (block1_num p) (block1_more p) (block1_size p)) else block1_offset q14\<rparr>"
  define q16 where "q16 = (set_opt (IS_OPTION p OPT_SIZE) OPT_SIZE q15)
    \<lparr>opt_size := if IS_OPTION p OPT_SIZE then opt_size p else opt_size q15\<rparr>"
  note defs = q1_def q2_def q3_def q4_def q5_def q6_def q7_def q8_def q9_def q10_def q11_def q12_def q13_def q14_def q15_def q16_def
  have s1: "apply_options server (opt_group p OPT_IF_MATCH [if_match p]) q = (None, q1)"
    unfolding q1_def by (rule apply_simple_groups(1)) (use wf' in simp)
  have s2: "apply_options server (opt_group p OPT_URI_HOST [ptr_bytes (uri_host p)]) q1 = (None, q2)"
    unfolding q2_def by (rule apply_simple_groups(2))
  have s3: "apply_options server (opt_group p OPT_ETAG [etag p]) q2 = (None, q3)"
    unfolding q3_def by (rule apply_simple_groups(3)) (use wf' in simp)
  have s4: "apply_options server (opt_group p OPT_IF_NONE_MATCH [[]]) q3 = (None, q4)"
    unfolding q4_def by (rule apply_simple_groups(4))
  have s5: "apply_options server (opt_group p OPT_OBSERVE [int_option_bytes (observe p)]) q4 = (None, q5)"
    unfolding q5_def by (rule apply_simple_groups(5))
  have s6: "apply_options server (opt_group p OPT_URI_PORT [int_option_bytes (ucast (uri_port p))]) q5 = (None, q6)"
    unfolding q6_def by (rule apply_simple_groups(6))
  have s7: "apply_options server (opt_group p OPT_LOCATION_PATH (location_path p)) q6 = (None, q7)"
    unfolding q7_def by (rule apply_segment_groups(1)) (use wf' in simp)
  have s8: "apply_options server (opt_group p OPT_URI_PATH (uri_path p)) q7 = (None, q8)"
    unfolding q8_def by (rule apply_segment_groups(2)) (use wf' in simp)
  have s9: "apply_options server (opt_group p OPT_CONTENT_TYPE [int_option_bytes (content_type p)]) q8 = (None, q9)"
    unfolding q9_def by (rule apply_simple_groups(7)) (use wf' in simp)
  have s10: "apply_options server (opt_group p OPT_MAX_AGE [int_option_bytes (max_age p)]) q9 = (None, q10)"
    unfolding q10_def by (rule apply_simple_groups(8))
  have s11: "apply_options server (opt_group p OPT_URI_QUERY (uri_query p)) q10 = (None, q11)"
    unfolding q11_def by (rule apply_segment_groups(3)) (use wf' in simp)
  have s12: "apply_options server (opt_group p OPT_ACCEPT (map (\<lambda>a. int_option_bytes (ucast a)) (accept p))) q11 = (None, q12)"
    unfolding q12_def by (rule apply_accept_group) (simp_all add: defs q wf')
  have s13: "apply_options server (opt_group p OPT_LOCATION_QUERY (sep_parts ch_amp (ptr_bytes (location_query p)))) q12 = (None, q13)"
    unfolding q13_def by (rule apply_query_group) (simp_all add: defs q wf')
  have s14: "apply_options server (opt_group p OPT_BLOCK2 [int_option_bytes (block_value (block2_num p) (block2_more p) (block2_size p))]) q13 = (None, q14)"
    unfolding q14_def by (rule apply_block_groups(1))
  have s15: "apply_options server (opt_group p OPT_BLOCK1 [int_option_bytes (block_value (block1_num p) (block1_more p) (block1_size p))]) q14 = (None, q15)"
    unfolding q15_def by (rule apply_block_groups(2))
  have s16: "apply_options server (opt_group p OPT_SIZE [int_option_bytes (opt_size p)]) q15 = (None, q16)"
    unfolding q16_def by (rule apply_simple_groups(9))
  have all: "apply_options server (coap_options p) q = (None, q16)"
    unfolding coap_options_def proxy append_Nil2
    by (simp only: apply_options_append [OF s1] apply_options_append [OF s2] apply_options_append [OF s3] apply_options_append [OF s4] apply_options_append [OF s5] apply_options_append [OF s6] apply_options_append [OF s7] apply_options_append [OF s8] apply_options_append [OF s9] apply_options_append [OF s10] apply_options_append [OF s11] apply_options_append [OF s12] apply_options_append [OF s13] apply_options_append [OF s14] apply_options_append [OF s15] s16)
  have l1: "length (options q1) = 5" by (simp add: q1_def q(6))
  have o1: "IS_OPTION q1 n \<longleftrightarrow> IS_OPTION q n \<or> (IS_OPTION p 1) \<and> n = 1" for n
    by (simp add: q1_def q(6) conj_commute)
  have l2: "length (options q2) = 5" by (simp add: q2_def l1)
  have o2: "IS_OPTION q2 n \<longleftrightarrow> IS_OPTION q1 n \<or> (IS_OPTION p 3) \<and> n = 3" for n
    by (simp add: q2_def l1 conj_commute)
  have l3: "length (options q3) = 5" by (simp add: q3_def l2)
  have o3: "IS_OPTION q3 n \<longleftrightarrow> IS_OPTION q2 n \<or> (IS_OPTION p 4) \<and> n = 4" for n
    by (simp add: q3_def l2 conj_commute)
  have l4: "length (options q4) = 5" by (simp add: q4_def l3)
  have o4: "IS_OPTION q4 n \<longleftrightarrow> IS_OPTION q3 n \<or> (IS_OPTION p 5) \<and> n = 5" for n
    by (simp add: q4_def l3 conj_commute)
  have l5: "length (options q5) = 5" by (simp add: q5_def l4)
  have o5: "IS_OPTION q5 n \<longleftrightarrow> IS_OPTION q4 n \<or> (IS_OPTION p 6) \<and> n = 6" for n
    by (simp add: q5_def l4 conj_commute)
  have l6: "length (options q6) = 5" by (simp add: q6_def l5)
  have o6: "IS_OPTION q6 n \<longleftrightarrow> IS_OPTION q5 n \<or> (IS_OPTION p 7) \<and> n = 7" for n
    by (simp add: q6_def l5 conj_commute)
  have l7: "length (options q7) = 5" by (simp add: q7_def l6)
  have o7: "IS_OPTION q7 n \<longleftrightarrow> IS_OPTION q6 n \<or> (IS_OPTION p 8) \<and> n = 8" for n
    by (simp add: q7_def l6 conj_commute)
  have l8: "length (options q8) = 5" by (simp add: q8_def l7)
  have o8: "IS_OPTION q8 n \<longleftrightarrow> IS_OPTION q7 n \<or> (IS_OPTION p 11) \<and> n = 11" for n
    by (simp add: q8_def l7 conj_commute)
  have l9: "length (options q9) = 5" by (simp add: q9_def l8)
  have o9: "IS_OPTION q9 n \<longleftrightarrow> IS_OPTION q8 n \<or> (IS_OPTION p 12) \<and> n = 12" for n
    by (simp add: q9_def l8 conj_commute)
  have l10: "length (options q10) = 5" by (simp add: q10_def l9)
  have o10: "IS_OPTION q10 n \<longleftrightarrow> IS_OPTION q9 n \<or> (IS_OPTION p 14) \<and> n = 14" for n
    by (simp add: q10_def l9 conj_commute)
  have l11: "length (options q11) = 5" by (simp add: q11_def l10)
  have o11: "IS_OPTION q11 n \<longleftrightarrow> IS_OPTION q10 n \<or> (IS_OPTION p 15) \<and> n = 15" for n
    by (simp add: q11_def l10 conj_commute)
  have l12: "length (options q12) = 5" by (simp add: q12_def l11)
  have o12: "IS_OPTION q12 n \<longleftrightarrow> IS_OPTION q11 n \<or> (IS_OPTION p 17 \<and> accept p \<noteq> []) \<and> n = 17" for n
    by (simp add: q12_def l11 conj_commute)
  have l13: "length (options q13) = 5" by (simp add: q13_def l12)
  have o13: "IS_OPTION q13 n \<longleftrightarrow> IS_OPTION q12 n \<or> (IS_OPTION p 20) \<and> n = 20" for n
    by (simp add: q13_def l12 conj_commute)
  have l14: "length (options q14) = 5" by (simp add: q14_def l13)
  have o14: "IS_OPTION q14 n \<longleftrightarrow> IS_OPTION q13 n \<or> (IS_OPTION p 23) \<and> n = 23" for n
    by (simp add: q14_def l13 conj_commute)
  have l15: "length (options q15) = 5" by (simp add: q15_def l14)
  have o15: "IS_OPTION q15 n \<longleftrightarrow> IS_OPTION q14 n \<or> (IS_OPTION p 27) \<and> n = 27" for n
    by (simp add: q15_def l14 conj_commute)
  have l16: "length (options q16) = 5" by (simp add: q16_def l15)
  have o16: "IS_OPTION q16 n \<longleftrightarrow> IS_OPTION q15 n \<or> (IS_OPTION p 28) \<and> n = 28" for n
    by (simp add: q16_def l15 conj_commute)
  have q_opt: "\<not> IS_OPTION q n" if "n \<noteq> 19" for n using q(7) that by blast
  note set16 = o16 o15 o14 o13 o12 o11 o10 o9 o8 o7 o6 o5 o4 o3 o2 o1
  let ?r = "q16\<lparr>payload := payload p\<rparr>"
  have i1: "IS_OPTION q16 1 = IS_OPTION p 1" by (simp add: set16 q_opt)
  have i3: "IS_OPTION q16 3 = IS_OPTION p 3" by (simp add: set16 q_opt)
  have i4: "IS_OPTION q16 4 = IS_OPTION p 4" by (simp add: set16 q_opt)
  have i5: "IS_OPTION q16 5 = IS_OPTION p 5" by (simp add: set16 q_opt)
  have i6: "IS_OPTION q16 6 = IS_OPTION p 6" by (simp add: set16 q_opt)
  have i7: "IS_OPTION q16 7 = IS_OPTION p 7" by (simp add: set16 q_opt)
  have i8: "IS_OPTION q16 8 = IS_OPTION p 8" by (simp add: set16 q_opt)
  have i11: "IS_OPTION q16 11 = IS_OPTION p 11" by (simp add: set16 q_opt)
  have i12: "IS_OPTION q16 12 = IS_OPTION p 12" by (simp add: set16 q_opt)
  have i14: "IS_OPTION q16 14 = IS_OPTION p 14" by (simp add: set16 q_opt)
  have i15: "IS_OPTION q16 15 = IS_OPTION p 15" by (simp add: set16 q_opt)
  have i20: "IS_OPTION q16 20 = IS_OPTION p 20" by (simp add: set16 q_opt)
  have i23: "IS_OPTION q16 23 = IS_OPTION p 23" by (simp add: set16 q_opt)
  have i27: "IS_OPTION q16 27 = IS_OPTION p 27" by (simp add: set16 q_opt)
  have i28: "IS_OPTION q16 28 = IS_OPTION p 28" by (simp add: set16 q_opt)
  have i17: "IS_OPTION q16 17 \<longleftrightarrow> IS_OPTION p 17 \<and> accept p \<noteq> []" by (simp add: set16 q_opt)
  have i19: "IS_OPTION q16 19 = IS_OPTION q 19" by (simp add: set16)
  have "token q16 = token q" by (simp add: defs)
  then have v_token: "coap_get_header_token ?r = coap_get_header_token p"
    using q(8) by (auto simp: coap_get_header_token_def i19)
  have "if_match q16 = (if IS_OPTION p 1 then if_match p else if_match q)" by (simp add: defs)
  then have v_if_match: "coap_get_header_if_match ?r = coap_get_header_if_match p"
    by (simp add: coap_get_header_if_match_def i1 [simplified])
  have "uri_host q16 = (if IS_OPTION p 3 then Some (ptr_bytes (uri_host p)) else uri_host q)"
    by (simp add: defs)
  then have v_uri_host: "coap_get_header_uri_host ?r = coap_get_header_uri_host p"
    by (simp add: coap_get_header_uri_host_def i3 coap_wf_pointers(1) [OF wf])
  have "etag q16 = (if IS_OPTION p 4 then etag p else etag q)" by (simp add: defs)
  then have v_etag: "coap_get_header_etag ?r = coap_get_header_etag p"
    by (simp add: coap_get_header_etag_def i4)
  have v_if_none: "coap_get_header_if_none_match ?r = coap_get_header_if_none_match p"
    by (simp add: coap_get_header_if_none_match_def i5)
  have "observe q16 = (if IS_OPTION p 6 then observe p else observe q)" by (simp add: defs)
  then have v_observe: "coap_get_header_observe ?r = coap_get_header_observe p"
    by (simp add: coap_get_header_observe_def i6)
  have "uri_port q16 = (if IS_OPTION p 7 then uri_port p else uri_port q)" by (simp add: defs)
  then have v_port: "coap_get_header_uri_port ?r = coap_get_header_uri_port p"
    by (simp add: coap_get_header_uri_port_def i7)
  have "content_type q16 = (if IS_OPTION p 12 then content_type p else content_type q)" by (simp add: defs)
  then have v_ct: "coap_get_header_content_type ?r = coap_get_header_content_type p"
    by (simp add: coap_get_header_content_type_def i12)
  have "max_age q16 = (if IS_OPTION p 14 then max_age p else max_age q)" by (simp add: defs)
  then have v_max_age: "coap_get_header_max_age ?r = coap_get_header_max_age p"
    by (simp add: coap_get_header_max_age_def i14)
  have "accept q16 = (if IS_OPTION p 17 then accept p else accept q)" by (simp add: defs)
  then have v_accept: "coap_get_header_accept ?r = coap_get_header_accept p"
    by (simp add: coap_get_header_accept_def i17 q(1))
  have "location_query q16 = (if IS_OPTION p 20 then Some (ptr_bytes (location_query p)) else location_query q)"
    by (simp add: defs)
  then have v_lq: "coap_get_header_location_query ?r = coap_get_header_location_query p"
    by (simp add: coap_get_header_location_query_def i20 coap_wf_pointers(2) [OF wf])
  have "opt_size q16 = (if IS_OPTION p 28 then opt_size p else opt_size q)" by (simp add: defs)
  then have v_size: "coap_get_header_size ?r = coap_get_header_size p"
    by (simp add: coap_get_header_size_def i28)
  have "location_path q16 = (if IS_OPTION p 8 then location_path p else location_path q)" by (simp add: defs q(1-5))
  then have v_lp: "(if IS_OPTION ?r 8 then location_path ?r else []) = (if IS_OPTION p 8 then location_path p else [])"
    by (simp add: i8)
  have "uri_path q16 = (if IS_OPTION p 11 then uri_path p else uri_path q)" by (simp add: defs q(1-5))
  then have v_up: "(if IS_OPTION ?r 11 then uri_path ?r else []) = (if IS_OPTION p 11 then uri_path p else [])"
    by (simp add: i11)
  have "uri_query q16 = (if IS_OPTION p 15 then uri_query p else uri_query q)" by (simp add: defs q(1-5))
  then have v_uq: "(if IS_OPTION ?r 15 then uri_query ?r else []) = (if IS_OPTION p 15 then uri_query p else [])"
    by (simp add: i15)
  have "IS_OPTION p 23 \<Longrightarrow> block2_num q16 = block2_num p \<and> (block2_more q16 \<noteq> 0) = (block2_more p \<noteq> 0)
      \<and> block2_size q16 = block2_size p"
    using wf' by (simp add: defs block_value_fields)
  then have v_b2: "block_view (coap_get_header_block2 ?r) = block_view (coap_get_header_block2 p)"
    by (simp add: coap_get_header_block2_def block_view_def i23)
  have "IS_OPTION p 27 \<Longrightarrow> block1_num q16 = block1_num p \<and> (block1_more q16 \<noteq> 0) = (block1_more p \<noteq> 0)
      \<and> block1_size q16 = block1_size p"
    using wf' by (simp add: defs block_value_fields)
  then have v_b1: "block_view (coap_get_header_block1 ?r) = block_view (coap_get_header_block1 p)"
    by (simp add: coap_get_header_block1_def block_view_def i27)
  have rest: "msg_type ?r = msg_type p" "code ?r = code p" "mid ?r = mid p" "coap_get_payload ?r = coap_get_payload p"
    "payload q16 = payload q"
    by (simp_all add: defs q coap_get_payload_def)
  have "coap_view ?r = coap_view p"
    unfolding coap_view_def
    by (simp only: v_token v_if_match v_uri_host v_etag v_if_none v_observe v_port v_ct v_max_age v_accept
        v_lq v_size v_lp v_up v_uq v_b2 v_b1 rest)
  with all rest(5) show thesis by (intro that)
qed

lemma encodable_append:
  "encodable cur (os @ os') \<longleftrightarrow> encodable cur os \<and> encodable (last_number cur os) os'"
  by (induction cur os rule: encodable.induct) auto

lemma encodable_group:
  assumes "cur \<le> n" "n \<le> 35" "IS_OPTION p n \<longrightarrow> (\<forall>v\<in>set vs. length v \<le> 65804)"
  shows "encodable cur (opt_group p n vs) \<and> cur \<le> last_number cur (opt_group p n vs)
    \<and> last_number cur (opt_group p n vs) \<le> n"
proof -
  have "encodable c (map (Pair n) vs)" if "\<forall>v\<in>set vs. length v \<le> 65804" "c \<le> n" for c
    using that assms(2) by (induction vs arbitrary: c) auto
  then show ?thesis using assms by (auto simp: opt_group_def last_number_map)
qed

lemma encodable_group_append:
  assumes "cur \<le> n" "n \<le> 35" "IS_OPTION p n \<longrightarrow> (\<forall>v\<in>set vs. length v \<le> 65804)"
    "\<And>c. c \<le> n \<Longrightarrow> encodable c os"
  shows "encodable cur (opt_group p n vs @ os)"
  using encodable_group [OF assms(1-3)] assms(4) by (simp add: encodable_append)

lemma int_bytes_short: "\<forall>v\<in>set [int_option_bytes x]. length v \<le> 65804"
  using length_int_option_bytes(1) [of x] by simp

lemma sep_parts_short: "v \<in> set (sep_parts c q) \<Longrightarrow> length v \<le> length q"
proof (induction q arbitrary: v)
  case (Cons b bs)
  then show ?case
    by (cases "sep_parts c bs") (auto split: if_splits intro: le_SucI)
qed simp

lemma encodable_coap_options:
  assumes "coap_wf p"
  shows "encodable 0 (coap_options p)"
proof -
  note wf = assms [unfolded coap_wf_def]
  have acc: "\<forall>v\<in>set (map (\<lambda>a. int_option_bytes (ucast (a :: u16))) as). length v \<le> 65804" for as
    using length_int_option_bytes(1) by (auto intro: order_trans [where y = 4])
  have query: "IS_OPTION p OPT_LOCATION_QUERY \<longrightarrow>
      (\<forall>v\<in>set (sep_parts ch_amp (ptr_bytes (location_query p))). length v \<le> 65804)"
    using wf sep_parts_short by (fastforce intro: order_trans)
  have segs: "\<forall>v\<in>set (location_path p). length v \<le> 65804" "\<forall>v\<in>set (uri_path p). length v \<le> 65804"
    "\<forall>v\<in>set (uri_query p). length v \<le> 65804" using wf by force+
  have opaque: "length (if_match p) \<le> 65804" "length (etag p) \<le> 65804"
    "IS_OPTION p OPT_URI_HOST \<longrightarrow> length (ptr_bytes (uri_host p)) \<le> 65804" using wf by auto
  have proxy: "opt_group p OPT_PROXY_URI vs = []" for vs using wf by (simp add: opt_group_def)
  show ?thesis
    unfolding coap_options_def proxy
    by (intro encodable_group_append) (use opaque segs query acc int_bytes_short in auto)
qed

lemma drop_header: "drop (4 + n) (a # b # c # d # xs) = drop n xs"
  by (simp add: numeral_eq_Suc)

lemma coap_view_payload:
  "ptr_bytes a = ptr_bytes b \<Longrightarrow> coap_view (q\<lparr>payload := a\<rparr>) = coap_view (q\<lparr>payload := b\<rparr>)"
  by (simp split del: if_split cong: if_cong add: coap_view_def coap_get_payload_def coap_get_header_token_def coap_get_header_if_match_def
      coap_get_header_uri_host_def coap_get_header_etag_def coap_get_header_if_none_match_def
      coap_get_header_observe_def coap_get_header_uri_port_def coap_get_header_content_type_def
      coap_get_header_max_age_def coap_get_header_accept_def coap_get_header_location_query_def
      coap_get_header_block1_def coap_get_header_block2_def coap_get_header_size_def)

lemma coap_zero_no_token:
  "coap_zero\<lparr>version := a, msg_type := b, code := c, mid := d, token := []\<rparr>
     = coap_zero\<lparr>version := a, msg_type := b, code := c, mid := d\<rparr>"
  by (simp add: coap_zero_def)

lemma coap_parse_serialized:
  assumes "coap_wf p" "code p \<noteq> 0"
  obtains q' where "coap_parse_message server (\<lambda>_. True) (fst (coap_serialize_message p)) = (NO_ERROR, q')"
    "coap_view q' = coap_view p"
proof -
  note wf = assms(1) [unfolded coap_wf_def]
  let ?pl = "ptr_bytes (payload p)"
  let ?tail = "(if length ?pl \<noteq> 0 then [0xFF] else []) @ ?pl"
  have same: "coap_options (p\<lparr>version := 1\<rparr>) = coap_options p" by (simp add: coap_options_def opt_group_def)
  have lists: "coap_lists_ok (p\<lparr>version := 1\<rparr>)" using wf by (simp add: coap_lists_ok_def)
  have ser: "fst (coap_serialize_message p)
      = coap_header_bytes (p\<lparr>version := 1\<rparr>) @ token p @ encode_options 0 (coap_options p) @ ?tail"
    by (simp add: coap_serialize_message_def Let_def serialize_options_emit lists same emit_def coap_free_header_def)
  let ?n = "length (token p)"
  define b0 where "b0 = ((0x00 OR (0xC0 AND push_bit 6 1)) OR (0x30 AND push_bit 4 (type_code (msg_type p))))
      OR (0x0F AND word_of_nat ?n :: u8)"
  have hdr: "coap_header_bytes (p\<lparr>version := 1\<rparr>) = [b0, code p, ucast (drop_bit 8 (mid p)), ucast (mid p)]"
    by (simp add: coap_header_bytes_def b0_def)
  have "?n \<le> 8" using wf by simp
  note b0 = header_byte_fields [OF this b0_def]
  define q0 where "q0 = coap_zero\<lparr>version := 1, msg_type := msg_type p, code := code p, mid := mid p\<rparr>"
  define q where "q = (if ?n \<noteq> 0 then SET_OPTION (q0\<lparr>token := token p\<rparr>) OPT_TOKEN else q0)"
  let ?rest = "encode_options 0 (coap_options p) @ ?tail"
  have start: "coap_parse_message server (\<lambda>_. True) (fst (coap_serialize_message p))
      = coap_parse_loop server (\<lambda>_. True) ?rest 0 q"
    unfolding ser hdr coap_parse_message_def Let_def
    using \<open>?n \<le> 8\<close> assms(2)
    by (simp add: b0 b0(2,3) [simplified] drop_header mid_bytes q_def q0_def coap_zero_no_token)
  have zero: "accept coap_zero = []" "location_query coap_zero = None" "location_path coap_zero = []"
    "uri_path coap_zero = []" "uri_query coap_zero = []" "token coap_zero = []" "payload coap_zero = None"
    by (simp_all add: coap_zero_def)
  have isq: "IS_OPTION q n \<longleftrightarrow> ?n \<noteq> 0 \<and> n = 19" for n by (simp add: q_def q0_def)
  have fields: "accept q = []" "location_query q = None" "location_path q = []" "uri_path q = []"
    "uri_query q = []" "msg_type q = msg_type p" "code q = code p" "mid q = mid p"
    "length (options q) = 5" "token q = token p"
    by (simp_all add: q_def q0_def zero)
  have tok: "IS_OPTION p 19 \<and> IS_OPTION q 19 \<and> token q = token p
        \<or> token p = [] \<and> token q = [] \<and> \<not> IS_OPTION q 19"
    using wf by (auto simp: isq fields)
  have only: "\<forall>n. IS_OPTION q n \<longrightarrow> n = 19" by (simp add: isq)
  obtain q' where q': "apply_options server (coap_options p) q = (None, q')"
      "coap_view (q'\<lparr>payload := payload p\<rparr>) = coap_view p" "payload q' = payload q"
    by (rule apply_coap_options [OF assms(1) fields(1-5,9) only tok fields(6-8)])
  have "payload q = None" by (simp add: q_def q0_def zero)
  show thesis
  proof (cases "?pl = []")
    case True
    then have "coap_parse_message server (\<lambda>_. True) (fst (coap_serialize_message p)) = (NO_ERROR, q')"
      using coap_parse_loop_encoded [OF encodable_coap_options [OF assms(1)] q'(1), of "[]"] start by simp
    moreover have "coap_view (q'\<lparr>payload := payload p\<rparr>) = coap_view (q'\<lparr>payload := payload q'\<rparr>)"
      using True q'(3) \<open>payload q = None\<close> by (intro coap_view_payload) simp
    ultimately show thesis using that q'(2) by simp
  next
    case False
    then have "coap_parse_message server (\<lambda>_. True) (fst (coap_serialize_message p))
        = (NO_ERROR, q'\<lparr>payload := Some ?pl\<rparr>)"
      using coap_parse_loop_encoded [OF encodable_coap_options [OF assms(1)] q'(1), of "0xFF # ?pl"] start by simp
    moreover have "coap_view (q'\<lparr>payload := payload p\<rparr>) = coap_view (q'\<lparr>payload := Some ?pl\<rparr>)"
      by (intro coap_view_payload) simp
    ultimately show thesis using that q'(2) by simp
  qed
qed

text \<open>C3: what \<open>coap_serialize_message\<close> writes for a packet whose options are in range,
  \<open>coap_parse_message\<close> reads without error, in both builds, as a packet that shows the same type,
  code, message id, token, options and payload through every getter.\<close>

theorem coap_message_roundtrip:
  assumes "coap_wf p" "code p \<noteq> 0"
  shows "\<exists>q. coap_parse_message server (\<lambda>_. True) (fst (coap_serialize_message p)) = (NO_ERROR, q)
    \<and> coap_view q = coap_view p"
  by (rule coap_parse_serialized [OF assms, of server]) blast

text \<open>A confirmable GET with a token, two Uri-Path segments, an Observe and a Block2 option.\<close>

definition sample_request :: coap_packet_t where
  "sample_request =
     snd (coap_set_header_block2
       (coap_set_header_observe
         (snd (coap_set_header_uri_path (\<lambda>_. True)
           (coap_set_header_token (coap_init_message COAP_TYPE_CON 1 0x1234) [0xAA, 0xBB])
           [ch_slash, 0x72, 0x64, ch_slash, 0x35])) 0) 3 0 64)"

lemma sample_path: "split_segments_loop ch_slash (\<lambda>_. True) [] [0x72, 0x64, ch_slash, 0x35]
    = ([[0x72, 0x64], [0x35]], 4)"
  by (simp add: split_segments_loop.simps coap_add_multi_option_def Let_def)

lemma sample_request_wf: "coap_wf sample_request" "code sample_request \<noteq> 0"
proof -
  have set: "IS_OPTION sample_request n \<longleftrightarrow> n \<in> {19, 11, 6, 23}" for n
    by (auto simp: sample_request_def coap_set_header_uri_path_def skip_first_def cstr_at_def sample_path
        coap_set_header_token_def coap_set_header_observe_def coap_set_header_block2_def)
  show "coap_wf sample_request" "code sample_request \<noteq> 0"
    unfolding coap_wf_def coap_lists_ok_def set
    by (simp_all add: sample_request_def coap_set_header_uri_path_def skip_first_def cstr_at_def sample_path
        coap_set_header_token_def coap_set_header_observe_def coap_set_header_block2_def
        coap_init_message_def coap_zero_def szx_sizes_def coap_add_multi_option_def)
qed

theorem coap_message_roundtrip_witness:
  "\<exists>q. coap_parse_message False (\<lambda>_. True) (fst (coap_serialize_message sample_request)) = (NO_ERROR, q)
    \<and> coap_view q = coap_view sample_request"
  by (rule coap_message_roundtrip [OF sample_request_wf])

section \<open>What a parsed message satisfies\<close>

text \<open>The array fields are filled within their bounds, and a payload is never empty.\<close>

definition coap_parsed_ok :: "coap_packet_t \<Rightarrow> bool" where
  "coap_parsed_ok p \<longleftrightarrow>
     length (token p) \<le> COAP_TOKEN_LEN \<and> length (etag p) \<le> COAP_ETAG_LEN
     \<and> length (if_match p) \<le> COAP_ETAG_LEN \<and> length (accept p) \<le> COAP_MAX_ACCEPT_NUM
     \<and> length (options p) = 5 \<and> payload p \<noteq> Some []
     \<and> (\<forall>v\<in>set (uri_path p) \<union> set (uri_query p) \<union> set (location_path p). length v < 256)
     \<and> unat (content_type p) < 2 ^ 16"

lemma add_multi_ok:
  "\<forall>w\<in>set dst. length w < 256 \<Longrightarrow> \<forall>w\<in>set (coap_add_multi_option a dst v). length w < 256"
  by (auto simp: coap_add_multi_option_def)

lemma parse_int_loop_less:
  assumes "length v \<le> 2"
  shows "unat (coap_parse_int_option v) < 2 ^ 16"
proof -
  consider "v = []" | a where "v = [a]" | a b where "v = [a, b]"
    using assms by (cases v; cases "tl v") auto
  then have "be_val 0 v < 2 ^ 16"
  proof cases
    case (3 a b)
    then show ?thesis using unat_u8_less [of a] unat_u8_less [of b] by (simp del: unat_u8_less)
  next
    case (2 a)
    then show ?thesis using unat_u8_less [of a] by (simp del: unat_u8_less)
  qed simp
  then show ?thesis using parse_int_loop_val [of 0 v] by (simp add: coap_parse_int_option_def)
qed

lemma coap_parsed_ok_updates:
  "coap_parsed_ok (p\<lparr>max_age := a\<rparr>) = coap_parsed_ok p" "coap_parsed_ok (p\<lparr>if_none_match := b\<rparr>) = coap_parsed_ok p"
  "coap_parsed_ok (p\<lparr>uri_host := c\<rparr>) = coap_parsed_ok p" "coap_parsed_ok (p\<lparr>uri_port := d\<rparr>) = coap_parsed_ok p"
  "coap_parsed_ok (p\<lparr>location_query := c\<rparr>) = coap_parsed_ok p" "coap_parsed_ok (p\<lparr>proxy_uri := c\<rparr>) = coap_parsed_ok p"
  "coap_parsed_ok (p\<lparr>observe := a\<rparr>) = coap_parsed_ok p" "coap_parsed_ok (p\<lparr>opt_size := a\<rparr>) = coap_parsed_ok p"
  "coap_parsed_ok (p\<lparr>block2_num := e\<rparr>) = coap_parsed_ok p" "coap_parsed_ok (p\<lparr>block2_more := f\<rparr>) = coap_parsed_ok p"
  "coap_parsed_ok (p\<lparr>block2_size := g\<rparr>) = coap_parsed_ok p" "coap_parsed_ok (p\<lparr>block2_offset := h\<rparr>) = coap_parsed_ok p"
  "coap_parsed_ok (p\<lparr>block1_num := e\<rparr>) = coap_parsed_ok p" "coap_parsed_ok (p\<lparr>block1_more := f\<rparr>) = coap_parsed_ok p"
  "coap_parsed_ok (p\<lparr>block1_size := g\<rparr>) = coap_parsed_ok p" "coap_parsed_ok (p\<lparr>block1_offset := h\<rparr>) = coap_parsed_ok p"
  by (simp_all add: coap_parsed_ok_def)

lemma coap_parsed_ok_bounded:
  assumes "coap_parsed_ok p"
  shows "coap_parsed_ok (p\<lparr>etag := take 8 v\<rparr>)" "coap_parsed_ok (p\<lparr>if_match := take 8 v\<rparr>)"
    "coap_parsed_ok (coap_free_header p)"
    "length (accept p) < 2 \<Longrightarrow> coap_parsed_ok (p\<lparr>accept := accept p @ [w]\<rparr>)"
    "length v \<le> 2 \<Longrightarrow> coap_parsed_ok (p\<lparr>content_type := coap_parse_int_option v\<rparr>)"
  using assms parse_int_loop_less [of v]
  by (simp_all add: coap_parsed_ok_def coap_free_header_def)

lemma coap_parsed_ok_segments:
  assumes "coap_parsed_ok p"
  shows "coap_parsed_ok (p\<lparr>uri_path := coap_add_multi_option a (uri_path p) v\<rparr>)"
    "coap_parsed_ok (p\<lparr>uri_query := coap_add_multi_option a (uri_query p) v\<rparr>)"
    "coap_parsed_ok (p\<lparr>location_path := coap_add_multi_option a (location_path p) v\<rparr>)"
proof -
  have "\<forall>w\<in>set (coap_add_multi_option a (uri_path p) v). length w < 256"
    "\<forall>w\<in>set (coap_add_multi_option a (uri_query p) v). length w < 256"
    "\<forall>w\<in>set (coap_add_multi_option a (location_path p) v). length w < 256"
    by (rule add_multi_ok; use assms in \<open>simp add: coap_parsed_ok_def ball_Un\<close>)+
  with assms show "coap_parsed_ok (p\<lparr>uri_path := coap_add_multi_option a (uri_path p) v\<rparr>)"
    "coap_parsed_ok (p\<lparr>uri_query := coap_add_multi_option a (uri_query p) v\<rparr>)"
    "coap_parsed_ok (p\<lparr>location_path := coap_add_multi_option a (location_path p) v\<rparr>)"
    by (simp_all add: coap_parsed_ok_def ball_Un)
qed

lemma coap_parse_option_ok:
  "coap_parsed_ok p \<Longrightarrow> coap_parsed_ok (snd (coap_parse_option server a n v p))"
  by (simp add: coap_parse_option_def Let_def coap_parsed_ok_updates coap_parsed_ok_bounded
      coap_parsed_ok_segments)

lemma SET_OPTION_ok: "coap_parsed_ok p \<Longrightarrow> coap_parsed_ok (SET_OPTION p n)"
  by (simp add: coap_parsed_ok_def)

lemma coap_parse_loop_ok:
  "coap_parsed_ok p \<Longrightarrow> coap_parsed_ok (snd (coap_parse_loop server mem bs n p))"
proof (induction server mem bs n p rule: coap_parse_loop.induct)
  case (2 server mem b rest n p)
  show ?case
  proof (cases "b = 0xFF")
    case True
    with "2.prems" show ?thesis
      by (auto simp: coap_parsed_ok_bounded) (simp add: coap_parsed_ok_def)
  next
    case False
    show ?thesis
    proof (cases "parse_option_header b rest")
      case (Some h)
      obtain delta len r where h: "h = (delta, len, r)" by (metis prod_cases3)
      have ok: "coap_parsed_ok (snd (coap_parse_option server (mem (length r)) (n + delta) (take len r)
          (SET_OPTION p (n + delta))))"
        using "2.prems" by (intro coap_parse_option_ok SET_OPTION_ok)
      show ?thesis
        using False Some h ok "2.prems" "2.IH" [OF False Some [unfolded h] refl refl _ refl]
        by (auto simp: coap_parsed_ok_bounded Let_def split: prod.split option.split)
    qed (use False "2.prems" in \<open>simp add: coap_parsed_ok_bounded\<close>)
  qed
qed simp

lemma coap_zero_ok:
  "length tok \<le> COAP_TOKEN_LEN \<Longrightarrow>
     coap_parsed_ok (coap_zero\<lparr>version := a, msg_type := b, code := c, mid := d, token := tok\<rparr>)"
  by (simp add: coap_parsed_ok_def) (simp add: coap_zero_def)

text \<open>A message that is accepted comes out of the loop: with the token of the header, if any.\<close>

lemma coap_parse_accepted:
  assumes "coap_parse_message server mem data = (NO_ERROR, q)"
  obtains p n where "coap_parse_loop server mem (drop n data) 0 p = (NO_ERROR, q)"
    "n = COAP_HEADER_LEN + length (token p)" "length (token p) \<le> COAP_TOKEN_LEN" "n \<le> length data"
    "p\<lparr>options := options coap_zero\<rparr> = coap_zero\<lparr>version := drop_bit 6 (data ! 0 AND 0xC0),
       msg_type := type_of_code (drop_bit 4 (data ! 0 AND 0x30)), code := data ! 1,
       mid := push_bit 8 (ucast (data ! 2)) OR ucast (data ! 3),
       token := take (n - COAP_HEADER_LEN) (drop COAP_HEADER_LEN data)\<rparr>"
proof -
  note acc = assms [unfolded coap_parse_message_def Let_def]
  show thesis
  proof (cases "unat (data ! 0 AND 0x0F) = 0")
    case True
    with acc show thesis
      by (intro that [of "COAP_HEADER_LEN" "coap_zero\<lparr>version := drop_bit 6 (data ! 0 AND 0xC0),
         msg_type := type_of_code (drop_bit 4 (data ! 0 AND 0x30)), code := data ! 1,
         mid := push_bit 8 (ucast (data ! 2)) OR ucast (data ! 3),
       token := []\<rparr>"])
        (auto split: if_splits)
  next
    case False
    with acc show thesis
      by (intro that [of "COAP_HEADER_LEN + unat (data ! 0 AND 0x0F)"
         "SET_OPTION (coap_zero\<lparr>version := drop_bit 6 (data ! 0 AND 0xC0),
         msg_type := type_of_code (drop_bit 4 (data ! 0 AND 0x30)), code := data ! 1,
         mid := push_bit 8 (ucast (data ! 2)) OR ucast (data ! 3),
       token := take (unat (data ! 0 AND 0x0F)) (drop COAP_HEADER_LEN data)\<rparr>) OPT_TOKEN"])
        (auto split: if_splits)
  qed
qed

lemma coap_parse_message_ok:
  assumes "coap_parse_message server mem data = (NO_ERROR, q)"
  shows "coap_parsed_ok q"
proof -
  let ?p = "coap_zero\<lparr>version := drop_bit 6 (data ! 0 AND 0xC0),
      msg_type := type_of_code (drop_bit 4 (data ! 0 AND 0x30)), code := data ! 1,
      mid := push_bit 8 (ucast (data ! 2)) OR ucast (data ! 3),
       token := replicate (unat (data ! 0 AND 0x0F)) 0\<rparr>"
  have p: "coap_parsed_ok (?p\<lparr>token := take n bs\<rparr>)" if "n \<le> 8" for n bs
    using coap_zero_ok [of "take n bs"] that by (simp add: min_def)
  have zero: "coap_parsed_ok (?p\<lparr>token := []\<rparr>)" using p [of 0] by simp
  have "coap_parsed_ok (snd (coap_parse_message server mem data))"
    if "fst (coap_parse_message server mem data) = NO_ERROR"
    using zero p [of "unat (data ! 0 AND 0x0F)" "drop 4 data"] that
    unfolding coap_parse_message_def Let_def
    by (auto intro!: coap_parse_loop_ok SET_OPTION_ok split: if_splits)
  with assms show ?thesis by simp
qed

text \<open>The bytes a packet holds, in its arrays, strings and lists; an Accept value counts as one.\<close>

definition stored :: "coap_packet_t \<Rightarrow> nat" where
  "stored p = length (token p) + length (etag p) + length (if_match p) + length (accept p)
     + length (ptr_bytes (uri_host p)) + sum_list (map length (uri_path p)) + sum_list (map length (uri_query p))
     + sum_list (map length (location_path p)) + length (ptr_bytes (location_query p))
     + length (ptr_bytes (proxy_uri p)) + length (ptr_bytes (payload p))"

lemma stored_multi: "sum_list (map length (coap_add_multi_option a dst v)) \<le> sum_list (map length dst) + length v"
  by (simp add: coap_add_multi_option_def)

lemma stored_merge: "length (ptr_bytes (coap_merge_multi_option dst v c)) \<le> length (ptr_bytes dst) + length v + 1"
  by (simp add: coap_merge_multi_option_def ptr_bytes_def)

lemma coap_parse_option_stored:
  "stored (snd (coap_parse_option server a n v (SET_OPTION p n))) \<le> stored p + length v + 1"
  if "fst (coap_parse_option server a n v (SET_OPTION p n)) = None"
  using that stored_multi [of a "uri_path p" v] stored_multi [of a "uri_query p" v]
    stored_multi [of a "location_path p" v] stored_merge [of "location_query p" v ch_amp]
  by (simp add: coap_parse_option_def Let_def split: if_splits)
    (auto simp: stored_def ptr_bytes_def min_def)

lemma coap_parse_option_failed:
  "coap_parse_option server a n v p = (Some status, q) \<Longrightarrow> status \<noteq> NO_ERROR"
  by (auto simp: coap_parse_option_def Let_def split: if_splits)

lemma coap_parse_loop_stored:
  "coap_parse_loop server mem bs n p = (NO_ERROR, q) \<Longrightarrow> stored q \<le> stored p + length bs"
proof (induction server mem bs n p rule: coap_parse_loop.induct)
  case (2 server mem b rest n p)
  show ?case
  proof (cases "b = 0xFF")
    case True
    with "2.prems" show ?thesis by (auto simp: stored_def ptr_bytes_def split: if_splits)
  next
    case False
    with "2.prems" obtain delta len r where h: "parse_option_header b rest = Some (delta, len, r)"
      by (auto split: option.splits)
    with False "2.prems" have len: "len \<le> length r" by (auto split: if_splits)
    obtain st p' where p': "coap_parse_option server (mem (length r)) (n + delta) (take len r)
        (SET_OPTION p (n + delta)) = (st, p')" by fastforce
    from False h len p' "2.prems" coap_parse_option_failed [of server "mem (length r)" "n + delta" "take len r"]
    have st: "st = None" and rec: "coap_parse_loop server mem (drop len r) (n + delta) p' = (NO_ERROR, q)"
      by (auto split: option.splits)
    have "stored q \<le> stored p' + (length r - len)"
      using "2.IH" [OF False h refl refl _ refl p' [symmetric]] len st rec p' by (auto simp: not_less)
    moreover have "stored p' \<le> stored p + len + 1"
      using coap_parse_option_stored [of server "mem (length r)" "n + delta" "take len r" p] p' st len by simp
    ultimately show ?thesis using parse_option_header_length [OF h] len by simp
  qed
qed simp

lemma coap_parse_message_stored:
  assumes "coap_parse_message server mem data = (NO_ERROR, q)"
  shows "COAP_HEADER_LEN + stored q \<le> length data"
proof -
  obtain p n where p: "coap_parse_loop server mem (drop n data) 0 p = (NO_ERROR, q)"
    "n = COAP_HEADER_LEN + length (token p)" "n \<le> length data"
    and eq: "p\<lparr>options := options coap_zero\<rparr> = coap_zero\<lparr>version := drop_bit 6 (data ! 0 AND 0xC0),
       msg_type := type_of_code (drop_bit 4 (data ! 0 AND 0x30)), code := data ! 1,
       mid := push_bit 8 (ucast (data ! 2)) OR ucast (data ! 3),
       token := take (n - COAP_HEADER_LEN) (drop COAP_HEADER_LEN data)\<rparr>"
    using coap_parse_accepted [OF assms] by metis
  have "stored p = stored (p\<lparr>options := options coap_zero\<rparr>)" by (simp add: stored_def)
  also have "\<dots> = length (take (n - COAP_HEADER_LEN) (drop COAP_HEADER_LEN data))"
    unfolding eq by (simp add: stored_def) (simp add: coap_zero_def ptr_bytes_def)
  finally have "stored p \<le> n - COAP_HEADER_LEN" by simp
  with coap_parse_loop_stored [OF p(1)] p(2,3) show ?thesis by simp
qed

text \<open>C5: a datagram that \<open>coap_parse_message\<close> accepts stays within the array fields of the packet:
  at most 8 bytes of token, ETag and If-Match and two Accept values; segments have less than 256
  bytes, the Content-Format fits 16 bits and a payload is not empty.  And what is stored (token,
  tags, strings, segments, payload) has, with the four bytes of the header, never more bytes than
  the datagram.\<close>

theorem coap_parse_message_bounds:
  assumes "coap_parse_message server mem data = (NO_ERROR, p)"
  shows "coap_parsed_ok p \<and> COAP_HEADER_LEN + stored p \<le> length data"
  using coap_parse_message_ok [OF assms] coap_parse_message_stored [OF assms] by simp

text \<open>A GET with a token of one byte and the path \<open>ab\<close>, and a payload of one byte.\<close>

definition sample_datagram :: bytes where
  "sample_datagram = [0x41, 1, 0, 7, 0x55, 0xB2, 0x61, 0x62, 0xFF, 0x31]"

definition sample_parsed :: coap_packet_t where
  "sample_parsed = snd (coap_parse_message True (\<lambda>_. True) sample_datagram)"

theorem coap_parse_message_bounds_witness:
  "coap_parsed_ok sample_parsed \<and> COAP_HEADER_LEN + stored sample_parsed \<le> length sample_datagram
    \<and> stored sample_parsed = 4"
proof -
  have eq: "coap_parse_message True (\<lambda>_. True) sample_datagram = (NO_ERROR, sample_parsed)"
    unfolding sample_parsed_def sample_datagram_def by code_simp
  have "stored sample_parsed = 4" unfolding sample_parsed_def sample_datagram_def stored_def by code_simp
  with coap_parse_message_bounds [OF eq] show ?thesis by simp
qed

section \<open>Observe under other numbers\<close>

text \<open>the server build parses options 2048 and 2049 into the Observe value, but the bitmap has
  no bit for them, so \<open>coap_get_header_observe\<close> still reports that there is no Observe option.\<close>

theorem coap_observe_alias_ignored:
  assumes "n = 2048 \<or> n = 2049" "length (options p) = 5" "\<not> IS_OPTION p OPT_OBSERVE"
  shows "\<exists>q. coap_parse_option True allocated n v (SET_OPTION p n) = (None, q)
    \<and> observe q = coap_parse_int_option v \<and> coap_get_header_observe q = None"
  using assms by (auto simp: coap_parse_option_def coap_get_header_observe_def)

theorem coap_observe_alias_ignored_witness:
  "\<exists>q. coap_parse_option True True 2048 [1] (SET_OPTION coap_zero 2048) = (None, q)
    \<and> observe q = coap_parse_int_option [1] \<and> coap_get_header_observe q = None"
  by (rule coap_observe_alias_ignored) simp_all

section \<open>Paths as strings\<close>

declare split_segments_loop.simps [simp del]

lemma takeWhile_sep: "c \<notin> set v \<Longrightarrow> takeWhile (\<lambda>b. b \<noteq> c) (v @ c # rest) = v"
  by (induction v) auto

lemma takeWhile_no_sep: "c \<notin> set v \<Longrightarrow> takeWhile (\<lambda>b. b \<noteq> c) v = v"
  by (induction v) auto

lemma split_segments_join:
  assumes "segs \<noteq> []" "\<forall>v\<in>set segs. c \<notin> set v \<and> length v < 256" "last segs \<noteq> [] \<or> length segs = 1"
  shows "split_segments_loop c (\<lambda>_. True) dst (sep_join c segs) = (dst @ segs, length (sep_join c segs))"
  using assms
proof (induction segs arbitrary: dst)
  case (Cons v segs)
  have v: "c \<notin> set v" "length v < 256" using Cons.prems(2) by simp_all
  show ?case
  proof (cases "segs = []")
    case True
    then show ?thesis
      using v by (subst split_segments_loop.simps) (simp add: takeWhile_no_sep add_segment Let_def)
  next
    case False
    then have ne: "sep_join c segs \<noteq> []"
      using Cons.prems(3) by (cases segs; cases "tl segs") (auto simp: sep_join_Cons)
    have "split_segments_loop c (\<lambda>_. True) (dst @ [v]) (sep_join c segs)
        = ((dst @ [v]) @ segs, length (sep_join c segs))"
      using Cons.prems False by (intro Cons.IH) auto
    then show ?thesis
      using v False ne
      by (subst split_segments_loop.simps) (simp add: sep_join_Cons takeWhile_sep add_segment Let_def)
  qed
qed simp

lemma multi_option_string_join:
  "segs \<noteq> [] \<Longrightarrow> multi_option_string_loop b segs pre c = (if b then pre else c) # sep_join c segs"
proof (induction segs arbitrary: b)
  case (Cons v segs)
  then show ?case by (cases "segs = []") (simp_all add: sep_join_Cons)
qed simp

text \<open>a path set with \<open>coap_set_header_uri_path\<close> is split into its segments, and
  \<open>coap_get_multi_option_as_path_string\<close> gives the same path back; only a trailing slash would be
  lost.\<close>

theorem coap_uri_path_roundtrip:
  assumes "segs \<noteq> []" "\<forall>v\<in>set segs. ch_slash \<notin> set v \<and> length v < 256" "last segs \<noteq> [] \<or> length segs = 1"
  shows "uri_path (snd (coap_set_header_uri_path (\<lambda>_. True) p (ch_slash # sep_join ch_slash segs))) = segs
    \<and> coap_get_multi_option_as_path_string segs = ch_slash # sep_join ch_slash segs"
  using split_segments_join [OF assms, of "[]"] multi_option_string_join [OF assms(1)]
  by (simp add: coap_set_header_uri_path_def skip_first_def cstr_at_def
      coap_get_multi_option_as_path_string_def)

theorem coap_uri_path_roundtrip_witness:
  "uri_path (snd (coap_set_header_uri_path (\<lambda>_. True) coap_zero [ch_slash, 0x33, ch_slash, 0x30])) = [[0x33], [0x30]]"
  using coap_uri_path_roundtrip [of "[[0x33], [0x30]]" coap_zero] by simp

end
