(* ===== verification/Transaction.thy ===== *)
theory Transaction
  imports SortedList Coap TextConv Uri
begin

text \<open>
  The message transactions of \<open>coap/transaction.c\<close>: creation, transmission with exponential
  back-off, matching of responses.  \<open>time_t\<close> is an unbounded integer; the peer (\<open>'p\<close>), the
  callback (\<open>'c\<close>) and the user data (\<open>'u\<close>) are opaque, \<open>same :: 'p \<Rightarrow> 'p \<Rightarrow> bool\<close> stands for
  \<open>lwm2m_session_is_equal\<close>, \<open>now\<close> for \<open>lwm2m_gettime()\<close>, \<open>timeout\<close> for
  \<open>COAP_RESPONSE_TIMEOUT\<close> (2, or what the target defines).  What the code hands to the
  application is a list of events: a datagram given to \<open>lwm2m_buffer_send\<close> and a call of the
  transaction's callback; what a callback does to the context is not part of this model.  A
  transaction that leaves the list is freed: it is gone from the state.
\<close>

section \<open>Data\<close>

record ('p, 'c, 'u) lwm2m_transaction_t =
  mID :: u16
  peerH :: 'p
  ack_received :: bool
  response_timeout :: int
  retrans_counter :: u8
  retrans_time :: int
  message :: coap_packet_t
  buffer :: "bytes option"
  t_payload :: "bytes option"
  callback :: "'c option"
  userData :: 'u

datatype ('p, 'c) event = Sent 'p bytes | Called 'c u16 "coap_packet_t option"

abbreviation (input) COAP_MAX_RETRANSMIT :: u8 where "COAP_MAX_RETRANSMIT \<equiv> 4"
abbreviation (input) LWM2M_STRING_ID_MAX_LEN :: nat where "LWM2M_STRING_ID_MAX_LEN \<equiv> 6"

section \<open>Creation\<close>

text \<open>The segment written for an identifier; \<open>None\<close> is the jump to \<open>error\<close>.\<close>

definition id_segment :: "u16 \<Rightarrow> bytes option" where
  "id_segment i =
     (let (result, stringID) = utils_intToText (ucast i) (replicate LWM2M_STRING_ID_MAX_LEN 0)
      in if result = 0 then None else Some (take result stringID))"

text \<open>The identifiers of the URI as the nested \<open>if\<close>s visit them.\<close>

definition uri_set_ids :: "lwm2m_uri_t option \<Rightarrow> u16 list" where
  "uri_set_ids uriP =
     (case uriP of None \<Rightarrow> []
      | Some u \<Rightarrow>
         if \<not> is_set_object u then []
         else objectId u # (if \<not> is_set_instance u then []
           else instanceId u # (if \<not> is_set_resource u then []
             else resourceId u # (if \<not> is_set_resource_instance u then []
               else [resourceInstanceId u]))))"

fun add_id_segments :: "(nat \<Rightarrow> bool) \<Rightarrow> nat \<Rightarrow> coap_packet_t \<Rightarrow> u16 list \<Rightarrow> coap_packet_t option" where
  "add_id_segments mem k m [] = Some m"
| "add_id_segments mem k m (i # is) =
     (case id_segment i of None \<Rightarrow> None
      | Some s \<Rightarrow> add_id_segments mem (k + 1) (snd (coap_set_header_uri_path_segment (mem k) m (Some s))) is)"

text \<open>The generated token: message id, time, and two bytes that are not initialized.\<close>

definition generated_token :: "u16 \<Rightarrow> int \<Rightarrow> bytes \<Rightarrow> bytes" where
  "generated_token m now junk =
     [ucast m, ucast (drop_bit 8 m), word_of_int now, word_of_int (now div 2 ^ 8),
      word_of_int (now div 2 ^ 16), word_of_int (now div 2 ^ 24), cstr_at junk 0, cstr_at junk 1]"

text \<open>\<open>mem k\<close>: whether the \<open>k\<close>-th allocation succeeds.\<close>

definition transaction_new ::
    "(nat \<Rightarrow> bool) \<Rightarrow> int \<Rightarrow> bytes \<Rightarrow> 'p option \<Rightarrow> u8 \<Rightarrow> bytes option \<Rightarrow> lwm2m_uri_t option \<Rightarrow> u16 \<Rightarrow> u8
      \<Rightarrow> bytes option \<Rightarrow> 'u \<Rightarrow> ('p, 'c, 'u) lwm2m_transaction_t option" where
  "transaction_new mem now junk sessionH method altPath uriP m token_len tok noData =
     (case sessionH of None \<Rightarrow> None
      | Some peer \<Rightarrow>
        if \<not> mem 0 then None else if \<not> mem 1 then None
        else
          let m0 = coap_init_message COAP_TYPE_CON method m;
              m1 = (case altPath of None \<Rightarrow> m0
                    | Some p \<Rightarrow> snd (coap_set_header_uri_path_segment (mem 2) m0 (Some (drop 1 p))))
          in case add_id_segments mem 3 m1 (uri_set_ids uriP) of None \<Rightarrow> None
             | Some m2 \<Rightarrow>
               let m3 = (if token_len > 0
                  then (case tok of Some t \<Rightarrow> coap_set_header_token m2 (take (unat token_len) t)
                        | None \<Rightarrow> coap_set_header_token m2 (take (unat token_len) (generated_token m now junk)))
                  else m2)
               in Some \<lparr>mID = m, peerH = peer, ack_received = False, response_timeout = 0,
                    retrans_counter = 0, retrans_time = 0, message = m3, buffer = None,
                    t_payload = None, callback = None, userData = noData\<rparr>)"

text \<open>\<open>transaction_set_payload\<close>; \<open>block_size\<close> is \<open>lwm2m_get_coap_block_size()\<close>.\<close>

definition transaction_set_payload ::
    "bool \<Rightarrow> u16 \<Rightarrow> ('p, 'c, 'u) lwm2m_transaction_t \<Rightarrow> bytes \<Rightarrow> bool \<times> ('p, 'c, 'u) lwm2m_transaction_t" where
  "transaction_set_payload allocated block_size t buf =
     (if \<not> allocated then (False, t)
      else let m1 = (if length buf > unat block_size
                     then snd (coap_set_header_block1 (message t) 0 1 block_size) else message t);
               m2 = snd (coap_set_payload m1 (Some (take (min (length buf) (unat block_size)) buf)))
           in (True, t\<lparr>t_payload := Some buf, message := m2\<rparr>))"

section \<open>Transmission\<close>

text \<open>The result code, the transaction unless it was removed, and the events.  The buffer has
  \<open>buffer_len\<close> bytes, a \<open>uint16_t\<close>; serializing more bytes writes outside it.\<close>

definition transaction_expire ::
    "('p, 'c, 'u) lwm2m_transaction_t
      \<Rightarrow> int \<times> ('p, 'c, 'u) lwm2m_transaction_t option \<times> ('p, 'c) event list" where
  "transaction_expire t =
     (-1, None, case callback t of None \<Rightarrow> [] | Some c \<Rightarrow> [Called c (mID t) None])"

definition transaction_transmit ::
    "int \<Rightarrow> int \<Rightarrow> bytes \<Rightarrow> ('p, 'c, 'u) lwm2m_transaction_t
      \<Rightarrow> int \<times> ('p, 'c, 'u) lwm2m_transaction_t option \<times> ('p, 'c) event list" where
  "transaction_transmit timeout now bs t =
     (if \<not> ack_received t then
        (let (t1, extra, maxRetriesReached) =
               (if retrans_counter t = 0 then
                  (if 0 \<le> now then (t\<lparr>retrans_time := now + timeout, retrans_counter := 1\<rparr>, 0, False)
                   else (t, 0, True))
                else (t, timeout * 2 ^ (unat (retrans_counter t) - 1), False))
         in if COAP_MAX_RETRANSMIT + 1 \<ge> retrans_counter t1 then
              (let t2 = t1\<lparr>retrans_time := retrans_time t1 + extra,
                            retrans_counter := retrans_counter t1 + 1\<rparr>;
                   sent = Sent (peerH t2) bs
               in if maxRetriesReached
                  then (case transaction_expire t2 of (r, k, es) \<Rightarrow> (r, k, sent # es))
                  else (0, Some t2, [sent]))
            else transaction_expire t1)
      else transaction_expire t)"

definition transaction_send ::
    "int \<Rightarrow> int \<Rightarrow> bool \<Rightarrow> ('p, 'c, 'u) lwm2m_transaction_t
      \<Rightarrow> (int \<times> ('p, 'c, 'u) lwm2m_transaction_t option \<times> ('p, 'c) event list) outcome" where
  "transaction_send timeout now allocated t =
     (case buffer t of
        Some bs \<Rightarrow> Ret (transaction_transmit timeout now bs t)
      | None \<Rightarrow>
        (let buffer_len = coap_serialize_get_size (message t) mod 65536 in
         if buffer_len = 0 then Ret (0xA0, None, [])
         else if \<not> allocated then Ret (0xA0, None, [])
         else let (bs, m) = coap_serialize_message (message t) in
           if length bs > buffer_len then UB
           else if length bs = 0 then Ret (0xA0, None, [])
           else Ret (transaction_transmit timeout now bs (t\<lparr>buffer := Some bs, message := m\<rparr>))))"

section \<open>The transaction list\<close>

type_synonym ('p, 'c, 'u) tlist = "('p, 'c, 'u) lwm2m_transaction_t list"

text \<open>A transaction updated in place.\<close>

definition update_node :: "('p, 'c, 'u) lwm2m_transaction_t \<Rightarrow> ('p, 'c, 'u) tlist \<Rightarrow> ('p, 'c, 'u) tlist" where
  "update_node t = map (\<lambda>s. if mID s = mID t then t else s)"

definition transaction_remove :: "('p, 'c, 'u) tlist \<Rightarrow> ('p, 'c, 'u) lwm2m_transaction_t \<Rightarrow> ('p, 'c, 'u) tlist" where
  "transaction_remove l t = fst (lwm2m_list_remove mID l (mID t))"

text \<open>The loop of \<open>transaction_step\<close> over the nodes not visited yet; \<open>l\<close> is the whole list.\<close>

fun transaction_step ::
    "int \<Rightarrow> int \<Rightarrow> (u16 \<Rightarrow> bool) \<Rightarrow> int \<Rightarrow> ('p, 'c, 'u) tlist \<Rightarrow> int \<Rightarrow> ('p, 'c, 'u) tlist
      \<Rightarrow> (('p, 'c, 'u) tlist \<times> int \<times> ('p, 'c) event list) outcome" where
  "transaction_step timeout now mem currentTime [] timeoutP l = Ret (l, timeoutP, [])"
| "transaction_step timeout now mem currentTime (t # ts) timeoutP l =
     oc_bind (if retrans_time t \<le> currentTime
              then transaction_send timeout now (mem (mID t)) t
              else Ret (0, Some t, []))
       (\<lambda>(removed, kept, es).
          let l' = (case kept of None \<Rightarrow> transaction_remove l t | Some t' \<Rightarrow> update_node t' l);
              timeoutP' =
                (if removed = 0 then
                   (let time = (case kept of None \<Rightarrow> retrans_time t | Some t' \<Rightarrow> retrans_time t');
                        interval = (if time > currentTime then time - currentTime else 1)
                    in if timeoutP > interval then interval else timeoutP)
                 else 1)
          in oc_bind (transaction_step timeout now mem currentTime ts timeoutP' l')
               (\<lambda>(l2, tp2, es2). Ret (l2, tp2, es @ es2)))"

section \<open>Responses\<close>

definition prv_checkFinished :: "('p, 'c, 'u) lwm2m_transaction_t \<Rightarrow> coap_packet_t \<Rightarrow> bool" where
  "prv_checkFinished t received =
     (if mid (message t) \<noteq> mid received then False
      else if COAP_DELETE < code (message t) then ack_received t
      else if \<not> IS_OPTION (message t) OPT_TOKEN then ack_received t
      else if length (token (message t)) = length (coap_get_header_token received)
           then token (message t) = coap_get_header_token received
      else False)"

text \<open>The loop of \<open>transaction_handleResponse\<close> over the nodes not visited yet.  \<open>hasResponse\<close> is
  \<open>NULL != response\<close> (and that \<open>message_send\<close> can allocate the four bytes of the acknowledgement).\<close>

fun transaction_handleResponse ::
    "int \<Rightarrow> int \<Rightarrow> ('p \<Rightarrow> 'p \<Rightarrow> bool) \<Rightarrow> 'p \<Rightarrow> coap_packet_t \<Rightarrow> bool
      \<Rightarrow> ('p, 'c, 'u) tlist \<Rightarrow> ('p, 'c, 'u) tlist \<Rightarrow> bool \<times> ('p, 'c, 'u) tlist \<times> ('p, 'c) event list" where
  "transaction_handleResponse timeout now same from m hasResponse [] l = (False, l, [])"
| "transaction_handleResponse timeout now same from m hasResponse (t # ts) l =
     (if same from (peerH t) then
        (let found = (\<not> ack_received t \<and> (msg_type m = COAP_TYPE_ACK \<or> msg_type m = COAP_TYPE_RST)
                      \<and> mID t = mid m);
             reset = (found \<and> msg_type m = COAP_TYPE_RST);
             t1 = (if found then t\<lparr>ack_received := True\<rparr> else t)
         in if reset \<or> prv_checkFinished t1 m then
              (let acks = (if \<not> reset \<and> msg_type m = COAP_TYPE_CON \<and> hasResponse
                           then [Sent from (fst (coap_serialize_message
                                   (coap_init_message COAP_TYPE_ACK 0 (mid m))))] else [])
               in if \<not> reset \<and> code m = COAP_401_UNAUTHORIZED \<and> COAP_MAX_RETRANSMIT > retrans_counter t1
                  then (True, update_node (t1\<lparr>ack_received := False,
                                retrans_time := retrans_time t1 + timeout\<rparr>) l, acks)
                  else (True, transaction_remove l t1,
                        acks @ (case callback t1 of None \<Rightarrow> [] | Some c \<Rightarrow> [Called c (mID t1) (Some m)])))
            else if found then
              (let base = (if 0 \<le> now then now else retrans_time t1);
                   time = (if response_timeout t1 \<noteq> 0 then base + response_timeout t1
                           else base + timeout * int (unat (retrans_counter t1)))
               in (True, update_node (t1\<lparr>retrans_time := time\<rparr>) l, []))
            else transaction_handleResponse timeout now same from m hasResponse ts l)
      else transaction_handleResponse timeout now same from m hasResponse ts l)"

text \<open>\<open>prv_get_transaction\<close> of \<open>core/packet.c\<close>.\<close>

fun prv_get_transaction ::
    "('p \<Rightarrow> 'p \<Rightarrow> bool) \<Rightarrow> 'p \<Rightarrow> u16 \<Rightarrow> ('p, 'c, 'u) tlist \<Rightarrow> ('p, 'c, 'u) lwm2m_transaction_t option" where
  "prv_get_transaction same sessionH m [] = None"
| "prv_get_transaction same sessionH m (t # ts) =
     (if \<not> same sessionH (peerH t) \<or> mID t \<noteq> m then prv_get_transaction same sessionH m ts else Some t)"

end
