(* ===== verification/TransactionProps.thy ===== *)
theory TransactionProps
  imports Transaction CoapRoundtrip
begin

text \<open>
  Properties of the transactions: the buffer is large enough, the transmissions follow the
  exponential back-off and end with the callback, a response finishes exactly its transaction, and
  the loop of \<open>transaction_step\<close> keeps the list sorted and never asks to sleep past a due time.
  The list facts come from the interpretation \<open>sorted_list\<close> of \<open>id_store\<close>.
\<close>

section \<open>Transmission\<close>

text \<open>A transaction as it is handed to the first \<open>transaction_send\<close>.\<close>

definition transaction_ready :: "('p, 'c, 'u) lwm2m_transaction_t \<Rightarrow> bool" where
  "transaction_ready t \<longleftrightarrow> \<not> ack_received t \<and> retrans_counter t = 0 \<and> buffer t = None
     \<and> coap_lists_ok (message t) \<and> coap_sizes_ok (message t) \<and> coap_serialize_get_size (message t) < 65536"

lemma coap_size_lower: "4 \<le> coap_serialize_get_size p"
  by (simp add: coap_serialize_get_size_def)

lemma transaction_send_first:
  assumes "transaction_ready t"
  shows "transaction_send timeout now True t = Ret (transaction_transmit timeout now
    (fst (coap_serialize_message (message t)))
    (t\<lparr>buffer := Some (fst (coap_serialize_message (message t))),
       message := snd (coap_serialize_message (message t))\<rparr>))"
proof -
  obtain bs m where bm: "coap_serialize_message (message t) = (bs, m)" by fastforce
  have fit: "length bs \<le> coap_serialize_get_size (message t)"
    using bm coap_serialize_fits_lemma assms by (metis fst_conv transaction_ready_def)
  have "4 \<le> length bs" using length_serialized [of "message t"] bm assms by (simp add: transaction_ready_def)
  then have "bs \<noteq> []" by auto
  with fit bm assms coap_size_lower [of "message t"] show ?thesis
    by (auto simp: transaction_send_def transaction_ready_def Let_def)
qed

text \<open>Calling \<open>transaction_send\<close> again and again at the given times: the due time after each call
  that keeps the transaction, the events, and what is left of it.\<close>

fun send_run ::
    "int \<Rightarrow> int list \<Rightarrow> ('p, 'c, 'u) lwm2m_transaction_t
      \<Rightarrow> (int list \<times> ('p, 'c) event list \<times> ('p, 'c, 'u) lwm2m_transaction_t option) outcome" where
  "send_run timeout [] t = Ret ([], [], Some t)"
| "send_run timeout (now # nows) t =
     oc_bind (transaction_send timeout now True t) (\<lambda>(r, kept, es).
       case kept of None \<Rightarrow> Ret ([], es, None)
       | Some t' \<Rightarrow> oc_bind (send_run timeout nows t') (\<lambda>(due, es', k).
           Ret (retrans_time t' # due, es @ es', k)))"

lemma transmit_first:
  assumes "\<not> ack_received t" "retrans_counter t = 0" "0 \<le> now"
  shows "transaction_transmit timeout now bs t
    = (0, Some (t\<lparr>retrans_time := now + timeout, retrans_counter := 2\<rparr>), [Sent (peerH t) bs])"
  using assms by (simp add: transaction_transmit_def)

lemma transmit_again:
  assumes "\<not> ack_received t" "retrans_counter t \<noteq> 0" "retrans_counter t \<le> 5"
  shows "transaction_transmit timeout now bs t
    = (0, Some (t\<lparr>retrans_time := retrans_time t + timeout * 2 ^ (unat (retrans_counter t) - 1),
                   retrans_counter := retrans_counter t + 1\<rparr>), [Sent (peerH t) bs])"
  using assms by (simp add: transaction_transmit_def)

lemma transmit_last:
  assumes "\<not> ack_received t" "5 < retrans_counter t"
  shows "transaction_transmit timeout now bs t = transaction_expire t"
  using assms by (auto simp: transaction_transmit_def not_le Let_def dest: leD)

lemma send_buffered:
  "buffer t = Some bs \<Longrightarrow> transaction_send timeout now allocated t = Ret (transaction_transmit timeout now bs t)"
  by (simp add: transaction_send_def)

text \<open>C6: a confirmable message that is never acknowledged is transmitted exactly five times
  (\<open>COAP_MAX_RETRANSMIT\<close> retransmissions), the same datagram each time, due \<open>T\<close>, \<open>3 T\<close>, \<open>7 T\<close>,
  \<open>15 T\<close> and \<open>31 T\<close> after the first one; the next call frees the transaction and tells its
  callback that there is no response.\<close>

theorem transaction_backoff:
  assumes "transaction_ready t" "0 \<le> now" "bs = fst (coap_serialize_message (message t))"
  shows "send_run T [now, n2, n3, n4, n5, n6] t =
    Ret ([now + T, now + 3 * T, now + 7 * T, now + 15 * T, now + 31 * T],
         replicate 5 (Sent (peerH t) bs)
           @ (case callback t of None \<Rightarrow> [] | Some c \<Rightarrow> [Called c (mID t) None]), None)"
proof -
  have t: "\<not> ack_received t" "retrans_counter t = 0" using assms(1) by (simp_all add: transaction_ready_def)
  have rep: "replicate 5 x = [x, x, x, x, x]" for x :: "('a, 'b) event" by (simp add: numeral_eq_Suc)
  let ?t = "\<lambda>c d. t\<lparr>buffer := Some bs, message := snd (coap_serialize_message (message t)),
      retrans_time := d, retrans_counter := c\<rparr>"
  have first: "transaction_send T now True t = Ret (0, Some (?t 2 (now + T)), [Sent (peerH t) bs])"
    unfolding transaction_send_first [OF assms(1)] assms(3) [symmetric]
    by (subst transmit_first) (use t assms(2) in simp_all)
  have again: "transaction_send T n True (?t c d) = Ret (0, Some (?t c' d'), [Sent (peerH t) bs])"
    if "c \<noteq> 0" "c \<le> 5" "c' = c + 1" "d' = d + T * 2 ^ (unat c - 1)" for n c d c' d'
    by (subst send_buffered [of _ bs], simp, subst transmit_again) (use t that in simp_all)
  have s2: "transaction_send T n2 True (?t 2 (now + T)) = Ret (0, Some (?t 3 (now + 3 * T)), [Sent (peerH t) bs])"
    by (rule again) simp_all
  have s3: "transaction_send T n3 True (?t 3 (now + 3 * T)) = Ret (0, Some (?t 4 (now + 7 * T)), [Sent (peerH t) bs])"
    by (rule again) simp_all
  have s4: "transaction_send T n4 True (?t 4 (now + 7 * T)) = Ret (0, Some (?t 5 (now + 15 * T)), [Sent (peerH t) bs])"
    by (rule again) simp_all
  have s5: "transaction_send T n5 True (?t 5 (now + 15 * T)) = Ret (0, Some (?t 6 (now + 31 * T)), [Sent (peerH t) bs])"
    by (rule again) simp_all
  have last: "transaction_send T n True (?t 6 d) = Ret (transaction_expire (?t 6 d))" for n d
    by (subst send_buffered [of _ bs], simp, subst transmit_last) (use t in simp_all)
  show ?thesis
    by (simp add: first s2 s3 s4 s5 last rep transaction_expire_def split: option.split)
qed

definition sample_transaction :: "(nat, nat, nat) lwm2m_transaction_t" where
  "sample_transaction = \<lparr>mID = 7, peerH = 1, ack_received = False, response_timeout = 0,
     retrans_counter = 0, retrans_time = 0, message = sized_request, buffer = None,
     t_payload = None, callback = Some 9, userData = 0\<rparr>"

lemma sample_transaction_ready: "transaction_ready sample_transaction"
proof -
  have "IS_OPTION sized_request n \<longleftrightarrow> n = 28" for n
    by (auto simp: sized_request_def coap_set_header_size_def)
  then show ?thesis
    by (simp add: transaction_ready_def sample_transaction_def coap_lists_ok_def coap_sizes_ok_def
        coap_serialize_get_size_def)
      (simp add: sized_request_def coap_set_header_size_def coap_init_message_def coap_zero_def)
qed

theorem transaction_backoff_witness:
  "send_run 2 [100, 102, 106, 114, 130, 162] sample_transaction =
    Ret ([102, 106, 114, 130, 162],
      replicate 5 (Sent 1 (fst (coap_serialize_message sized_request))) @ [Called 9 7 None], None)"
  using transaction_backoff [OF sample_transaction_ready, of 100 _ 2 102 106 114 130 162]
  by (simp add: sample_transaction_def)

text \<open>sending a transaction that is ready never writes outside the buffer it allocates.\<close>

theorem transaction_send_safe:
  assumes "transaction_ready t"
  shows "transaction_send timeout now allocated t \<noteq> UB"
  using transaction_send_first [OF assms] by (cases allocated) (auto simp: transaction_send_def Let_def split: option.split)

theorem transaction_send_safe_witness:
  "transaction_send 2 100 True sample_transaction \<noteq> UB"
  by (rule transaction_send_safe [OF sample_transaction_ready])

section \<open>The list\<close>

text \<open>Identifiers increase along the list, and the message of a transaction carries its identifier.\<close>

definition tlist_ok :: "('p, 'c, 'u) tlist \<Rightarrow> bool" where
  "tlist_ok l \<longleftrightarrow> id_sorted mID l \<and> (\<forall>t\<in>set l. mid (message t) = mID t)"

lemma map_mID_update: "map mID (update_node t l) = map mID l"
  by (induction l) (simp_all add: update_node_def)

lemma id_sorted_update: "id_sorted mID (update_node t l) = id_sorted mID l"
  unfolding id_sorted_def map_mID_update ..

lemma set_update_node: "s \<in> set (update_node t l) \<Longrightarrow> s = t \<or> s \<in> set l"
  by (auto simp: update_node_def)

lemma transaction_remove_sorted: "id_sorted mID l \<Longrightarrow> id_sorted mID (transaction_remove l t)"
  unfolding transaction_remove_def by (rule sorted_list.remove_invar)

lemma set_transaction_remove:
  assumes "id_sorted mID l"
  shows "set (transaction_remove l t) = {s \<in> set l. mID s \<noteq> mID t}"
proof -
  have set_map: "s \<in> set xs \<longleftrightarrow> id_map mID xs (mID s) = Some s" if "id_sorted mID xs" for xs :: "('a, 'b, 'c) tlist" and s
    using that by (induction xs) (auto dest: id_map_key)
  have "s \<in> set (transaction_remove l t) \<longleftrightarrow> s \<in> {s \<in> set l. mID s \<noteq> mID t}" for s
    using set_map [OF transaction_remove_sorted [OF assms], of s t] set_map [OF assms, of s]
      sorted_list.remove_abs [of mID l "mID t"] assms
    by (auto simp: transaction_remove_def)
  then show ?thesis by blast
qed

lemma distinct_ids: "id_sorted mID l \<Longrightarrow> s \<in> set l \<Longrightarrow> t \<in> set l \<Longrightarrow> mID s = mID t \<Longrightarrow> s = t"
  using id_sorted_distinct [of mID l] by (auto simp: distinct_map dest: inj_onD)

section \<open>Responses\<close>

text \<open>The response finishes the transaction: the rules of \<open>prv_checkFinished\<close>, after an
  acknowledgement.\<close>

definition answers :: "coap_packet_t \<Rightarrow> coap_packet_t \<Rightarrow> bool" where
  "answers request m \<longleftrightarrow> COAP_DELETE < code request \<or> \<not> IS_OPTION request OPT_TOKEN
     \<or> token request = coap_get_header_token m"

lemma not_this_transaction:
  assumes "mID t \<noteq> mid m" "mid (message t) = mID t"
  shows "transaction_handleResponse timeout now same from m hr (t # ts) l
    = transaction_handleResponse timeout now same from m hr ts l"
  using assms by (auto simp: prv_checkFinished_def Let_def)

lemma no_transaction:
  "\<forall>t\<in>set ts. mid (message t) = mID t \<and> (same from (peerH t) \<longrightarrow> mID t \<noteq> mid m) \<Longrightarrow>
     transaction_handleResponse timeout now same from m hr ts l = (False, l, [])"
proof (induction ts)
  case (Cons t ts)
  show ?case
  proof (cases "same from (peerH t)")
    case True
    with Cons show ?thesis by (simp add: not_this_transaction del: transaction_handleResponse.simps)
  qed (use Cons in simp)
qed simp

text \<open>4.01 (Unauthorized) before the last transmission keeps the transaction, for a new attempt after
  one more time-out; any other acknowledgement calls the callback and removes it.\<close>

definition finished :: "int \<Rightarrow> coap_packet_t \<Rightarrow> ('p, 'c, 'u) lwm2m_transaction_t \<Rightarrow> ('p, 'c, 'u) tlist
    \<Rightarrow> bool \<times> ('p, 'c, 'u) tlist \<times> ('p, 'c) event list" where
  "finished timeout m t l =
     (if code m = COAP_401_UNAUTHORIZED \<and> retrans_counter t < COAP_MAX_RETRANSMIT
      then (True, update_node (t\<lparr>retrans_time := retrans_time t + timeout\<rparr>) l, [])
      else (True, transaction_remove l t,
            case callback t of None \<Rightarrow> [] | Some c \<Rightarrow> [Called c (mID t) (Some m)]))"

lemma ack_this_transaction:
  assumes "msg_type m = COAP_TYPE_ACK" "same from (peerH t)"
    "\<not> ack_received t" "mID t = mid m" "mid (message t) = mID t" "answers (message t) m"
  shows "transaction_handleResponse timeout now same from m hr (t # ts) l = finished timeout m t l"
proof -
  have [simp]: "t\<lparr>ack_received := False, retrans_time := x\<rparr> = t\<lparr>retrans_time := x\<rparr>" for x
    using assms(3) by (cases t) simp
  show ?thesis
    using assms
    by (auto simp: prv_checkFinished_def answers_def finished_def Let_def transaction_remove_def split: option.split)
qed

lemma ack_found:
  assumes "msg_type m = COAP_TYPE_ACK" "same from (peerH t)"
    "\<not> ack_received t" "mID t = mid m" "answers (message t) m"
    "t \<in> set ts" "id_sorted mID ts" "\<forall>s\<in>set ts. mid (message s) = mID s"
  shows "transaction_handleResponse timeout now same from m hr ts l = finished timeout m t l"
  using assms(6-)
proof (induction ts)
  case (Cons s ts)
  show ?case
  proof (cases "s = t")
    case True
    with Cons.prems assms ack_this_transaction [of m same "from" t] show ?thesis
      by (simp del: transaction_handleResponse.simps)
  next
    case False
    with Cons.prems have "t \<in> set ts" "mID s \<noteq> mID t" by auto
    with Cons False assms(4) show ?thesis
      by (simp add: not_this_transaction del: transaction_handleResponse.simps)
  qed
qed simp

lemma set_update_node_id:
  assumes "id_sorted mID l" "t \<in> set l" "mID t' = mID t"
  shows "set (update_node t' l) = insert t' (set l - {t})"
  using assms distinct_ids [OF assms(1)] by (auto simp: update_node_def)

lemma transaction_response_completes_lemma:
  assumes "tlist_ok l" "t \<in> set l" "same from (peerH t)" "mid m = mID t" "msg_type m = COAP_TYPE_ACK"
    "\<not> ack_received t" "answers (message t) m"
  shows "\<exists>l'. (if code m = COAP_401_UNAUTHORIZED \<and> retrans_counter t < COAP_MAX_RETRANSMIT
      then transaction_handleResponse timeout now same from m hr l l = (True, l', [])
        \<and> set l' = insert (t\<lparr>retrans_time := retrans_time t + timeout\<rparr>) (set l - {t})
      else transaction_handleResponse timeout now same from m hr l l
          = (True, l', case callback t of None \<Rightarrow> [] | Some c \<Rightarrow> [Called c (mID t) (Some m)])
        \<and> set l' = set l - {t}) \<and> tlist_ok l'"
proof -
  let ?t' = "t\<lparr>retrans_time := retrans_time t + timeout\<rparr>"
  have ok: "id_sorted mID l" "\<forall>s\<in>set l. mid (message s) = mID s"
    using assms(1) by (simp_all add: tlist_ok_def)
  have removed: "set (transaction_remove l t) = set l - {t}"
    using set_transaction_remove [OF ok(1), of t] distinct_ids [OF ok(1) _ assms(2)] assms(2) by auto
  have updated: "set (update_node ?t' l) = insert ?t' (set l - {t})"
    by (rule set_update_node_id [OF ok(1) assms(2)]) simp
  have "tlist_ok (transaction_remove l t)" "tlist_ok (update_node ?t' l)"
    using ok removed updated transaction_remove_sorted assms(2) by (auto simp: tlist_ok_def id_sorted_update)
  moreover have "transaction_handleResponse timeout now same from m hr l l = finished timeout m t l"
    using assms ok by (intro ack_found) auto
  ultimately show ?thesis
    using removed updated by (auto simp: finished_def)
qed

lemma transaction_answered:
  assumes "tlist_ok l" "t \<in> set l" "same from (peerH t)" "mid m = mID t" "msg_type m = COAP_TYPE_ACK"
    "code m \<noteq> COAP_401_UNAUTHORIZED" "\<not> ack_received t" "answers (message t) m"
  shows "\<exists>l'. transaction_handleResponse timeout now same from m hr l l
      = (True, l', case callback t of None \<Rightarrow> [] | Some c \<Rightarrow> [Called c (mID t) (Some m)])
    \<and> set l' = set l - {t} \<and> tlist_ok l'"
  using transaction_response_completes_lemma [of l t same "from" m] assms by auto




text \<open>a response that does not carry the message id of a transaction of its sender finishes
  none, whatever its token: a separate response, which has its own message id, is not matched,
  although the comment of \<open>transaction.c\<close> says that it finishes the transaction.\<close>

theorem transaction_separate_response_ignored:
  assumes "tlist_ok l" "\<forall>t\<in>set l. same from (peerH t) \<longrightarrow> mID t \<noteq> mid m"
  shows "transaction_handleResponse timeout now same from m hr l l = (False, l, [])"
  using no_transaction [of l same "from" m] assms by (simp add: tlist_ok_def)

theorem transaction_separate_response_ignored_witness:
  "transaction_handleResponse 2 100 (=) 1 (coap_init_message COAP_TYPE_CON 69 8) True
     [sample_transaction] [sample_transaction] = (False, [sample_transaction], [])"
  by (rule transaction_separate_response_ignored)
    (simp_all add: tlist_ok_def sample_transaction_def sized_request_def coap_set_header_size_def
      coap_init_message_def)

section \<open>The step\<close>

lemma transmit_keeps_id:
  "transaction_transmit timeout now bs t = (r, Some t', es) \<Longrightarrow>
     mID t' = mID t \<and> mid (message t') = mid (message t) \<and> r = 0"
  by (auto simp: transaction_transmit_def transaction_expire_def Let_def split: if_splits prod.splits)

lemma transmit_drops:
  "transaction_transmit timeout now bs t = (r, None, es) \<Longrightarrow> r = -1"
  by (auto simp: transaction_transmit_def transaction_expire_def Let_def split: if_splits prod.splits)

lemma serialize_mid: "mid (snd (coap_serialize_message p)) = mid p"
  by (simp add: coap_serialize_message_def Let_def coap_free_header_def split: prod.split)

lemma transaction_send_cases:
  assumes "transaction_send timeout now allocated t = Ret (r, kept, es)"
  shows "(kept = None \<and> r \<noteq> 0) \<or> (\<exists>t'. kept = Some t' \<and> r = 0 \<and> mID t' = mID t \<and> mid (message t') = mid (message t))"
proof (cases "buffer t")
  case (Some bs)
  with assms show ?thesis
    by (cases kept) (auto simp: transaction_send_def dest: transmit_keeps_id transmit_drops)
next
  case None
  obtain bs m where bm: "coap_serialize_message (message t) = (bs, m)" by fastforce
  then have "mid m = mid (message t)" using serialize_mid [of "message t"] by simp
  with None bm assms show ?thesis
    by (cases kept)
      (auto simp: transaction_send_def Let_def dest!: transmit_keeps_id transmit_drops split: if_splits)
qed

lemma transaction_step_invariant:
  assumes "transaction_step timeout now mem current ts tp l = Ret (l', tp', es)" "tlist_ok l" "set ts \<subseteq> set l"
    "id_sorted mID ts" "1 \<le> tp"
    "\<forall>s\<in>set l - set ts. tp \<le> max 1 (retrans_time s - current)"
  shows "tlist_ok l' \<and> mID ` set l' \<subseteq> mID ` set l \<and> 1 \<le> tp' \<and> tp' \<le> tp
    \<and> (\<forall>s\<in>set l'. tp' \<le> max 1 (retrans_time s - current))"
  using assms
proof (induction ts arbitrary: tp l es)
  case Nil
  then show ?case by auto
next
  case (Cons t ts)
  let ?send = "if retrans_time t \<le> current then transaction_send timeout now (mem (mID t)) t
      else Ret (0, Some t, [])"
  obtain r kept es1 where send: "?send = Ret (r, kept, es1)"
    using Cons.prems(1) by (auto simp: oc_bind_eq_Ret)
  let ?l = "case kept of None \<Rightarrow> transaction_remove l t | Some t' \<Rightarrow> update_node t' l"
  let ?time = "case kept of None \<Rightarrow> retrans_time t | Some t' \<Rightarrow> retrans_time t'"
  let ?interval = "if ?time > current then ?time - current else 1"
  let ?tp = "if r = 0 then if tp > ?interval then ?interval else tp else 1"
  obtain es2 where rest: "transaction_step timeout now mem current ts ?tp ?l = Ret (l', tp', es2)"
    using Cons.prems(1) send unfolding transaction_step.simps Let_def
    by (simp add: oc_bind_eq_Ret split_paired_all split: prod.splits) blast
  have ids: "\<forall>s\<in>set ts. mID s \<noteq> mID t" "id_sorted mID ts" using Cons.prems(4) by auto
  have t: "t \<in> set l" "mid (message t) = mID t" and sorted: "id_sorted mID l"
    and mids: "\<forall>s\<in>set l. mid (message s) = mID s"
    using Cons.prems(2,3) by (auto simp: tlist_ok_def)
  have "(kept = None \<and> r \<noteq> 0)
      \<or> (\<exists>t'. kept = Some t' \<and> r = 0 \<and> mID t' = mID t \<and> mid (message t') = mid (message t))"
    using send by (cases "retrans_time t \<le> current") (auto dest: transaction_send_cases)
  then consider (gone) "kept = None" "r \<noteq> 0"
    | (stays) t' where "kept = Some t'" "r = 0" "mID t' = mID t" "mid (message t') = mID t"
    using t(2) by auto
  then have step: "tlist_ok ?l \<and> set ts \<subseteq> set ?l \<and> mID ` set ?l \<subseteq> mID ` set l \<and> 1 \<le> ?tp \<and> ?tp \<le> tp
      \<and> (\<forall>s\<in>set ?l - set ts. ?tp \<le> max 1 (retrans_time s - current))"
  proof cases
    case gone
    have "set (transaction_remove l t) = {s \<in> set l. mID s \<noteq> mID t}"
      by (rule set_transaction_remove [OF sorted])
    with gone Cons.prems(3,5) ids mids transaction_remove_sorted [OF sorted, of t] show ?thesis
      by (auto simp: tlist_ok_def)
  next
    case stays
    have fixed: "s \<in> set (update_node t' l) \<longleftrightarrow> s = t' \<or> s \<in> set l \<and> mID s \<noteq> mID t" for s
      using t(1) stays(3) by (auto simp: update_node_def)
    have "mID ` set (update_node t' l) = mID ` set l" by (metis map_mID_update set_map)
    moreover have "tlist_ok (update_node t' l)"
      using fixed mids stays(3,4) sorted by (auto simp: tlist_ok_def id_sorted_update)
    moreover have "set ts \<subseteq> set (update_node t' l)" using fixed ids Cons.prems(3) by auto
    moreover have "?tp \<le> max 1 (retrans_time s - current)" if s: "s \<in> set ?l - set ts" for s
    proof (cases "s = t'")
      case False
      with s stays fixed have "tp \<le> max 1 (retrans_time s - current)"
        using Cons.prems(6) by auto
      with stays show ?thesis by auto
    qed (use stays in auto)
    ultimately show ?thesis using stays Cons.prems(5) by auto
  qed
  then have "tlist_ok l' \<and> mID ` set l' \<subseteq> mID ` set ?l \<and> 1 \<le> tp' \<and> tp' \<le> ?tp
      \<and> (\<forall>s\<in>set l'. tp' \<le> max 1 (retrans_time s - current))"
    by (intro Cons.IH [OF rest] ids(2)) auto
  with step show ?case
    by (elim conjE) (intro conjI; (assumption | erule (1) subset_trans | erule (1) order_trans))
qed

text \<open>C8: one pass of \<open>transaction_step\<close> keeps the list sorted and adds no transaction, and the
  sleep time it leaves never goes past the next due transmission of a transaction it keeps, but is
  at least one second.\<close>

theorem transaction_step_due:
  assumes "tlist_ok l" "1 \<le> tp" "transaction_step timeout now mem current l tp l = Ret (l', tp', es)"
  shows "tlist_ok l' \<and> mID ` set l' \<subseteq> mID ` set l \<and> 1 \<le> tp' \<and> tp' \<le> tp
    \<and> (\<forall>s\<in>set l'. tp' \<le> max 1 (retrans_time s - current))"
  using transaction_step_invariant [OF assms(3,1)] assms(1,2) by (simp add: tlist_ok_def)

definition waiting_transaction :: "(nat, nat, nat) lwm2m_transaction_t" where
  "waiting_transaction = sample_transaction\<lparr>retrans_time := 110, retrans_counter := 2\<rparr>"

theorem transaction_step_due_witness:
  "\<exists>tp' es. transaction_step 2 100 (\<lambda>_. True) 100 [waiting_transaction] 60 [waiting_transaction]
      = Ret ([waiting_transaction], tp', es) \<and> tp' \<le> max 1 (retrans_time waiting_transaction - 100)"
proof -
  have run: "transaction_step 2 100 (\<lambda>_. True) 100 [waiting_transaction] 60 [waiting_transaction]
      = Ret ([waiting_transaction], 10, [])"
    by (simp add: waiting_transaction_def sample_transaction_def update_node_def)
  have "tlist_ok [waiting_transaction]"
    by (simp add: tlist_ok_def waiting_transaction_def sample_transaction_def sized_request_def
        coap_set_header_size_def coap_init_message_def)
  from transaction_step_due [OF this _ run] run show ?thesis by auto
qed

section \<open>New transactions\<close>

lemma id_segment_text: "id_segment i = Some (dec_text (unat i))"
proof -
  have "length (dec_text (unat (ucast i :: u64))) \<le> length (replicate 6 (0 :: u8))"
    using length_dec_text_id [of i] by simp
  from utils_uintToText_fits [OF this] show ?thesis
    by (auto simp: id_segment_def intToText_id split: prod.split)
qed

lemma add_id_segments_path:
  assumes "\<forall>k. mem k"
  obtains m' where "add_id_segments mem k m is = Some m'"
    "uri_path m' = uri_path m @ map (\<lambda>i. dec_text (unat i)) is" "mid m' = mid m" "code m' = code m"
proof -
  have "\<exists>m'. add_id_segments mem k m is = Some m' \<and> uri_path m' = uri_path m @ map (\<lambda>i. dec_text (unat i)) is
      \<and> mid m' = mid m \<and> code m' = code m"
  proof (induction "is" arbitrary: k m)
    case (Cons i js)
    have "length (dec_text (unat i)) < 256" using length_dec_text_id [of i] by simp
    with Cons [of "k + 1" "snd (coap_set_header_uri_path_segment True m (Some (dec_text (unat i))))"] assms
    show ?case
      by (auto simp: id_segment_text coap_set_header_uri_path_segment_def Let_def add_segment)
  qed simp
  with that show thesis by blast
qed

lemma uri_set_ids_ids: "uri_wf u \<Longrightarrow> uri_set_ids (Some u) = uri_ids u"
  by (auto simp: uri_set_ids_def uri_ids_def uri_wf_def)

text \<open>the request of a new transaction for a URI carries a Uri-Path that the peer decodes to
  this URI, after the alternative path when there is one.\<close>

theorem transaction_new_uri:
  assumes "\<forall>k. mem k" "uri_wf u" "is_set_object u"
    and "altPath = None \<or> altPath = Some (ch_slash # p) \<and> length p < 256
      \<and> p \<noteq> URI_REGISTRATION_SEGMENT \<and> p \<noteq> URI_BOOTSTRAP_SEGMENT"
  shows "\<exists>t. transaction_new mem now junk (Some peer) method altPath (Some u) m len tok noData = Some t
    \<and> mid (message t) = mID t \<and> retrans_counter t = 0
    \<and> uri_decode altPath (uri_path (message t)) method = Ret (LWM2M_REQUEST_TYPE_DM, u)"
proof -
  let ?m0 = "coap_init_message COAP_TYPE_CON method m"
  let ?m1 = "case altPath of None \<Rightarrow> ?m0
    | Some p \<Rightarrow> snd (coap_set_header_uri_path_segment True ?m0 (Some (drop 1 p)))"
  define path where "path = (case altPath of None \<Rightarrow> [] | Some q \<Rightarrow> [drop 1 q])"
  have m1: "uri_path ?m1 = path" "mid ?m1 = m"
    using assms(4) by (auto simp: path_def coap_set_header_uri_path_segment_def Let_def add_segment
        coap_init_message_def coap_zero_def split: option.split)
  have decode: "path = [] \<and> altPath = None \<or> path = [p] \<and> altPath = Some (ch_slash # p)
      \<and> p \<noteq> URI_REGISTRATION_SEGMENT \<and> p \<noteq> URI_BOOTSTRAP_SEGMENT"
    using assms(4) by (auto simp: path_def)
  obtain m2 where m2: "add_id_segments mem 3 ?m1 (uri_ids u) = Some m2"
    "uri_path m2 = path @ map (\<lambda>i. dec_text (unat i)) (uri_ids u)" "mid m2 = m"
    using add_id_segments_path [OF assms(1), of 3 ?m1 "uri_ids u"] m1 by metis
  have "uri_decode altPath (uri_path m2) method = Ret (LWM2M_REQUEST_TYPE_DM, u)"
    unfolding m2(2) using decode by (rule uri_decode_ids_lemma [OF assms(2,3)])
  with assms(1) m2 uri_set_ids_ids [OF assms(2)] show ?thesis
    by (auto simp: transaction_new_def Let_def coap_set_header_token_def split: option.split)
qed

theorem transaction_new_uri_witness:
  "\<exists>t :: (nat, nat, nat) lwm2m_transaction_t.
      transaction_new (\<lambda>_. True) 100 [] (Some 5) 1 None (Some (uri_of [3, 0, 9])) 21 4 None 0 = Some t
    \<and> mid (message t) = mID t \<and> retrans_counter t = 0
    \<and> uri_decode None (uri_path (message t)) 1 = Ret (LWM2M_REQUEST_TYPE_DM, uri_of [3, 0, 9])"
  by (rule transaction_new_uri) (simp_all add: uri_wf_def uri_of_def)

end
