(* ===== verification/Block.thy ===== *)
theory Block
  imports Prelude
begin

text \<open>
  The block-wise transfers of \<open>coap/block.c\<close>: the list of partly received payloads of a peer, and
  the handlers that append a block to one.  The \<open>next\<close> chain is the list of its entries, a pointer
  to an entry is its index.  \<open>mem k\<close> says whether the \<open>k\<close>-th allocation of a call succeeds.  Fields
  that \<open>prv_block_insert\<close> leaves uninitialized have a value of their own; reading one is undefined
  behaviour, and so is a comparison through the member of the identifier union that was not
  written.  The interface \<open>block_receiver\<close> states what a sender may rely on; the handlers of
  Block1 requests and of Block2 responses are its instances.
\<close>

section \<open>Data\<close>

datatype block_type_t = BLOCK_1 | BLOCK_2

datatype block_data_identifier_t = UriId "bytes option" | MidId u32

datatype block_buffer = Uninit | Null | Buf bytes

record lwm2m_block_data_t =
  blockType :: block_type_t
  blockIdentifier :: block_data_identifier_t
  blockBuffer :: block_buffer
  blockBufferSize :: nat
  blockNum :: "u32 option"
  blockMid :: "u16 option"

type_synonym block_list = "lwm2m_block_data_t list"

text \<open>What the handler leaves in \<open>*outputBuffer\<close> and \<open>*outputLength\<close>: nothing, only the length -1,
  or the buffer with its length.\<close>

datatype block_output = Unset | LengthMinusOne | Output block_buffer nat


section \<open>The list of transfers\<close>

fun prv_matchBlock1 :: "block_data_identifier_t \<Rightarrow> lwm2m_block_data_t \<Rightarrow> bool outcome" where
  "prv_matchBlock1 (UriId u) b =
     (case blockIdentifier b of
        UriId v \<Rightarrow> Ret (v \<noteq> None \<and> u \<noteq> None \<and> u = v)
      | MidId _ \<Rightarrow> UB)"
| "prv_matchBlock1 (MidId m) b = UB"

fun prv_matchBlock2 :: "block_data_identifier_t \<Rightarrow> lwm2m_block_data_t \<Rightarrow> bool outcome" where
  "prv_matchBlock2 (MidId m) b = (case blockIdentifier b of MidId n \<Rightarrow> Ret (m = n) | UriId _ \<Rightarrow> UB)"
| "prv_matchBlock2 (UriId u) b = UB"

definition prv_get_matcher ::
    "block_type_t \<Rightarrow> block_data_identifier_t \<Rightarrow> lwm2m_block_data_t \<Rightarrow> bool outcome" where
  "prv_get_matcher bt = (if bt = BLOCK_1 then prv_matchBlock1 else prv_matchBlock2)"

fun find_block_data ::
    "block_list \<Rightarrow> block_data_identifier_t \<Rightarrow> block_type_t \<Rightarrow> nat option outcome" where
  "find_block_data [] ident bt = Ret None"
| "find_block_data (b # bs) ident bt =
     oc_bind (prv_get_matcher bt ident b) (\<lambda>found.
       if found then Ret (Some 0)
       else oc_bind (find_block_data bs ident bt) (\<lambda>r. Ret (map_option Suc r)))"

text \<open>The new entry is the head; \<open>False\<close> is the result NULL.\<close>

definition prv_block_insert ::
    "(nat \<Rightarrow> bool) \<Rightarrow> block_list \<Rightarrow> block_data_identifier_t \<Rightarrow> block_type_t \<Rightarrow> block_list \<times> bool" where
  "prv_block_insert mem l ident bt =
     (if \<not> mem 0 then (l, False)
      else (\<lparr>blockType = bt,
             blockIdentifier = (if bt = BLOCK_1
                then (case ident of UriId u \<Rightarrow> UriId (if mem 1 then u else None) | MidId m \<Rightarrow> ident)
                else ident),
             blockBuffer = Uninit, blockBufferSize = 0, blockNum = None, blockMid = None\<rparr> # l, True))"

text \<open>Unlinking the entry at an index: the head, or the successor of \<open>target\<close>.\<close>

fun block_unlink :: "nat \<Rightarrow> block_list \<Rightarrow> block_list" where
  "block_unlink i [] = []"
| "block_unlink 0 (b # bs) = bs"
| "block_unlink (Suc i) (b # bs) = b # block_unlink i bs"

text \<open>Freeing an entry frees its buffer, unless requests are handled raw.\<close>

definition prv_block_data_delete ::
    "bool \<Rightarrow> block_list \<Rightarrow> block_data_identifier_t \<Rightarrow> block_type_t \<Rightarrow> block_list outcome" where
  "prv_block_data_delete raw l ident bt =
     oc_bind (find_block_data l ident bt) (\<lambda>found.
       case found of None \<Rightarrow> Ret l
       | Some i \<Rightarrow> if \<not> raw \<and> blockBuffer (l ! i) = Uninit then UB else Ret (block_unlink i l))"

section \<open>The handlers\<close>

text \<open>Block 0, after the lookup: the entry and its index, or a code.  A failed insertion leaves
  \<open>blockData\<close> NULL, which is dereferenced once the buffer has been allocated.\<close>

definition block_first ::
    "(nat \<Rightarrow> bool) \<Rightarrow> block_list \<Rightarrow> block_data_identifier_t \<Rightarrow> block_type_t \<Rightarrow> nat option \<Rightarrow> bytes
      \<Rightarrow> (block_list \<times> (u8 + nat)) outcome" where
  "block_first mem l ident bt found payload =
     (let store = (\<lambda>l' i. if mem 2
            then Ret (l'[i := (l' ! i)\<lparr>blockBuffer := Buf payload, blockBufferSize := length payload,
                                       blockNum := Some 0\<rparr>], Inr i)
            else Ret (l', Inl COAP_500_INTERNAL_SERVER_ERROR))
      in case found of
           None \<Rightarrow>
             (let (l1, created) = prv_block_insert mem l ident bt in
              if created then store l1 0
              else if mem 2 then UB else Ret (l1, Inl COAP_500_INTERNAL_SERVER_ERROR))
         | Some i \<Rightarrow>
             if blockBuffer (l ! i) = Uninit then UB
             else store (l[i := (l ! i)\<lparr>blockBuffer := Null, blockBufferSize := 0\<rparr>]) i)"

definition block_next ::
    "(nat \<Rightarrow> bool) \<Rightarrow> block_list \<Rightarrow> nat option \<Rightarrow> bytes \<Rightarrow> u16 \<Rightarrow> u32
      \<Rightarrow> (block_list \<times> (u8 + nat)) outcome" where
  "block_next mem l found payload blockSize num =
     (case found of
        None \<Rightarrow> Ret (l, Inl COAP_408_REQ_ENTITY_INCOMPLETE)
      | Some i \<Rightarrow>
          (let b = l ! i in
           case blockNum b of
             None \<Rightarrow> UB
           | Some lastNum \<Rightarrow>
               if num \<le> lastNum then Ret (l, Inl COAP_RETRANSMISSION)
               else if num = lastNum + 1 then
                 (let oldSize = blockBufferSize b; newSize = oldSize + length payload in
                  if oldSize \<noteq> unat blockSize * unat num then Ret (l, Inl COAP_408_REQ_ENTITY_INCOMPLETE)
                  else if \<not> mem 2
                    then Ret (l[i := b\<lparr>blockBufferSize := newSize, blockBuffer := Null\<rparr>],
                              Inl COAP_500_INTERNAL_SERVER_ERROR)
                  else (case blockBuffer b of
                      Buf old \<Rightarrow> Ret (l[i := b\<lparr>blockBufferSize := newSize, blockBuffer := Buf (old @ payload),
                                             blockNum := Some num\<rparr>], Inr i)
                    | Null \<Rightarrow> if oldSize = 0
                        then Ret (l[i := b\<lparr>blockBufferSize := newSize, blockBuffer := Buf payload,
                                           blockNum := Some num\<rparr>], Inr i)
                        else UB
                    | Uninit \<Rightarrow> UB))
               else Ret (l, Inr i)))"

definition prv_coap_block_handler ::
    "(nat \<Rightarrow> bool) \<Rightarrow> block_list \<Rightarrow> block_data_identifier_t \<Rightarrow> block_type_t \<Rightarrow> bytes \<Rightarrow> u16 \<Rightarrow> u32 \<Rightarrow> bool
      \<Rightarrow> (u8 \<times> block_output \<times> block_list) outcome" where
  "prv_coap_block_handler mem l ident bt payload blockSize num isMore =
     oc_bind (find_block_data l ident bt) (\<lambda>found.
       oc_bind (if num = 0 then block_first mem l ident bt found payload
                else block_next mem l found payload blockSize num)
         (\<lambda>(l', r). case r of
            Inl c \<Rightarrow> Ret (c, Unset, l')
          | Inr i \<Rightarrow>
              if isMore then Ret (COAP_231_CONTINUE, LengthMinusOne, l')
              else Ret (NO_ERROR, Output (blockBuffer (l' ! i)) (blockBufferSize (l' ! i)), l')))"

text \<open>The handler of builds with \<open>LWM2M_RAW_BLOCK1_REQUESTS\<close>, which keeps no payload.\<close>

definition prv_coap_raw_block_handler ::
    "(nat \<Rightarrow> bool) \<Rightarrow> block_list \<Rightarrow> block_data_identifier_t \<Rightarrow> u16 \<Rightarrow> block_type_t \<Rightarrow> u32 \<Rightarrow> bool
      \<Rightarrow> (u8 \<times> block_list) outcome" where
  "prv_coap_raw_block_handler mem l ident m bt num isMore =
     (let done = (\<lambda>l' i.
            (let l2 = l'[i := (l' ! i)\<lparr>blockNum := Some num, blockMid := Some m\<rparr>] in
             if isMore then Ret (COAP_231_CONTINUE, l2)
             else oc_bind (prv_block_data_delete True l2 ident bt) (\<lambda>l3. Ret (NO_ERROR, l3))))
      in oc_bind (find_block_data l ident bt) (\<lambda>found.
        if num = 0 then
          (case found of
             None \<Rightarrow> (let (l1, created) = prv_block_insert mem l ident bt in if created then done l1 0 else UB)
           | Some i \<Rightarrow> (case blockMid (l ! i) of None \<Rightarrow> UB
               | Some lastMid \<Rightarrow> if lastMid = m then Ret (COAP_IGNORE, l) else done l i))
        else
          (case found of
             None \<Rightarrow> Ret (COAP_408_REQ_ENTITY_INCOMPLETE, l)
           | Some i \<Rightarrow> (case blockNum (l ! i) of None \<Rightarrow> UB
               | Some lastNum \<Rightarrow> if num \<le> lastNum then Ret (COAP_IGNORE, l) else done l i))))"

definition block1_create :: "(nat \<Rightarrow> bool) \<Rightarrow> block_list \<Rightarrow> bytes option \<Rightarrow> block_list \<times> bool" where
  "block1_create mem l u = prv_block_insert mem l (UriId u) BLOCK_1"

definition block1_delete :: "bool \<Rightarrow> block_list \<Rightarrow> bytes option \<Rightarrow> block_list outcome" where
  "block1_delete raw l u = prv_block_data_delete raw l (UriId u) BLOCK_1"

definition coap_block1_handler ::
    "(nat \<Rightarrow> bool) \<Rightarrow> block_list \<Rightarrow> bytes option \<Rightarrow> bytes \<Rightarrow> u16 \<Rightarrow> u32 \<Rightarrow> bool
      \<Rightarrow> (u8 \<times> block_output \<times> block_list) outcome" where
  "coap_block1_handler mem l u = prv_coap_block_handler mem l (UriId u) BLOCK_1"

definition block2_create :: "(nat \<Rightarrow> bool) \<Rightarrow> block_list \<Rightarrow> u16 \<Rightarrow> block_list \<times> bool" where
  "block2_create mem l m = prv_block_insert mem l (MidId (ucast m)) BLOCK_2"

definition block2_delete :: "bool \<Rightarrow> block_list \<Rightarrow> u16 \<Rightarrow> block_list outcome" where
  "block2_delete raw l m = prv_block_data_delete raw l (MidId (ucast m)) BLOCK_2"

definition coap_block2_set_expected_mid :: "block_list \<Rightarrow> u16 \<Rightarrow> u16 \<Rightarrow> block_list outcome" where
  "coap_block2_set_expected_mid l currentMid expectedMid =
     oc_bind (find_block_data l (MidId (ucast currentMid)) BLOCK_2) (\<lambda>found.
       case found of None \<Rightarrow> Ret l
       | Some i \<Rightarrow> Ret (l[i := (l ! i)\<lparr>blockIdentifier := MidId (ucast expectedMid)\<rparr>]))"

definition coap_block2_handler ::
    "(nat \<Rightarrow> bool) \<Rightarrow> block_list \<Rightarrow> u16 \<Rightarrow> bytes \<Rightarrow> u16 \<Rightarrow> u32 \<Rightarrow> bool
      \<Rightarrow> (u8 \<times> block_output \<times> block_list) outcome" where
  "coap_block2_handler mem l m = prv_coap_block_handler mem l (MidId (ucast m)) BLOCK_2"

end
