(* ===== verification/BlockProps.thy ===== *)
theory BlockProps
  imports Block
begin

text \<open>
  Properties of the block-wise transfers.  The locale \<open>block_receiver\<close> is the contract of a
  handler: block 0 opens a transfer, the next block extends it, an earlier block changes nothing.
  Inside it a payload that is cut into blocks and delivered in order, each block any number of
  times, is put together again; the Block1 and the Block2 handler are instances.
\<close>

section \<open>The contract\<close>

text \<open>The answer to a block that was stored, and the blocks a payload is cut into.\<close>

definition block_reply :: "bool \<Rightarrow> bytes \<Rightarrow> u8 \<times> block_output" where
  "block_reply isMore bs = (if isMore then (COAP_231_CONTINUE, LengthMinusOne)
     else (NO_ERROR, Output (Buf bs) (length bs)))"

definition payload_block :: "nat \<Rightarrow> bytes \<Rightarrow> nat \<Rightarrow> u32 \<times> bool \<times> bytes" where
  "payload_block z payload i =
     (word_of_nat i, length payload - i * z > z, take z (drop (i * z) payload))"

definition block_count :: "nat \<Rightarrow> bytes \<Rightarrow> nat" where
  "block_count z payload = (if payload = [] then 1 else (length payload + z - 1) div z)"

text \<open>Block \<open>i\<close> is delivered \<open>r i + 1\<close> times.\<close>

definition schedule :: "(nat \<Rightarrow> nat) \<Rightarrow> nat \<Rightarrow> bytes \<Rightarrow> nat \<Rightarrow> (u32 \<times> bool \<times> bytes) list" where
  "schedule r z payload k = concat (map (\<lambda>i. replicate (Suc (r i)) (payload_block z payload i)) [0..<k])"

fun deliver ::
    "('s \<Rightarrow> 'k \<Rightarrow> bytes \<Rightarrow> u16 \<Rightarrow> u32 \<Rightarrow> bool \<Rightarrow> (u8 \<times> block_output \<times> 's) outcome) \<Rightarrow> 's \<Rightarrow> 'k \<Rightarrow> u16
      \<Rightarrow> (u32 \<times> bool \<times> bytes) list \<Rightarrow> ((u8 \<times> block_output) list \<times> 's) outcome" where
  "deliver step s k z [] = Ret ([], s)"
| "deliver step s k z ((num, isMore, p) # bs) =
     oc_bind (step s k p z num isMore) (\<lambda>(c, out, s').
       oc_bind (deliver step s' k z bs) (\<lambda>(rs, s''). Ret ((c, out) # rs, s'')))"

lemma code_distinct: "COAP_231_CONTINUE \<noteq> NO_ERROR" "NO_ERROR \<noteq> COAP_231_CONTINUE"
    "COAP_RETRANSMISSION \<noteq> NO_ERROR" "NO_ERROR \<noteq> COAP_RETRANSMISSION"
  by simp_all

lemma deliver_append:
  "deliver step s k z xs = Ret (rs, s') \<Longrightarrow> deliver step s' k z ys = Ret (rs', s'') \<Longrightarrow>
     deliver step s k z (xs @ ys) = Ret (rs @ rs', s'')"
  by (induction step s k z xs arbitrary: rs rule: deliver.induct) (auto simp: oc_bind_eq_Ret)

lemma schedule_Suc:
  "schedule r z payload (Suc k) = schedule r z payload k @ replicate (Suc (r k)) (payload_block z payload k)"
  by (simp add: schedule_def)

locale block_receiver =
  fixes step :: "'s \<Rightarrow> 'k \<Rightarrow> bytes \<Rightarrow> u16 \<Rightarrow> u32 \<Rightarrow> bool \<Rightarrow> (u8 \<times> block_output \<times> 's) outcome"
    and slot :: "'s \<Rightarrow> 'k \<Rightarrow> (bytes \<times> u32) option"
    and invar :: "'s \<Rightarrow> bool"
  assumes first: "invar s \<Longrightarrow> \<exists>s'. step s k p z 0 isMore
      = Ret (fst (block_reply isMore p), snd (block_reply isMore p), s')
      \<and> invar s' \<and> slot s' = (slot s)(k \<mapsto> (p, 0))"
    and continue: "invar s \<Longrightarrow> slot s k = Some (bs, n) \<Longrightarrow> length bs = unat z * unat (n + 1) \<Longrightarrow> n < n + 1 \<Longrightarrow>
      \<exists>s'. step s k p z (n + 1) isMore
        = Ret (fst (block_reply isMore (bs @ p)), snd (block_reply isMore (bs @ p)), s')
      \<and> invar s' \<and> slot s' = (slot s)(k \<mapsto> (bs @ p, n + 1))"
    and again: "invar s \<Longrightarrow> slot s k = Some (bs, n) \<Longrightarrow> m \<noteq> 0 \<Longrightarrow> m \<le> n \<Longrightarrow>
      step s k p z m isMore = Ret (COAP_RETRANSMISSION, Unset, s)"
    and unknown: "invar s \<Longrightarrow> slot s k = None \<Longrightarrow> m \<noteq> 0 \<Longrightarrow>
      step s k p z m isMore = Ret (COAP_408_REQ_ENTITY_INCOMPLETE, Unset, s)"
begin

lemma repeat_first:
  assumes "invar s"
  shows "\<exists>s'. deliver step s k z (replicate (Suc m) (0, isMore, p)) = Ret (replicate (Suc m) (block_reply isMore p), s')
    \<and> invar s' \<and> slot s' = (slot s)(k \<mapsto> (p, 0))"
  using assms
proof (induction m arbitrary: s)
  case 0
  then show ?case using first [of s k p z isMore] by force
next
  case (Suc m)
  obtain s1 where s1: "step s k p z 0 isMore = Ret (fst (block_reply isMore p), snd (block_reply isMore p), s1)"
    "invar s1" "slot s1 = (slot s)(k \<mapsto> (p, 0))"
    using first [OF Suc.prems, of k p z isMore] by blast
  obtain s2 where s2: "deliver step s1 k z (replicate (Suc m) (0, isMore, p)) = Ret (replicate (Suc m) (block_reply isMore p), s2)"
    "invar s2" "slot s2 = (slot s1)(k \<mapsto> (p, 0))"
    using Suc.IH [OF s1(2)] by blast
  have "deliver step s k z (replicate (Suc (Suc m)) (0, isMore, p))
      = Ret (replicate (Suc (Suc m)) (block_reply isMore p), s2)"
    unfolding replicate_Suc [of "Suc m"] using s1(1) s2(1) by (simp del: replicate_Suc)
  with s1(3) s2(2,3) show ?case by auto
qed

lemma repeat_stored:
  assumes "invar s" "slot s k = Some (bs, n)" "m \<noteq> 0" "m \<le> n"
  shows "deliver step s k z (replicate j (m, isMore, p)) = Ret (replicate j (COAP_RETRANSMISSION, Unset), s)"
  using again [OF assms] by (induction j) auto

lemma block_step:
  assumes "invar s" "slot s k = Some (bs, n)" "length bs = unat z * unat (n + 1)" "n < n + 1"
  shows "\<exists>s'. deliver step s k z (replicate (Suc j) (n + 1, isMore, p))
      = Ret (block_reply isMore (bs @ p) # replicate j (COAP_RETRANSMISSION, Unset), s')
    \<and> invar s' \<and> slot s' = (slot s)(k \<mapsto> (bs @ p, n + 1))"
proof -
  obtain s1 where s1: "step s k p z (n + 1) isMore
      = Ret (fst (block_reply isMore (bs @ p)), snd (block_reply isMore (bs @ p)), s1)"
    "invar s1" "slot s1 = (slot s)(k \<mapsto> (bs @ p, n + 1))"
    using continue [OF assms, of p isMore] by blast
  have "n + 1 \<noteq> 0" using assms(4) by auto
  with s1(3) have "deliver step s1 k z (replicate j (n + 1, isMore, p)) = Ret (replicate j (COAP_RETRANSMISSION, Unset), s1)"
    by (intro repeat_stored [OF s1(2), where bs = "bs @ p" and n = "n + 1"]) auto
  with s1 show ?thesis by auto
qed

lemma transfer:
  assumes "invar s" "0 < unat z" "i = 0 \<or> i * unat z < length payload" "i < 4294967296"
  shows "\<exists>rs s'. deliver step s k z (schedule r (unat z) payload (Suc i)) = Ret (rs, s') \<and> invar s'
    \<and> slot s' = (slot s)(k \<mapsto> (take (Suc i * unat z) payload, word_of_nat i))
    \<and> (\<forall>c out. (c, out) \<in> set rs \<longrightarrow> c = NO_ERROR \<longrightarrow> out = Output (Buf payload) (length payload))
    \<and> (length payload \<le> Suc i * unat z \<longrightarrow> (NO_ERROR, Output (Buf payload) (length payload)) \<in> set rs)"
  using assms(3,4)
proof (induction i)
  case 0
  obtain s1 where "deliver step s k z (schedule r (unat z) payload (Suc 0))
      = Ret (replicate (Suc (r 0)) (block_reply (unat z < length payload) (take (unat z) payload)), s1)"
    "invar s1" "slot s1 = (slot s)(k \<mapsto> (take (unat z) payload, 0))"
    using repeat_first [OF assms(1), of k z "r 0" "unat z < length payload" "take (unat z) payload"]
    by (auto simp: schedule_def payload_block_def)
  then show ?case by (auto simp: block_reply_def)
next
  case (Suc i)
  have "i * unat z < length payload" "i < 4294967296" using Suc.prems by simp_all
  with Suc.IH obtain rs s1 where IH: "deliver step s k z (schedule r (unat z) payload (Suc i)) = Ret (rs, s1)"
      "invar s1" "slot s1 = (slot s)(k \<mapsto> (take (Suc i * unat z) payload, word_of_nat i))"
      "\<forall>c out. (c, out) \<in> set rs \<longrightarrow> c = NO_ERROR \<longrightarrow> out = Output (Buf payload) (length payload)"
    by blast
  let ?pre = "take (Suc i * unat z) payload"
  have num: "unat (word_of_nat i + 1 :: u32) = Suc i" "(word_of_nat i :: u32) < word_of_nat i + 1"
    using Suc.prems(2) by (simp_all add: unat_word_ariths unat_of_nat word_less_nat_alt)
  have more: "unat z < length payload - Suc i * unat z \<longleftrightarrow> \<not> length payload \<le> Suc (Suc i) * unat z"
    using Suc.prems(1) by auto
  have pre: "?pre @ take (unat z) (drop (Suc i * unat z) payload) = take (Suc (Suc i) * unat z) payload"
    by (simp add: take_add [symmetric] add.commute)
  have "length ?pre = unat z * unat (word_of_nat i + 1 :: u32)" using Suc.prems(1) num by simp
  then obtain s2 where s2: "deliver step s1 k z (replicate (Suc (r (Suc i))) (payload_block (unat z) payload (Suc i)))
      = Ret (block_reply (\<not> length payload \<le> Suc (Suc i) * unat z) (take (Suc (Suc i) * unat z) payload)
             # replicate (r (Suc i)) (COAP_RETRANSMISSION, Unset), s2)"
    "invar s2" "slot s2 = (slot s1)(k \<mapsto> (take (Suc (Suc i) * unat z) payload, word_of_nat i + 1))"
    using block_step [OF IH(2), of k ?pre "word_of_nat i" z "r (Suc i)"
        "\<not> length payload \<le> Suc (Suc i) * unat z" "take (unat z) (drop (Suc i * unat z) payload)"]
      num(2) IH(3) pre more by (auto simp: payload_block_def add.commute simp del: replicate_Suc)
  show ?case
    unfolding schedule_Suc [of r _ _ "Suc i"] deliver_append [OF IH(1) s2(1)]
    using IH(3,4) s2(2,3) code_distinct by (auto simp: block_reply_def add.commute)
qed

end

section \<open>The handlers meet it\<close>

definition key_ok :: "block_type_t \<Rightarrow> block_data_identifier_t \<Rightarrow> bool" where
  "key_ok bt ident \<longleftrightarrow> (if bt = BLOCK_1 then (\<exists>u. ident = UriId (Some u)) else (\<exists>m. ident = MidId m))"

definition entry_ok :: "block_type_t \<Rightarrow> lwm2m_block_data_t \<Rightarrow> bool" where
  "entry_ok bt b \<longleftrightarrow> (if bt = BLOCK_1 then (\<exists>u. blockIdentifier b = UriId u) else (\<exists>m. blockIdentifier b = MidId m))
     \<and> (\<exists>bs n. blockBuffer b = Buf bs \<and> blockBufferSize b = length bs \<and> blockNum b = Some n)"

definition blocks_ok :: "block_type_t \<Rightarrow> block_list \<Rightarrow> bool" where
  "blocks_ok bt l \<longleftrightarrow> (\<forall>b\<in>set l. entry_ok bt b)"

definition entry :: "block_list \<Rightarrow> block_data_identifier_t \<Rightarrow> lwm2m_block_data_t option" where
  "entry l ident = find (\<lambda>b. blockIdentifier b = ident) l"

fun received :: "lwm2m_block_data_t \<Rightarrow> bytes \<times> u32" where
  "received b = (case (blockBuffer b, blockNum b) of (Buf bs, Some n) \<Rightarrow> (bs, n) | _ \<Rightarrow> ([], 0))"

definition slot_of :: "block_list \<Rightarrow> block_data_identifier_t \<Rightarrow> (bytes \<times> u32) option" where
  "slot_of l ident = map_option received (entry l ident)"

lemma matcher_eq: "key_ok bt ident \<Longrightarrow> entry_ok bt b \<Longrightarrow> prv_get_matcher bt ident b = Ret (blockIdentifier b = ident)"
  by (cases bt) (auto simp: key_ok_def entry_ok_def prv_get_matcher_def split: block_data_identifier_t.splits)

lemma find_entry:
  assumes "key_ok bt ident" "blocks_ok bt l"
  shows "entry l ident = None \<and> find_block_data l ident bt = Ret None
    \<or> (\<exists>i. find_block_data l ident bt = Ret (Some i) \<and> i < length l \<and> entry l ident = Some (l ! i)
         \<and> blockIdentifier (l ! i) = ident
         \<and> (\<forall>b k. blockIdentifier b = ident \<longrightarrow> entry (l[i := b]) k = (if k = ident then Some b else entry l k)))"
  using assms(2)
proof (induction l)
  case Nil
  show ?case by (simp add: entry_def)
next
  case (Cons a l)
  have a: "prv_get_matcher bt ident a = Ret (blockIdentifier a = ident)"
    using matcher_eq [OF assms(1)] Cons.prems by (simp add: blocks_ok_def)
  show ?case
  proof (cases "blockIdentifier a = ident")
    case True
    with a show ?thesis by (auto simp: entry_def)
  next
    case False
    have rest: "entry (a # l') k = (if blockIdentifier a = k then Some a else entry l' k)" for l' k
      by (simp add: entry_def)
    have "blocks_ok bt l" using Cons.prems by (simp add: blocks_ok_def)
    from Cons.IH [OF this] show ?thesis
    proof (elim disjE exE conjE)
      fix i
      assume "find_block_data l ident bt = Ret (Some i)" "i < length l" "entry l ident = Some (l ! i)"
        "blockIdentifier (l ! i) = ident"
        "\<forall>b k. blockIdentifier b = ident \<longrightarrow> entry (l[i := b]) k = (if k = ident then Some b else entry l k)"
      with a False show ?thesis by (intro disjI2 exI [of _ "Suc i"]) (auto simp: rest)
    qed (use a False in \<open>simp add: rest\<close>)
  qed
qed

lemma blocks_ok_update: "blocks_ok bt l \<Longrightarrow> entry_ok bt b \<Longrightarrow> blocks_ok bt (l[i := b])"
  unfolding blocks_ok_def using set_update_subset_insert [of l i b] by blast

text \<open>With every allocation successful, block 0 stores its payload under the identifier.\<close>

lemma handler_first:
  assumes key: "key_ok bt ident" and ok: "blocks_ok bt l"
  shows "\<exists>l'. prv_coap_block_handler (\<lambda>_. True) l ident bt p z 0 isMore
      = Ret (fst (block_reply isMore p), snd (block_reply isMore p), l')
    \<and> blocks_ok bt l' \<and> slot_of l' = (slot_of l)(ident \<mapsto> (p, 0))"
  using find_entry [OF key ok]
proof (elim disjE exE conjE)
  assume "entry l ident = None" and find: "find_block_data l ident bt = Ret None"
  let ?b = "\<lparr>blockType = bt, blockIdentifier = ident, blockBuffer = Buf p, blockBufferSize = length p,
      blockNum = Some 0, blockMid = None\<rparr>"
  have "prv_coap_block_handler (\<lambda>_. True) l ident bt p z 0 isMore
      = Ret (fst (block_reply isMore p), snd (block_reply isMore p), ?b # l)"
    using find key
    by (auto simp: prv_coap_block_handler_def block_first_def prv_block_insert_def block_reply_def key_ok_def Let_def)
  moreover have "entry_ok bt ?b" using key by (auto simp: key_ok_def entry_ok_def)
  moreover have "slot_of (?b # l) = (slot_of l)(ident \<mapsto> (p, 0))"
    by (auto simp: slot_of_def entry_def fun_eq_iff)
  ultimately show ?thesis using ok by (auto simp: blocks_ok_def)
next
  fix i
  assume find: "find_block_data l ident bt = Ret (Some i)" and i: "i < length l"
    and id: "blockIdentifier (l ! i) = ident"
    and upd: "\<forall>b k. blockIdentifier b = ident \<longrightarrow> entry (l[i := b]) k = (if k = ident then Some b else entry l k)"
  let ?b = "(l ! i)\<lparr>blockBuffer := Buf p, blockBufferSize := length p, blockNum := Some 0\<rparr>"
  have e: "entry_ok bt (l ! i)" using ok i by (simp add: blocks_ok_def)
  then have "prv_coap_block_handler (\<lambda>_. True) l ident bt p z 0 isMore
      = Ret (fst (block_reply isMore p), snd (block_reply isMore p), l[i := ?b])"
    using find i
    by (auto simp: prv_coap_block_handler_def block_first_def block_reply_def entry_ok_def Let_def)
  moreover have "blocks_ok bt (l[i := ?b])"
    using e by (intro blocks_ok_update [OF ok]) (auto simp: entry_ok_def)
  moreover have "slot_of (l[i := ?b]) = (slot_of l)(ident \<mapsto> (p, 0))"
    using upd id by (auto simp: slot_of_def fun_eq_iff)
  ultimately show ?thesis by auto
qed

lemma slot_found:
  assumes "key_ok bt ident" "blocks_ok bt l" "slot_of l ident = Some (bs, n)"
  obtains i where "find_block_data l ident bt = Ret (Some i)" "i < length l" "blockIdentifier (l ! i) = ident"
    "blockBuffer (l ! i) = Buf bs" "blockBufferSize (l ! i) = length bs" "blockNum (l ! i) = Some n"
    "\<And>b k. blockIdentifier b = ident \<Longrightarrow> entry (l[i := b]) k = (if k = ident then Some b else entry l k)"
proof -
  obtain i where i: "find_block_data l ident bt = Ret (Some i)" "i < length l" "blockIdentifier (l ! i) = ident"
    "entry l ident = Some (l ! i)"
    "\<And>b k. blockIdentifier b = ident \<Longrightarrow> entry (l[i := b]) k = (if k = ident then Some b else entry l k)"
    using find_entry [OF assms(1,2)] assms(3) by (auto simp: slot_of_def)
  have "entry_ok bt (l ! i)" using assms(2) i(2) by (simp add: blocks_ok_def)
  then show thesis using that [OF i(1-3)] i assms(3) by (auto simp: entry_ok_def slot_of_def)
qed

lemma handler_continue:
  assumes key: "key_ok bt ident" and ok: "blocks_ok bt l" and slot: "slot_of l ident = Some (bs, n)"
    and size: "length bs = unat z * unat (n + 1)" and num: "n < n + 1"
  shows "\<exists>l'. prv_coap_block_handler (\<lambda>_. True) l ident bt p z (n + 1) isMore
      = Ret (fst (block_reply isMore (bs @ p)), snd (block_reply isMore (bs @ p)), l')
    \<and> blocks_ok bt l' \<and> slot_of l' = (slot_of l)(ident \<mapsto> (bs @ p, n + 1))"
proof -
  obtain i where i: "find_block_data l ident bt = Ret (Some i)" "i < length l" "blockIdentifier (l ! i) = ident"
    "blockBuffer (l ! i) = Buf bs" "blockBufferSize (l ! i) = length bs" "blockNum (l ! i) = Some n"
    "\<And>b k. blockIdentifier b = ident \<Longrightarrow> entry (l[i := b]) k = (if k = ident then Some b else entry l k)"
    by (rule slot_found [OF key ok slot]) blast
  let ?b = "(l ! i)\<lparr>blockBufferSize := length (bs @ p), blockBuffer := Buf (bs @ p), blockNum := Some (n + 1)\<rparr>"
  have n: "n + 1 \<noteq> 0" "\<not> n + 1 \<le> n" using num by auto
  then have "prv_coap_block_handler (\<lambda>_. True) l ident bt p z (n + 1) isMore
      = Ret (fst (block_reply isMore (bs @ p)), snd (block_reply isMore (bs @ p)), l[i := ?b])"
    using i size by (auto simp: prv_coap_block_handler_def block_next_def block_reply_def Let_def)
  moreover have "entry_ok bt (l ! i)" using ok i(2) by (simp add: blocks_ok_def)
  then have "blocks_ok bt (l[i := ?b])" by (intro blocks_ok_update [OF ok]) (auto simp: entry_ok_def)
  moreover have "slot_of (l[i := ?b]) = (slot_of l)(ident \<mapsto> (bs @ p, n + 1))"
    using i(3,7) by (auto simp: slot_of_def fun_eq_iff)
  ultimately show ?thesis by auto
qed

lemma handler_again:
  assumes "key_ok bt ident" "blocks_ok bt l" "slot_of l ident = Some (bs, n)" "m \<noteq> 0" "m \<le> n"
  shows "prv_coap_block_handler mem l ident bt p z m isMore = Ret (COAP_RETRANSMISSION, Unset, l)"
proof -
  obtain i where "find_block_data l ident bt = Ret (Some i)" "blockNum (l ! i) = Some n"
    by (rule slot_found [OF assms(1-3)]) blast
  with assms(4,5) show ?thesis by (simp add: prv_coap_block_handler_def block_next_def Let_def)
qed

lemma handler_unknown:
  assumes "key_ok bt ident" "blocks_ok bt l" "slot_of l ident = None" "m \<noteq> 0"
  shows "prv_coap_block_handler mem l ident bt p z m isMore = Ret (COAP_408_REQ_ENTITY_INCOMPLETE, Unset, l)"
  using find_entry [OF assms(1,2)] assms(3,4)
  by (auto simp: slot_of_def prv_coap_block_handler_def block_next_def)

lemma ucast_u16_u32_inj: "(ucast (a :: u16) :: u32) = ucast b \<longleftrightarrow> a = b"
  by (metis unat_ucast_widths(4) word_unat_eq_iff)

lemma slot_of_upd_uri:
  "slot_of l' = (slot_of l)(UriId (Some u) \<mapsto> v) \<Longrightarrow>
     (\<lambda>u'. slot_of l' (UriId (Some u'))) = (\<lambda>u'. slot_of l (UriId (Some u')))(u \<mapsto> v)"
  by (auto simp: fun_eq_iff)

lemma slot_of_upd_mid:
  "slot_of l' = (slot_of l)(MidId (ucast m) \<mapsto> v) \<Longrightarrow>
     (\<lambda>m' :: u16. slot_of l' (MidId (ucast m'))) = (\<lambda>m'. slot_of l (MidId (ucast m')))(m \<mapsto> v)"
  by (auto simp: fun_eq_iff ucast_u16_u32_inj)

lemma key_ok_simps [simp]: "key_ok BLOCK_1 (UriId (Some u))" "key_ok BLOCK_2 (MidId m)"
  by (simp_all add: key_ok_def)

interpretation block1: block_receiver
  "\<lambda>l u. coap_block1_handler (\<lambda>_. True) l (Some u)" "\<lambda>l u. slot_of l (UriId (Some u))" "blocks_ok BLOCK_1"
proof (unfold_locales, unfold coap_block1_handler_def, goal_cases)
  case (1 l u p z isMore)
  from handler_first [OF key_ok_simps(1) 1, of u p z isMore] show ?case
    using slot_of_upd_uri by blast
next
  case (2 l u bs n z p isMore)
  from handler_continue [OF key_ok_simps(1) 2, of p isMore] show ?case
    using slot_of_upd_uri by blast
next
  case 3
  then show ?case by (intro handler_again) simp_all
next
  case 4
  then show ?case by (intro handler_unknown) simp_all
qed

interpretation block2: block_receiver
  "coap_block2_handler (\<lambda>_. True)" "\<lambda>l m. slot_of l (MidId (ucast m))" "blocks_ok BLOCK_2"
proof (unfold_locales, unfold coap_block2_handler_def, goal_cases)
  case (1 l m p z isMore)
  from handler_first [OF key_ok_simps(2) 1, of "ucast m" p z isMore] show ?case
    using slot_of_upd_mid by blast
next
  case (2 l m bs n z p isMore)
  from handler_continue [OF key_ok_simps(2) 2, of p isMore] show ?case
    using slot_of_upd_mid by blast
next
  case 3
  then show ?case by (intro handler_again) simp_all
next
  case 4
  then show ?case by (intro handler_unknown) simp_all
qed

section \<open>Transfers\<close>

lemma block_count_bounds:
  assumes "0 < z"
  obtains i where "block_count z payload = Suc i" "i = 0 \<or> i * z < length payload" "length payload \<le> Suc i * z"
proof (cases "payload = []")
  case True
  with that [of 0] show thesis by (simp add: block_count_def)
next
  case False
  let ?n = "length payload"
  have n: "0 < ?n" using False by simp
  define i where "i = (?n - 1) div z"
  have "?n + z - 1 = ?n - 1 + z" using n by linarith
  then have "block_count z payload = (?n - 1 + z) div z" using False by (simp only: block_count_def if_False)
  also have "\<dots> = Suc i" using assms by (simp add: i_def div_add_self2 del: One_nat_def)
  finally have "block_count z payload = Suc i" .
  moreover have "i * z \<le> ?n - 1" by (simp add: i_def)
  moreover have "?n - 1 < Suc i * z"
    unfolding i_def using dividend_less_div_times [OF assms, of "?n - 1"] by (simp add: add.commute)
  ultimately show thesis using that [of i] n by linarith
qed

text \<open>C2: a payload cut into blocks of the negotiated size and delivered to the Block1 handler in
  order, each block once or any number of times, is handed out exactly once complete: every
  answer without an error carries the whole payload, and the transfers of other URIs are not
  touched.\<close>

theorem block1_transfer:
  assumes "blocks_ok BLOCK_1 l" "0 < unat z" "block_count (unat z) payload \<le> 4294967296"
  shows "\<exists>rs l'. deliver (\<lambda>l u. coap_block1_handler (\<lambda>_. True) l (Some u)) l u z
        (schedule r (unat z) payload (block_count (unat z) payload)) = Ret (rs, l')
    \<and> {out. (NO_ERROR, out) \<in> set rs} = {Output (Buf payload) (length payload)}
    \<and> blocks_ok BLOCK_1 l'
    \<and> (\<lambda>v. slot_of l' (UriId (Some v))) = (\<lambda>v. slot_of l (UriId (Some v)))
         (u \<mapsto> (payload, word_of_nat (block_count (unat z) payload - 1)))"
proof -
  obtain i where i: "block_count (unat z) payload = Suc i" "i = 0 \<or> i * unat z < length payload"
    "length payload \<le> Suc i * unat z"
    by (rule block_count_bounds [OF assms(2)])
  have "i < 4294967296" using assms(3) i(1) by simp
  from block1.transfer [OF assms(1,2) i(2) this, of u r] i show ?thesis by auto
qed

theorem block1_transfer_witness:
  "\<exists>rs l'. deliver (\<lambda>l u. coap_block1_handler (\<lambda>_. True) l (Some u)) [] [0x61] 16
        (schedule (\<lambda>_. 1) 16 (replicate 20 7) 2) = Ret (rs, l')
    \<and> {out. (NO_ERROR, out) \<in> set rs} = {Output (Buf (replicate 20 7)) 20}
    \<and> blocks_ok BLOCK_1 l'
    \<and> (\<lambda>v. slot_of l' (UriId (Some v))) = (\<lambda>v. slot_of [] (UriId (Some v)))([0x61] \<mapsto> (replicate 20 7, 1))"
  using block1_transfer [of "[]" 16 "replicate 20 7" "[0x61]" "\<lambda>_. 1"]
  by (simp add: blocks_ok_def block_count_def)

text \<open>after a gap (a block number more than one above the last one) the final block is
  answered without an error, with a payload from which the missing blocks and the final block
  itself are absent.\<close>

theorem block1_gap_accepted:
  assumes "blocks_ok BLOCK_1 l" "slot_of l (UriId (Some u)) = Some (bs, n)" "n < m" "m \<noteq> n + 1"
  shows "coap_block1_handler mem l (Some u) p z m False = Ret (NO_ERROR, Output (Buf bs) (length bs), l)"
proof -
  obtain i where "find_block_data l (UriId (Some u)) BLOCK_1 = Ret (Some i)" "blockNum (l ! i) = Some n"
    "blockBuffer (l ! i) = Buf bs" "blockBufferSize (l ! i) = length bs"
    by (rule slot_found [OF key_ok_simps(1) assms(1,2)]) blast
  moreover have "m \<noteq> 0" "\<not> m \<le> n" using assms(3) by auto
  ultimately show ?thesis using assms(4)
    by (simp add: coap_block1_handler_def prv_coap_block_handler_def block_next_def Let_def)
qed

definition open_transfer :: block_list where
  "open_transfer = [\<lparr>blockType = BLOCK_1, blockIdentifier = UriId (Some [0x61]), blockBuffer = Buf (replicate 16 7),
     blockBufferSize = 16, blockNum = Some 0, blockMid = None\<rparr>]"

theorem block1_gap_accepted_witness:
  "coap_block1_handler (\<lambda>_. True) open_transfer (Some [0x61]) [1] 16 5 False
    = Ret (NO_ERROR, Output (Buf (replicate 16 7)) 16, open_transfer)"
  using block1_gap_accepted [of open_transfer "[0x61]" "replicate 16 7" 0 5]
  by (simp add: open_transfer_def blocks_ok_def entry_ok_def slot_of_def entry_def)

text \<open>When the entry cannot be allocated but the buffer can, the handler writes through NULL.\<close>

lemma block1_insert_failure:
  "\<not> mem 0 \<Longrightarrow> mem 2 \<Longrightarrow> coap_block1_handler mem [] (Some u) p z 0 isMore = UB"
  by (simp add: coap_block1_handler_def prv_coap_block_handler_def block_first_def prv_block_insert_def Let_def)

text \<open>An entry whose buffer could not be allocated keeps uninitialized fields: the next block of the
  transfer reads them.\<close>

lemma block1_buffer_failure:
  assumes "mem 0" "mem 1" "\<not> mem 2" "m \<noteq> 0"
  shows "oc_bind (coap_block1_handler mem [] (Some u) p z 0 True) (\<lambda>(c, out, l).
      coap_block1_handler mem' l (Some u) p z m isMore) = UB"
  using assms by (simp add: coap_block1_handler_def prv_coap_block_handler_def block_first_def block_next_def
      prv_block_insert_def prv_get_matcher_def Let_def)

end
