(* ===== verification/Packet.thy ===== *)
theory Packet
  imports Transaction Block
begin

text \<open>
  The message exchanges of \<open>core/packet.c\<close>: the block size setting, sending a message, and the
  block-wise requests that continue an exchange (Block1 uploads, Block2 downloads, the switch to
  smaller blocks after a 4.13).  A peer is a server of the client's lists or a client of the
  server's list: its session and the payloads partly received from it.  The outcome \<open>UB\<close> also
  stands for the division by zero and the NULL dereference in these functions, and for a header
  pointer to an array whose block has ended, which every caller serializes.
\<close>

section \<open>Block size\<close>

definition validate_block_size :: "u16 \<Rightarrow> bool" where
  "validate_block_size n \<longleftrightarrow> list_ex (\<lambda>v. n = v) [16, 32, 64, 128, 256, 512, 1024]"

text \<open>The second component is the variable \<open>coap_block_size\<close>.\<close>

definition lwm2m_set_coap_block_size :: "u16 \<Rightarrow> u16 \<Rightarrow> bool \<times> u16" where
  "lwm2m_set_coap_block_size n current = (if validate_block_size n then (True, n) else (False, current))"

section \<open>State\<close>

text \<open>What a build and its platform provide: the build mode, session comparison, response timeout,
  clock, block size, the uninitialized bytes of a generated token, the result of
  \<open>lwm2m_buffer_send\<close>.\<close>

record 'p packet_env =
  serverMode :: bool
  same :: "'p \<Rightarrow> 'p \<Rightarrow> bool"
  respTimeout :: int
  gettime :: int
  coap_block_size :: u16
  stackJunk :: bytes
  sendResult :: u8

text \<open>The allocations that succeed: of a parsed message, of a new transaction, of its payload, of the
  buffer to send, and of a block-wise transfer.\<close>

record packet_mem =
  parseMem :: "nat \<Rightarrow> bool"
  newMem :: "nat \<Rightarrow> bool"
  payloadMem :: bool
  bufferMem :: bool
  blockMem :: "nat \<Rightarrow> bool"

record ('p, 'c, 'u) packet_ctx =
  nextMID :: u16
  transactionList :: "('p, 'c, 'u) tlist"
  peerList :: "('p \<times> block_list) list"

text \<open>\<open>utils_findServer\<close>, \<open>utils_findBootstrapServer\<close> and \<open>utils_findClient\<close>: the first peer with the
  session, as its index.\<close>

fun utils_findServer :: "('p \<Rightarrow> 'p \<Rightarrow> bool) \<Rightarrow> 'p \<Rightarrow> ('p \<times> 'b) list \<Rightarrow> nat option" where
  "utils_findServer sameS fromSessionH [] = None"
| "utils_findServer sameS fromSessionH ((s, b) # ps) =
     (if sameS s fromSessionH then Some 0 else map_option Suc (utils_findServer sameS fromSessionH ps))"

section \<open>Sending\<close>

text \<open>\<open>message_send\<close>: the result, the message with its header lists freed, the datagram.\<close>

definition message_send ::
    "'p packet_env \<Rightarrow> bool \<Rightarrow> coap_packet_t \<Rightarrow> 'p \<Rightarrow> (u8 \<times> coap_packet_t \<times> ('p, 'c) event list) outcome" where
  "message_send env allocated m sessionH =
     (let allocLen = coap_serialize_get_size m in
      if allocLen = 0 then Ret (COAP_500_INTERNAL_SERVER_ERROR, m, [])
      else if \<not> allocated then Ret (COAP_500_INTERNAL_SERVER_ERROR, m, [])
      else let (bs, m') = coap_serialize_message m in
        if length bs > allocLen then UB
        else if length bs \<noteq> 0 then Ret (sendResult env, m', [Sent sessionH bs])
        else Ret (COAP_500_INTERNAL_SERVER_ERROR, m', []))"

text \<open>\<open>transaction_send\<close> on a transaction of the list.\<close>

definition send_on_list ::
    "'p packet_env \<Rightarrow> bool \<Rightarrow> ('p, 'c, 'u) packet_ctx \<Rightarrow> ('p, 'c, 'u) lwm2m_transaction_t
      \<Rightarrow> (int \<times> ('p, 'c, 'u) packet_ctx \<times> ('p, 'c) event list) outcome" where
  "send_on_list env allocated ctx t =
     oc_bind (transaction_send (respTimeout env) (gettime env) allocated t) (\<lambda>(r, kept, es).
       Ret (r, ctx\<lparr>transactionList := (case kept of None \<Rightarrow> transaction_remove (transactionList ctx) t
                    | Some t' \<Rightarrow> update_node t' (transactionList ctx))\<rparr>, es))"

section \<open>The next request of a block-wise exchange\<close>

text \<open>A setter under an \<open>if\<close> without \<open>else\<close>.\<close>

definition when_set :: "bool \<Rightarrow> (coap_packet_t \<Rightarrow> coap_packet_t) \<Rightarrow> coap_packet_t \<Rightarrow> coap_packet_t" where
  "when_set b f p = (if b then f p else p)"

text \<open>The header fields that are copied to the clone, in the order of the code.\<close>

definition clone_header :: "coap_packet_t \<Rightarrow> coap_packet_t \<Rightarrow> coap_packet_t outcome" where
  "clone_header m c0 =
     (let c1 = coap_set_header_content_type c0 (ucast (type_code (msg_type m))) in
      if proxy_uri m \<noteq> None \<or> uri_host m \<noteq> None \<or> location_query m \<noteq> None then UB
      else
        let c2 = when_set (IS_OPTION m OPT_ETAG) (\<lambda>c. coap_set_header_etag c (etag m)) c1;
            c3 = when_set (IS_OPTION m OPT_URI_PORT) (\<lambda>c. coap_set_header_uri_port c (uri_port m)) c2;
            c4 = when_set (IS_OPTION m OPT_LOCATION_PATH)
                   (\<lambda>c. SET_OPTION (c\<lparr>location_path := location_path m\<rparr>) OPT_LOCATION_PATH) c3;
            c5 = when_set (IS_OPTION m OPT_CONTENT_TYPE)
                   (\<lambda>c. SET_OPTION (c\<lparr>content_type := content_type m\<rparr>) OPT_CONTENT_TYPE) c4;
            c6 = when_set (IS_OPTION m OPT_URI_PATH)
                   (\<lambda>c. SET_OPTION (c\<lparr>uri_path := uri_path m\<rparr>) OPT_URI_PATH) c5;
            c7 = when_set (IS_OPTION m OPT_OBSERVE) (\<lambda>c. coap_set_header_observe c (observe m)) c6;
            c8 = foldl coap_set_header_accept c7 (accept m);
            c9 = when_set (IS_OPTION m OPT_IF_MATCH) (\<lambda>c. coap_set_header_if_match c (if_match m)) c8;
            c10 = when_set (IS_OPTION m OPT_URI_QUERY)
                    (\<lambda>c. SET_OPTION (c\<lparr>uri_query := uri_query m\<rparr>) OPT_URI_QUERY) c9
        in Ret (when_set (IS_OPTION m OPT_IF_NONE_MATCH) coap_set_header_if_none_match c10))"

definition prv_create_next_block_transaction ::
    "'p packet_env \<Rightarrow> packet_mem \<Rightarrow> ('p, 'c, 'u) lwm2m_transaction_t \<Rightarrow> u16
      \<Rightarrow> ('p, 'c, 'u) lwm2m_transaction_t option outcome" where
  "prv_create_next_block_transaction env mem t newMid =
     (let (status, m) = coap_parse_message (serverMode env) (parseMem mem) (ptr_bytes (buffer t)) in
      if status \<noteq> 0 then Ret None
      else case transaction_new (newMem mem) (gettime env) (stackJunk env) (Some (peerH t)) (code m) None None
                 newMid (word_of_nat (length (token m))) (Some (token m)) (userData t) of
        None \<Rightarrow> Ret None
      | Some clone \<Rightarrow>
          oc_bind (clone_header m (message clone)) (\<lambda>h.
            if \<not> payloadMem mem then Ret None
            else Ret (Some (clone\<lparr>message := h, t_payload := Some (ptr_bytes (t_payload t)),
                                   callback := callback t, userData := userData t\<rparr>))))"

text \<open>The product \<open>block_num * block_size\<close> is a \<open>size_t\<close> in the test and a \<open>uint32_t\<close> in the pointer
  offset.\<close>

definition prv_send_new_block1 ::
    "'p packet_env \<Rightarrow> packet_mem \<Rightarrow> ('p, 'c, 'u) packet_ctx \<Rightarrow> ('p, 'c, 'u) lwm2m_transaction_t \<Rightarrow> u32 \<Rightarrow> u16
      \<Rightarrow> (int \<times> ('p, 'c, 'u) packet_ctx \<times> ('p, 'c) event list) outcome" where
  "prv_send_new_block1 env mem ctx previous block_num block_size =
     (let payload_len = length (ptr_bytes (t_payload previous)); start = unat block_num * unat block_size in
      if start \<ge> payload_len then Ret (0, ctx, [])
      else
        oc_bind (prv_create_next_block_transaction env mem previous (nextMID ctx)) (\<lambda>made.
          let ctx1 = ctx\<lparr>nextMID := nextMID ctx + 1\<rparr> in
          case made of None \<Rightarrow> Ret (0xA0, ctx1, [])
          | Some next \<Rightarrow>
              let pl = ptr_bytes (t_payload next);
                  remaining = length pl - start;
                  block_start = drop (unat (block_num * ucast block_size)) pl;
                  m1 = snd (coap_set_header_block1 (message next) block_num
                         (if remaining > unat block_size then 1 else 0) block_size);
                  m2 = snd (coap_set_payload m1 (Some (take (min (unat block_size) remaining) block_start)));
                  next' = next\<lparr>message := m2\<rparr>
              in send_on_list env (bufferMem mem)
                   (ctx1\<lparr>transactionList := lwm2m_list_add mID (transactionList ctx1) next'\<rparr>) next'))"

definition prv_send_next_block1 ::
    "'p packet_env \<Rightarrow> packet_mem \<Rightarrow> ('p, 'c, 'u) packet_ctx \<Rightarrow> 'p \<Rightarrow> u16 \<Rightarrow> u16
      \<Rightarrow> (int \<times> ('p, 'c, 'u) packet_ctx \<times> ('p, 'c) event list) outcome" where
  "prv_send_next_block1 env mem ctx sessionH m block_size =
     (case prv_get_transaction (same env) sessionH m (transactionList ctx) of
        None \<Rightarrow> Ret (0xA0, ctx, [])
      | Some t \<Rightarrow>
          let msg = message t;
              sz = (if block_size > block1_size msg \<or> block_size = 0 then block1_size msg else block_size)
          in if block1_num msg = 0 then
               (if sz = 0 then UB
                else prv_send_new_block1 env mem ctx t (ucast (block1_size msg div sz)) sz)
             else prv_send_new_block1 env mem ctx t (block1_num msg + 1) sz)"

text \<open>The \<open>for\<close> loop of \<open>prv_change_to_block1\<close>, \<open>n\<close> counting from 1; \<open>16 << n\<close> is an \<open>int\<close>, of which
  \<open>block_size\<close> keeps 16 bits.  From \<open>n = 12\<close> on \<open>16 << n\<close> is above every \<open>uint16_t\<close>.\<close>

function change_size_loop :: "u16 \<Rightarrow> nat \<Rightarrow> u16 \<Rightarrow> u16" where
  "change_size_loop sz n block_size =
     (if 16 * 2 ^ n \<le> unat sz then change_size_loop sz (Suc n) (word_of_nat (16 * 2 ^ n)) else block_size)"
  by pat_completeness auto

termination
proof (relation "measure (\<lambda>(sz, n, b). unat sz - n)", simp)
  fix sz :: u16 and n :: nat and b :: u16
  assume "16 * 2 ^ n \<le> unat sz"
  moreover have "n < 16 * 2 ^ n" by (induction n) simp_all
  ultimately show "((sz, Suc n, word_of_nat (16 * 2 ^ n)), sz, n, b) \<in> measure (\<lambda>(sz, n, b). unat sz - n)"
    by simp
qed

declare change_size_loop.simps [simp del]

definition prv_change_to_block1 ::
    "'p packet_env \<Rightarrow> packet_mem \<Rightarrow> ('p, 'c, 'u) packet_ctx \<Rightarrow> 'p \<Rightarrow> u16 \<Rightarrow> u32
      \<Rightarrow> (int \<times> ('p, 'c, 'u) packet_ctx \<times> ('p, 'c) event list) outcome" where
  "prv_change_to_block1 env mem ctx sessionH m sz =
     (let found = prv_get_transaction (same env) sessionH m (transactionList ctx);
          block_size = min (change_size_loop (ucast sz) 1 16) (coap_block_size env)
      in case found of None \<Rightarrow> UB
         | Some t \<Rightarrow> prv_send_new_block1 env mem ctx t 0 block_size)"

definition prv_retry_block1 ::
    "'p packet_env \<Rightarrow> packet_mem \<Rightarrow> ('p, 'c, 'u) packet_ctx \<Rightarrow> 'p \<Rightarrow> u16 \<Rightarrow> u16
      \<Rightarrow> (int \<times> ('p, 'c, 'u) packet_ctx \<times> ('p, 'c) event list) outcome" where
  "prv_retry_block1 env mem ctx sessionH m block_size =
     (case prv_get_transaction (same env) sessionH m (transactionList ctx) of
        None \<Rightarrow> Ret (0xA0, ctx, [])
      | Some t \<Rightarrow>
          let msg = message t in
          if \<not> IS_OPTION msg OPT_BLOCK1 then prv_send_new_block1 env mem ctx t 0 block_size
          else
            let sz = (if block_size = block1_size msg \<and> block_size > 16 then block_size div 2 else block_size)
            in if sz \<ge> block1_size msg \<or> sz = 0 then Ret (0x80, ctx, [])
               else prv_send_new_block1 env mem ctx t (block1_num msg) sz)"

text \<open>The continuation of a download; \<open>bl\<close> are the transfers of the peer.\<close>

definition prv_send_get_block2 ::
    "'p packet_env \<Rightarrow> packet_mem \<Rightarrow> ('p, 'c, 'u) packet_ctx \<Rightarrow> 'p \<Rightarrow> block_list \<Rightarrow> u16 \<Rightarrow> u32 \<Rightarrow> u16
      \<Rightarrow> (int \<times> ('p, 'c, 'u) packet_ctx \<times> block_list \<times> ('p, 'c) event list) outcome" where
  "prv_send_get_block2 env mem ctx sessionH bl currentMID num sz =
     (case prv_get_transaction (same env) sessionH currentMID (transactionList ctx) of
        None \<Rightarrow> Ret (0xA0, ctx, bl, [])
      | Some t \<Rightarrow>
          if num = 0 \<and> IS_OPTION (message t) OPT_BLOCK2 then Ret (1, ctx, bl, [])
          else
            oc_bind (prv_create_next_block_transaction env mem t (nextMID ctx)) (\<lambda>made.
              let ctx1 = ctx\<lparr>nextMID := nextMID ctx + 1\<rparr> in
              case made of None \<Rightarrow> Ret (0xA0, ctx1, bl, [])
              | Some next \<Rightarrow>
                  let next' = next\<lparr>message := snd (coap_set_header_block2 (message next) num 0
                                (min sz (coap_block_size env)))\<rparr>
                  in oc_bind (coap_block2_set_expected_mid bl currentMID (nextMID ctx)) (\<lambda>bl'.
                       oc_bind (send_on_list env (bufferMem mem)
                           (ctx1\<lparr>transactionList := lwm2m_list_add mID (transactionList ctx1) next'\<rparr>) next')
                         (\<lambda>(r, ctx2, es). Ret (r, ctx2, bl', es)))))"

definition prv_send_get_next_block2 ::
    "'p packet_env \<Rightarrow> packet_mem \<Rightarrow> ('p, 'c, 'u) packet_ctx \<Rightarrow> 'p \<Rightarrow> block_list \<Rightarrow> u16 \<Rightarrow> u32 \<Rightarrow> u16
      \<Rightarrow> (int \<times> ('p, 'c, 'u) packet_ctx \<times> block_list \<times> ('p, 'c) event list) outcome" where
  "prv_send_get_next_block2 env mem ctx sessionH bl currentMID num sz =
     prv_send_get_block2 env mem ctx sessionH bl currentMID (num + 1) sz"

section \<open>Responses\<close>

text \<open>\<open>transaction_handleResponse\<close> on the context.\<close>

definition response_on_list ::
    "'p packet_env \<Rightarrow> ('p, 'c, 'u) packet_ctx \<Rightarrow> 'p \<Rightarrow> coap_packet_t \<Rightarrow> bool
      \<Rightarrow> bool \<times> ('p, 'c, 'u) packet_ctx \<times> ('p, 'c) event list" where
  "response_on_list env ctx from m hasResponse =
     (let (done, l, es) = transaction_handleResponse (respTimeout env) (gettime env) (same env) from m hasResponse
            (transactionList ctx) (transactionList ctx)
      in (done, ctx\<lparr>transactionList := l\<rparr>, es))"

text \<open>The retry of a response that is larger than a block, as a Block2 request.\<close>

definition retry_as_block2 ::
    "'p packet_env \<Rightarrow> packet_mem \<Rightarrow> ('p, 'c, 'u) packet_ctx \<Rightarrow> 'p \<Rightarrow> coap_packet_t
      \<Rightarrow> (('p, 'c, 'u) packet_ctx \<times> ('p, 'c) event list) outcome" where
  "retry_as_block2 env mem ctx from m =
     (case utils_findServer (same env) from (peerList ctx) of
        None \<Rightarrow> Ret (ctx, [])
      | Some i \<Rightarrow>
          oc_bind (prv_send_get_block2 env mem ctx from (snd (peerList ctx ! i)) (mid m) 0 (coap_block_size env))
            (\<lambda>(r, ctx', bl, es). Ret (ctx'\<lparr>peerList := (peerList ctx)[i := (fst (peerList ctx ! i), bl)]\<rparr>, es)))"

text \<open>The branch for \<open>COAP_TYPE_ACK\<close>: the error code of the function, the context, the events.\<close>

definition handle_ack ::
    "'p packet_env \<Rightarrow> packet_mem \<Rightarrow> ('p, 'c, 'u) packet_ctx \<Rightarrow> 'p \<Rightarrow> coap_packet_t
      \<Rightarrow> (u8 \<times> ('p, 'c, 'u) packet_ctx \<times> ('p, 'c) event list) outcome" where
  "handle_ack env mem ctx from m =
     (let finish = (\<lambda>c m' (ctx', es).
            (let (done, ctx2, es2) = response_on_list env ctx' from m' False in Ret (c, ctx2, es @ es2)))
      in if length (ptr_bytes (payload m)) > unat (coap_block_size env) then
           oc_bind (retry_as_block2 env mem ctx from m) (finish NO_ERROR m)
         else if IS_OPTION m OPT_BLOCK1 then
           oc_bind
             (if code m = COAP_201_CREATED \<or> code m = COAP_204_CHANGED \<or> code m = COAP_231_CONTINUE
              then prv_send_next_block1 env mem ctx from (mid m) (block1_size m)
              else if code m = COAP_413_ENTITY_TOO_LARGE \<and> \<not> block1_num m > 0
              then prv_retry_block1 env mem ctx from (mid m) (block1_size m)
              else Ret (0, ctx, []))
             (\<lambda>(r, ctx', es). finish NO_ERROR m (ctx', es))
         else if IS_OPTION m OPT_BLOCK2 then
           (case utils_findServer (same env) from (peerList ctx) of
              None \<Rightarrow> Ret (COAP_500_INTERNAL_SERVER_ERROR, ctx, [])
            | Some i \<Rightarrow>
                oc_bind (coap_block2_handler (blockMem mem) (snd (peerList ctx ! i)) (mid m) (ptr_bytes (payload m))
                    (block2_size m) (block2_num m) (block2_more m \<noteq> 0)) (\<lambda>(c, out, bl).
                  let setBlocks = (\<lambda>ctx' bl'. ctx'\<lparr>peerList := (peerList ctx)[i := (fst (peerList ctx ! i), bl')]\<rparr>)
                  in if c = NO_ERROR then
                       (let m' = m\<lparr>payload := (case out of Output (Buf bs) n \<Rightarrow> Some (take n bs) | _ \<Rightarrow> None)\<rparr>
                        in oc_bind (finish NO_ERROR m' (ctx, [])) (\<lambda>(c', ctx', es).
                             oc_bind (block2_delete False bl (mid m)) (\<lambda>bl2.
                               Ret (c', setBlocks ctx' bl2, es))))
                     else if c = COAP_231_CONTINUE then
                       oc_bind (prv_send_get_next_block2 env mem ctx from bl (mid m) (block2_num m) (block2_size m))
                         (\<lambda>(r, ctx', bl2, es). finish NO_ERROR m (setBlocks ctx' bl2, es))
                     else Ret (c, setBlocks ctx bl, [])))
         else if code m = COAP_413_ENTITY_TOO_LARGE then
           oc_bind (prv_change_to_block1 env mem ctx from (mid m) (opt_size m))
             (\<lambda>(r, ctx', es). finish NO_ERROR m (ctx', es))
         else finish NO_ERROR m (ctx, []))"

text \<open>The branch for \<open>COAP_TYPE_NON\<close> and \<open>COAP_TYPE_CON\<close> of a client build, which handles no
  notifications.\<close>

definition handle_response_con ::
    "'p packet_env \<Rightarrow> packet_mem \<Rightarrow> ('p, 'c, 'u) packet_ctx \<Rightarrow> 'p \<Rightarrow> coap_packet_t
      \<Rightarrow> (u8 \<times> ('p, 'c, 'u) packet_ctx \<times> ('p, 'c) event list) outcome" where
  "handle_response_con env mem ctx from m =
     (if length (ptr_bytes (payload m)) > unat (coap_block_size env) then
        oc_bind (retry_as_block2 env mem ctx from m) (\<lambda>(ctx', es).
          let (done, ctx2, es2) = response_on_list env ctx' from m False in Ret (NO_ERROR, ctx2, es @ es2))
      else
        (let (done, ctx2, es) = response_on_list env ctx from m (bufferMem mem) in
         if \<not> done \<and> msg_type m = COAP_TYPE_CON
         then oc_bind (message_send env (bufferMem mem) (coap_init_message COAP_TYPE_ACK 0 (mid m)) from)
                (\<lambda>(c, m', es2). Ret (c, ctx2, es @ es2))
         else Ret (NO_ERROR, ctx2, es)))"

text \<open>The error message at the end of \<open>lwm2m_handle_packet\<close>; \<open>msg\<close> is \<open>coap_error_message\<close>.\<close>

definition send_error ::
    "'p packet_env \<Rightarrow> bool \<Rightarrow> bytes \<Rightarrow> u8 \<Rightarrow> u16 \<Rightarrow> 'p \<Rightarrow> ('p, 'c) event list outcome" where
  "send_error env allocated msg c m from =
     (if c \<noteq> NO_ERROR \<and> c \<noteq> COAP_IGNORE then
        (let c' = (if c \<ge> 192 then COAP_500_INTERNAL_SERVER_ERROR else c);
             reply = snd (coap_set_payload (coap_init_message COAP_TYPE_ACK c' m) (Some msg))
         in oc_bind (message_send env allocated reply from) (\<lambda>(r, m', es). Ret es))
      else Ret [])"

end
