(* ===== verification/PacketProps.thy ===== *)
theory PacketProps
  imports Packet BlockProps TransactionProps
begin

text \<open>
  Properties of the block-wise exchanges: the request that continues an upload is the previous
  request with the next block, so an upload driven by the peer's acknowledgements delivers to the
  Block1 handler exactly the payload; and the inputs for which the continuation is undefined.
\<close>

section \<open>Parsed messages\<close>

text \<open>Which fields a message parsed without an error has, when every allocation succeeds.\<close>

definition parsed_fields :: "coap_packet_t \<Rightarrow> bool" where
  "parsed_fields q \<longleftrightarrow> length (options q) = 5 \<and> proxy_uri q = None
     \<and> (uri_host q = None \<or> IS_OPTION q OPT_URI_HOST)
     \<and> (location_query q = None \<or> IS_OPTION q OPT_LOCATION_QUERY)
     \<and> (accept q = [] \<or> IS_OPTION q OPT_ACCEPT)
     \<and> (token q = [] \<or> IS_OPTION q OPT_TOKEN)
     \<and> (IS_OPTION q OPT_LOCATION_PATH \<longrightarrow> location_path q \<noteq> [])
     \<and> (IS_OPTION q OPT_URI_PATH \<longrightarrow> uri_path q \<noteq> [])
     \<and> (IS_OPTION q OPT_URI_QUERY \<longrightarrow> uri_query q \<noteq> [])"

lemma coap_parse_option_default:
  assumes "n \<notin> {12, 14, 4, 17, 1, 5, 3, 7, 11, 15, 8, 20, 35, 6, 2048, 2049, 23, 27, 28}"
  shows "coap_parse_option server a n v p
    = (if server \<or> odd n then (Some BAD_OPTION_4_02, coap_free_header p) else (None, p))"
  using assms unfolding coap_parse_option_def insert_iff empty_iff de_Morgan_disj
  by (elim conjE) (simp only: if_False simp_thms)

lemma add_segment_nonempty: "coap_add_multi_option True dst v \<noteq> []"
  by (simp add: coap_add_multi_option_def)

lemma merge_nonempty: "coap_merge_multi_option dst v c \<noteq> None"
  by (simp add: coap_merge_multi_option_def split: option.split)

lemma parsed_fields_SET: "parsed_fields p \<Longrightarrow> n \<notin> {8, 11, 15} \<Longrightarrow> parsed_fields (SET_OPTION p n)"
  by (auto simp: parsed_fields_def)

lemma coap_parse_option_fields:
  assumes "coap_parse_option server True n v (SET_OPTION p n) = (None, q)" "parsed_fields p"
  shows "parsed_fields q"
proof (cases "n \<in> {12, 14, 4, 17, 1, 5, 3, 7, 11, 15, 8, 20, 35, 6, 2048, 2049, 23, 27, 28}")
  case True
  then show ?thesis
    using assms
    by (elim insertE emptyE; hypsubst; simp add: coap_parse_option_def Let_def split: if_splits;
        hypsubst?; auto simp: parsed_fields_def add_segment_nonempty merge_nonempty)
next
  case False
  with assms show ?thesis
    using parsed_fields_SET [of p n] by (simp add: coap_parse_option_default split: if_splits)
qed

lemma coap_parse_option_status: "coap_parse_option server a n v p = (Some status, q) \<Longrightarrow> status \<noteq> NO_ERROR"
proof -
  have "(fst (coap_parse_option server a n v p) = Some NO_ERROR) = False"
    by (simp split del: if_split cong: if_cong
        add: coap_parse_option_def Let_def if_distrib [of fst] if_distrib [where f = "\<lambda>x. x = Some 0"])
  then show "coap_parse_option server a n v p = (Some status, q) \<Longrightarrow> status \<noteq> NO_ERROR" by auto
qed

lemma coap_parse_loop_fields:
  "coap_parse_loop server mem bs n p = (NO_ERROR, q) \<Longrightarrow> \<forall>k. mem k \<Longrightarrow> parsed_fields p \<Longrightarrow> parsed_fields q"
proof (induction server mem bs n p rule: coap_parse_loop.induct)
  case (2 server mem b rest n p)
  show ?case
  proof (cases "b = 0xFF")
    case True
    with "2.prems"(1) have "q = p\<lparr>payload := Some rest\<rparr>" by (simp split: if_split_asm)
    with "2.prems"(3) show ?thesis by (simp add: parsed_fields_def)
  next
    case False
    then obtain delta len r where h: "parse_option_header b rest = Some (delta, len, r)" "\<not> len > length r"
      using "2.prems"(1) by (cases "parse_option_header b rest") (auto split: if_splits)
    obtain st q1 where o1: "coap_parse_option server (mem (length r)) (n + delta) (take len r)
        (SET_OPTION p (n + delta)) = (st, q1)" by fastforce
    with False h "2.prems"(1) have "st = None" by (cases st) (auto dest: coap_parse_option_status)
    with o1 "2.prems"(2,3) have "parsed_fields q1" by (auto intro: coap_parse_option_fields)
    moreover have "coap_parse_loop server mem (drop len r) (n + delta) q1 = (NO_ERROR, q)"
      using "2.prems"(1) False h o1 \<open>st = None\<close> by simp
    ultimately show ?thesis
      using "2.IH" [OF False h(1) refl refl h(2) refl o1 [symmetric] \<open>st = None\<close>] "2.prems"(2) by blast
  qed
qed simp

section \<open>The clone\<close>

text \<open>The fields a clone needs of the message it is made from.\<close>

definition clonable :: "coap_packet_t \<Rightarrow> bool" where
  "clonable q \<longleftrightarrow> parsed_fields q \<and> coap_parsed_ok q \<and> uri_host q = None \<and> location_query q = None
     \<and> (IS_OPTION q OPT_OBSERVE \<longrightarrow> unat (observe q) < 2 ^ 24)"

lemma observe_mask:
  assumes "unat (v :: u32) < 2 ^ 24"
  shows "0x00FFFFFF AND v = v"
proof -
  have "(0x00FFFFFF :: u32) = mask 24" by (simp add: mask_eq_exp_minus_1)
  then have "0x00FFFFFF AND v = take_bit 24 v" by (simp add: and.commute [of _ v] take_bit_eq_mask)
  moreover have "unat (take_bit 24 v) = unat v"
    unfolding unsigned_take_bit_eq using assms by (simp add: take_bit_eq_mod)
  ultimately show ?thesis by (simp add: word_unat_eq_iff)
qed

lemma accept_fold:
  assumes "length (accept c) + length as \<le> 2"
  shows "foldl coap_set_header_accept c as
    = when_set (as \<noteq> []) (\<lambda>c. SET_OPTION (c\<lparr>accept := accept c @ as\<rparr>) OPT_ACCEPT) c"
proof -
  consider "as = []" | a where "as = [a]" | a b where "as = [a, b]" "accept c = []"
    using assms by (cases as; cases "tl as") auto
  then show ?thesis
    using assms by cases (simp_all add: when_set_def coap_set_header_accept_def SET_OPTION_update)
qed

text \<open>A field that a conditional setter leaves alone, and one that it writes.\<close>

lemma when_set_other: "(\<And>c. f (g c) = f c) \<Longrightarrow> f (when_set b g c) = f c"
  by (simp add: when_set_def)

lemma when_set_length: "(\<And>c. length (options (g c)) = length (options c)) \<Longrightarrow>
    length (options (when_set b g c)) = length (options c)"
  by (simp add: when_set_def)

lemma when_set_field: "f (when_set b g c) = (if b then f (g c) else f c)"
  by (simp add: when_set_def)

lemma when_set_option:
  "length (options c) = 5 \<Longrightarrow> (\<And>c. length (options c) = 5 \<Longrightarrow> IS_OPTION (g c) n \<longleftrightarrow> IS_OPTION c n \<or> n = k) \<Longrightarrow>
     IS_OPTION (when_set b g c) n \<longleftrightarrow> IS_OPTION c n \<or> b \<and> n = k"
  by (auto simp: when_set_def)

definition empty_request :: "u8 \<Rightarrow> u16 \<Rightarrow> bytes \<Rightarrow> coap_packet_t" where
  "empty_request c m tok = (if tok = [] then coap_init_message COAP_TYPE_CON c m
     else coap_set_header_token (coap_init_message COAP_TYPE_CON c m) tok)"

lemma empty_request_fields [simp]:
  "msg_type (empty_request c m tok) = COAP_TYPE_CON" "code (empty_request c m tok) = c" "mid (empty_request c m tok) = m"
  "length (options (empty_request c m tok)) = 5" "IS_OPTION (empty_request c m tok) n \<longleftrightarrow> n = 19 \<and> tok \<noteq> []"
  "token (empty_request c m tok) = take 8 tok" "accept (empty_request c m tok) = []" "payload (empty_request c m tok) = None"
  "location_path (empty_request c m tok) = []" "uri_path (empty_request c m tok) = []" "uri_query (empty_request c m tok) = []"
  "proxy_uri (empty_request c m tok) = None" "etag (empty_request c m tok) = []" "if_match (empty_request c m tok) = []"
  by (auto simp: empty_request_def coap_set_header_token_def coap_init_message_def)
    (simp_all add: coap_zero_def)

lemma clone_fields:
  assumes q: "clonable q"
  obtains h where "clone_header q (empty_request c m tok) = Ret h"
    "\<And>n. IS_OPTION h n \<longleftrightarrow> n = 12 \<or> n = 19 \<and> tok \<noteq> [] \<or> n \<in> {1, 4, 5, 6, 7, 8, 11, 15} \<and> IS_OPTION q n \<or> n = 17 \<and> accept q \<noteq> []"
    "msg_type h = COAP_TYPE_CON" "code h = c" "mid h = m" "length (options h) = 5" "token h = take 8 tok"
    "accept h = accept q" "payload h = None"
    "content_type h = (if IS_OPTION q 12 then content_type q else ucast (type_code (msg_type q)))"
    "if_match h = (if IS_OPTION q 1 then if_match q else [])" "etag h = (if IS_OPTION q 4 then etag q else [])"
    "IS_OPTION q 6 \<Longrightarrow> observe h = observe q" "IS_OPTION q 7 \<Longrightarrow> uri_port h = uri_port q"
    "location_path h = (if IS_OPTION q 8 then location_path q else [])" "uri_path h = (if IS_OPTION q 11 then uri_path q else [])"
    "uri_query h = (if IS_OPTION q 15 then uri_query q else [])"
proof -
  note ok = q [unfolded clonable_def parsed_fields_def coap_parsed_ok_def]
  have q': "proxy_uri q = None" "uri_host q = None" "location_query q = None" "length (accept q) \<le> 2"
    "take 8 (etag q) = etag q" "take 8 (if_match q) = if_match q"
    "IS_OPTION q 6 \<Longrightarrow> 0x00FFFFFF AND observe q = observe q"
    using ok observe_mask by auto
  note setters = coap_set_header_content_type_def coap_set_header_etag_def coap_set_header_uri_port_def
    coap_set_header_observe_def coap_set_header_if_match_def coap_set_header_if_none_match_def
  define c1 where "c1 = coap_set_header_content_type (empty_request c m tok) (ucast (type_code (msg_type q)))"
  define c2 where "c2 = when_set (IS_OPTION q 4) (\<lambda>c. coap_set_header_etag c (etag q)) c1"
  define c3 where "c3 = when_set (IS_OPTION q 7) (\<lambda>c. coap_set_header_uri_port c (uri_port q)) c2"
  define c4 where "c4 = when_set (IS_OPTION q 8) (\<lambda>c. SET_OPTION (c\<lparr>location_path := location_path q\<rparr>) 8) c3"
  define c5 where "c5 = when_set (IS_OPTION q 12) (\<lambda>c. SET_OPTION (c\<lparr>content_type := content_type q\<rparr>) 12) c4"
  define c6 where "c6 = when_set (IS_OPTION q 11) (\<lambda>c. SET_OPTION (c\<lparr>uri_path := uri_path q\<rparr>) 11) c5"
  define c7 where "c7 = when_set (IS_OPTION q 6) (\<lambda>c. coap_set_header_observe c (observe q)) c6"
  define c8 where "c8 = when_set (accept q \<noteq> []) (\<lambda>c. SET_OPTION (c\<lparr>accept := accept c @ accept q\<rparr>) 17) c7"
  define c9 where "c9 = when_set (IS_OPTION q 1) (\<lambda>c. coap_set_header_if_match c (if_match q)) c8"
  define c10 where "c10 = when_set (IS_OPTION q 15) (\<lambda>c. SET_OPTION (c\<lparr>uri_query := uri_query q\<rparr>) 15) c9"
  define h where "h = when_set (IS_OPTION q 5) coap_set_header_if_none_match c10"
  note steps = h_def c10_def c9_def c8_def c7_def c6_def c5_def c4_def c3_def c2_def c1_def
  have acc: "accept c7 = []" by (simp add: steps when_set_other setters)
  have "clone_header q (empty_request c m tok) = Ret h"
    unfolding clone_header_def Let_def
    using q' accept_fold [of c7 "accept q"] acc
    by (simp add: c1_def [symmetric] c2_def [symmetric] c3_def [symmetric] c4_def [symmetric] c5_def [symmetric]
        c6_def [symmetric] c7_def [symmetric] c8_def [symmetric] c9_def [symmetric] c10_def [symmetric] h_def [symmetric]
        del: One_nat_def)
  moreover have l: "length (options c1) = 5" "length (options c2) = 5" "length (options c3) = 5" "length (options c4) = 5" "length (options c5) = 5" "length (options c6) = 5"
    "length (options c7) = 5" "length (options c8) = 5" "length (options c9) = 5" "length (options c10) = 5" "length (options h) = 5"
    by (simp_all add: steps when_set_length setters)
  have o_c2: "IS_OPTION c2 n \<longleftrightarrow> IS_OPTION c1 n \<or> (IS_OPTION q 4) \<and> n = 4" for n
    unfolding c2_def by (rule when_set_option) (simp_all add: setters l)
  have o_c3: "IS_OPTION c3 n \<longleftrightarrow> IS_OPTION c2 n \<or> (IS_OPTION q 7) \<and> n = 7" for n
    unfolding c3_def by (rule when_set_option) (simp_all add: setters l)
  have o_c4: "IS_OPTION c4 n \<longleftrightarrow> IS_OPTION c3 n \<or> (IS_OPTION q 8) \<and> n = 8" for n
    unfolding c4_def by (rule when_set_option) (simp_all add: setters l)
  have o_c5: "IS_OPTION c5 n \<longleftrightarrow> IS_OPTION c4 n \<or> (IS_OPTION q 12) \<and> n = 12" for n
    unfolding c5_def by (rule when_set_option) (simp_all add: setters l)
  have o_c6: "IS_OPTION c6 n \<longleftrightarrow> IS_OPTION c5 n \<or> (IS_OPTION q 11) \<and> n = 11" for n
    unfolding c6_def by (rule when_set_option) (simp_all add: setters l)
  have o_c7: "IS_OPTION c7 n \<longleftrightarrow> IS_OPTION c6 n \<or> (IS_OPTION q 6) \<and> n = 6" for n
    unfolding c7_def by (rule when_set_option) (simp_all add: setters l)
  have o_c8: "IS_OPTION c8 n \<longleftrightarrow> IS_OPTION c7 n \<or> (accept q \<noteq> []) \<and> n = 17" for n
    unfolding c8_def by (rule when_set_option) (simp_all add: setters l)
  have o_c9: "IS_OPTION c9 n \<longleftrightarrow> IS_OPTION c8 n \<or> (IS_OPTION q 1) \<and> n = 1" for n
    unfolding c9_def by (rule when_set_option) (simp_all add: setters l)
  have o_c10: "IS_OPTION c10 n \<longleftrightarrow> IS_OPTION c9 n \<or> (IS_OPTION q 15) \<and> n = 15" for n
    unfolding c10_def by (rule when_set_option) (simp_all add: setters l)
  have o_h: "IS_OPTION h n \<longleftrightarrow> IS_OPTION c10 n \<or> (IS_OPTION q 5) \<and> n = 5" for n
    unfolding h_def by (rule when_set_option) (simp_all add: setters l)
  have o_c1: "IS_OPTION c1 n \<longleftrightarrow> n = 12 \<or> n = 19 \<and> tok \<noteq> []" for n
    by (auto simp: c1_def setters)
  have "IS_OPTION h n \<longleftrightarrow> n = 12 \<or> n = 19 \<and> tok \<noteq> [] \<or> n \<in> {1, 4, 5, 6, 7, 8, 11, 15} \<and> IS_OPTION q n
      \<or> n = 17 \<and> accept q \<noteq> []" for n
    unfolding o_h o_c10 o_c9 o_c8 o_c7 o_c6 o_c5 o_c4 o_c3 o_c2 o_c1 by auto
  moreover have "msg_type h = COAP_TYPE_CON" "code h = c" "mid h = m" "token h = take 8 tok" "payload h = None"
    by (simp_all add: steps when_set_other setters)
  moreover have zero: "if_match c8 = []" "etag c1 = []" "location_path c3 = []" "uri_path c5 = []" "uri_query c9 = []"
    by (simp_all add: steps when_set_other setters)
  moreover have "accept h = accept q" using acc
    by (simp add: h_def c10_def c9_def c8_def when_set_other setters) (simp add: when_set_field)
  moreover have "content_type h = (if IS_OPTION q 12 then content_type q else ucast (type_code (msg_type q)))"
    by (simp add: h_def c10_def c9_def c8_def c7_def c6_def when_set_other setters)
      (simp add: c5_def c4_def c3_def c2_def c1_def when_set_field setters)
  moreover have "if_match h = (if IS_OPTION q 1 then if_match q else [])" using q'(6)
    by (simp add: h_def c10_def when_set_other setters) (simp add: c9_def when_set_field setters zero)
  moreover have "etag h = (if IS_OPTION q 4 then etag q else [])" using q'(5)
    by (simp add: h_def c10_def c9_def c8_def c7_def c6_def c5_def c4_def c3_def when_set_other setters)
      (simp add: c2_def when_set_field setters zero)
  moreover have "IS_OPTION q 6 \<Longrightarrow> observe h = observe q" using q'(7)
    by (simp add: h_def c10_def c9_def c8_def when_set_other setters) (simp add: c7_def when_set_field setters)
  moreover have "IS_OPTION q 7 \<Longrightarrow> uri_port h = uri_port q"
    by (simp add: h_def c10_def c9_def c8_def c7_def c6_def c5_def c4_def when_set_other setters)
      (simp add: c3_def when_set_field setters)
  moreover have "location_path h = (if IS_OPTION q 8 then location_path q else [])"
    by (simp add: h_def c10_def c9_def c8_def c7_def c6_def c5_def when_set_other setters)
      (simp add: c4_def when_set_field setters zero)
  moreover have "uri_path h = (if IS_OPTION q 11 then uri_path q else [])"
    by (simp add: h_def c10_def c9_def c8_def c7_def when_set_other setters) (simp add: c6_def when_set_field setters zero)
  moreover have "uri_query h = (if IS_OPTION q 15 then uri_query q else [])"
    by (simp add: h_def when_set_other setters) (simp add: c10_def when_set_field setters zero)
  ultimately show thesis using l by (intro that) blast+
qed

lemma clone_view:
  assumes q: "clonable q" and ct: "IS_OPTION q 12"
  obtains h where "clone_header q (empty_request c m (token q)) = Ret h"
    "coap_view h = (coap_view q)\<lparr>v_type := COAP_TYPE_CON, v_code := c, v_mid := m, v_max_age := COAP_DEFAULT_MAX_AGE,
        v_block2 := None, v_block1 := None, v_size := None, v_payload := []\<rparr>"
    "length (options h) = 5"
    "length (token h) \<le> 8" "token h \<noteq> [] \<longrightarrow> IS_OPTION h 19" "length (if_match h) \<le> 8" "length (etag h) \<le> 8"
    "length (accept h) \<le> 2" "\<forall>v\<in>set (location_path h) \<union> set (uri_path h) \<union> set (uri_query h). length v < 256"
    "IS_OPTION h 12 \<longrightarrow> unat (content_type h) < 2 ^ 16"
    "IS_OPTION h 8 \<longrightarrow> location_path h \<noteq> []" "IS_OPTION h 11 \<longrightarrow> uri_path h \<noteq> []" "IS_OPTION h 15 \<longrightarrow> uri_query h \<noteq> []"
    "IS_OPTION h 6 \<longrightarrow> unat (observe h) < 2 ^ 24"
    "\<And>n. IS_OPTION h n \<Longrightarrow> n \<in> {1, 4, 5, 6, 7, 8, 11, 12, 15, 17, 19}"
proof -
  note ok = q [unfolded clonable_def parsed_fields_def coap_parsed_ok_def]
  obtain h where h: "clone_header q (empty_request c m (token q)) = Ret h"
    "\<And>n. IS_OPTION h n \<longleftrightarrow> n = 12 \<or> n = 19 \<and> token q \<noteq> [] \<or> n \<in> {1, 4, 5, 6, 7, 8, 11, 15} \<and> IS_OPTION q n
      \<or> n = 17 \<and> accept q \<noteq> []"
    "msg_type h = COAP_TYPE_CON" "code h = c" "mid h = m" "length (options h) = 5" "token h = take 8 (token q)"
    "accept h = accept q" "payload h = None"
    "content_type h = (if IS_OPTION q 12 then content_type q else ucast (type_code (msg_type q)))"
    "if_match h = (if IS_OPTION q 1 then if_match q else [])" "etag h = (if IS_OPTION q 4 then etag q else [])"
    "IS_OPTION q 6 \<Longrightarrow> observe h = observe q" "IS_OPTION q 7 \<Longrightarrow> uri_port h = uri_port q"
    "location_path h = (if IS_OPTION q 8 then location_path q else [])" "uri_path h = (if IS_OPTION q 11 then uri_path q else [])"
    "uri_query h = (if IS_OPTION q 15 then uri_query q else [])"
    by (rule clone_fields [OF q, of c m "token q"]) blast
  have tok: "take 8 (token q) = token q" using ok by simp
  have eqs: "coap_get_header_token h = coap_get_header_token q" "coap_get_header_if_match h = coap_get_header_if_match q"
    "coap_get_header_etag h = coap_get_header_etag q" "coap_get_header_accept h = coap_get_header_accept q"
    "coap_get_header_uri_host h = coap_get_header_uri_host q"
    "coap_get_header_location_query h = coap_get_header_location_query q"
    using h ok tok by (auto simp: coap_get_header_token_def coap_get_header_if_match_def coap_get_header_etag_def
        coap_get_header_accept_def coap_get_header_uri_host_def coap_get_header_location_query_def)
  have eqs2: "coap_get_header_if_none_match h = coap_get_header_if_none_match q"
    "coap_get_header_observe h = coap_get_header_observe q" "coap_get_header_uri_port h = coap_get_header_uri_port q"
    "coap_get_header_content_type h = coap_get_header_content_type q" "coap_get_header_max_age h = COAP_DEFAULT_MAX_AGE"
    "coap_get_header_block1 h = None" "coap_get_header_block2 h = None" "coap_get_header_size h = None"
    "coap_get_payload h = []"
    using h ct by (auto simp: coap_get_header_if_none_match_def coap_get_header_observe_def coap_get_header_uri_port_def
        coap_get_header_content_type_def coap_get_header_max_age_def coap_get_header_block1_def coap_get_header_block2_def
        coap_get_header_size_def coap_get_payload_def ptr_bytes_def)
  have view: "coap_view h = (coap_view q)\<lparr>v_type := COAP_TYPE_CON, v_code := c, v_mid := m,
      v_max_age := COAP_DEFAULT_MAX_AGE, v_block2 := None, v_block1 := None, v_size := None, v_payload := []\<rparr>"
    unfolding coap_view_def using h by (simp add: eqs eqs2 block_view_def)
  have opts: "n \<in> {1, 4, 5, 6, 7, 8, 11, 12, 15, 17, 19}" if "IS_OPTION h n" for n
    using that unfolding h(2) by auto
  have tokh: "token h = token q" using h(7) tok by simp
  have wf: "length (token h) \<le> 8" "token h \<noteq> [] \<longrightarrow> IS_OPTION h 19" "length (if_match h) \<le> 8" "length (etag h) \<le> 8"
    "length (accept h) \<le> 2" "\<forall>v\<in>set (location_path h) \<union> set (uri_path h) \<union> set (uri_query h). length v < 256"
    "IS_OPTION h 12 \<longrightarrow> unat (content_type h) < 2 ^ 16"
    "IS_OPTION h 8 \<longrightarrow> location_path h \<noteq> []" "IS_OPTION h 11 \<longrightarrow> uri_path h \<noteq> []" "IS_OPTION h 15 \<longrightarrow> uri_query h \<noteq> []"
    unfolding tokh h(8) h(10-17) h(2)
    using ok ct clonable_def [of q] q by (simp_all add: ball_Un)
  have "IS_OPTION h 6 \<longrightarrow> unat (observe h) < 2 ^ 24"
  proof
    assume "IS_OPTION h 6"
    then have "IS_OPTION q 6" by (simp add: h(2))
    with h(13) ok show "unat (observe h) < 2 ^ 24" by simp
  qed
  then show thesis
    by (rule that [OF h(1) view h(6) wf _ opts])
qed

section \<open>The next request\<close>

text \<open>What an exchange of several requests keeps: everything but the message id, the block and its
  bytes.  The bounds hold for the requests that \<open>core/\<close> builds.\<close>

definition template_ok :: "coap_view_t \<Rightarrow> bool" where
  "template_ok V \<longleftrightarrow> v_type V = COAP_TYPE_CON \<and> v_code V \<noteq> 0 \<and> v_uri_host V = None \<and> v_location_query V = None
     \<and> v_max_age V = COAP_DEFAULT_MAX_AGE \<and> v_block2 V = None \<and> v_size V = None
     \<and> unat (v_content_type V) < 2 ^ 16 \<and> (case v_observe V of None \<Rightarrow> True | Some x \<Rightarrow> unat x < 2 ^ 24)
     \<and> multi_size (v_location_path V) + multi_size (v_uri_path V) + multi_size (v_uri_query V) \<le> 60000"

definition request_view :: "coap_view_t \<Rightarrow> u16 \<Rightarrow> u32 \<times> bool \<times> u16 \<Rightarrow> bytes \<Rightarrow> coap_view_t" where
  "request_view V m b pl = V\<lparr>v_mid := m, v_block1 := Some b, v_payload := pl\<rparr>"

text \<open>The request with its Block1 option and the bytes of the block.\<close>

definition block_request :: "coap_packet_t \<Rightarrow> u32 \<Rightarrow> bool \<Rightarrow> u16 \<Rightarrow> bytes \<Rightarrow> coap_packet_t" where
  "block_request h num isMore z chunk =
     snd (coap_set_payload (snd (coap_set_header_block1 h num (if isMore then 1 else 0) z)) (Some chunk))"

lemma coap_parse_message_fields:
  assumes "coap_parse_message server (\<lambda>_. True) data = (NO_ERROR, q)"
  shows "parsed_fields q"
proof -
  let ?p = "coap_zero\<lparr>version := drop_bit 6 (data ! 0 AND 0xC0),
      msg_type := type_of_code (drop_bit 4 (data ! 0 AND 0x30)), code := data ! 1,
      mid := push_bit 8 (ucast (data ! 2)) OR ucast (data ! 3),
       token := replicate (unat (data ! 0 AND 0x0F)) 0\<rparr>"
  have zero: "proxy_uri coap_zero = None" "uri_host coap_zero = None" "location_query coap_zero = None"
    "accept coap_zero = []" "token coap_zero = []"
    by (simp_all add: coap_zero_def)
  have "parsed_fields (?p\<lparr>token := []\<rparr>)" "parsed_fields (SET_OPTION (?p\<lparr>token := t\<rparr>) OPT_TOKEN)" for t
    by (simp_all add: parsed_fields_def zero)
  then show ?thesis
    using assms unfolding coap_parse_message_def Let_def
    by (auto split: if_splits elim!: coap_parse_loop_fields)
qed

lemma serialized_message:
  assumes "coap_wf p" "v_code (coap_view p) \<noteq> 0"
  obtains q where "coap_parse_message server (\<lambda>_. True) (fst (coap_serialize_message p)) = (NO_ERROR, q)"
    "coap_view q = coap_view p" "parsed_fields q" "coap_parsed_ok q"
proof -
  have "code p \<noteq> 0" using assms(2) by (simp add: coap_view_def)
  then obtain q where q: "coap_parse_message server (\<lambda>_. True) (fst (coap_serialize_message p)) = (NO_ERROR, q)"
    "coap_view q = coap_view p"
    by (rule coap_parse_serialized [OF assms(1)])
  from that [OF q coap_parse_message_fields [OF q(1)]] q(1) show thesis
    using coap_parse_message_ok [OF q(1)] by simp
qed

lemma view_fields:
  "v_type (coap_view p) = msg_type p" "v_code (coap_view p) = code p" "v_mid (coap_view p) = mid p"
  "v_token (coap_view p) = coap_get_header_token p"
  "v_uri_host (coap_view p) = coap_get_header_uri_host p" "v_observe (coap_view p) = coap_get_header_observe p"
  "v_content_type (coap_view p) = coap_get_header_content_type p"
  "v_location_query (coap_view p) = coap_get_header_location_query p"
  "v_block1 (coap_view p) = block_view (coap_get_header_block1 p)"
  "v_location_path (coap_view p) = (if IS_OPTION p OPT_LOCATION_PATH then location_path p else [])"
  "v_uri_path (coap_view p) = (if IS_OPTION p OPT_URI_PATH then uri_path p else [])"
  "v_uri_query (coap_view p) = (if IS_OPTION p OPT_URI_QUERY then uri_query p else [])"
  "v_payload (coap_view p) = coap_get_payload p"
  by (simp_all add: coap_view_def)

lemma template_clonable:
  assumes "coap_view q = request_view V m b pl" "template_ok V" "parsed_fields q" "coap_parsed_ok q"
  shows "clonable q" "IS_OPTION q OPT_CONTENT_TYPE" "code q = v_code V" "msg_type q = COAP_TYPE_CON"
proof -
  have v: "coap_get_header_uri_host q = None" "coap_get_header_location_query q = None" "code q = v_code V"
    "msg_type q = COAP_TYPE_CON" "coap_get_header_observe q = v_observe V" "coap_get_header_content_type q = v_content_type V"
    using assms(1,2) view_fields [of q] by (simp_all add: request_view_def template_ok_def)
  then show "code q = v_code V" "msg_type q = COAP_TYPE_CON" by simp_all
  show "IS_OPTION q OPT_CONTENT_TYPE"
  proof (rule ccontr)
    assume "\<not> IS_OPTION q OPT_CONTENT_TYPE"
    with v(6) have "v_content_type V = - 1" by (simp add: coap_get_header_content_type_def)
    moreover have "unat (- 1 :: u32) = 4294967295" by (simp add: unsigned_minus_1_eq_mask mask_eq_exp_minus_1)
    ultimately show False using assms(2) by (simp add: template_ok_def)
  qed
  have "uri_host q = None" "location_query q = None"
    using v(1,2) assms(3) by (auto simp: coap_get_header_uri_host_def coap_get_header_location_query_def
        parsed_fields_def split: if_splits)
  moreover have "IS_OPTION q OPT_OBSERVE \<longrightarrow> unat (observe q) < 2 ^ 24"
    using v(5) assms(2) by (auto simp: coap_get_header_observe_def template_ok_def split: option.splits)
  ultimately show "clonable q" using assms(3,4) by (simp add: clonable_def)
qed

lemma serialize_size_bound:
  assumes "\<And>n. IS_OPTION p n \<Longrightarrow> n \<in> {1, 4, 5, 6, 7, 8, 11, 12, 15, 17, 19, 27}"
    "length (token p) \<le> 8" "length (if_match p) \<le> 8" "length (etag p) \<le> 8" "length (accept p) \<le> 2"
    "length (ptr_bytes (payload p)) \<le> 2048"
    "multi_size (v_location_path (coap_view p)) + multi_size (v_uri_path (coap_view p))
      + multi_size (v_uri_query (coap_view p)) \<le> 60000"
  shows "coap_serialize_get_size p < 65536"
proof -
  have no: "\<not> IS_OPTION p n" if "n \<in> {3, 14, 20, 23, 28, 35}" for n using assms(1) [of n] that by auto
  have seg: "(if b then multi_size l else 0) = multi_size (if b then l else [])" for b l
    by (simp add: multi_size_def)
  have "coap_serialize_get_size p \<le> 4 + length (ptr_bytes (payload p)) + length (token p) + (5 + length (if_match p)) + 0
      + (5 + length (etag p)) + 5 + 5 + 5 + multi_size (v_location_path (coap_view p))
      + multi_size (v_uri_path (coap_view p)) + 5 + 0 + multi_size (v_uri_query (coap_view p))
      + length (accept p) * 5 + 0 + 0 + 5 + 0 + 0 + 1"
    unfolding coap_serialize_get_size_def seg view_fields
    by (intro add_mono order_refl) (simp_all add: no)
  with assms(2-) show ?thesis by linarith
qed

definition next_transaction ::
    "('p, 'c, 'u) lwm2m_transaction_t \<Rightarrow> u16 \<Rightarrow> coap_packet_t \<Rightarrow> ('p, 'c, 'u) lwm2m_transaction_t" where
  "next_transaction t m h = \<lparr>mID = m, peerH = peerH t, ack_received = False, response_timeout = 0,
     retrans_counter = 0, retrans_time = 0, message = h, buffer = None, t_payload = Some (ptr_bytes (t_payload t)),
     callback = callback t, userData = userData t\<rparr>"

definition all_mem :: packet_mem where
  "all_mem = \<lparr>parseMem = (\<lambda>_. True), newMem = (\<lambda>_. True), payloadMem = True, bufferMem = True, blockMem = (\<lambda>_. True)\<rparr>"

lemma transaction_new_clone:
  assumes "length tok \<le> 8"
  shows "transaction_new (\<lambda>_. True) now junk (Some peer) c None None m (word_of_nat (length tok)) (Some tok) u
    = Some \<lparr>mID = m, peerH = peer, ack_received = False, response_timeout = 0, retrans_counter = 0, retrans_time = 0,
        message = empty_request c m tok, buffer = None, t_payload = None, callback = None, userData = u\<rparr>"
proof -
  have "unat (word_of_nat (length tok) :: u8) = length tok" using assms by (simp add: unat_of_nat)
  moreover from this have "(0 :: u8) < word_of_nat (length tok) \<longleftrightarrow> tok \<noteq> []"
    by (simp add: word_less_nat_alt)
  ultimately show ?thesis
    by (auto simp: transaction_new_def uri_set_ids_def Let_def empty_request_def)
qed

lemma block_request_view:
  assumes "length (options h) = 5"
  shows "coap_view ((SET_OPTION (h\<lparr>block1_num := num, block1_more := b, block1_size := z\<rparr>) OPT_BLOCK1)\<lparr>payload := Some chunk\<rparr>)
    = (coap_view h)\<lparr>v_block1 := Some (num, b \<noteq> 0, z), v_payload := chunk\<rparr>"
  using assms
  by (simp split del: if_split cong: if_cong add: coap_view_def coap_get_payload_def coap_get_header_token_def coap_get_header_if_match_def
      coap_get_header_uri_host_def coap_get_header_etag_def coap_get_header_if_none_match_def
      coap_get_header_observe_def coap_get_header_uri_port_def coap_get_header_content_type_def
      coap_get_header_max_age_def coap_get_header_accept_def coap_get_header_location_query_def
      coap_get_header_block1_def coap_get_header_block2_def coap_get_header_size_def block_view_def ptr_bytes_def)

lemma request_view_again:
  assumes "template_ok V" "W = request_view V m0 b0 p0"
  shows "W\<lparr>v_type := COAP_TYPE_CON, v_code := v_code V, v_mid := m, v_max_age := COAP_DEFAULT_MAX_AGE,
        v_block2 := None, v_block1 := None, v_size := None, v_payload := []\<rparr>
      \<lparr>v_block1 := Some b, v_payload := chunk\<rparr> = request_view V m b chunk"
  using assms by (simp add: request_view_def template_ok_def)

text \<open>The clone of a serialized request, with the next block in it, is the same request.\<close>

lemma next_request:
  assumes wf: "coap_wf p" and view: "coap_view p = request_view V m0 b0 p0" and V: "template_ok V"
    and buf: "buffer t = Some (fst (coap_serialize_message p))"
  obtains h where "prv_create_next_block_transaction env all_mem t m = Ret (Some (next_transaction t m h))"
    "\<And>num isMore z chunk. unat num < 2 ^ 20 \<Longrightarrow> z \<in> set szx_sizes \<Longrightarrow> length chunk \<le> 2048 \<Longrightarrow> 
       coap_wf (block_request h num isMore z chunk) \<and> coap_sizes_ok (block_request h num isMore z chunk)
       \<and> coap_serialize_get_size (block_request h num isMore z chunk) < 65536
       \<and> coap_view (block_request h num isMore z chunk) = request_view V m (num, isMore, z) chunk
       \<and> block1_num (block_request h num isMore z chunk) = num
       \<and> block1_size (block_request h num isMore z chunk) = z"
proof -
  have "v_code (coap_view p) \<noteq> 0" using view V by (simp add: request_view_def template_ok_def)
  then obtain q where q: "coap_parse_message (serverMode env) (\<lambda>_. True) (fst (coap_serialize_message p)) = (NO_ERROR, q)"
    "coap_view q = coap_view p" "parsed_fields q" "coap_parsed_ok q"
    by (rule serialized_message [OF wf])
  note qc = template_clonable [OF _ V q(3,4), of m0 b0 p0, unfolded q(2), OF view]
  obtain h where h: "clone_header q (empty_request (code q) m (token q)) = Ret h"
    "coap_view h = (coap_view q)\<lparr>v_type := COAP_TYPE_CON, v_code := code q, v_mid := m, v_max_age := COAP_DEFAULT_MAX_AGE,
        v_block2 := None, v_block1 := None, v_size := None, v_payload := []\<rparr>"
    "length (options h) = 5"
    "length (token h) \<le> 8" "token h \<noteq> [] \<longrightarrow> IS_OPTION h 19" "length (if_match h) \<le> 8" "length (etag h) \<le> 8"
    "length (accept h) \<le> 2" "\<forall>v\<in>set (location_path h) \<union> set (uri_path h) \<union> set (uri_query h). length v < 256"
    "IS_OPTION h 12 \<longrightarrow> unat (content_type h) < 2 ^ 16"
    "IS_OPTION h 8 \<longrightarrow> location_path h \<noteq> []" "IS_OPTION h 11 \<longrightarrow> uri_path h \<noteq> []" "IS_OPTION h 15 \<longrightarrow> uri_query h \<noteq> []"
    "IS_OPTION h 6 \<longrightarrow> unat (observe h) < 2 ^ 24"
    "\<And>n. IS_OPTION h n \<Longrightarrow> n \<in> {1, 4, 5, 6, 7, 8, 11, 12, 15, 17, 19}"
    by (rule clone_view [OF qc(1,2), of "code q" m]) blast
  have tok: "length (token q) \<le> 8" using q(4) by (simp add: coap_parsed_ok_def)
  have made: "prv_create_next_block_transaction env all_mem t m = Ret (Some (next_transaction t m h))"
    using q(1) h(1)
    by (simp add: prv_create_next_block_transaction_def all_mem_def buf ptr_bytes_def next_transaction_def
        transaction_new_clone [OF tok])
  show thesis
  proof (rule that [OF made])
    fix num :: u32 and isMore and z :: u16 and chunk :: bytes
    assume b: "unat num < 2 ^ 20" "z \<in> set szx_sizes" "length chunk \<le> 2048"
    let ?r = "block_request h num isMore z chunk"
    show "coap_wf ?r \<and> coap_sizes_ok ?r \<and> coap_serialize_get_size ?r < 65536
       \<and> coap_view ?r = request_view V m (num, isMore, z) chunk \<and> block1_num ?r = num \<and> block1_size ?r = z"
    proof (intro conjI)
      have z: "\<not> z < 16" "\<not> 2048 < z" using b(2) by (auto simp: szx_sizes_def)
      have n: "\<not> 0xFFFFF < num" using b(1) by (simp add: word_less_nat_alt)
      have r: "?r = (SET_OPTION (h\<lparr>block1_num := num, block1_more := (if isMore then 1 else 0), block1_size := z\<rparr>) 27)
          \<lparr>payload := Some chunk\<rparr>"
        using z n b(3) by (simp add: block_request_def coap_set_header_block1_def coap_set_payload_def ptr_bytes_def)
      show "block1_num ?r = num" "block1_size ?r = z" by (simp_all add: r)
      have opts: "IS_OPTION ?r n \<longleftrightarrow> IS_OPTION h n \<or> n = 27" for n using h(3) by (auto simp: r)
      have "coap_view ?r = (coap_view h)\<lparr>v_block1 := Some (num, isMore, z), v_payload := chunk\<rparr>"
        unfolding r block_request_view [OF h(3)] by simp
      also have "\<dots> = request_view V m (num, isMore, z) chunk"
        using request_view_again [OF V view, where b = "(num, isMore, z)" and chunk = chunk and m = m]
        unfolding h(2) q(2) qc(3) .
      finally show rv: "coap_view ?r = request_view V m (num, isMore, z) chunk" .
      have dom: "n \<in> {1, 4, 5, 6, 7, 8, 11, 12, 15, 17, 19, 27}" if "IS_OPTION ?r n" for n
        using that h(15) [of n] unfolding opts by auto
      have fields: "token ?r = token h" "if_match ?r = if_match h" "etag ?r = etag h" "accept ?r = accept h"
        "payload ?r = Some chunk" "options ?r = options (SET_OPTION h 27)" "location_path ?r = location_path h"
        "uri_path ?r = uri_path h" "uri_query ?r = uri_query h" "content_type ?r = content_type h" "observe ?r = observe h"
        by (simp_all add: r SET_OPTION_def)
      show "coap_serialize_get_size ?r < 65536"
        by (rule serialize_size_bound [OF dom])
          (use h(4-8) b(3) V in \<open>simp_all add: fields ptr_bytes_def rv request_view_def template_ok_def\<close>)
      have no: "\<not> IS_OPTION ?r n" if "n \<in> {3, 14, 20, 23, 28, 35}" for n using dom [of n] that by auto
      show "coap_wf ?r"
        using h(3-13) b(1,2) no
        by (simp add: coap_wf_def coap_lists_ok_def opts fields) (simp add: r)
      show "coap_sizes_ok ?r"
      proof -
        have "IS_OPTION h 12 \<Longrightarrow> unat (content_type h) < 2 ^ 24" using h(10) by simp
        moreover have "block1_num ?r = num" by (simp add: r)
        ultimately show ?thesis using h(14) b(1) no by (simp add: coap_sizes_ok_def opts fields)
      qed
    qed
  qed
qed

text \<open>A transaction that has sent block \<open>i\<close> of a payload.\<close>

definition uploading ::
    "coap_view_t \<Rightarrow> bytes \<Rightarrow> u16 \<Rightarrow> nat \<Rightarrow> ('p, 'c, 'u) lwm2m_transaction_t \<Rightarrow> bool" where
  "uploading V pl z i t \<longleftrightarrow>
     (\<exists>p. coap_wf p \<and> coap_view p = request_view V (mID t) (fst (payload_block (unat z) pl i),
            fst (snd (payload_block (unat z) pl i)), z) (snd (snd (payload_block (unat z) pl i)))
        \<and> block1_num p = word_of_nat i \<and> block1_size p = z
        \<and> buffer t = Some (fst (coap_serialize_message p)) \<and> message t = snd (coap_serialize_message p))
     \<and> t_payload t = Some pl \<and> \<not> ack_received t"

lemma serialized_fields:
  "block1_num (snd (coap_serialize_message p)) = block1_num p" "block1_size (snd (coap_serialize_message p)) = block1_size p"
  "mid (snd (coap_serialize_message p)) = mid p" "code (snd (coap_serialize_message p)) = code p"
  "token (snd (coap_serialize_message p)) = token p"
  "IS_OPTION (snd (coap_serialize_message p)) n = IS_OPTION p n"
  by (simp_all add: coap_serialize_message_def Let_def coap_free_header_def split: prod.split)

lemma uploading_message:
  assumes "uploading V pl z i t"
  shows "block1_num (message t) = word_of_nat i" "block1_size (message t) = z" "mid (message t) = mID t"
proof -
  obtain p where p: "coap_view p = request_view V (mID t) (fst (payload_block (unat z) pl i),
      fst (snd (payload_block (unat z) pl i)), z) (snd (snd (payload_block (unat z) pl i)))"
    "block1_num p = word_of_nat i" "block1_size p = z" "message t = snd (coap_serialize_message p)"
    using assms by (auto simp: uploading_def)
  have "mid p = mID t" using view_fields(3) [of p] unfolding p(1) by (simp add: request_view_def)
  with p show "block1_num (message t) = word_of_nat i" "block1_size (message t) = z" "mid (message t) = mID t"
    by (simp_all add: serialized_fields)
qed

lemma send_new_block:
  assumes up: "uploading V pl z i t" and V: "template_ok V" and z: "z \<in> set szx_sizes"
    and k: "k * unat z < length pl" "k < 2 ^ 20" "length pl < 2 ^ 32" and now: "0 \<le> gettime env"
  obtains t1 t2 bs where
    "prv_send_new_block1 env all_mem ctx t (word_of_nat k) z
      = Ret (0, ctx\<lparr>nextMID := nextMID ctx + 1,
          transactionList := update_node t2 (lwm2m_list_add mID (transactionList ctx) t1)\<rparr>, [Sent (peerH t) bs])"
    "mID t1 = nextMID ctx" "mID t2 = nextMID ctx" "peerH t2 = peerH t" "callback t2 = callback t"
    "uploading V pl z k t2" "buffer t2 = Some bs"
proof -
  obtain p where p: "coap_wf p" "coap_view p = request_view V (mID t) (fst (payload_block (unat z) pl i),
      fst (snd (payload_block (unat z) pl i)), z) (snd (snd (payload_block (unat z) pl i)))"
    "buffer t = Some (fst (coap_serialize_message p))" and pl: "t_payload t = Some pl"
    using up by (auto simp: uploading_def)
  obtain h where made: "prv_create_next_block_transaction env all_mem t (nextMID ctx)
      = Ret (Some (next_transaction t (nextMID ctx) h))"
    and req: "\<And>num isMore z chunk. unat num < 2 ^ 20 \<Longrightarrow> z \<in> set szx_sizes \<Longrightarrow> length chunk \<le> 2048 \<Longrightarrow>
       coap_wf (block_request h num isMore z chunk) \<and> coap_sizes_ok (block_request h num isMore z chunk)
       \<and> coap_serialize_get_size (block_request h num isMore z chunk) < 65536
       \<and> coap_view (block_request h num isMore z chunk) = request_view V (nextMID ctx) (num, isMore, z) chunk
       \<and> block1_num (block_request h num isMore z chunk) = num
       \<and> block1_size (block_request h num isMore z chunk) = z"
    by (rule next_request [OF p(1,2) V p(3), of env "nextMID ctx"]) blast
  define num :: u32 where "num = word_of_nat k"
  have num: "unat num = k" using k(2) by (simp add: num_def unat_of_nat)
  have off: "unat (num * ucast z) = k * unat z"
    using k(1,3) num by (simp add: unat_word_ariths)
  define isMore where "isMore \<longleftrightarrow> unat z < length pl - k * unat z"
  define chunk where "chunk = take (unat z) (drop (k * unat z) pl)"
  have z2048: "unat z \<le> 2048" using z by (auto simp: szx_sizes_def)
  have chunk: "take (min (unat z) (length pl - k * unat z)) (drop (k * unat z) pl) = chunk"
    by (simp add: chunk_def min_def)
  define r where "r = block_request h num isMore z chunk"
  have r: "coap_wf r" "coap_sizes_ok r" "coap_serialize_get_size r < 65536"
    "coap_view r = request_view V (nextMID ctx) (num, isMore, z) chunk" "block1_num r = num" "block1_size r = z"
    using req [of num z chunk isMore] num k(2) z z2048 by (simp_all add: r_def chunk_def)
  define t1 where "t1 = (next_transaction t (nextMID ctx) h)\<lparr>message := r\<rparr>"
  have ready: "transaction_ready t1"
    using r by (simp add: t1_def next_transaction_def transaction_ready_def coap_wf_def)
  define bs where "bs = fst (coap_serialize_message r)"
  define t2 where "t2 = t1\<lparr>buffer := Some bs, message := snd (coap_serialize_message r),
      retrans_time := gettime env + respTimeout env, retrans_counter := 2\<rparr>"
  have send: "transaction_send (respTimeout env) (gettime env) True t1 = Ret (0, Some t2, [Sent (peerH t) bs])"
    unfolding transaction_send_first [OF ready]
    by (subst transmit_first) (use now in \<open>simp_all add: t1_def t2_def bs_def next_transaction_def\<close>)
  have "prv_send_new_block1 env all_mem ctx t num z
      = Ret (0, ctx\<lparr>nextMID := nextMID ctx + 1,
          transactionList := update_node t2 (lwm2m_list_add mID (transactionList ctx) t1)\<rparr>, [Sent (peerH t) bs])"
  proof -
    have len: "\<not> length (ptr_bytes (t_payload t)) \<le> unat num * unat z" using k(1) num pl by (simp add: ptr_bytes_def)
    have same: "snd (coap_set_payload (snd (coap_set_header_block1 h num (if isMore then 1 else 0) z)) (Some chunk)) = r"
      by (simp add: r_def block_request_def)
    have fields: "ptr_bytes (t_payload (next_transaction t (nextMID ctx) h)) = pl"
      "message (next_transaction t (nextMID ctx) h) = h" "bufferMem all_mem"
      using pl by (simp_all add: next_transaction_def ptr_bytes_def all_mem_def)
    have "prv_send_new_block1 env all_mem ctx t num z = send_on_list env True
        (ctx\<lparr>nextMID := nextMID ctx + 1, transactionList := lwm2m_list_add mID (transactionList ctx) t1\<rparr>) t1"
      unfolding prv_send_new_block1_def Let_def made
      using len by (simp add: fields off num chunk isMore_def [symmetric] same t1_def [symmetric])
    also have "\<dots> = Ret (0, ctx\<lparr>nextMID := nextMID ctx + 1,
        transactionList := update_node t2 (lwm2m_list_add mID (transactionList ctx) t1)\<rparr>, [Sent (peerH t) bs])"
      by (simp add: send_on_list_def send)
    finally show ?thesis .
  qed
  moreover have "mID t1 = nextMID ctx" "mID t2 = nextMID ctx" "peerH t2 = peerH t" "callback t2 = callback t" "buffer t2 = Some bs"
    by (simp_all add: t1_def t2_def next_transaction_def)
  moreover have "uploading V pl z k t2"
    unfolding uploading_def using r pl num
    by (auto simp: t1_def t2_def next_transaction_def bs_def payload_block_def isMore_def chunk_def num_def ptr_bytes_def)
  ultimately show thesis using that num_def by blast
qed

section \<open>Uploads\<close>

lemma get_transaction:
  assumes "id_sorted mID l" "t \<in> set l" "eq from (peerH t)"
  shows "prv_get_transaction eq from (mID t) l = Some t"
  using assms
proof (induction l)
  case (Cons s l)
  then show ?case
  proof (cases "s = t")
    case False
    with Cons have "t \<in> set l" "mID s \<noteq> mID t" by auto
    with Cons show ?thesis by auto
  qed auto
qed simp

lemma add_fresh:
  assumes "id_sorted mID l" "mID t1 \<notin> mID ` set l" "mID t2 = mID t1"
  shows "id_sorted mID (update_node t2 (lwm2m_list_add mID l t1))"
    "set (update_node t2 (lwm2m_list_add mID l t1)) = insert t2 (set l)"
proof -
  have none: "id_map mID l (mID t1) = None" using assms(1,2) by (auto simp: id_map_eq_None)
  show "id_sorted mID (update_node t2 (lwm2m_list_add mID l t1))"
    unfolding id_sorted_update by (rule sorted_list.add_invar [OF assms(1) none])
  have "set (lwm2m_list_add mID l t1) = insert t1 (set l)"
    by (rule lwm2m_list_add_correct(3) [OF assms(1,2)])
  then show "set (update_node t2 (lwm2m_list_add mID l t1)) = insert t2 (set l)"
    using assms(2,3) by (auto simp: update_node_def image_iff)
qed

text \<open>The answer of a peer that has stored the block of message \<open>m0\<close> and asks for the next one, in
  blocks of the same size.\<close>

definition continues ::
    "'p packet_env \<Rightarrow> coap_view_t \<Rightarrow> u16 \<Rightarrow> u16 \<Rightarrow> coap_packet_t \<Rightarrow> bool" where
  "continues env V z m0 m \<longleftrightarrow> msg_type m = COAP_TYPE_ACK \<and> code m = COAP_231_CONTINUE \<and> IS_OPTION m OPT_BLOCK1
     \<and> mid m = m0 \<and> block1_size m = z \<and> coap_get_header_token m = v_token V
     \<and> length (ptr_bytes (payload m)) \<le> unat (coap_block_size env)"

text \<open>The block that a datagram carries, as its receiver parses it.\<close>

definition sent_block :: "bool \<Rightarrow> bytes \<Rightarrow> u32 \<times> bool \<times> bytes" where
  "sent_block server bs = (let q = snd (coap_parse_message server (\<lambda>_. True) bs)
     in (block1_num q, block1_more q \<noteq> 0, ptr_bytes (payload q)))"

lemma uploading_sent:
  assumes "uploading V pl z i t" "template_ok V" "buffer t = Some bs"
  shows "sent_block server bs = payload_block (unat z) pl i"
proof -
  obtain p where p: "coap_wf p" "coap_view p = request_view V (mID t) (fst (payload_block (unat z) pl i),
      fst (snd (payload_block (unat z) pl i)), z) (snd (snd (payload_block (unat z) pl i)))"
    "bs = fst (coap_serialize_message p)"
    using assms(1,3) by (auto simp: uploading_def)
  have "v_code (coap_view p) \<noteq> 0" using p(2) assms(2) by (simp add: request_view_def template_ok_def)
  then obtain q where q: "coap_parse_message server (\<lambda>_. True) (fst (coap_serialize_message p)) = (NO_ERROR, q)"
    "coap_view q = coap_view p"
    by (rule serialized_message [OF p(1)]) blast
  have "block_view (coap_get_header_block1 q) = Some (fst (payload_block (unat z) pl i),
      fst (snd (payload_block (unat z) pl i)), z)" "coap_get_payload q = snd (snd (payload_block (unat z) pl i))"
    using view_fields(9,13) [of q] unfolding q(2) p(2) by (simp_all add: request_view_def)
  then show ?thesis
    by (auto simp: sent_block_def p(3) q(1) block_view_def coap_get_header_block1_def coap_get_payload_def
        split: if_splits)
qed

lemma uploading_answers:
  assumes "uploading V pl z i t" "coap_get_header_token m = v_token V"
  shows "answers (message t) m"
proof -
  obtain p where "coap_view p = request_view V (mID t) (fst (payload_block (unat z) pl i),
      fst (snd (payload_block (unat z) pl i)), z) (snd (snd (payload_block (unat z) pl i)))"
    "message t = snd (coap_serialize_message p)"
    using assms(1) by (auto simp: uploading_def)
  then show ?thesis
    using view_fields(4) [of p] assms(2)
    by (auto simp: answers_def serialized_fields request_view_def coap_get_header_token_def)
qed

lemma upload_step:
  assumes up: "uploading V pl z i t" and V: "template_ok V" and z: "z \<in> set szx_sizes"
    and list: "tlist_ok (transactionList ctx)" "t \<in> set (transactionList ctx)" "same env from (peerH t)"
    and k: "Suc i * unat z < length pl" "Suc i < 2 ^ 20" "length pl < 2 ^ 32" and now: "0 \<le> gettime env"
    and fresh: "nextMID ctx \<notin> mID ` set (transactionList ctx)" and m: "continues env V z (mID t) m"
  obtains t2 l es where
    "handle_ack env all_mem ctx from m = Ret (NO_ERROR, ctx\<lparr>nextMID := nextMID ctx + 1, transactionList := l\<rparr>, es)"
    "uploading V pl z (Suc i) t2" "t2 \<in> set l" "mID t2 = nextMID ctx" "peerH t2 = peerH t" "tlist_ok l"
    "set l = insert t2 (set (transactionList ctx) - {t})"
    "[bs. Sent p bs \<leftarrow> es] = [the (buffer t2)]"
proof -
  have size: "block1_size (message t) = z" "block1_num (message t) = word_of_nat i"
    by (rule uploading_message [OF up])+
  have pos: "z \<noteq> 0" using z by (auto simp: szx_sizes_def)
  have get: "prv_get_transaction (same env) from (mID t) (transactionList ctx) = Some t"
    using list by (intro get_transaction) (simp_all add: tlist_ok_def)
  obtain t1 t2 bs where sent:
    "prv_send_new_block1 env all_mem ctx t (word_of_nat (Suc i)) z
      = Ret (0, ctx\<lparr>nextMID := nextMID ctx + 1,
          transactionList := update_node t2 (lwm2m_list_add mID (transactionList ctx) t1)\<rparr>, [Sent (peerH t) bs])"
    "mID t1 = nextMID ctx" "mID t2 = nextMID ctx" "peerH t2 = peerH t" "callback t2 = callback t"
    "uploading V pl z (Suc i) t2" "buffer t2 = Some bs"
    by (rule send_new_block [OF up V z k now, of ctx])
  have "0 < unat z" using pos by (simp add: unat_gt_0)
  then have zz: "z div z = 1" by (simp add: word_unat_eq_iff unat_div)
  have num: "(if block1_num (message t) = 0 then ucast (z div z) else block1_num (message t) + 1) = (word_of_nat (Suc i) :: u32)"
  proof (cases i)
    case (Suc j)
    have "unat (word_of_nat i :: u32) = i" using k(2) by (simp add: unat_of_nat)
    then have "(word_of_nat i :: u32) \<noteq> 0" using Suc by auto
    with size show ?thesis by (simp add: add.commute)
  qed (use size zz in simp)
  have nxt: "prv_send_next_block1 env all_mem ctx from (mID t) z
      = prv_send_new_block1 env all_mem ctx t (word_of_nat (Suc i)) z"
    using num pos by (auto simp: prv_send_next_block1_def get size(1) Let_def add.commute split: if_splits)
  let ?l = "update_node t2 (lwm2m_list_add mID (transactionList ctx) t1)"
  have sorted: "id_sorted mID (transactionList ctx)" using list(1) by (simp add: tlist_ok_def)
  have l: "id_sorted mID ?l" "set ?l = insert t2 (set (transactionList ctx))"
    using add_fresh [OF sorted, of t1 t2] fresh sent(2,3) by simp_all
  have ok: "tlist_ok ?l" using l list(1) uploading_message(3) [OF sent(6)] by (auto simp: tlist_ok_def)
  have "\<exists>l'. transaction_handleResponse (respTimeout env) (gettime env) (same env) from m False ?l ?l
      = (True, l', case callback t of None \<Rightarrow> [] | Some c \<Rightarrow> [Called c (mID t) (Some m)])
    \<and> set l' = set ?l - {t} \<and> tlist_ok l'"
    using ok l(2) list(2,3) m up uploading_answers [OF up]
    by (intro transaction_answered) (auto simp: continues_def uploading_def)
  then obtain l' where l': "transaction_handleResponse (respTimeout env) (gettime env) (same env) from m False ?l ?l
      = (True, l', case callback t of None \<Rightarrow> [] | Some c \<Rightarrow> [Called c (mID t) (Some m)])"
    "set l' = set ?l - {t}" "tlist_ok l'" by blast
  have "t2 \<noteq> t" using fresh list(2) sent(3) by (metis imageI)
  show thesis
  proof (rule that [of l' "Sent (peerH t) bs # (case callback t of None \<Rightarrow> [] | Some c \<Rightarrow> [Called c (mID t) (Some m)])" t2])
    show "handle_ack env all_mem ctx from m = Ret (NO_ERROR, ctx\<lparr>nextMID := nextMID ctx + 1, transactionList := l'\<rparr>,
        Sent (peerH t) bs # (case callback t of None \<Rightarrow> [] | Some c \<Rightarrow> [Called c (mID t) (Some m)]))"
      using m nxt sent(1) l'(1)
      by (simp add: handle_ack_def continues_def response_on_list_def Let_def)
  qed (use sent l' l(2) \<open>t2 \<noteq> t\<close> in \<open>auto split: option.split\<close>)
qed

text \<open>A run of acknowledgements.\<close>

fun handle_acks ::
    "'p packet_env \<Rightarrow> packet_mem \<Rightarrow> ('p, 'c, 'u) packet_ctx \<Rightarrow> 'p \<Rightarrow> coap_packet_t list
      \<Rightarrow> (('p, 'c, 'u) packet_ctx \<times> ('p, 'c) event list) outcome" where
  "handle_acks env mem ctx from [] = Ret (ctx, [])"
| "handle_acks env mem ctx from (m # ms) =
     oc_bind (handle_ack env mem ctx from m) (\<lambda>(c, ctx', es).
       oc_bind (handle_acks env mem ctx' from ms) (\<lambda>(ctx2, es2). Ret (ctx2, es @ es2)))"

definition datagrams :: "('p, 'c) event list \<Rightarrow> bytes list" where
  "datagrams es = [bs. Sent p bs \<leftarrow> es]"

lemma datagrams_append: "datagrams (es @ es') = datagrams es @ datagrams es'"
  by (simp add: datagrams_def)

text \<open>The message id that the \<open>j\<close>-th acknowledgement of an upload has to carry.\<close>

definition ack_mid :: "u16 \<Rightarrow> u16 \<Rightarrow> nat \<Rightarrow> u16" where
  "ack_mid first later j = (if j = 0 then first else later + word_of_nat (j - 1))"

lemma word_of_nat_Suc_neq: "j < 65535 \<Longrightarrow> (c :: u16) + 1 + word_of_nat j \<noteq> c"
proof
  assume j: "j < 65535" and "c + 1 + word_of_nat j = c"
  then have "(1 + word_of_nat j :: u16) = 0" by (simp add: add.assoc)
  then have "unat (1 + word_of_nat j :: u16) = 0" by simp
  with j show False by (simp add: unat_word_ariths unat_of_nat)
qed

lemma upload_run:
  assumes V: "template_ok V" and z: "z \<in> set szx_sizes" and now: "0 \<le> gettime env" and len: "length pl < 2 ^ 32"
  shows "uploading V pl z i t \<Longrightarrow> tlist_ok (transactionList ctx) \<Longrightarrow> t \<in> set (transactionList ctx) \<Longrightarrow>
    same env from (peerH t) \<Longrightarrow> length ms < 65536 \<Longrightarrow> i + length ms < 2 ^ 20 \<Longrightarrow>
    ms = [] \<or> (i + length ms) * unat z < length pl \<Longrightarrow>
    \<forall>j<length ms. continues env V z (ack_mid (mID t) (nextMID ctx) j) (ms ! j) \<Longrightarrow>
    \<forall>j<length ms. nextMID ctx + word_of_nat j \<notin> mID ` set (transactionList ctx) \<Longrightarrow>
    \<exists>ctx' es. handle_acks env all_mem ctx from ms = Ret (ctx', es)
      \<and> map (sent_block server) (datagrams es) = map (payload_block (unat z) pl) [Suc i..<Suc (i + length ms)]
      \<and> tlist_ok (transactionList ctx')"
proof (induction ms arbitrary: i t ctx)
  case Nil
  then show ?case by (simp add: datagrams_def)
next
  case (Cons m ms)
  have k: "Suc i * unat z < length pl" "Suc i < 2 ^ 20"
  proof -
    have "Suc i * unat z \<le> (i + length (m # ms)) * unat z" by (rule mult_le_mono1) simp
    also have "\<dots> < length pl" using Cons.prems(7) by simp
    finally show "Suc i * unat z < length pl" .
    show "Suc i < 2 ^ 20" using Cons.prems(6) by simp
  qed
  have "continues env V z (mID t) m" "nextMID ctx \<notin> mID ` set (transactionList ctx)"
    using Cons.prems(8,9) [rule_format, of 0] by (simp_all add: ack_mid_def)
  then obtain t2 l es where step:
    "handle_ack env all_mem ctx from m = Ret (NO_ERROR, ctx\<lparr>nextMID := nextMID ctx + 1, transactionList := l\<rparr>, es)"
    "uploading V pl z (Suc i) t2" "t2 \<in> set l" "mID t2 = nextMID ctx" "peerH t2 = peerH t" "tlist_ok l"
    "set l = insert t2 (set (transactionList ctx) - {t})" "[bs. Sent p bs \<leftarrow> es] = [the (buffer t2)]"
    using upload_step [OF Cons.prems(1) V z Cons.prems(2,3,4) k len now, of m] by metis
  let ?ctx = "ctx\<lparr>nextMID := nextMID ctx + 1, transactionList := l\<rparr>"
  have "\<exists>ctx' es'. handle_acks env all_mem ?ctx from ms = Ret (ctx', es')
      \<and> map (sent_block server) (datagrams es') = map (payload_block (unat z) pl) [Suc (Suc i)..<Suc (Suc i + length ms)]
      \<and> tlist_ok (transactionList ctx')"
  proof (rule Cons.IH [OF step(2)])
    show "ms = [] \<or> (Suc i + length ms) * unat z < length pl" using Cons.prems(7) by simp
    show "\<forall>j<length ms. continues env V z (ack_mid (mID t2) (nextMID ?ctx) j) (ms ! j)"
    proof (intro allI impI)
      fix j assume "j < length ms"
      with Cons.prems(8) [rule_format, of "Suc j"]
      show "continues env V z (ack_mid (mID t2) (nextMID ?ctx) j) (ms ! j)"
        by (cases j) (simp_all add: ack_mid_def step(4) add.commute add.left_commute)
    qed
    show "\<forall>j<length ms. nextMID ?ctx + word_of_nat j \<notin> mID ` set (transactionList ?ctx)"
    proof (intro allI impI)
      fix j assume j: "j < length ms"
      with Cons.prems(9) [rule_format, of "Suc j"]
      have "nextMID ctx + 1 + word_of_nat j \<notin> mID ` set (transactionList ctx)" by (simp add: add.assoc)
      moreover have "nextMID ctx + 1 + word_of_nat j \<noteq> nextMID ctx"
        using j Cons.prems(5) by (intro word_of_nat_Suc_neq) simp
      ultimately show "nextMID ?ctx + word_of_nat j \<notin> mID ` set (transactionList ?ctx)"
        using step(4,7) by auto
    qed
  qed (use Cons.prems step in simp_all)
  then obtain ctx' es' where rest: "handle_acks env all_mem ?ctx from ms = Ret (ctx', es')"
    "map (sent_block server) (datagrams es') = map (payload_block (unat z) pl) [Suc (Suc i)..<Suc (Suc i + length ms)]"
    "tlist_ok (transactionList ctx')" by blast
  obtain bs where "buffer t2 = Some bs" using step(2) by (auto simp: uploading_def)
  then have "map (sent_block server) (datagrams es) = [payload_block (unat z) pl (Suc i)]"
    using step(8) uploading_sent [OF step(2) V] by (simp add: datagrams_def)
  moreover have "[Suc i..<Suc (i + length (m # ms))] = Suc i # [Suc (Suc i)..<Suc (Suc i + length ms)]"
    using upt_conv_Cons [of "Suc i" "Suc (i + length (m # ms))"] by (simp del: upt_Suc)
  ultimately show ?case
    using step(1) rest by (simp add: datagrams_append del: upt_Suc)
qed

lemma schedule_once: "schedule (\<lambda>_. 0) z pl k = map (payload_block z pl) [0..<k]"
  by (induction k) (simp_all add: schedule_def)

text \<open>C1: an upload in blocks, end to end.  A client that has sent block 0 of a payload and gets,
  for each block, the 2.31 acknowledgement of the peer, sends exactly the remaining blocks; and the
  Block1 handler of the peer that parses these datagrams in order hands out exactly the payload.\<close>

theorem block1_upload:
  assumes "template_ok V" "z \<in> set szx_sizes" "0 \<le> gettime env" "length pl < 2 ^ 32"
    and "uploading V pl z 0 t" "buffer t = Some datagram" "tlist_ok (transactionList ctx)"
      "t \<in> set (transactionList ctx)" "same env from (peerH t)"
    and "block_count (unat z) pl = Suc (length ms)" "length ms < 65536"
    and "\<forall>j<length ms. continues env V z (ack_mid (mID t) (nextMID ctx) j) (ms ! j)"
    and "\<forall>j<length ms. nextMID ctx + word_of_nat j \<notin> mID ` set (transactionList ctx)"
    and "blocks_ok BLOCK_1 l"
  shows "\<exists>ctx' es rs l'. handle_acks env all_mem ctx from ms = Ret (ctx', es)
    \<and> deliver (\<lambda>l u. coap_block1_handler (\<lambda>_. True) l (Some u)) l u z
        (map (sent_block server) (datagram # datagrams es)) = Ret (rs, l')
    \<and> {out. (NO_ERROR, out) \<in> set rs} = {Output (Buf pl) (length pl)}"
proof -
  have zpos: "0 < unat z" using assms(2) by (auto simp: szx_sizes_def)
  obtain k where k: "block_count (unat z) pl = Suc k" "k = 0 \<or> k * unat z < length pl" "length pl \<le> Suc k * unat z"
    by (rule block_count_bounds [OF zpos])
  have ms: "k = length ms" using k(1) assms(10) by simp
  have "ms = [] \<or> (0 + length ms) * unat z < length pl" using k(2) ms by auto
  then obtain ctx' es where run: "handle_acks env all_mem ctx from ms = Ret (ctx', es)"
    "map (sent_block server) (datagrams es) = map (payload_block (unat z) pl) [Suc 0..<Suc (length ms)]"
    using upload_run [OF assms(1-5,7-9,11), of server] assms(11-13) by auto
  have "map (sent_block server) (datagram # datagrams es) = map (payload_block (unat z) pl) [0..<Suc (length ms)]"
    using run(2) uploading_sent [OF assms(5,1,6)] by (simp add: upt_conv_Cons del: upt_Suc)
  also have "\<dots> = schedule (\<lambda>_. 0) (unat z) pl (block_count (unat z) pl)"
    by (simp only: schedule_once assms(10))
  finally have blocks: "map (sent_block server) (datagram # datagrams es)
      = schedule (\<lambda>_. 0) (unat z) pl (Suc k)" by (simp only: k(1))
  have "k < 4294967296" using ms assms(11) by simp
  from block1.transfer [OF assms(14) zpos k(2) this, of u "\<lambda>_. 0"] k(3) obtain rs l' where d:
    "deliver (\<lambda>l u. coap_block1_handler (\<lambda>_. True) l (Some u)) l u z (schedule (\<lambda>_. 0) (unat z) pl (Suc k)) = Ret (rs, l')"
    "\<forall>c out. (c, out) \<in> set rs \<longrightarrow> c = NO_ERROR \<longrightarrow> out = Output (Buf pl) (length pl)"
    "(NO_ERROR, Output (Buf pl) (length pl)) \<in> set rs" by blast
  have out: "{out. (NO_ERROR, out) \<in> set rs} = {Output (Buf pl) (length pl)}" using d(2,3) by blast
  show ?thesis by (intro exI conjI) (rule run(1), unfold blocks, rule d(1), rule out)
qed

definition sample_env :: "nat packet_env" where
  "sample_env = \<lparr>serverMode = False, same = (=), respTimeout = 2, gettime = 100, coap_block_size = 16,
     stackJunk = [], sendResult = 0\<rparr>"

definition sample_ctx :: "(nat, nat, nat) lwm2m_transaction_t list \<Rightarrow> (nat, nat, nat) packet_ctx" where
  "sample_ctx l = \<lparr>nextMID = 8, transactionList = l, peerList = []\<rparr>"

text \<open>A PUT of 20 bytes in blocks of 16.\<close>

definition sample_put :: coap_packet_t where
  "sample_put = block_request (coap_set_header_content_type (empty_request 3 7 [1]) 42) 0 True 16 (replicate 16 5)"

definition sample_upload :: "(nat, nat, nat) lwm2m_transaction_t" where
  "sample_upload = \<lparr>mID = 7, peerH = 1, ack_received = False, response_timeout = 0, retrans_counter = 2,
     retrans_time = 102, message = snd (coap_serialize_message sample_put),
     buffer = Some (fst (coap_serialize_message sample_put)), t_payload = Some (replicate 20 5),
     callback = None, userData = 0\<rparr>"

definition sample_continue :: coap_packet_t where
  "sample_continue = snd (coap_set_header_block1
     (coap_set_header_token (coap_init_message COAP_TYPE_ACK COAP_231_CONTINUE 7) [1]) 0 1 16)"

lemma sample_put_eq:
  "sample_put = (SET_OPTION ((SET_OPTION ((empty_request 3 7 [1])\<lparr>content_type := 42\<rparr>) 12)
      \<lparr>block1_num := 0, block1_more := 1, block1_size := 16\<rparr>) 27)\<lparr>payload := Some (replicate 16 5)\<rparr>"
  by (simp add: sample_put_def block_request_def coap_set_header_content_type_def coap_set_header_block1_def
      coap_set_payload_def ptr_bytes_def)

lemma sample_put_options: "IS_OPTION sample_put n \<longleftrightarrow> n = 12 \<or> n = 19 \<or> n = 27"
  by (auto simp: sample_put_eq)

lemma sample_put_facts:
  "coap_wf sample_put" "template_ok (coap_view sample_put)"
  "coap_view sample_put = request_view (coap_view sample_put) 7 (0, True, 16) (replicate 16 5)"
  "block1_num sample_put = 0" "block1_size sample_put = 16" "v_token (coap_view sample_put) = [1]"
proof -
  note fields = sample_put_eq [THEN arg_cong, of token] sample_put_eq [THEN arg_cong, of accept]
  show "coap_wf sample_put"
    unfolding coap_wf_def coap_lists_ok_def sample_put_options by (simp add: sample_put_eq szx_sizes_def)
  show "block1_num sample_put = 0" "block1_size sample_put = 16" by (simp_all add: sample_put_eq)
  show "v_token (coap_view sample_put) = [1]"
    by (simp add: view_fields coap_get_header_token_def sample_put_options) (simp add: sample_put_eq)
  show "template_ok (coap_view sample_put)"
    unfolding template_ok_def coap_view_def
    by (simp add: sample_put_options coap_get_header_uri_host_def coap_get_header_location_query_def
        coap_get_header_max_age_def coap_get_header_block2_def coap_get_header_size_def block_view_def
        coap_get_header_content_type_def coap_get_header_observe_def multi_size_def)
      (simp add: sample_put_eq)
  show "coap_view sample_put = request_view (coap_view sample_put) 7 (0, True, 16) (replicate 16 5)"
  proof -
    have "v_mid (coap_view sample_put) = 7" "v_block1 (coap_view sample_put) = Some (0, True, 16)"
      "v_payload (coap_view sample_put) = replicate 16 5"
      unfolding view_fields coap_get_header_block1_def block_view_def coap_get_payload_def sample_put_options
      by (simp_all add: sample_put_eq ptr_bytes_def)
    then show ?thesis by (simp add: request_view_def)
  qed
qed

lemma sample_uploading: "uploading (coap_view sample_put) (replicate 20 5) 16 0 sample_upload"
  unfolding uploading_def using sample_put_facts
  by (intro conjI exI [of _ sample_put]) (simp_all add: sample_upload_def payload_block_def)

lemma sample_continues:
  "continues sample_env (coap_view sample_put) 16 7 sample_continue"
  using sample_put_facts(6)
  by (simp add: continues_def sample_continue_def coap_set_header_block1_def coap_set_header_token_def
      coap_get_header_token_def sample_env_def coap_init_message_def ptr_bytes_def) (simp add: coap_zero_def)

theorem block1_upload_witness:
  "\<exists>ctx' es rs l'. handle_acks sample_env all_mem (sample_ctx [sample_upload]) 1 [sample_continue] = Ret (ctx', es)
    \<and> deliver (\<lambda>l u. coap_block1_handler (\<lambda>_. True) l (Some u)) [] [0x61] 16
        (map (sent_block True) (fst (coap_serialize_message sample_put) # datagrams es)) = Ret (rs, l')
    \<and> {out. (NO_ERROR, out) \<in> set rs} = {Output (Buf (replicate 20 5)) (length (replicate 20 (5 :: u8)))}"
proof (rule block1_upload [OF sample_put_facts(2) _ _ _ sample_uploading])
  show "\<forall>j<length [sample_continue]. continues sample_env (coap_view sample_put) 16
      (ack_mid (mID sample_upload) (nextMID (sample_ctx [sample_upload])) j) ([sample_continue] ! j)"
    using sample_continues by (simp add: ack_mid_def sample_upload_def)
  show "tlist_ok (transactionList (sample_ctx [sample_upload]))"
    using uploading_message(3) [OF sample_uploading] by (simp add: tlist_ok_def sample_ctx_def)
qed (simp_all add: szx_sizes_def sample_env_def sample_ctx_def sample_upload_def block_count_def blocks_ok_def)

section \<open>Undefined continuations\<close>

text \<open>an acknowledgement 4.13 for a message id that is not in the transaction list (any peer can
  send one) makes \<open>prv_change_to_block1\<close> read the transaction NULL.\<close>

theorem change_to_block1_unknown:
  assumes "msg_type m = COAP_TYPE_ACK" "code m = COAP_413_ENTITY_TOO_LARGE" "\<not> IS_OPTION m OPT_BLOCK1"
    "\<not> IS_OPTION m OPT_BLOCK2" "length (ptr_bytes (payload m)) \<le> unat (coap_block_size env)"
    "prv_get_transaction (same env) from (mid m) (transactionList ctx) = None"
  shows "handle_ack env mem ctx from m = UB"
  using assms by (simp add: handle_ack_def prv_change_to_block1_def Let_def)

theorem change_to_block1_unknown_witness:
  "handle_ack sample_env all_mem (sample_ctx []) 1 (coap_init_message COAP_TYPE_ACK 0x8D 77) = UB"
  by (rule change_to_block1_unknown)
    (simp_all add: coap_init_message_def sample_env_def sample_ctx_def ptr_bytes_def, simp add: coap_zero_def)

text \<open>an acknowledgement with a Block1 option for a request that has none divides by the block
  size 0 of that request.\<close>

theorem next_block1_unsolicited:
  assumes "code m = COAP_204_CHANGED \<or> code m = COAP_201_CREATED \<or> code m = COAP_231_CONTINUE" "IS_OPTION m OPT_BLOCK1"
    "length (ptr_bytes (payload m)) \<le> unat (coap_block_size env)"
    "prv_get_transaction (same env) from (mid m) (transactionList ctx) = Some t"
    "block1_num (message t) = 0" "block1_size (message t) = 0"
  shows "handle_ack env mem ctx from m = UB"
proof -
  have "prv_send_next_block1 env mem ctx from (mid m) (block1_size m) = UB"
    using assms(4-6) by (simp add: prv_send_next_block1_def word_gt_0)
  with assms(1-3) show ?thesis by (auto simp: handle_ack_def Let_def)
qed

definition ack_block1 :: coap_packet_t where
  "ack_block1 = snd (coap_set_header_block1 (coap_init_message COAP_TYPE_ACK 0x44 7) 0 0 16)"

theorem next_block1_unsolicited_witness:
  "handle_ack sample_env all_mem (sample_ctx [sample_transaction]) 1 ack_block1 = UB"
proof (rule next_block1_unsolicited)
  show "prv_get_transaction (same sample_env) 1 (mid ack_block1) (transactionList (sample_ctx [sample_transaction]))
      = Some sample_transaction"
    by (simp add: sample_env_def ack_block1_def coap_set_header_block1_def coap_init_message_def sample_ctx_def
        sample_transaction_def)
qed (simp_all add: ack_block1_def coap_set_header_block1_def coap_init_message_def sample_transaction_def
    sized_request_def coap_set_header_size_def ptr_bytes_def coap_zero_def sample_env_def)

end
