(* ===== verification/Floats.thy ===== *)
theory Floats
  imports Prelude
begin

text \<open>
  IEEE 754 numbers as their bit patterns: a \<open>float\<close> is a 32-bit word, a \<open>double\<close> a 64-bit word,
  laid out as sign, biased exponent and fraction.  The source converts between the two formats,
  compares a \<open>double\<close> with \<open>FLT_MAX\<close>, and classifies values; these operations are defined here on
  the patterns, rounding to nearest with ties to even as the C implementations do by default.
\<close>

section \<open>Fields of a number\<close>

definition float_bits :: "nat \<Rightarrow> nat \<Rightarrow> nat \<Rightarrow> u32" where
  "float_bits s e m = word_of_nat (s * 2 ^ 31 + e * 2 ^ 23 + m)"

definition double_bits :: "nat \<Rightarrow> nat \<Rightarrow> nat \<Rightarrow> u64" where
  "double_bits s e m = word_of_nat (s * 2 ^ 63 + e * 2 ^ 52 + m)"

definition float_sign :: "u32 \<Rightarrow> nat" where "float_sign f = unat f div 2 ^ 31"
definition float_exp :: "u32 \<Rightarrow> nat" where "float_exp f = unat f div 2 ^ 23 mod 2 ^ 8"
definition float_frac :: "u32 \<Rightarrow> nat" where "float_frac f = unat f mod 2 ^ 23"

definition double_sign :: "u64 \<Rightarrow> nat" where "double_sign d = unat d div 2 ^ 63"
definition double_exp :: "u64 \<Rightarrow> nat" where "double_exp d = unat d div 2 ^ 52 mod 2 ^ 11"
definition double_frac :: "u64 \<Rightarrow> nat" where "double_frac d = unat d mod 2 ^ 52"

definition double_isnan :: "u64 \<Rightarrow> bool" where
  "double_isnan d \<longleftrightarrow> double_exp d = 2047 \<and> double_frac d \<noteq> 0"

definition double_isinf :: "u64 \<Rightarrow> bool" where
  "double_isinf d \<longleftrightarrow> double_exp d = 2047 \<and> double_frac d = 0"

definition float_isnan :: "u32 \<Rightarrow> bool" where
  "float_isnan f \<longleftrightarrow> float_exp f = 255 \<and> float_frac f \<noteq> 0"

text \<open>\<open>data < 0.0 - (double)FLT_MAX || data > (double)FLT_MAX\<close>: the magnitude is above that of
  \<open>FLT_MAX\<close>; a comparison with a NaN is false.\<close>

definition above_FLT_MAX :: "u64 \<Rightarrow> bool" where
  "above_FLT_MAX d \<longleftrightarrow> \<not> double_isnan d \<and> unat d mod 2 ^ 63 > 0x47EFFFFFE0000000"

section \<open>Conversions\<close>

text \<open>\<open>n / 2 ^ k\<close>, rounded to nearest with ties to even.\<close>

definition round_shift :: "nat \<Rightarrow> nat \<Rightarrow> nat" where
  "round_shift n k = (let q = n div 2 ^ k; r = 2 * (n mod 2 ^ k) in
     if r > 2 ^ k \<or> (r = 2 ^ k \<and> odd q) then q + 1 else q)"

text \<open>\<open>(float)\<close> of a \<open>double\<close>.  A carry out of the rounded fraction moves on into the exponent;
  a value that is too large becomes infinite; a NaN stays one, made quiet.\<close>

definition float_of_double :: "u64 \<Rightarrow> u32" where
  "float_of_double d =
     (let s = double_sign d; e = double_exp d; m = double_frac d in
      if e = 2047 then
        (if m = 0 then float_bits s 255 0
         else float_bits s 255 (m div 2 ^ 29 mod 2 ^ 22 + 2 ^ 22))
      else if e \<ge> 897 then
        float_bits s 0 (min (255 * 2 ^ 23) (round_shift ((e - 896) * 2 ^ 52 + m) 29))
      else if e = 0 then float_bits s 0 0
      else float_bits s 0 (round_shift (2 ^ 52 + m) (926 - e)))"

text \<open>The place of the highest bit of a positive number.\<close>

fun high_bit :: "nat \<Rightarrow> nat" where
  "high_bit n = (if n < 2 then 0 else Suc (high_bit (n div 2)))"

declare high_bit.simps [simp del]

text \<open>\<open>(double)\<close> of a \<open>float\<close>, which is exact.\<close>

definition double_of_float :: "u32 \<Rightarrow> u64" where
  "double_of_float f =
     (let s = float_sign f; e = float_exp f; m = float_frac f in
      if e = 255 then
        (if m = 0 then double_bits s 2047 0
         else double_bits s 2047 ((m mod 2 ^ 22 + 2 ^ 22) * 2 ^ 29))
      else if e > 0 then double_bits s (e + 896) (m * 2 ^ 29)
      else if m = 0 then double_bits s 0 0
      else (let k = high_bit m in double_bits s (k + 874) ((m - 2 ^ k) * 2 ^ (52 - k))))"

section \<open>Facts\<close>

lemma double_fields:
  assumes "s < 2" "e < 2048" "m < 2 ^ 52"
  shows "double_sign (double_bits s e m) = s" "double_exp (double_bits s e m) = e"
    "double_frac (double_bits s e m) = m"
proof -
  have "s * 2 ^ 63 + e * 2 ^ 52 + m < 2 ^ 64" using assms by simp
  then have u: "unat (double_bits s e m) = s * 2 ^ 63 + e * 2 ^ 52 + m"
    by (simp only: double_bits_def unat_of_nat) simp
  have em: "e * 2 ^ 52 + m < 2 ^ 63" using assms by simp
  then show "double_sign (double_bits s e m) = s" unfolding double_sign_def u
    by (simp add: add.assoc)
  have "(s * 2 ^ 63 + e * 2 ^ 52 + m) div 2 ^ 52 = s * 2 ^ 11 + e"
    using assms(3) by (simp add: algebra_simps) 
  then show "double_exp (double_bits s e m) = e" unfolding double_exp_def u
    using assms(2) by simp
  have "(s * 2 ^ 63 + e * 2 ^ 52 + m) = m + (s * 2 ^ 11 + e) * 2 ^ 52" by simp
  then show "double_frac (double_bits s e m) = m" unfolding double_frac_def u
    using assms(3) by (simp only: mod_mult_self1) simp
qed

lemma float_bits_fields: "float_bits (float_sign f) (float_exp f) (float_frac f) = f"
proof -
  define q where "q = unat f div 2 ^ 23"
  have "unat f div 2 ^ 31 = q div 2 ^ 8" by (simp add: q_def div_mult2_eq [symmetric])
  moreover have "q div 2 ^ 8 * 2 ^ 31 + q mod 2 ^ 8 * 2 ^ 23 = q * 2 ^ 23"
  proof -
    have "q div 2 ^ 8 * 2 ^ 31 + q mod 2 ^ 8 * 2 ^ 23 = (q div 2 ^ 8 * 2 ^ 8 + q mod 2 ^ 8) * 2 ^ 23"
      unfolding add_mult_distrib by simp
    then show ?thesis by (simp only: div_mult_mod_eq)
  qed
  moreover have "q * 2 ^ 23 + unat f mod 2 ^ 23 = unat f"
    unfolding q_def by (rule div_mult_mod_eq)
  ultimately have "float_sign f * 2 ^ 31 + float_exp f * 2 ^ 23 + float_frac f = unat f"
    unfolding float_sign_def float_exp_def float_frac_def q_def [symmetric] by simp
  then show ?thesis by (simp add: float_bits_def)
qed

lemma float_field_bounds: "float_sign f < 2" "float_exp f < 256" "float_frac f < 2 ^ 23"
  using unat_u32_less [of f]
  by (simp_all add: float_sign_def float_exp_def float_frac_def div_less_iff_less_mult
      del: unat_u32_less)

lemma round_shift_exact: "round_shift (n * 2 ^ k) k = n"
  by (simp add: round_shift_def)

lemma high_bit_bounds: "0 < n \<Longrightarrow> 2 ^ high_bit n \<le> n \<and> n < 2 * 2 ^ high_bit n"
proof (induction n rule: high_bit.induct)
  case (1 n)
  show ?case
  proof (cases "n < 2")
    case True
    with 1 show ?thesis by (simp add: high_bit.simps [of n])
  next
    case False
    define p where "p = (2::nat) ^ high_bit (n div 2)"
    from False "1.IH" have "p \<le> n div 2 \<and> n div 2 < 2 * p" by (simp add: p_def)
    then have "2 * p \<le> n \<and> n < 2 * (2 * p)" by linarith
    with False show ?thesis by (simp add: high_bit.simps [of n] p_def)
  qed
qed

text \<open>Converting a \<open>float\<close> to \<open>double\<close> and back gives the same pattern.\<close>

lemma float_of_double_of_float:
  assumes "\<not> float_isnan f"
  shows "float_of_double (double_of_float f) = f"
proof -
  let ?s = "float_sign f" and ?e = "float_exp f" and ?m = "float_frac f"
  note bnd = float_field_bounds [of f]
  consider "?e = 255" "?m = 0" | "0 < ?e" "?e < 255" | "?e = 0" "?m = 0" | "?e = 0" "0 < ?m"
    using assms bnd by (fastforce simp: float_isnan_def)
  then have "float_of_double (double_of_float f) = float_bits ?s ?e ?m"
  proof cases
    case 1
    with bnd show ?thesis
      by (simp add: double_of_float_def float_of_double_def double_fields Let_def)
  next
    case 2
    have "round_shift (?e * 2 ^ 52 + ?m * 2 ^ 29) 29 = ?e * 2 ^ 23 + ?m"
      using round_shift_exact [of "?e * 2 ^ 23 + ?m" 29] by (simp add: algebra_simps)
    moreover have "?e * 2 ^ 23 + ?m < 255 * 2 ^ 23" using 2 bnd by simp
    ultimately show ?thesis using 2 bnd
      by (simp add: double_of_float_def float_of_double_def double_fields Let_def float_bits_def
          algebra_simps)
  next
    case 3
    with bnd show ?thesis
      by (simp add: double_of_float_def float_of_double_def double_fields Let_def)
  next
    case 4
    define k where "k = high_bit ?m"
    have k: "2 ^ k \<le> ?m" "?m < 2 * 2 ^ k" using high_bit_bounds [of ?m] 4 by (auto simp: k_def)
    have "k < 23"
    proof (rule ccontr)
      assume "\<not> k < 23"
      then have "(2::nat) ^ 23 \<le> 2 ^ k" by (intro power_increasing) auto
      with k bnd show False by linarith
    qed
    have pw: "(2::nat) ^ k * 2 ^ (52 - k) = 2 ^ 52"
      using \<open>k < 23\<close> by (simp add: power_add [symmetric])
    have sub: "(?m - 2 ^ k) * 2 ^ (52 - k) < 2 ^ 52"
    proof -
      have "?m - 2 ^ k < 2 ^ k" using k by linarith
      then have "(?m - 2 ^ k) * 2 ^ (52 - k) < 2 ^ k * 2 ^ (52 - k)" by simp
      then show ?thesis by (simp only: pw)
    qed
    have "2 ^ 52 + (?m - 2 ^ k) * 2 ^ (52 - k) = ?m * 2 ^ (52 - k)"
    proof -
      have "2 ^ k * 2 ^ (52 - k) \<le> ?m * 2 ^ (52 - k)" using k by (intro mult_right_mono) auto
      then show ?thesis unfolding diff_mult_distrib pw by linarith
    qed
    then have "round_shift (2 ^ 52 + (?m - 2 ^ k) * 2 ^ (52 - k)) (926 - (k + 874)) = ?m"
      using round_shift_exact [of ?m "52 - k"] by simp
    with 4 bnd \<open>k < 23\<close> sub show ?thesis
      by (simp add: double_of_float_def float_of_double_def double_fields Let_def
          flip: k_def)
  qed
  then show ?thesis by (simp add: float_bits_fields)
qed

end
