(* ===== verification/Data.thy ===== *)
theory Data
  imports TextConv Base64 Formats Floats
begin

text \<open>
  The value tree of \<open>data/data.c\<close>: \<open>lwm2m_data_t\<close>, the tagged union of \<open>include/liblwm2m.h\<close>, with
  one constructor for each type tag and the union member that the tag selects.  A buffer is its
  list of bytes (a NULL buffer is the empty list), the children of a node are a list.  64-bit
  integers and the pattern of a \<open>double\<close> are 64-bit words.  Allocations may fail: the \<open>k\<close>-th
  allocation of a call returns NULL when \<open>mem k\<close> is \<open>None\<close>, and otherwise memory with the bytes
  that \<open>mem k\<close> gives; the counter is passed on.
\<close>

section \<open>Data\<close>

datatype lwm2m_value =
  V_UNDEFINED
| V_OBJECT "lwm2m_data_t list"
| V_OBJECT_INSTANCE "lwm2m_data_t list"
| V_MULTIPLE_RESOURCE "lwm2m_data_t list"
| V_STRING bytes
| V_OPAQUE bytes
| V_INTEGER u64
| V_UNSIGNED_INTEGER u64
| V_FLOAT u64
| V_BOOLEAN bool
| V_OBJECT_LINK u16 u16
| V_CORE_LINK bytes
and lwm2m_data_t = Data (data_id: u16) (data_value: lwm2m_value)

fun data_type :: "lwm2m_value \<Rightarrow> lwm2m_data_type_t" where
  "data_type V_UNDEFINED = LWM2M_TYPE_UNDEFINED"
| "data_type (V_OBJECT _) = LWM2M_TYPE_OBJECT"
| "data_type (V_OBJECT_INSTANCE _) = LWM2M_TYPE_OBJECT_INSTANCE"
| "data_type (V_MULTIPLE_RESOURCE _) = LWM2M_TYPE_MULTIPLE_RESOURCE"
| "data_type (V_STRING _) = LWM2M_TYPE_STRING"
| "data_type (V_OPAQUE _) = LWM2M_TYPE_OPAQUE"
| "data_type (V_INTEGER _) = LWM2M_TYPE_INTEGER"
| "data_type (V_UNSIGNED_INTEGER _) = LWM2M_TYPE_UNSIGNED_INTEGER"
| "data_type (V_FLOAT _) = LWM2M_TYPE_FLOAT"
| "data_type (V_BOOLEAN _) = LWM2M_TYPE_BOOLEAN"
| "data_type (V_OBJECT_LINK _ _) = LWM2M_TYPE_OBJECT_LINK"
| "data_type (V_CORE_LINK _) = LWM2M_TYPE_CORE_LINK"

type_synonym allocator = "nat \<Rightarrow> (nat \<Rightarrow> u8) option"

definition malloc :: "allocator \<Rightarrow> nat \<Rightarrow> nat \<Rightarrow> bytes option" where
  "malloc mem k n = map_option (\<lambda>junk. map junk [0..<n]) (mem k)"

section \<open>Integers in memory and on the wire\<close>

text \<open>\<open>utils_copyValue\<close> of a little-endian build reverses the bytes of an object; an unsigned object
  of \<open>n\<close> bytes holds its value with the least significant byte first.\<close>

definition utils_copyValue :: "bytes \<Rightarrow> bytes" where
  "utils_copyValue src = rev src"

fun le_bytes :: "nat \<Rightarrow> nat \<Rightarrow> bytes" where
  "le_bytes 0 v = []"
| "le_bytes (Suc n) v = word_of_nat v # le_bytes n (v div 256)"

fun le_val :: "bytes \<Rightarrow> nat" where
  "le_val [] = 0"
| "le_val (b # bs) = unat b + 256 * le_val bs"

abbreviation put_word :: "nat \<Rightarrow> nat \<Rightarrow> bytes" where
  "put_word n v \<equiv> utils_copyValue (le_bytes n v)"

abbreviation get_word :: "bytes \<Rightarrow> nat" where
  "get_word bs \<equiv> le_val (utils_copyValue bs)"

lemma le_val_le_bytes: "le_val (le_bytes n v) = v mod 256 ^ n"
proof (induction n arbitrary: v)
  case (Suc n)
  have "v mod (256 * 256 ^ n) = 256 * (v div 256 mod 256 ^ n) + v mod 256"
    by (rule mod_mult2_eq)
  with Suc show ?case by (simp add: unat_of_nat)
qed simp

lemma length_le_bytes [simp]: "length (le_bytes n v) = n"
  by (induction n arbitrary: v) auto

lemma length_put_word [simp]: "length (put_word n v) = n"
  by (simp add: utils_copyValue_def)

lemma get_put_word [simp]: "get_word (put_word n v) = v mod 256 ^ n"
  by (simp add: utils_copyValue_def le_val_le_bytes)

lemma le_bytes_4: "le_bytes 4 v = [word_of_nat v, word_of_nat (v div 256),
    word_of_nat (v div 65536), word_of_nat (v div 16777216)]"
proof -
  have "(4::nat) = Suc (Suc (Suc (Suc 0)))" by simp
  then show ?thesis by (simp only: le_bytes.simps div_mult2_eq [symmetric]) simp
qed

lemma le_val_less: "le_val bs < 256 ^ length bs"
proof (induction bs)
  case (Cons b bs)
  define p where "p = (256::nat) ^ length bs"
  have "unat b < 256" by simp
  moreover have "le_val bs < p" using Cons by (simp add: p_def)
  ultimately have "unat b + 256 * le_val bs < 256 * p" by linarith
  then show ?case by (simp add: p_def)
qed simp

section \<open>Nodes\<close>

text \<open>\<open>lwm2m_data_new\<close>: a zeroed array, or NULL.\<close>

definition lwm2m_data_new :: "allocator \<Rightarrow> nat \<Rightarrow> int \<Rightarrow> nat \<times> lwm2m_data_t list option" where
  "lwm2m_data_new mem k num =
     (if num \<le> 0 then (k, None)
      else case mem k of None \<Rightarrow> (Suc k, None)
           | Some _ \<Rightarrow> (Suc k, Some (replicate (nat num) (Data 0 V_UNDEFINED))))"

text \<open>\<open>prv_setBuffer\<close>: the copy of the buffer, or failure.\<close>

definition prv_setBuffer :: "allocator \<Rightarrow> nat \<Rightarrow> bytes \<Rightarrow> nat \<times> bytes option" where
  "prv_setBuffer mem k buffer = (Suc k, map_option (\<lambda>_. buffer) (mem k))"

definition lwm2m_data_encode_opaque :: "allocator \<Rightarrow> nat \<Rightarrow> bytes \<Rightarrow> nat \<times> lwm2m_value" where
  "lwm2m_data_encode_opaque mem k buffer =
     (if length buffer = 0 then (k, V_OPAQUE [])
      else case prv_setBuffer mem k buffer of
        (k', None) \<Rightarrow> (k', V_UNDEFINED) | (k', Some b) \<Rightarrow> (k', V_OPAQUE b))"

definition lwm2m_data_encode_string :: "allocator \<Rightarrow> nat \<Rightarrow> bytes option \<Rightarrow> nat \<times> lwm2m_value" where
  "lwm2m_data_encode_string mem k string =
     (let s = (case string of None \<Rightarrow> [] | Some s \<Rightarrow> takeWhile (\<lambda>c. c \<noteq> 0) s) in
      if length s = 0 then (k, V_STRING [])
      else case prv_setBuffer mem k s of
        (k', None) \<Rightarrow> (k', V_UNDEFINED) | (k', Some b) \<Rightarrow> (k', V_STRING b))"

definition lwm2m_data_encode_nstring :: "allocator \<Rightarrow> nat \<Rightarrow> bytes \<Rightarrow> nat \<times> lwm2m_value" where
  "lwm2m_data_encode_nstring mem k string =
     (case lwm2m_data_encode_opaque mem k string of
        (k', V_OPAQUE b) \<Rightarrow> (k', V_STRING b) | r \<Rightarrow> r)"

definition lwm2m_data_encode_corelink :: "allocator \<Rightarrow> nat \<Rightarrow> bytes option \<Rightarrow> nat \<times> lwm2m_value" where
  "lwm2m_data_encode_corelink mem k corelink =
     (case lwm2m_data_encode_string mem k corelink of
        (k', V_STRING b) \<Rightarrow> (k', V_CORE_LINK b) | r \<Rightarrow> r)"

definition lwm2m_data_encode_int :: "u64 \<Rightarrow> lwm2m_value" where
  "lwm2m_data_encode_int v = V_INTEGER v"

definition lwm2m_data_encode_uint :: "u64 \<Rightarrow> lwm2m_value" where
  "lwm2m_data_encode_uint v = V_UNSIGNED_INTEGER v"

definition lwm2m_data_encode_float :: "u64 \<Rightarrow> lwm2m_value" where
  "lwm2m_data_encode_float v = V_FLOAT v"

definition lwm2m_data_encode_bool :: "bool \<Rightarrow> lwm2m_value" where
  "lwm2m_data_encode_bool v = V_BOOLEAN v"

definition lwm2m_data_encode_objlink :: "u16 \<Rightarrow> u16 \<Rightarrow> lwm2m_value" where
  "lwm2m_data_encode_objlink oid iid = V_OBJECT_LINK oid iid"

text \<open>\<open>lwm2m_data_include\<close>: the type of the first child selects the type of the parent.\<close>

definition lwm2m_data_include :: "lwm2m_data_t list \<Rightarrow> lwm2m_value \<Rightarrow> lwm2m_value" where
  "lwm2m_data_include subDataP old =
     (case subDataP of [] \<Rightarrow> old
      | c # _ \<Rightarrow> (case data_type (data_value c) of
          LWM2M_TYPE_OBJECT_INSTANCE \<Rightarrow> V_OBJECT subDataP
        | LWM2M_TYPE_UNDEFINED \<Rightarrow> V_MULTIPLE_RESOURCE subDataP
        | LWM2M_TYPE_OBJECT \<Rightarrow> V_MULTIPLE_RESOURCE subDataP
        | _ \<Rightarrow> V_OBJECT_INSTANCE subDataP))"

text \<open>\<open>lwm2m_data_encode_instances\<close> changes the tag whatever the union holds: without children the
  old member is read as a list of children, which is defined only when it was one or is zero.\<close>

definition lwm2m_data_encode_instances :: "lwm2m_data_t list \<Rightarrow> lwm2m_value \<Rightarrow> lwm2m_value outcome" where
  "lwm2m_data_encode_instances subDataP old =
     (case lwm2m_data_include subDataP old of
        V_OBJECT cs \<Rightarrow> Ret (V_MULTIPLE_RESOURCE cs)
      | V_OBJECT_INSTANCE cs \<Rightarrow> Ret (V_MULTIPLE_RESOURCE cs)
      | V_MULTIPLE_RESOURCE cs \<Rightarrow> Ret (V_MULTIPLE_RESOURCE cs)
      | V_UNDEFINED \<Rightarrow> Ret (V_MULTIPLE_RESOURCE [])
      | _ \<Rightarrow> UB)"

text \<open>\<open>lwm2m_data_append\<close> and \<open>lwm2m_data_append_one\<close>: the result and the new array.  The sum of
  the sizes is a signed \<open>int\<close>.\<close>

abbreviation (input) INT_MAX_nat :: nat where "INT_MAX_nat \<equiv> 2147483647"

definition lwm2m_data_append ::
    "allocator \<Rightarrow> nat \<Rightarrow> lwm2m_data_t list \<Rightarrow> lwm2m_data_t list \<Rightarrow> (nat \<times> lwm2m_data_t list) outcome" where
  "lwm2m_data_append mem k dataP addDataP =
     (if length dataP + length addDataP > INT_MAX_nat then UB
      else if length dataP = 0 then Ret (1, addDataP)
      else if length addDataP > 0 then
        (case snd (lwm2m_data_new mem k (int (length dataP + length addDataP))) of
           None \<Rightarrow> Ret (0, dataP)
         | Some _ \<Rightarrow> Ret (1, dataP @ addDataP))
      else Ret (1, dataP))"

definition lwm2m_data_append_one ::
    "allocator \<Rightarrow> nat \<Rightarrow> lwm2m_data_t list \<Rightarrow> lwm2m_value \<Rightarrow> u16 \<Rightarrow> (nat \<times> lwm2m_data_t list) outcome" where
  "lwm2m_data_append_one mem k dataP zeroed i =
     (if length dataP + 1 > INT_MAX_nat then UB
      else case snd (lwm2m_data_new mem k (int (length dataP + 1))) of
        None \<Rightarrow> Ret (0, dataP)
      | Some _ \<Rightarrow> Ret (1, dataP @ [Data i zeroed]))"

section \<open>Reading a value\<close>

definition lwm2m_data_decode_int :: "lwm2m_value \<Rightarrow> u64 option" where
  "lwm2m_data_decode_int v =
     (case v of
        V_INTEGER i \<Rightarrow> Some i
      | V_UNSIGNED_INTEGER u \<Rightarrow> if u \<le> 0x7FFFFFFFFFFFFFFF then Some u else None
      | V_STRING s \<Rightarrow> utils_textToInt s
      | V_OPAQUE b \<Rightarrow>
          if length b = 1 then Some (scast (hd b))
          else if length b = 2 then Some (scast (word_of_nat (get_word b) :: u16))
          else if length b = 4 then Some (scast (word_of_nat (get_word b) :: u32))
          else if length b = 8 then Some (word_of_nat (get_word b))
          else None
      | _ \<Rightarrow> None)"

definition lwm2m_data_decode_uint :: "lwm2m_value \<Rightarrow> u64 option" where
  "lwm2m_data_decode_uint v =
     (case v of
        V_INTEGER i \<Rightarrow> if sint i \<ge> 0 then Some i else None
      | V_UNSIGNED_INTEGER u \<Rightarrow> Some u
      | V_STRING s \<Rightarrow> utils_textToUInt s
      | V_OPAQUE b \<Rightarrow>
          if length b = 1 then Some (ucast (hd b))
          else if length b = 2 then Some (ucast (word_of_nat (get_word b) :: u16))
          else if length b = 4 then Some (ucast (word_of_nat (get_word b) :: u32))
          else if length b = 8 then Some (word_of_nat (get_word b))
          else None
      | _ \<Rightarrow> None)"

definition lwm2m_data_decode_bool :: "lwm2m_value \<Rightarrow> bool option" where
  "lwm2m_data_decode_bool v =
     (case v of
        V_BOOLEAN b \<Rightarrow> Some b
      | V_STRING s \<Rightarrow>
          if length s \<noteq> 1 then None
          else if hd s = 0x30 then Some False else if hd s = 0x31 then Some True else None
      | V_OPAQUE s \<Rightarrow>
          if length s \<noteq> 1 then None
          else if hd s = 0 then Some False else if hd s = 1 then Some True else None
      | _ \<Rightarrow> None)"

section \<open>Text\<close>

text \<open>
  \<open>prv_textSerialize\<close>: the length, or -1, and the buffer.  \<open>stack\<close> gives the bytes that the
  uninitialized \<open>stringBuffer\<close> of an object link holds; \<open>floatText\<close> is the text that
  \<open>utils_floatToText\<close> writes into 64 bytes, \<open>None\<close> when it fails.
\<close>

definition text_of_number :: "allocator \<Rightarrow> nat \<times> bytes \<Rightarrow> int \<times> bytes option" where
  "text_of_number mem r =
     (if fst r = 0 then (-1, None)
      else case mem 0 of None \<Rightarrow> (-1, None)
           | Some _ \<Rightarrow> (int (fst r), Some (take (fst r) (snd r))))"

definition text_of_objlink :: "allocator \<Rightarrow> (nat \<Rightarrow> u8) \<Rightarrow> u16 \<Rightarrow> u16 \<Rightarrow> int \<times> bytes option" where
  "text_of_objlink mem stack oid iid =
     (let stringBuffer = map stack [0..<11];
          (len1, s1) = utils_intToText (ucast oid) (take 5 stringBuffer) in
      if len1 = 0 then (-1, None)
      else let sb1 = (s1 @ drop 5 stringBuffer)[5 := ch_colon];
               res = len1 + 1;
               (len2, s2) = utils_intToText (ucast iid) (take 5 (drop res sb1)) in
      if len2 = 0 then (-1, None)
      else text_of_number mem (res + len2, take res sb1 @ s2 @ drop (res + 5) sb1))"

definition prv_textSerialize ::
    "allocator \<Rightarrow> (nat \<Rightarrow> u8) \<Rightarrow> (u64 \<Rightarrow> bytes option) \<Rightarrow> lwm2m_value \<Rightarrow> int \<times> bytes option" where
  "prv_textSerialize mem stack floatText v =
     (let buf = (\<lambda>s. case mem 0 of None \<Rightarrow> (0, None) | Some _ \<Rightarrow> (int (length s), Some s));
          junk = map stack [0..<32] in
      case v of
        V_STRING s \<Rightarrow> buf s
      | V_CORE_LINK s \<Rightarrow> buf s
      | V_INTEGER i \<Rightarrow> text_of_number mem (utils_intToText i junk)
      | V_UNSIGNED_INTEGER u \<Rightarrow> text_of_number mem (utils_uintToText u junk)
      | V_FLOAT f \<Rightarrow>
          (case floatText f of None \<Rightarrow> (-1, None) | Some t \<Rightarrow> text_of_number mem (length t, t))
      | V_BOOLEAN b \<Rightarrow>
          (case mem 0 of None \<Rightarrow> (-1, None) | Some _ \<Rightarrow> (1, Some [if b then 0x31 else 0x30]))
      | V_OBJECT_LINK oid iid \<Rightarrow> text_of_objlink mem stack oid iid
      | V_OPAQUE s \<Rightarrow>
          (case mem 0 of None \<Rightarrow> (0, None)
           | Some _ \<Rightarrow>
               let e = utils_base64Encode s (utils_base64GetSize (length s)) in
               if length e = 0 then (0, None) else (int (length e), Some e))
      | _ \<Rightarrow> (-1, None))"

section \<open>The text of an object link\<close>

lemma uintToText_terminated:
  assumes "length (dec_text (unat d)) < length s"
  shows "snd (utils_uintToText d s) ! length (dec_text (unat d)) = 0"
proof -
  have nonempty: "0 < length s" using assms by (cases s) auto
  obtain d' s' i where r: "uintToText_loop d s (length s) = (d', s', i)"
    by (metis prod_cases3)
  with uintToText_loop_correct [of "length s" s d] nonempty assms
  have "d' = 0" "i = length s - length (dec_text (unat d))" "length s' = length s"
    by (auto simp: Let_def)
  with r nonempty assms show ?thesis by (simp add: utils_uintToText_def Let_def)
qed

lemma uintToText_u16:
  fixes v :: u16
  assumes "length s = 5"
  defines "ds \<equiv> dec_text (unat (v :: u16))"
  shows "fst (utils_intToText (ucast v) s) = length ds" "length ds \<le> 5"
    "take (length ds) (snd (utils_intToText (ucast v) s)) = ds"
    "length ds < 5 \<Longrightarrow> snd (utils_intToText (ucast v) s) ! length ds = 0"
    "length (snd (utils_intToText (ucast v) s)) = 5"
proof -
  have "unat v < 10 ^ 5" using unat_u16_less [of v] by (simp del: unat_u16_less)
  then show le: "length ds \<le> 5" unfolding ds_def by (subst length_dec_text_le) auto
  have "utils_intToText (ucast v) s = utils_uintToText (ucast v) s"
    using unat_u16_less [of v] by (simp add: utils_intToText_def sint_u64 del: unat_u16_less)
  then show "fst (utils_intToText (ucast v) s) = length ds"
    "take (length ds) (snd (utils_intToText (ucast v) s)) = ds"
    "length ds < 5 \<Longrightarrow> snd (utils_intToText (ucast v) s) ! length ds = 0"
    "length (snd (utils_intToText (ucast v) s)) = 5"
    using utils_uintToText_fits [of "ucast v" s] uintToText_terminated [of "ucast v" s] le assms(1)
    by (simp_all add: ds_def length_utils_uintToText)
qed

definition objlink_separator :: "u16 \<Rightarrow> u8" where
  "objlink_separator oid = (if unat oid < 10000 then 0 else ch_colon)"

lemma text_of_objlink_form:
  assumes "mem 0 \<noteq> None"
  shows "text_of_objlink mem stack oid iid =
    (let t = dec_text (unat oid) @ objlink_separator oid # dec_text (unat iid)
     in (int (length t), Some t))"
proof -
  let ?o = "dec_text (unat oid)" and ?i = "dec_text (unat iid)"
  let ?sb = "map stack [0..<11]"
  define s1 where "s1 = snd (utils_intToText (ucast oid) (take 5 ?sb))"
  note u1 = uintToText_u16 [of "take 5 ?sb" oid, folded s1_def, simplified]
  define sb1 where "sb1 = (s1 @ drop 5 ?sb)[5 := ch_colon]"
  have len1: "length sb1 = 11" using u1 by (simp add: sb1_def)
  define s2 where "s2 = snd (utils_intToText (ucast iid) (take 5 (drop (Suc (length ?o)) sb1)))"
  note u2 = uintToText_u16 [of "take 5 (drop (Suc (length ?o)) sb1)" iid, folded s2_def]
  have five: "length (take 5 (drop (Suc (length ?o)) sb1)) = 5" using u1(2) len1 by simp
  have ten: "length ?o < 5 \<longleftrightarrow> unat oid < 10000"
    using length_dec_text_le [of 4 "unat oid"] by auto
  have "sb1 ! length ?o = objlink_separator oid"
    using u1 ten by (cases "length ?o = 5") (auto simp: sb1_def objlink_separator_def nth_append)
  moreover have "take (length ?o) sb1 = ?o"
    using u1 by (simp add: sb1_def)
  ultimately have t1: "take (length ?o + 1) sb1 = ?o @ [objlink_separator oid]"
    using u1(2) len1 by (simp add: take_Suc_conv_app_nth)
  have "text_of_objlink mem stack oid iid =
      text_of_number mem (length ?o + 1 + length ?i, take (length ?o + 1) sb1 @ s2 @ drop (length ?o + 1 + 5) sb1)"
    using u1 u2 [OF five]
    by (simp add: text_of_objlink_def s1_def [symmetric] sb1_def [symmetric] s2_def [symmetric]
        Let_def split_def)
  moreover have "take (length ?o + 1 + length ?i) (take (length ?o + 1) sb1 @ s2 @ rest) =
      ?o @ objlink_separator oid # ?i" for rest
    unfolding t1 using u2 [OF five] by simp
  ultimately show ?thesis using assms by (auto simp: text_of_number_def Let_def simp del: take_append)
qed

text \<open>
  The text of an object link, whatever the stack held before: the two numbers are separated by a
  NUL when the object id has less than five digits, because the colon is written at index 5; the
  reader accepts the text in the other case only.
\<close>

theorem text_objlink_separator:
  fixes oid iid :: u16
  assumes "mem 0 \<noteq> None"
  defines "t \<equiv> dec_text (unat oid) @ (if unat oid < 10000 then 0 else ch_colon) # dec_text (unat iid)"
  shows "prv_textSerialize mem stack floatText (V_OBJECT_LINK oid iid) = (int (length t), Some t)
    \<and> utils_textToObjLink t = (if unat oid < 10000 then None else Some (oid, iid))"
proof
  show "prv_textSerialize mem stack floatText (V_OBJECT_LINK oid iid) = (int (length t), Some t)"
    using text_of_objlink_form [of mem, OF assms(1)]
    by (simp add: prv_textSerialize_def t_def objlink_separator_def Let_def)
  show "utils_textToObjLink t = (if unat oid < 10000 then None else Some (oid, iid))"
  proof (cases "unat oid < 10000")
    case True
    then have "\<forall>b\<in>set t. b \<noteq> ch_colon" by (auto simp: t_def dest: dec_text_no_colon)
    then have all: "takeWhile (\<lambda>b. b \<noteq> ch_colon) t = t"
      by (intro takeWhile_eq_all_conv [THEN iffD2]) auto
    show ?thesis unfolding utils_textToObjLink_def all Let_def using True by simp
  next
    case False
    then have "t = objlink_text (oid, iid)" by (simp add: t_def objlink_text_def)
    with False show ?thesis by (simp add: textToObjLink_text)
  qed
qed

theorem text_objlink_separator_witness:
  "prv_textSerialize (\<lambda>_. Some (\<lambda>_. 0xAA)) (\<lambda>_. 0xCC) (\<lambda>_. None) (V_OBJECT_LINK 3 0) = (3, Some [0x33, 0, 0x30])"
  using text_objlink_separator [of "\<lambda>_. Some (\<lambda>_. 0xAA)" "\<lambda>_. 0xCC" "\<lambda>_. None" 3 0]
  by (simp add: dec_text_less_ten digit_char_def)

end
