(* ===== verification/Tlv.thy ===== *)
theory Tlv
  imports Data
begin

text \<open>
  The TLV format of \<open>data/tlv.c\<close>: the record header, the value encodings, the size computation,
  the serializer, which fills a buffer allocated with the computed size, and the parser.
  A write outside the buffer, and a signed sum above \<open>INT_MAX\<close>, is undefined behaviour.
\<close>

section \<open>Values\<close>

definition prv_encodeFloat :: "u64 \<Rightarrow> bytes" where
  "prv_encodeFloat data =
     (if above_FLT_MAX data then put_word 8 (unat data)
      else put_word 4 (unat (float_of_double data)))"

definition prv_encodeInt :: "u64 \<Rightarrow> bytes" where
  "prv_encodeInt data =
     (if sint data \<ge> -128 \<and> sint data \<le> 127 then [ucast data]
      else if sint data \<ge> -32768 \<and> sint data \<le> 32767 then
        (let value = (ucast data :: u16) in [ucast (drop_bit 8 value), ucast value])
      else if sint data \<ge> -2147483648 \<and> sint data \<le> 2147483647 then
        put_word 4 (unat (ucast data :: u32))
      else put_word 8 (unat data))"

definition prv_encodeUInt :: "u64 \<Rightarrow> bytes" where
  "prv_encodeUInt data =
     (if data \<le> 0xFF then [ucast data]
      else if data \<le> 0xFFFF then
        (let value = (ucast data :: u16) in [ucast (drop_bit 8 value), ucast value])
      else if data \<le> 0xFFFFFFFF then put_word 4 (unat (ucast data :: u32))
      else put_word 8 (unat data))"

section \<open>Headers\<close>

abbreviation (input) TLV_TYPE_UNKNOWN :: u8 where "TLV_TYPE_UNKNOWN \<equiv> 0xFF"
abbreviation (input) TLV_TYPE_OBJECT :: u8 where "TLV_TYPE_OBJECT \<equiv> 0x10"
abbreviation (input) TLV_TYPE_OBJECT_INSTANCE :: u8 where "TLV_TYPE_OBJECT_INSTANCE \<equiv> 0x00"
abbreviation (input) TLV_TYPE_RESOURCE :: u8 where "TLV_TYPE_RESOURCE \<equiv> 0xC0"
abbreviation (input) TLV_TYPE_MULTIPLE_RESOURCE :: u8 where "TLV_TYPE_MULTIPLE_RESOURCE \<equiv> 0x80"
abbreviation (input) TLV_TYPE_RESOURCE_INSTANCE :: u8 where "TLV_TYPE_RESOURCE_INSTANCE \<equiv> 0x40"

fun prv_getHeaderType :: "lwm2m_data_type_t \<Rightarrow> u8" where
  "prv_getHeaderType LWM2M_TYPE_OBJECT = TLV_TYPE_OBJECT"
| "prv_getHeaderType LWM2M_TYPE_OBJECT_INSTANCE = TLV_TYPE_OBJECT_INSTANCE"
| "prv_getHeaderType LWM2M_TYPE_MULTIPLE_RESOURCE = TLV_TYPE_MULTIPLE_RESOURCE"
| "prv_getHeaderType LWM2M_TYPE_UNDEFINED = TLV_TYPE_UNKNOWN"
| "prv_getHeaderType _ = TLV_TYPE_RESOURCE"

definition prv_getDataType :: "u8 \<Rightarrow> lwm2m_data_type_t" where
  "prv_getDataType t =
     (if t = TLV_TYPE_OBJECT then LWM2M_TYPE_OBJECT
      else if t = TLV_TYPE_OBJECT_INSTANCE then LWM2M_TYPE_OBJECT_INSTANCE
      else if t = TLV_TYPE_MULTIPLE_RESOURCE then LWM2M_TYPE_MULTIPLE_RESOURCE
      else if t = TLV_TYPE_RESOURCE \<or> t = TLV_TYPE_RESOURCE_INSTANCE then LWM2M_TYPE_OPAQUE
      else LWM2M_TYPE_UNDEFINED)"

definition prv_getHeaderLength :: "u16 \<Rightarrow> nat \<Rightarrow> nat" where
  "prv_getHeaderLength i dataLen =
     2 + (if i > 0xFF then 1 else 0)
       + (if dataLen > 0xFFFF then 3 else if dataLen > 0xFF then 2 else if dataLen > 7 then 1 else 0)"

text \<open>\<open>prv_createHeader\<close>: the length it returns, and the bytes it writes, which are fewer when the
  length does not fit its 24 bits.\<close>

definition prv_createHeader :: "bool \<Rightarrow> lwm2m_data_type_t \<Rightarrow> u16 \<Rightarrow> nat \<Rightarrow> nat \<times> bytes" where
  "prv_createHeader isInstance type i data_len =
     (let hdrType = (if isInstance then TLV_TYPE_RESOURCE_INSTANCE else prv_getHeaderType type);
          h0 = hdrType AND 0xC0;
          h1 = (if i > 0xFF then h0 OR 0x20 else h0);
          idBytes = (if i > 0xFF then [ucast (drop_bit 8 i), ucast i] else [ucast i]) in
      (prv_getHeaderLength i data_len,
       if data_len \<le> 7 then (h1 + word_of_nat data_len) # idBytes
       else if data_len \<le> 0xFF then (h1 OR 0x08) # idBytes @ [word_of_nat data_len]
       else if data_len \<le> 0xFFFF then
         (h1 OR 0x10) # idBytes @ [word_of_nat (data_len div 2 ^ 8), word_of_nat data_len]
       else if data_len \<le> 0xFFFFFF then
         (h1 OR 0x18) # idBytes @ [word_of_nat (data_len div 2 ^ 16),
           word_of_nat (data_len div 2 ^ 8), word_of_nat data_len]
       else h1 # idBytes))"

text \<open>The \<open>switch\<close> of \<open>lwm2m_decode_TLV\<close> on the length bits, for the length field at \<open>dataIndex\<close>:
  the length and the index of the data, or \<open>None\<close> when the buffer is too short.\<close>

definition decode_TLV_length :: "bytes \<Rightarrow> nat \<Rightarrow> (nat \<times> nat) option" where
  "decode_TLV_length buffer dataIndex =
     (let lenBits = buffer ! 0 AND 0x18; byte = (\<lambda>j. unat (buffer ! (dataIndex + j))) in
      if lenBits = 0x00 then Some (unat (buffer ! 0 AND 0x07), dataIndex)
      else if lenBits = 0x08 then
        if length buffer < dataIndex + 1 then None else Some (byte 0, dataIndex + 1)
      else if lenBits = 0x10 then
        if length buffer < dataIndex + 2 then None
        else Some (byte 0 * 2 ^ 8 + byte 1, dataIndex + 2)
      else
        if length buffer < dataIndex + 3 then None
        else Some (byte 0 * 2 ^ 16 + byte 1 * 2 ^ 8 + byte 2, dataIndex + 3))"

text \<open>\<open>lwm2m_decode_TLV\<close>: the type, the id, the index and the length of the data; \<open>None\<close> when it
  returns 0.\<close>

definition lwm2m_decode_TLV :: "bytes \<Rightarrow> (lwm2m_data_type_t \<times> u16 \<times> nat \<times> nat) option" where
  "lwm2m_decode_TLV buffer =
     (if length buffer < 2 then None
      else let type = prv_getDataType (buffer ! 0 AND 0xC0); long = (buffer ! 0 AND 0x20 = 0x20) in
      if long \<and> length buffer < 3 then None
      else let oID = (if long then push_bit 8 (ucast (buffer ! 1)) + ucast (buffer ! 2)
                      else ucast (buffer ! 1)) in
      (case decode_TLV_length buffer (if long then 3 else 2) of
         None \<Rightarrow> None
       | Some (dataLen, dataIndex) \<Rightarrow>
           if dataIndex + dataLen > length buffer then None
           else Some (type, oID, dataIndex, dataLen)))"

section \<open>Size\<close>

text \<open>Conversion of a \<open>size_t\<close> to \<open>int\<close>, and the sum of two \<open>int\<close>s.\<close>

definition c_int :: "int \<Rightarrow> int" where
  "c_int i = signed_take_bit 31 i"

definition int_add :: "int \<Rightarrow> int \<Rightarrow> int outcome" where
  "int_add a b = (if a + b > 2147483647 \<or> a + b < - 2147483648 then UB else Ret (a + b))"

text \<open>The loop of \<open>prv_getLength\<close>, with \<open>length\<close> so far.\<close>

fun getLength_loop :: "lwm2m_data_t list \<Rightarrow> int \<Rightarrow> int outcome" where
  "getLength_loop [] len = Ret len"
| "getLength_loop (Data i v # ds) len =
     (let header = (\<lambda>n. int (prv_getHeaderLength i n));
          buffer = (\<lambda>n. getLength_loop ds (c_int (len + (header n + int n))));
          fixed = (\<lambda>n. oc_bind (int_add len (header n + int n)) (getLength_loop ds));
          children = (\<lambda>subLength.
            if subLength = -1 then getLength_loop ds (-1)
            else oc_bind (int_add (header (unat (word_of_int subLength :: u64))) subLength) (\<lambda>n.
                 oc_bind (int_add len n) (getLength_loop ds))) in
      if len = -1 then Ret len
      else case v of
        V_OBJECT_INSTANCE cs \<Rightarrow> oc_bind (getLength_loop cs 0) children
      | V_MULTIPLE_RESOURCE cs \<Rightarrow> oc_bind (getLength_loop cs 0) children
      | V_STRING s \<Rightarrow> buffer (length s)
      | V_OPAQUE s \<Rightarrow> buffer (length s)
      | V_CORE_LINK s \<Rightarrow> buffer (length s)
      | V_INTEGER n \<Rightarrow> buffer (length (prv_encodeInt n))
      | V_UNSIGNED_INTEGER n \<Rightarrow> buffer (length (prv_encodeUInt n))
      | V_FLOAT f \<Rightarrow> buffer (if above_FLT_MAX f then 8 else 4)
      | V_BOOLEAN b \<Rightarrow> fixed 1
      | V_OBJECT_LINK oid iid \<Rightarrow> fixed 4
      | _ \<Rightarrow> getLength_loop ds (-1))"

definition prv_getLength :: "lwm2m_data_t list \<Rightarrow> int outcome" where
  "prv_getLength dataP = getLength_loop dataP 0"

section \<open>Serializer\<close>

text \<open>A write into the allocated buffer, and a record: its header, then its data where the length
  that \<open>prv_createHeader\<close> returns says.\<close>

definition write_at :: "bytes \<Rightarrow> nat \<Rightarrow> bytes \<Rightarrow> bytes outcome" where
  "write_at buf index bs =
     (if bs = [] then Ret buf
      else if index + length bs \<le> length buf
      then Ret (take index buf @ bs @ drop (index + length bs) buf) else UB)"

definition put_record :: "bytes \<Rightarrow> nat \<Rightarrow> nat \<times> bytes \<Rightarrow> bytes \<Rightarrow> (nat \<times> bytes) outcome" where
  "put_record buf index header data =
     oc_bind (write_at buf index (snd header)) (\<lambda>buf1.
     oc_bind (write_at buf1 (index + fst header) data) (\<lambda>buf2.
     Ret (index + fst header + length data, buf2)))"

text \<open>The data of a resource that is not multiple.\<close>

definition objlink_word :: "u16 \<Rightarrow> u16 \<Rightarrow> u32" where
  "objlink_word oid iid = push_bit 16 (ucast oid) OR ucast iid"

fun tlv_payload :: "lwm2m_value \<Rightarrow> bytes option" where
  "tlv_payload (V_STRING s) = Some s"
| "tlv_payload (V_OPAQUE s) = Some s"
| "tlv_payload (V_CORE_LINK s) = Some s"
| "tlv_payload (V_INTEGER n) = Some (prv_encodeInt n)"
| "tlv_payload (V_UNSIGNED_INTEGER n) = Some (prv_encodeUInt n)"
| "tlv_payload (V_FLOAT f) = Some (prv_encodeFloat f)"
| "tlv_payload (V_BOOLEAN b) = Some [if b then 1 else 0]"
| "tlv_payload (V_OBJECT_LINK oid iid) = Some (put_word 4 (unat (objlink_word oid iid)))"
| "tlv_payload _ = None"

text \<open>The result of \<open>tlv_serialize\<close> is the allocation counter, the length, and the buffer; that of
  its loop the counter, the length and the buffer.\<close>

function (sequential)
  tlv_serialize :: "allocator \<Rightarrow> nat \<Rightarrow> bool \<Rightarrow> lwm2m_data_t list \<Rightarrow> (nat \<times> int \<times> bytes option) outcome"
and tlv_serialize_loop :: "allocator \<Rightarrow> nat \<Rightarrow> bool \<Rightarrow> lwm2m_data_t list \<Rightarrow> int \<Rightarrow> nat \<Rightarrow> bytes
    \<Rightarrow> (nat \<times> int \<times> bytes) outcome" where
  "tlv_serialize mem k isRI dataP = oc_bind (prv_getLength dataP) (\<lambda>len.
     if len \<le> 0 then Ret (k, len, None)
     else case malloc mem k (nat len) of
       None \<Rightarrow> Ret (Suc k, 0, None)
     | Some buf \<Rightarrow> oc_bind (tlv_serialize_loop mem (Suc k) isRI dataP len 0 buf) (\<lambda>(k', len', buf').
         Ret (k', len', if len' < 0 then None else Some buf')))"
| "tlv_serialize_loop mem k isRI [] len index buf = Ret (k, len, buf)"
| "tlv_serialize_loop mem k isRI (Data i v # ds) len index buf =
     (if len = 0 then Ret (k, len, buf)
      else case tlv_payload v of
        Some bs \<Rightarrow>
          oc_bind (put_record buf index (prv_createHeader isRI (data_type v) i (length bs)) bs)
            (\<lambda>(index', buf'). tlv_serialize_loop mem k isRI ds len index' buf')
      | None \<Rightarrow>
          (let children = (\<lambda>(k', res, tmpBuffer).
             if res < 0 then tlv_serialize_loop mem k' isRI ds (-1) index buf
             else oc_bind (put_record buf index (prv_createHeader False (data_type v) i (nat res))
                    (case tmpBuffer of None \<Rightarrow> [] | Some t \<Rightarrow> take (nat res) t))
               (\<lambda>(index', buf'). tlv_serialize_loop mem k' isRI ds len index' buf')) in
           case v of
             V_MULTIPLE_RESOURCE cs \<Rightarrow> oc_bind (tlv_serialize mem k True cs) children
           | V_OBJECT_INSTANCE cs \<Rightarrow> oc_bind (tlv_serialize mem k isRI cs) children
           | _ \<Rightarrow> tlv_serialize_loop mem k isRI ds (-1) index buf))"
  by pat_completeness auto
termination
  by (relation "measure (\<lambda>x. case x of Inl (_, _, _, ds) \<Rightarrow> Suc (2 * size_list size ds)
        | Inr (_, _, _, ds, _, _, _) \<Rightarrow> 2 * size_list size ds)") auto

declare tlv_serialize.simps [simp del] tlv_serialize_loop.simps [simp del]

section \<open>Parser\<close>

text \<open>\<open>tlv_parse\<close>: the loop from the rest of the buffer on, with the values read so far; the empty
  list is the result 0.  When the first array cannot be allocated, NULL is dereferenced.\<close>

definition tlv_children :: "lwm2m_data_type_t \<Rightarrow> lwm2m_data_t list \<Rightarrow> lwm2m_value" where
  "tlv_children type cs = (if type = LWM2M_TYPE_OBJECT_INSTANCE then V_OBJECT_INSTANCE cs
     else V_MULTIPLE_RESOURCE cs)"

lemma decode_TLV_bounds:
  "lwm2m_decode_TLV buffer = Some (type, i, dataIndex, dataLen) \<Longrightarrow>
     2 \<le> dataIndex \<and> dataIndex \<le> 6 \<and> dataIndex + dataLen \<le> length buffer"
  unfolding lwm2m_decode_TLV_def decode_TLV_length_def by (auto simp: Let_def split: if_splits option.splits)

function tlv_parse_loop ::
    "allocator \<Rightarrow> nat \<Rightarrow> bytes \<Rightarrow> lwm2m_data_t list \<Rightarrow> (nat \<times> lwm2m_data_t list) outcome" where
  "tlv_parse_loop mem k buffer dataP =
     (case lwm2m_decode_TLV buffer of
        None \<Rightarrow> Ret (k, dataP)
      | Some (type, i, dataIndex, dataLen) \<Rightarrow>
          (case mem k of
             None \<Rightarrow> if length dataP \<ge> 1 then Ret (Suc k, []) else UB
           | Some _ \<Rightarrow>
              let body = take dataLen (drop dataIndex buffer);
                  rest = drop (dataIndex + dataLen) buffer in
              if type = LWM2M_TYPE_OBJECT_INSTANCE \<or> type = LWM2M_TYPE_MULTIPLE_RESOURCE then
                oc_bind (tlv_parse_loop mem (Suc k) body []) (\<lambda>(k', cs).
                  if cs = [] then Ret (k', [])
                  else tlv_parse_loop mem k' rest (dataP @ [Data i (tlv_children type cs)]))
              else case lwm2m_data_encode_opaque mem (Suc k) body of
                (k', v) \<Rightarrow> tlv_parse_loop mem k' rest (dataP @ [Data i v])))"
  by pat_completeness auto
termination
  by (relation "measure (\<lambda>(_, _, buffer, _). length buffer)") (auto dest!: decode_TLV_bounds)

declare tlv_parse_loop.simps [simp del]

definition tlv_parse :: "allocator \<Rightarrow> nat \<Rightarrow> bytes \<Rightarrow> (nat \<times> lwm2m_data_t list) outcome" where
  "tlv_parse mem k buffer = tlv_parse_loop mem k buffer []"

end
