(* ===== verification/TlvProps.thy ===== *)
theory TlvProps
  imports Tlv
begin

text \<open>
  The TLV serializer implements a functional description of the format, and the parser inverts
  it: what is read back is the tree with every resource as the opaque bytes of its value, which
  the accessors of \<open>data.c\<close> turn into the value again.
\<close>

section \<open>The format\<close>

definition tlv_record :: "bool \<Rightarrow> lwm2m_value \<Rightarrow> u16 \<Rightarrow> bytes \<Rightarrow> bytes" where
  "tlv_record isInstance v i bs = snd (prv_createHeader isInstance (data_type v) i (length bs)) @ bs"

fun tlv_wire :: "bool \<Rightarrow> lwm2m_data_t list \<Rightarrow> bytes" where
  "tlv_wire r [] = []"
| "tlv_wire r (Data i v # ds) =
     (case tlv_payload v of
        Some bs \<Rightarrow> tlv_record r v i bs
      | None \<Rightarrow> (case v of
          V_MULTIPLE_RESOURCE cs \<Rightarrow> tlv_record False v i (tlv_wire True cs)
        | V_OBJECT_INSTANCE cs \<Rightarrow> tlv_record False v i (tlv_wire r cs)
        | _ \<Rightarrow> [])) @ tlv_wire r ds"

text \<open>The trees that the format can express: every length fits 24 bits.\<close>

abbreviation (input) tlv_fits :: "bytes \<Rightarrow> bool" where "tlv_fits bs \<equiv> length bs \<le> 0xFFFFFF"

fun tlv_ok :: "bool \<Rightarrow> lwm2m_data_t list \<Rightarrow> bool" where
  "tlv_ok r [] = True"
| "tlv_ok r (Data i v # ds) \<longleftrightarrow>
     (case tlv_payload v of
        Some bs \<Rightarrow> tlv_fits bs
      | None \<Rightarrow> (case v of
          V_MULTIPLE_RESOURCE cs \<Rightarrow> tlv_ok True cs \<and> tlv_fits (tlv_wire True cs)
        | V_OBJECT_INSTANCE cs \<Rightarrow> tlv_ok r cs \<and> tlv_fits (tlv_wire r cs)
        | _ \<Rightarrow> False)) \<and> tlv_ok r ds"

text \<open>The three kinds of nodes.\<close>

lemma tlv_node_cases:
  assumes "tlv_ok r (Data i v # ds)"
  obtains (leaf) bs where "tlv_payload v = Some bs" "tlv_fits bs"
  | (multiple) cs where "v = V_MULTIPLE_RESOURCE cs" "tlv_ok True cs" "tlv_fits (tlv_wire True cs)"
  | (inst) cs where "v = V_OBJECT_INSTANCE cs" "tlv_ok r cs" "tlv_fits (tlv_wire r cs)"
  using assms by (cases v) auto

lemma length_createHeader:
  "n \<le> 0xFFFFFF \<Longrightarrow> length (snd (prv_createHeader r ty i n)) = prv_getHeaderLength i n"
  by (simp add: prv_createHeader_def prv_getHeaderLength_def Let_def)

lemma fst_createHeader [simp]: "fst (prv_createHeader r ty i n) = prv_getHeaderLength i n"
  by (simp add: prv_createHeader_def Let_def)

lemma length_tlv_record:
  "tlv_fits bs \<Longrightarrow> length (tlv_record r v i bs) = prv_getHeaderLength i (length bs) + length bs"
  by (simp add: tlv_record_def length_createHeader)

lemma tlv_record_nonempty: "tlv_record r v i bs \<noteq> []"
  by (auto simp: tlv_record_def prv_createHeader_def Let_def)

lemma tlv_wire_nonempty:
  assumes "tlv_ok r (d # ds)"
  shows "tlv_wire r (d # ds) \<noteq> []"
proof (cases d)
  case (Data i v)
  from assms [unfolded Data] show ?thesis
    by (cases rule: tlv_node_cases) (auto simp: Data tlv_record_nonempty)
qed

section \<open>The computed size\<close>

lemma c_int_id: "0 \<le> n \<Longrightarrow> n \<le> 2147483647 \<Longrightarrow> c_int n = n"
  unfolding c_int_def by (rule signed_take_bit_int_eq_self) auto

lemma int_add_ok: "0 \<le> a \<Longrightarrow> 0 \<le> b \<Longrightarrow> a + b \<le> 2147483647 \<Longrightarrow> int_add a b = Ret (a + b)"
  by (simp add: int_add_def)

lemma unat_u64_of_nat: "n \<le> 2147483647 \<Longrightarrow> unat (word_of_nat n :: u64) = n"
  by (simp add: unat_of_nat)

lemma getLength_leaf:
  assumes "tlv_payload v = Some bs" "0 \<le> len"
    and "len + int (prv_getHeaderLength i (length bs) + length bs) \<le> 2147483647"
  shows "getLength_loop (Data i v # ds) len =
    getLength_loop ds (len + int (prv_getHeaderLength i (length bs) + length bs))"
  using assms
  by (cases v) (auto simp: c_int_id int_add_ok Let_def prv_encodeFloat_def split: if_splits)

lemma getLength_children:
  assumes "v = V_OBJECT_INSTANCE cs \<or> v = V_MULTIPLE_RESOURCE cs" "getLength_loop cs 0 = Ret (int n)" "0 \<le> len"
    and "len + int (prv_getHeaderLength i n + n) \<le> 2147483647"
  shows "getLength_loop (Data i v # ds) len = getLength_loop ds (len + int (prv_getHeaderLength i n + n))"
  using assms by (auto simp: int_add_ok unat_u64_of_nat Let_def)

lemma getLength_wire:
  assumes "tlv_ok r ds" "0 \<le> len" "len + int (length (tlv_wire r ds)) \<le> 2147483647"
  shows "getLength_loop ds len = Ret (len + int (length (tlv_wire r ds)))"
  using assms
proof (induction r ds arbitrary: len rule: tlv_wire.induct)
  case (2 r i v ds)
  from "2.prems"(1) show ?case
  proof (cases rule: tlv_node_cases)
    case (leaf bs)
    with 2 show ?thesis by (simp add: getLength_leaf length_tlv_record del: getLength_loop.simps)
  next
    case (multiple cs)
    have "getLength_loop cs 0 = Ret (int (length (tlv_wire True cs)))"
      using 2 multiple by (simp add: length_tlv_record del: getLength_loop.simps)
    with 2 multiple show ?thesis
      by (simp add: getLength_children length_tlv_record del: getLength_loop.simps)
  next
    case (inst cs)
    have "getLength_loop cs 0 = Ret (int (length (tlv_wire r cs)))"
      using 2 inst by (simp add: length_tlv_record del: getLength_loop.simps)
    with 2 inst show ?thesis
      by (simp add: getLength_children length_tlv_record del: getLength_loop.simps)
  qed
qed simp

section \<open>The serializer\<close>

lemma write_at_prefix:
  assumes "buf = p @ rest" "length bs \<le> length rest"
  shows "write_at buf (length p) bs = Ret (p @ bs @ drop (length bs) rest)"
  using assms by (auto simp: write_at_def)

lemma put_record_prefix:
  assumes "tlv_fits bs" "length (tlv_record r v i bs) \<le> length rest"
  shows "put_record (p @ rest) (length p) (prv_createHeader r (data_type v) i (length bs)) bs =
    Ret (length (p @ tlv_record r v i bs),
         (p @ tlv_record r v i bs) @ drop (length (tlv_record r v i bs)) rest)"
proof -
  let ?h = "snd (prv_createHeader r (data_type v) i (length bs))"
  have len: "length ?h = prv_getHeaderLength i (length bs)"
    using assms(1) by (rule length_createHeader)
  have "write_at (p @ rest) (length p) ?h = Ret ((p @ ?h) @ drop (length ?h) rest)"
    using assms by (simp add: write_at_prefix tlv_record_def)
  moreover have "write_at ((p @ ?h) @ drop (length ?h) rest) (length (p @ ?h)) bs =
      Ret ((p @ ?h) @ bs @ drop (length bs) (drop (length ?h) rest))"
    using assms by (intro write_at_prefix) (auto simp: tlv_record_def)
  ultimately show ?thesis
    by (simp add: put_record_def tlv_record_def len [symmetric] add.commute)
qed

definition always :: "allocator \<Rightarrow> bool" where
  "always mem \<longleftrightarrow> (\<forall>k. mem k \<noteq> None)"

lemma malloc_always:
  assumes "always mem"
  obtains junk where "malloc mem k n = Some junk" "length junk = n"
  using assms unfolding always_def malloc_def by (cases "mem k") (auto, metis option.distinct(1))

text \<open>The loop writes the rest of the wire format after what is there; the buffer has the computed
  size.\<close>

definition loop_writes :: "allocator \<Rightarrow> bool \<Rightarrow> lwm2m_data_t list \<Rightarrow> bool" where
  "loop_writes mem r ds \<longleftrightarrow> (\<forall>k len p rest. 0 < len \<longrightarrow> length rest = length (tlv_wire r ds) \<longrightarrow>
     (\<exists>k'. tlv_serialize_loop mem k r ds len (length p) (p @ rest) = Ret (k', len, p @ tlv_wire r ds)))"

definition wire_output :: "bool \<Rightarrow> lwm2m_data_t list \<Rightarrow> int \<times> bytes option" where
  "wire_output r ds = (int (length (tlv_wire r ds)),
     if tlv_wire r ds = [] then None else Some (tlv_wire r ds))"

lemma serialize_of_loop:
  assumes "loop_writes mem r ds" "always mem" "tlv_ok r ds" "length (tlv_wire r ds) \<le> 2147483647"
  shows "\<exists>k'. tlv_serialize mem k r ds = Ret (k', wire_output r ds)"
proof -
  let ?n = "length (tlv_wire r ds)"
  have len: "prv_getLength ds = Ret (int ?n)"
    using assms by (simp add: prv_getLength_def getLength_wire)
  show ?thesis
  proof (cases "tlv_wire r ds = []")
    case True
    with len show ?thesis by (simp add: tlv_serialize.simps wire_output_def)
  next
    case False
    obtain junk where j: "malloc mem k ?n = Some junk" "length junk = ?n"
      using assms(2) by (rule malloc_always)
    obtain k' where "tlv_serialize_loop mem (Suc k) r ds (int ?n) 0 junk = Ret (k', int ?n, tlv_wire r ds)"
      using assms(1) [unfolded loop_writes_def, rule_format, of "int ?n" junk "Suc k" "[]"] j False
      by auto
    with False len j show ?thesis by (auto simp: tlv_serialize.simps wire_output_def)
  qed
qed

lemma loop_leaf:
  assumes "tlv_payload v = Some bs" "tlv_fits bs" "0 < len" "loop_writes mem r ds"
    and "length rest = length (tlv_wire r (Data i v # ds))"
  shows "\<exists>k'. tlv_serialize_loop mem k r (Data i v # ds) len (length p) (p @ rest) =
    Ret (k', len, p @ tlv_wire r (Data i v # ds))"
proof -
  let ?rec = "tlv_record r v i bs"
  have "put_record (p @ rest) (length p) (prv_createHeader r (data_type v) i (length bs)) bs =
      Ret (length (p @ ?rec), (p @ ?rec) @ drop (length ?rec) rest)"
    using assms by (intro put_record_prefix) auto
  moreover obtain k' where "tlv_serialize_loop mem k r ds len (length (p @ ?rec))
      ((p @ ?rec) @ drop (length ?rec) rest) = Ret (k', len, (p @ ?rec) @ tlv_wire r ds)"
    using assms(4) [unfolded loop_writes_def, rule_format, of len "drop (length ?rec) rest" k "p @ ?rec"]
      assms(1,3,5) by auto
  ultimately show ?thesis using assms by (simp add: tlv_serialize_loop.simps)
qed

lemma loop_children:
  assumes "(v = V_MULTIPLE_RESOURCE cs \<and> r' = True) \<or> (v = V_OBJECT_INSTANCE cs \<and> r' = r)"
    and "tlv_serialize mem k r' cs = Ret (k1, wire_output r' cs)" "tlv_fits (tlv_wire r' cs)"
    and "0 < len" "loop_writes mem r ds"
    and "length rest = length (tlv_wire r (Data i v # ds))"
  shows "\<exists>k'. tlv_serialize_loop mem k r (Data i v # ds) len (length p) (p @ rest) =
    Ret (k', len, p @ tlv_wire r (Data i v # ds))"
proof -
  let ?bs = "tlv_wire r' cs" and ?rec = "tlv_record False v i (tlv_wire r' cs)"
  have w: "tlv_wire r (Data i v # ds) = ?rec @ tlv_wire r ds" using assms(1) by auto
  have "put_record (p @ rest) (length p) (prv_createHeader False (data_type v) i (length ?bs)) ?bs =
      Ret (length (p @ ?rec), (p @ ?rec) @ drop (length ?rec) rest)"
    using assms(3,6) w by (intro put_record_prefix) auto
  moreover obtain k' where "tlv_serialize_loop mem k1 r ds len (length (p @ ?rec))
      ((p @ ?rec) @ drop (length ?rec) rest) = Ret (k', len, (p @ ?rec) @ tlv_wire r ds)"
    using assms(5) [unfolded loop_writes_def, rule_format, of len "drop (length ?rec) rest" k1 "p @ ?rec"]
      assms(4,6) w by auto
  ultimately show ?thesis using assms(1,2,4) unfolding w
    by (auto simp: tlv_serialize_loop.simps wire_output_def)
qed

lemma loop_writes_wire: "always mem \<Longrightarrow> tlv_ok r ds \<Longrightarrow> loop_writes mem r ds"
proof (induction r ds rule: tlv_wire.induct)
  case (1 r)
  show ?case by (simp add: loop_writes_def tlv_serialize_loop.simps)
next
  case (2 r i v ds)
  have ds: "loop_writes mem r ds" using 2 by simp
  have child: "\<exists>k1. tlv_serialize mem k r' cs = Ret (k1, wire_output r' cs)"
    if "loop_writes mem r' cs" "tlv_ok r' cs" "tlv_fits (tlv_wire r' cs)" for k r' cs
    using serialize_of_loop [OF that(1) "2.prems"(1) that(2)] that(3) by simp
  from "2.prems"(2) show ?case
  proof (cases rule: tlv_node_cases)
    case (leaf bs)
    with ds show ?thesis
      unfolding loop_writes_def [of mem r "Data i v # ds"] by (intro allI impI loop_leaf) auto
  next
    case (multiple cs)
    with 2 have "loop_writes mem True cs" by simp
    with ds multiple child [of True cs] show ?thesis
      unfolding loop_writes_def [of mem r "Data i v # ds"]
      by (metis (full_types) loop_children)
  next
    case (inst cs)
    with 2 have "loop_writes mem r cs" by simp
    with ds inst child [of r cs] show ?thesis
      unfolding loop_writes_def [of mem r "Data i v # ds"]
      by (metis (full_types) loop_children)
  qed
qed

lemma tlv_serialize_wire:
  assumes "always mem" "tlv_ok r ds" "length (tlv_wire r ds) \<le> 2147483647"
  shows "\<exists>k'. tlv_serialize mem k r ds = Ret (k', wire_output r ds)"
  using assms by (intro serialize_of_loop loop_writes_wire)

section \<open>The parser\<close>

lemma u16_bytes: "push_bit 8 (ucast (ucast (drop_bit 8 i) :: u8)) + ucast (ucast i :: u8) = (i :: u16)"
  by (rule bit_word_eqI)
    (subst disjunctive_add; auto simp: bit_simps; fail)

lemma nat_bytes2: "n \<le> 0xFFFF \<Longrightarrow> unat (word_of_nat (n div 2 ^ 8) :: u8) * 2 ^ 8 + unat (word_of_nat n :: u8) = n"
  by (simp add: unat_of_nat div_less_iff_less_mult)

lemma nat_bytes3:
  assumes "n \<le> 0xFFFFFF"
  shows "unat (word_of_nat (n div 2 ^ 16) :: u8) * 2 ^ 16
     + unat (word_of_nat (n div 2 ^ 8) :: u8) * 2 ^ 8 + unat (word_of_nat n :: u8) = n"
proof -
  have lt: "n div 65536 < 256" using assms by (simp add: div_less_iff_less_mult)
  have "n div 65536 * 65536 + n div 256 mod 256 * 256 + n mod 256 =
      (n div 256 div 256 * 256 + n div 256 mod 256) * 256 + n mod 256"
    by (simp add: div_mult2_eq [symmetric])
  also have "\<dots> = n" by (simp only: div_mult_mod_eq)
  finally show ?thesis using lt by (simp add: unat_of_nat)
qed

text \<open>The type of a parsed record.\<close>

definition wire_type :: "bool \<Rightarrow> lwm2m_value \<Rightarrow> lwm2m_data_type_t" where
  "wire_type isInstance v = (if isInstance then LWM2M_TYPE_OPAQUE
     else case data_type v of
       LWM2M_TYPE_OBJECT_INSTANCE \<Rightarrow> LWM2M_TYPE_OBJECT_INSTANCE
     | LWM2M_TYPE_MULTIPLE_RESOURCE \<Rightarrow> LWM2M_TYPE_MULTIPLE_RESOURCE
     | LWM2M_TYPE_OBJECT \<Rightarrow> LWM2M_TYPE_OBJECT_INSTANCE
     | _ \<Rightarrow> LWM2M_TYPE_OPAQUE)"

text \<open>The first byte of a header: the bits of the type, of a long id, and of the length.\<close>

definition header_bits :: "bool \<Rightarrow> lwm2m_value \<Rightarrow> u8" where
  "header_bits r v = (if r then 0x40 else case wire_type r v of LWM2M_TYPE_OBJECT_INSTANCE \<Rightarrow> 0
     | LWM2M_TYPE_MULTIPLE_RESOURCE \<Rightarrow> 0x80 | _ \<Rightarrow> 0xC0)"

lemma header_type_bits:
  "(if r then TLV_TYPE_RESOURCE_INSTANCE else prv_getHeaderType (data_type v)) AND 0xC0 = header_bits r v"
  by (cases v) (auto simp: header_bits_def wire_type_def)

lemma header_bits_cases:
  "header_bits r v = 0x40 \<and> wire_type r v = LWM2M_TYPE_OPAQUE
   \<or> header_bits r v = 0xC0 \<and> wire_type r v = LWM2M_TYPE_OPAQUE
   \<or> header_bits r v = 0x80 \<and> wire_type r v = LWM2M_TYPE_MULTIPLE_RESOURCE
   \<or> header_bits r v = 0x00 \<and> wire_type r v = LWM2M_TYPE_OBJECT_INSTANCE"
  by (cases v) (auto simp: header_bits_def wire_type_def)

lemma decode_small:
  fixes r :: bool and v :: lwm2m_value
  assumes "n \<le> 7"
  defines "b \<equiv> header_bits r v + word_of_nat n"
  shows "prv_getDataType (b AND 0xC0) = wire_type r v" "b AND 0x20 = 0" "b AND 0x18 = 0"
    "unat (b AND 0x07) = n" "prv_getDataType (((header_bits r v OR 0x20) + word_of_nat n) AND 0xC0) = wire_type r v"
    "((header_bits r v OR 0x20) + word_of_nat n) AND 0x20 = 0x20"
    "((header_bits r v OR 0x20) + word_of_nat n) AND 0x18 = 0"
    "unat (((header_bits r v OR 0x20) + word_of_nat n) AND 0x07) = n"
proof -
  have "n \<in> {0, 1, 2, 3, 4, 5, 6, 7}" using assms(1) by auto
  then show "prv_getDataType (b AND 0xC0) = wire_type r v" "b AND 0x20 = 0" "b AND 0x18 = 0"
    "unat (b AND 0x07) = n" "prv_getDataType (((header_bits r v OR 0x20) + word_of_nat n) AND 0xC0) = wire_type r v"
    "((header_bits r v OR 0x20) + word_of_nat n) AND 0x20 = 0x20"
    "((header_bits r v OR 0x20) + word_of_nat n) AND 0x18 = 0"
    "unat (((header_bits r v OR 0x20) + word_of_nat n) AND 0x07) = n"
    unfolding b_def using header_bits_cases [of r v]
    by (elim disjE conjE insertE emptyE; simp add: prv_getDataType_def)+
qed

lemma decode_long:
  assumes "l \<in> {0x08, 0x10, 0x18}"
  shows "prv_getDataType ((header_bits r v OR l) AND 0xC0) = wire_type r v"
    "(header_bits r v OR l) AND 0x20 = 0" "(header_bits r v OR l) AND 0x18 = l"
    "prv_getDataType (((header_bits r v OR 0x20) OR l) AND 0xC0) = wire_type r v"
    "((header_bits r v OR 0x20) OR l) AND 0x20 = 0x20" "((header_bits r v OR 0x20) OR l) AND 0x18 = l"
  using assms header_bits_cases [of r v]
  by (elim disjE conjE insertE emptyE; simp add: prv_getDataType_def)+

lemma ucast_short: "\<not> i > 0xFF \<Longrightarrow> ucast (ucast (i :: u16) :: u8) = i"
  by (rule word_unat_eq_iff [THEN iffD2]) (simp add: unat_ucast_mod word_le_nat_alt not_less)

text \<open>A header is a first byte, the bytes of the id, and the bytes of the length.\<close>

definition id_bytes :: "u16 \<Rightarrow> bytes" where
  "id_bytes i = (if i > 0xFF then [ucast (drop_bit 8 i), ucast i] else [ucast i])"

definition len_code :: "nat \<Rightarrow> u8" where
  "len_code n = (if n \<le> 0xFF then 0x08 else if n \<le> 0xFFFF then 0x10 else 0x18)"

definition len_bytes :: "nat \<Rightarrow> bytes" where
  "len_bytes n = (if n \<le> 7 then [] else if n \<le> 0xFF then [word_of_nat n]
     else if n \<le> 0xFFFF then [word_of_nat (n div 2 ^ 8), word_of_nat n]
     else [word_of_nat (n div 2 ^ 16), word_of_nat (n div 2 ^ 8), word_of_nat n])"

definition first_byte :: "bool \<Rightarrow> lwm2m_value \<Rightarrow> u16 \<Rightarrow> nat \<Rightarrow> u8" where
  "first_byte r v i n = (let h = (if i > 0xFF then header_bits r v OR 0x20 else header_bits r v) in
     if n \<le> 7 then h + word_of_nat n else h OR len_code n)"

lemma header_shape:
  assumes "n \<le> 0xFFFFFF"
  shows "snd (prv_createHeader r (data_type v) i n) = first_byte r v i n # id_bytes i @ len_bytes n"
  unfolding prv_createHeader_def header_type_bits Let_def first_byte_def id_bytes_def len_code_def
    len_bytes_def using assms by simp

lemma first_byte_bits:
  "prv_getDataType (first_byte r v i n AND 0xC0) = wire_type r v"
  "first_byte r v i n AND 0x20 = (if i > 0xFF then 0x20 else 0)"
  "first_byte r v i n AND 0x18 = (if n \<le> 7 then 0 else len_code n)"
proof -
  have l: "len_code n \<in> {0x08, 0x10, 0x18}" by (simp add: len_code_def)
  show "prv_getDataType (first_byte r v i n AND 0xC0) = wire_type r v"
    "first_byte r v i n AND 0x20 = (if i > 0xFF then 0x20 else 0)"
    "first_byte r v i n AND 0x18 = (if n \<le> 7 then 0 else len_code n)"
    unfolding first_byte_def Let_def by (simp_all add: decode_small decode_long [OF l])
qed

lemma first_byte_len: "n \<le> 7 \<Longrightarrow> unat (first_byte r v i n AND 0x07) = n"
  by (simp add: first_byte_def Let_def decode_small)

lemma id_bytes_read:
  "i > 0xFF \<Longrightarrow> push_bit 8 (ucast (id_bytes i ! 0)) + ucast (id_bytes i ! 1) = i"
  "\<not> i > 0xFF \<Longrightarrow> ucast (id_bytes i ! 0) = i"
  by (simp_all add: id_bytes_def u16_bytes ucast_short)

lemma length_id_bytes: "Suc (length (id_bytes i)) = (if i > 0xFF then 3 else 2)"
  by (simp add: id_bytes_def)

lemma decode_TLV_length_shape:
  assumes "n \<le> 0xFFFFFF"
  shows "decode_TLV_length (first_byte r v i n # ids @ len_bytes n @ ys) (Suc (length ids)) =
    Some (n, Suc (length ids) + length (len_bytes n))"
proof -
  have nth: "(first_byte r v i n # ids @ len_bytes n @ ys) ! (Suc (length ids) + j) =
      (len_bytes n @ ys) ! j" for j by (simp add: nth_append)
  note defs = decode_TLV_length_def nth first_byte_bits first_byte_len len_bytes_def len_code_def Let_def
  consider "n \<le> 7" | "7 < n" "n \<le> 0xFF" | "0xFF < n" "n \<le> 0xFFFF" | "0xFFFF < n" by linarith
  then show ?thesis
  proof cases
    case 1
    then show ?thesis by (simp add: defs)
  next
    case 2
    then show ?thesis by (simp add: defs nth [of 0, simplified] unat_of_nat)
  next
    case 3
    then show ?thesis using nat_bytes2 [of n] by (simp add: defs nth [of 0, simplified])
  next
    case 4
    then show ?thesis using nat_bytes3 [OF assms]
      by (simp add: defs nth [of 0, simplified] nth_Cons_numeral)
  qed
qed

lemma decode_TLV_ids:
  "(if i > 0xFF then push_bit 8 (ucast ((h # id_bytes i @ ys) ! 1)) + ucast ((h # id_bytes i @ ys) ! 2)
    else ucast ((h # id_bytes i @ ys) ! 1)) = i"
  by (simp add: id_bytes_def u16_bytes ucast_short nth_Cons')

lemma decode_TLV_shape:
  assumes "n \<le> 0xFFFFFF" "n \<le> length ys"
  shows "lwm2m_decode_TLV (first_byte r v i n # id_bytes i @ len_bytes n @ ys) =
    Some (wire_type r v, i, Suc (length (id_bytes i)) + length (len_bytes n), n)"
proof -
  let ?b = "first_byte r v i n # id_bytes i @ len_bytes n @ ys"
  have long: "(?b ! 0 AND 0x20 = 0x20) = (i > 0xFF)" "prv_getDataType (?b ! 0 AND 0xC0) = wire_type r v"
    by (simp_all add: first_byte_bits)
  have ix: "(if i > 0xFF then 3 else 2) = Suc (length (id_bytes i))" by (simp only: length_id_bytes)
  have "\<not> length ?b < 2" "\<not> (i > 0xFF \<and> length ?b < 3)" using ix by (auto split: if_splits)
  then show ?thesis
    unfolding lwm2m_decode_TLV_def long Let_def ix decode_TLV_ids
      decode_TLV_length_shape [OF assms(1)]
    using assms(2) by simp
qed

lemma decode_record:
  assumes "tlv_fits bs"
  shows "lwm2m_decode_TLV (tlv_record r v i bs @ rest) =
    Some (wire_type r v, i, prv_getHeaderLength i (length bs), length bs)"
proof -
  have "prv_getHeaderLength i (length bs) = Suc (length (id_bytes i)) + length (len_bytes (length bs))"
    using length_createHeader [OF assms, of r "data_type v" i] header_shape [OF assms, of r v i]
    by simp
  then show ?thesis
    using decode_TLV_shape [OF assms, of "bs @ rest" r v i]
    by (simp add: tlv_record_def header_shape [OF assms])
qed

section \<open>Round trip\<close>

text \<open>What is read back: every resource is opaque.\<close>

fun tlv_view :: "lwm2m_data_t list \<Rightarrow> lwm2m_data_t list" where
  "tlv_view [] = []"
| "tlv_view (Data i v # ds) =
     Data i (case v of
        V_OBJECT_INSTANCE cs \<Rightarrow> V_OBJECT_INSTANCE (tlv_view cs)
      | V_MULTIPLE_RESOURCE cs \<Rightarrow> V_MULTIPLE_RESOURCE (tlv_view cs)
      | _ \<Rightarrow> V_OPAQUE (the (tlv_payload v))) # tlv_view ds"

fun tlv_full :: "lwm2m_data_t list \<Rightarrow> bool" where
  "tlv_full [] = True"
| "tlv_full (Data i v # ds) \<longleftrightarrow>
     (case v of
        V_OBJECT_INSTANCE cs \<Rightarrow> cs \<noteq> [] \<and> tlv_full cs
      | V_MULTIPLE_RESOURCE cs \<Rightarrow> cs \<noteq> [] \<and> tlv_full cs
      | _ \<Rightarrow> True) \<and> tlv_full ds"

lemma tlv_view_empty [simp]: "tlv_view ds = [] \<longleftrightarrow> ds = []"
  by (cases ds rule: tlv_view.cases) auto

lemma encode_opaque_always: "always mem \<Longrightarrow> \<exists>k'. lwm2m_data_encode_opaque mem k bs = (k', V_OPAQUE bs)"
  by (auto simp: lwm2m_data_encode_opaque_def prv_setBuffer_def always_def dest: spec [of _ k])

lemma take_drop_record:
  assumes "tlv_fits bs"
  shows "take (length bs) (drop (prv_getHeaderLength i (length bs)) (tlv_record r v i bs @ rest)) = bs"
    "drop (prv_getHeaderLength i (length bs) + length bs) (tlv_record r v i bs @ rest) = rest"
  using length_createHeader [OF assms, of r "data_type v" i, symmetric] by (simp_all add: tlv_record_def)

lemma tlv_payload_type:
  "tlv_payload v = Some bs \<Longrightarrow> wire_type r v = LWM2M_TYPE_OPAQUE"
  by (cases v) (auto simp: wire_type_def)

lemma tlv_parse_children:
  assumes "always mem" "tlv_fits w" "wire_type False v \<noteq> LWM2M_TYPE_OPAQUE"
    and "tlv_parse_loop mem (Suc k) w [] = Ret (k1, cs)" "cs \<noteq> []"
  shows "tlv_parse_loop mem k (tlv_record False v i w @ rest) acc =
    tlv_parse_loop mem k1 rest (acc @ [Data i (tlv_children (wire_type False v) cs)])"
proof -
  obtain b where b: "mem k = Some b" using assms by (auto simp: always_def)
  have "wire_type False v = LWM2M_TYPE_OBJECT_INSTANCE \<or> wire_type False v = LWM2M_TYPE_MULTIPLE_RESOURCE"
    using assms(3) by (cases v) (auto simp: wire_type_def)
  with assms b show ?thesis
    by (subst tlv_parse_loop.simps)
      (simp add: decode_record take_drop_record Let_def del: take_append drop_append)
qed

text \<open>The parser reads the records of the tree and goes on behind them.\<close>

definition parse_reads :: "allocator \<Rightarrow> bool \<Rightarrow> lwm2m_data_t list \<Rightarrow> bool" where
  "parse_reads mem r ds \<longleftrightarrow> (\<forall>k acc rest. \<exists>k'.
     tlv_parse_loop mem k (tlv_wire r ds @ rest) acc = tlv_parse_loop mem k' rest (acc @ tlv_view ds))"

lemma parse_reads_whole:
  assumes "parse_reads mem r ds"
  shows "\<exists>k'. tlv_parse_loop mem k (tlv_wire r ds) [] = Ret (k', tlv_view ds)"
proof -
  obtain k' where "tlv_parse_loop mem k (tlv_wire r ds @ []) [] = tlv_parse_loop mem k' [] ([] @ tlv_view ds)"
    using assms unfolding parse_reads_def by blast
  then show ?thesis by (simp add: tlv_parse_loop.simps [of mem k' "[]"] lwm2m_decode_TLV_def)
qed

lemma parse_reads_leaf:
  assumes "always mem" "tlv_payload v = Some bs" "tlv_fits bs" "parse_reads mem r ds"
  shows "parse_reads mem r (Data i v # ds)"
  unfolding parse_reads_def
proof (intro allI)
  fix k acc rest
  obtain b where b: "mem k = Some b" using assms by (auto simp: always_def)
  have view: "tlv_view (Data i v # ds) = Data i (V_OPAQUE bs) # tlv_view ds"
    using assms(2) by (cases v) auto
  obtain k1 where "lwm2m_data_encode_opaque mem (Suc k) bs = (k1, V_OPAQUE bs)"
    using encode_opaque_always [OF assms(1)] by blast
  with assms b have "tlv_parse_loop mem k (tlv_wire r (Data i v # ds) @ rest) acc =
      tlv_parse_loop mem k1 (tlv_wire r ds @ rest) (acc @ [Data i (V_OPAQUE bs)])"
    by (subst tlv_parse_loop.simps)
      (simp add: decode_record take_drop_record tlv_payload_type Let_def del: take_append drop_append)
  then show "\<exists>k'. tlv_parse_loop mem k (tlv_wire r (Data i v # ds) @ rest) acc =
      tlv_parse_loop mem k' rest (acc @ tlv_view (Data i v # ds))"
    using assms(4) unfolding parse_reads_def view by (metis append_Cons append_Nil append_assoc)
qed

lemma parse_reads_children:
  assumes "always mem" "(v = V_MULTIPLE_RESOURCE cs \<and> r' = True) \<or> (v = V_OBJECT_INSTANCE cs \<and> r' = r)"
    and "tlv_fits (tlv_wire r' cs)" "parse_reads mem r' cs" "cs \<noteq> []" "parse_reads mem r ds"
  shows "parse_reads mem r (Data i v # ds)"
  unfolding parse_reads_def
proof (intro allI)
  fix k acc rest
  let ?v = "tlv_children (wire_type False v) (tlv_view cs)"
  have w: "tlv_wire r (Data i v # ds) = tlv_record False v i (tlv_wire r' cs) @ tlv_wire r ds"
    and view: "tlv_view (Data i v # ds) = Data i ?v # tlv_view ds"
    and t: "wire_type False v \<noteq> LWM2M_TYPE_OPAQUE"
    using assms(2) by (auto simp: tlv_children_def wire_type_def)
  obtain k1 where c: "tlv_parse_loop mem (Suc k) (tlv_wire r' cs) [] = Ret (k1, tlv_view cs)"
    using parse_reads_whole [OF assms(4)] by blast
  have "tlv_parse_loop mem k (tlv_wire r (Data i v # ds) @ rest) acc =
      tlv_parse_loop mem k1 (tlv_wire r ds @ rest) (acc @ [Data i ?v])"
    using tlv_parse_children [OF assms(1,3) t c] assms(5) by (simp add: w del: tlv_wire.simps)
  then show "\<exists>k'. tlv_parse_loop mem k (tlv_wire r (Data i v # ds) @ rest) acc =
      tlv_parse_loop mem k' rest (acc @ tlv_view (Data i v # ds))"
    using assms(6) unfolding parse_reads_def view by (metis append_Cons append_Nil append_assoc)
qed

lemma parse_reads_wire: "always mem \<Longrightarrow> tlv_ok r ds \<Longrightarrow> tlv_full ds \<Longrightarrow> parse_reads mem r ds"
proof (induction r ds rule: tlv_wire.induct)
  case (1 r)
  show ?case by (simp add: parse_reads_def) blast
next
  case (2 r i v ds)
  have ds: "parse_reads mem r ds" using 2 by simp
  from "2.prems"(2) show ?case
  proof (cases rule: tlv_node_cases)
    case (leaf bs)
    with ds "2.prems"(1) show ?thesis by (intro parse_reads_leaf)
  next
    case (multiple cs)
    with 2 have "parse_reads mem True cs" by simp
    with ds multiple "2.prems" show ?thesis
      by (intro parse_reads_children [where r' = True and cs = cs]) auto
  next
    case (inst cs)
    with 2 have "parse_reads mem r cs" by simp
    with ds inst "2.prems" show ?thesis
      by (intro parse_reads_children [where r' = r and cs = cs]) auto
  qed
qed

section \<open>Values\<close>

lemma get_word_2: "get_word [a, b] = 256 * unat a + unat b"
  by (simp add: utils_copyValue_def)

lemma u16_get_word: "(word_of_nat (get_word [ucast (drop_bit 8 i), ucast i]) :: u16) = i"
proof -
  have "unat (ucast (drop_bit 8 i) :: u8) = unat i div 256"
    by (simp add: unat_ucast_mod drop_bit_eq_div unat_div div_less_iff_less_mult)
  then have "get_word [ucast (drop_bit 8 i), ucast i] = unat i"
    by (simp add: get_word_2 unat_ucast_mod)
  then show ?thesis by simp
qed

lemma word_of_get_put [simp]:
  "(word_of_nat (get_word (put_word 4 (unat a))) :: u32) = a"
  "(word_of_nat (get_word (put_word 8 (unat b))) :: u64) = b"
  by simp_all

lemma sint_ucast_scast:
  assumes "- (2 ^ (LENGTH('a::len) - 1)) \<le> sint (n :: u64)" "sint n < 2 ^ (LENGTH('a) - 1)"
    "LENGTH('a) \<le> 64"
  shows "scast (ucast n :: 'a word) = n"
proof -
  have "sint n = signed_take_bit 63 (uint n)" by (simp add: sint_uint)
  then have "signed_take_bit (LENGTH('a) - 1) (uint n) = signed_take_bit (LENGTH('a) - 1) (sint n)"
    using assms(3) by simp
  then have "sint (ucast n :: 'a word) = signed_take_bit (LENGTH('a) - 1) (sint n)"
    by (simp add: signed_ucast_eq)
  with assms have "sint (ucast n :: 'a word) = sint n" by (simp add: signed_take_bit_int_eq_self)
  then show ?thesis by (simp add: scast_eq)
qed

lemma decode_encodeInt: "lwm2m_data_decode_int (V_OPAQUE (prv_encodeInt n)) = Some n"
proof -
  consider "-128 \<le> sint n" "sint n \<le> 127"
    | "\<not> (-128 \<le> sint n \<and> sint n \<le> 127)" "-32768 \<le> sint n" "sint n \<le> 32767"
    | "\<not> (-32768 \<le> sint n \<and> sint n \<le> 32767)" "-2147483648 \<le> sint n" "sint n \<le> 2147483647"
    | "\<not> (-2147483648 \<le> sint n \<and> sint n \<le> 2147483647)" by blast
  then show ?thesis
  proof cases
    case 1
    then have "scast (ucast n :: u8) = n" by (intro sint_ucast_scast) auto
    with 1 show ?thesis by (simp add: prv_encodeInt_def lwm2m_data_decode_int_def)
  next
    case 2
    then have "scast (ucast n :: u16) = n" by (intro sint_ucast_scast) auto
    with 2 show ?thesis
      by (auto simp: prv_encodeInt_def lwm2m_data_decode_int_def Let_def u16_get_word)
  next
    case 3
    then have "scast (ucast n :: u32) = n" by (intro sint_ucast_scast) auto
    moreover have "prv_encodeInt n = put_word 4 (unat (ucast n :: u32))"
      using 3 by (auto simp: prv_encodeInt_def)
    ultimately show ?thesis
      by (simp add: lwm2m_data_decode_int_def del: get_put_word)
  next
    case 4
    then have "prv_encodeInt n = put_word 8 (unat n)" by (auto simp: prv_encodeInt_def)
    then show ?thesis by (simp add: lwm2m_data_decode_int_def del: get_put_word)
  qed
qed

lemma ucast_ucast_less: "unat (n :: u64) < 2 ^ LENGTH('a::len) \<Longrightarrow> ucast (ucast n :: 'a word) = n"
  by (rule word_unat_eq_iff [THEN iffD2]) (simp add: unat_ucast_mod)

lemma decode_encodeUInt: "lwm2m_data_decode_uint (V_OPAQUE (prv_encodeUInt n)) = Some n"
proof -
  consider "n \<le> 0xFF" | "\<not> n \<le> 0xFF" "n \<le> 0xFFFF" | "\<not> n \<le> 0xFFFF" "n \<le> 0xFFFFFFFF" | "\<not> n \<le> 0xFFFFFFFF"
    by blast
  then show ?thesis
  proof cases
    case 1
    then have "ucast (ucast n :: u8) = n" by (intro ucast_ucast_less) (simp add: word_le_nat_alt)
    with 1 show ?thesis by (simp add: prv_encodeUInt_def lwm2m_data_decode_uint_def)
  next
    case 2
    then have "ucast (ucast n :: u16) = n" by (intro ucast_ucast_less) (simp add: word_le_nat_alt)
    with 2 show ?thesis
      by (simp add: prv_encodeUInt_def lwm2m_data_decode_uint_def Let_def u16_get_word)
  next
    case 3
    then have "ucast (ucast n :: u32) = n" by (intro ucast_ucast_less) (simp add: word_le_nat_alt)
    moreover have "prv_encodeUInt n = put_word 4 (unat (ucast n :: u32))"
      using 3 by (auto simp: prv_encodeUInt_def word_le_nat_alt)
    ultimately show ?thesis by (simp add: lwm2m_data_decode_uint_def del: get_put_word)
  next
    case 4
    then have "prv_encodeUInt n = put_word 8 (unat n)" by (auto simp: prv_encodeUInt_def word_le_nat_alt)
    then show ?thesis by (simp add: lwm2m_data_decode_uint_def del: get_put_word)
  qed
qed

section \<open>Properties\<close>

definition mem_ok :: allocator where "mem_ok = (\<lambda>_. Some (\<lambda>_. 0xAA))"

lemma always_mem_ok: "always mem_ok" by (simp add: always_def mem_ok_def)

text \<open>A device: a battery level, and an object link in a multiple resource.\<close>

definition tlv_example :: "lwm2m_data_t list" where
  "tlv_example = [Data 9 (V_INTEGER 100),
     Data 300 (V_MULTIPLE_RESOURCE [Data 1 (V_OBJECT_LINK 66 0), Data 0 (V_STRING [])])]"

definition tlv_example_bytes :: bytes where
  "tlv_example_bytes =
     [0xC1, 9, 100,  0xA8, 0x01, 0x2C, 8,  0x44, 1, 0, 66, 0, 0,  0x40, 0]"

lemma tlv_example_wire: "tlv_wire False tlv_example = tlv_example_bytes"
  by (simp add: tlv_example_def tlv_example_bytes_def tlv_record_def prv_createHeader_def Let_def
      prv_encodeInt_def objlink_word_def utils_copyValue_def le_bytes_4)

lemma tlv_example_ok: "tlv_ok False tlv_example" "tlv_full tlv_example"
  by (simp_all add: tlv_example_def tlv_record_def prv_createHeader_def Let_def prv_encodeInt_def)

text \<open>
  C17: For a tree whose nodes the format can express, \<open>tlv_serialize\<close> has no undefined behaviour: it
  computes the size of the functional description of the format, allocates it, and fills the
  buffer with exactly these bytes, whatever the memory held before.
\<close>

theorem tlv_serialize_refines:
  assumes "always mem" "tlv_ok r ds" "length (tlv_wire r ds) \<le> 2147483647"
  shows "\<exists>k'. tlv_serialize mem k r ds =
    Ret (k', int (length (tlv_wire r ds)),
         if tlv_wire r ds = [] then None else Some (tlv_wire r ds))"
  using tlv_serialize_wire [OF assms] by (simp add: wire_output_def)

theorem tlv_serialize_refines_witness:
  "\<exists>k'. tlv_serialize mem_ok 0 False tlv_example = Ret (k', 15, Some tlv_example_bytes)"
  using tlv_serialize_refines [OF always_mem_ok tlv_example_ok(1), of 0]
  by (simp add: tlv_example_wire tlv_example_bytes_def)

text \<open>
  C18: A serialized tree without empty instances is parsed back: ids and structure are kept, and every
  resource is the opaque bytes of its value; what follows in the buffer and is no record is ignored.
\<close>

theorem tlv_roundtrip:
  assumes "always mem" "tlv_ok r ds" "tlv_full ds" "ds \<noteq> []" "length (tlv_wire r ds) \<le> 2147483647"
    and "lwm2m_decode_TLV rest = None"
  shows "\<exists>k1 k2 b. tlv_serialize mem k r ds = Ret (k1, int (length b), Some b)
    \<and> tlv_parse mem k (b @ rest) = Ret (k2, tlv_view ds)"
proof -
  obtain d ds' where d: "ds = d # ds'" using assms(4) by (cases ds) auto
  have "tlv_wire r ds \<noteq> []" using tlv_wire_nonempty assms(2) unfolding d by blast
  then obtain k1 where "tlv_serialize mem k r ds = Ret (k1, int (length (tlv_wire r ds)), Some (tlv_wire r ds))"
    using tlv_serialize_wire [OF assms(1,2,5), of k] by (auto simp: wire_output_def)
  moreover obtain k2 where "tlv_parse_loop mem k (tlv_wire r ds @ rest) [] =
      tlv_parse_loop mem k2 rest ([] @ tlv_view ds)"
    using parse_reads_wire [OF assms(1-3)] unfolding parse_reads_def by blast
  ultimately show ?thesis
    using assms(6) by (auto simp: tlv_parse_def tlv_parse_loop.simps [of mem k2 rest])
qed

theorem tlv_roundtrip_witness:
  "\<exists>k1 k2 b. tlv_serialize mem_ok 0 False tlv_example = Ret (k1, int (length b), Some b)
    \<and> tlv_parse mem_ok 0 (b @ [0xC1, 7]) = Ret (k2, [Data 9 (V_OPAQUE [100]),
        Data 300 (V_MULTIPLE_RESOURCE [Data 1 (V_OPAQUE [0, 66, 0, 0]), Data 0 (V_OPAQUE [])])])"
proof -
  have v: "tlv_view tlv_example = [Data 9 (V_OPAQUE [100]),
      Data 300 (V_MULTIPLE_RESOURCE [Data 1 (V_OPAQUE [0, 66, 0, 0]), Data 0 (V_OPAQUE [])])]"
    by (simp add: tlv_example_def prv_encodeInt_def objlink_word_def utils_copyValue_def le_bytes_4)
  have "lwm2m_decode_TLV [0xC1, 7] = None"
    by (simp add: lwm2m_decode_TLV_def decode_TLV_length_def)
  moreover have "tlv_example \<noteq> []" "length (tlv_wire False tlv_example) \<le> 2147483647"
    unfolding tlv_example_wire by (simp_all add: tlv_example_bytes_def tlv_example_def)
  ultimately show ?thesis
    unfolding v [symmetric] by (intro tlv_roundtrip always_mem_ok tlv_example_ok)
qed

text \<open>
  C19: The opaque bytes of an integer, an unsigned integer or a boolean give the value again, at every
  width the encoder chooses.
\<close>

theorem tlv_value_roundtrip:
  "lwm2m_data_decode_int (V_OPAQUE (prv_encodeInt n)) = Some n
   \<and> lwm2m_data_decode_uint (V_OPAQUE (prv_encodeUInt u)) = Some u
   \<and> lwm2m_data_decode_bool (V_OPAQUE (the (tlv_payload (V_BOOLEAN b)))) = Some b
   \<and> length (prv_encodeInt n) \<in> {1, 2, 4, 8} \<and> length (prv_encodeUInt u) \<in> {1, 2, 4, 8}"
  by (simp add: decode_encodeInt decode_encodeUInt lwm2m_data_decode_bool_def)
    (simp add: prv_encodeInt_def prv_encodeUInt_def Let_def)

text \<open>
  When the array of the first record cannot be allocated, \<open>tlv_parse\<close> does not test the result and
  writes through NULL: the test is made from the second record on only.
\<close>

theorem tlv_parse_alloc_failure:
  assumes "lwm2m_decode_TLV buffer \<noteq> None" "mem k = None"
  shows "tlv_parse mem k buffer = UB"
  using assms by (auto simp: tlv_parse_def tlv_parse_loop.simps)

theorem tlv_parse_alloc_failure_witness: "tlv_parse (\<lambda>_. None) 0 [0xC1, 9, 100] = UB"
  by (rule tlv_parse_alloc_failure) (simp_all add: lwm2m_decode_TLV_def decode_TLV_length_def)

end
