(* ===== verification/Cbor.thy ===== *)
theory Cbor
  imports Data Uri
begin

text \<open>
  The CBOR items of \<open>data/cbor.c\<close>: reading and writing an initial byte with its argument, half,
  single and double precision numbers, one value, and the CBOR content format.  An output is the
  list of the bytes written; the empty list is the result 0.  What the source does not check
  before a copy, and the release of memory that was not allocated, is undefined behaviour.
\<close>

section \<open>Types and initial bytes\<close>

datatype cbor_type_t =
  CBOR_TYPE_UNKNOWN | CBOR_TYPE_UNSIGNED_INTEGER | CBOR_TYPE_NEGATIVE_INTEGER | CBOR_TYPE_FLOAT
| CBOR_TYPE_SEMANTIC_TAG | CBOR_TYPE_SIMPLE_VALUE | CBOR_TYPE_BREAK | CBOR_TYPE_BYTE_STRING
| CBOR_TYPE_TEXT_STRING | CBOR_TYPE_ARRAY | CBOR_TYPE_MAP

abbreviation (input) CBOR_UNSIGNED_INTEGER :: u8 where "CBOR_UNSIGNED_INTEGER \<equiv> 0"
abbreviation (input) CBOR_NEGATIVE_INTEGER :: u8 where "CBOR_NEGATIVE_INTEGER \<equiv> 1"
abbreviation (input) CBOR_BYTE_STRING :: u8 where "CBOR_BYTE_STRING \<equiv> 2"
abbreviation (input) CBOR_TEXT_STRING :: u8 where "CBOR_TEXT_STRING \<equiv> 3"
abbreviation (input) CBOR_ARRAY :: u8 where "CBOR_ARRAY \<equiv> 4"
abbreviation (input) CBOR_MAP :: u8 where "CBOR_MAP \<equiv> 5"
abbreviation (input) CBOR_SEMANTIC_TAG :: u8 where "CBOR_SEMANTIC_TAG \<equiv> 6"
abbreviation (input) CBOR_FLOATING_OR_SIMPLE :: u8 where "CBOR_FLOATING_OR_SIMPLE \<equiv> 7"
abbreviation (input) CBOR_AI_ONE_BYTE_VALUE :: u8 where "CBOR_AI_ONE_BYTE_VALUE \<equiv> 24"
abbreviation (input) CBOR_AI_TWO_BYTE_VALUE :: u8 where "CBOR_AI_TWO_BYTE_VALUE \<equiv> 25"
abbreviation (input) CBOR_AI_FOUR_BYTE_VALUE :: u8 where "CBOR_AI_FOUR_BYTE_VALUE \<equiv> 26"
abbreviation (input) CBOR_AI_EIGHT_BYTE_VALUE :: u8 where "CBOR_AI_EIGHT_BYTE_VALUE \<equiv> 27"
abbreviation (input) CBOR_AI_INDEFINITE_OR_BREAK :: u8 where "CBOR_AI_INDEFINITE_OR_BREAK \<equiv> 31"
abbreviation (input) CBOR_SIMPLE_FALSE :: u64 where "CBOR_SIMPLE_FALSE \<equiv> 20"
abbreviation (input) CBOR_SIMPLE_TRUE :: u64 where "CBOR_SIMPLE_TRUE \<equiv> 21"

text \<open>A half precision number as a \<open>double\<close>: \<open>ldexp\<close> of its fraction, exact.\<close>

definition double_of_half :: "u16 \<Rightarrow> u64" where
  "double_of_half half =
     (let s = unat half div 2 ^ 15; e = unat half div 2 ^ 10 mod 2 ^ 5; m = unat half mod 2 ^ 10 in
      if e = 0 then
        (if m = 0 then double_bits s 0 0
         else (let k = high_bit m in double_bits s (k + 999) ((m - 2 ^ k) * 2 ^ (52 - k))))
      else if e \<noteq> 31 then double_bits s (e + 1008) (m * 2 ^ 42)
      else if m = 0 then double_bits s 2047 0
      else double_bits s 2047 (2 ^ 51))"

text \<open>The argument of an initial byte: its value, and the number of bytes read.\<close>

definition cbor_argument :: "bytes \<Rightarrow> u8 \<Rightarrow> (u64 \<times> nat) option" where
  "cbor_argument buffer ai =
     (let arg = (\<lambda>n. if length buffer < n + 1 then None
                    else Some (word_of_nat (get_word (take n (tl buffer))), n + 1)) in
      if ai = CBOR_AI_ONE_BYTE_VALUE then arg 1
      else if ai = CBOR_AI_TWO_BYTE_VALUE then arg 2
      else if ai = CBOR_AI_FOUR_BYTE_VALUE then arg 4
      else if ai = CBOR_AI_EIGHT_BYTE_VALUE then arg 8
      else if ai = 28 \<or> ai = 29 \<or> ai = 30 then None
      else Some (ucast ai, 1))"

definition cbor_simple_or_float :: "u8 \<Rightarrow> u64 \<Rightarrow> cbor_type_t \<times> u64" where
  "cbor_simple_or_float ai val =
     (if ai = CBOR_AI_TWO_BYTE_VALUE then (CBOR_TYPE_FLOAT, double_of_half (ucast val))
      else if ai = CBOR_AI_FOUR_BYTE_VALUE then (CBOR_TYPE_FLOAT, double_of_float (ucast val))
      else if ai = CBOR_AI_EIGHT_BYTE_VALUE then (CBOR_TYPE_FLOAT, val)
      else if ai = CBOR_AI_INDEFINITE_OR_BREAK then (CBOR_TYPE_BREAK, 0)
      else (CBOR_TYPE_SIMPLE_VALUE, val))"

definition cbor_get_type_and_value :: "bytes \<Rightarrow> (nat \<times> cbor_type_t \<times> u64) option" where
  "cbor_get_type_and_value buffer =
     (if length buffer < 1 then None
      else let mt = drop_bit 5 (buffer ! 0); ai = buffer ! 0 AND 0x1F in
      case cbor_argument buffer ai of
        None \<Rightarrow> None
      | Some (val, result) \<Rightarrow>
          if mt = CBOR_UNSIGNED_INTEGER then Some (result, CBOR_TYPE_UNSIGNED_INTEGER, val)
          else if mt = CBOR_NEGATIVE_INTEGER then
            (if drop_bit 63 val \<noteq> 0 then None
             else Some (result, CBOR_TYPE_NEGATIVE_INTEGER, NOT val))
          else if mt = CBOR_BYTE_STRING then Some (result, CBOR_TYPE_BYTE_STRING, val)
          else if mt = CBOR_TEXT_STRING then Some (result, CBOR_TYPE_TEXT_STRING, val)
          else if mt = CBOR_ARRAY then Some (result, CBOR_TYPE_ARRAY, val)
          else if mt = CBOR_MAP then Some (result, CBOR_TYPE_MAP, val)
          else if mt = CBOR_SEMANTIC_TAG then Some (result, CBOR_TYPE_SEMANTIC_TAG, val)
          else Some (result, cbor_simple_or_float ai val))"

section \<open>Reading one value\<close>

text \<open>The loop of \<open>cbor_get_singular\<close>, which goes on behind one tag: the bytes consumed and the
  value.  The bytes of a string are those of the input buffer, not a copy.\<close>

function get_singular_loop :: "bytes \<Rightarrow> nat \<Rightarrow> bool \<Rightarrow> (nat \<times> lwm2m_value) option" where
  "get_singular_loop buffer result tagSeen =
     (case cbor_get_type_and_value (drop result buffer) of
        None \<Rightarrow> None
      | Some (res, mt, val) \<Rightarrow>
          let at = result + res;
              string = (\<lambda>f. if unat val > length buffer - at then None
                            else Some (at + unat val, f (take (unat val) (drop at buffer)))) in
          (case mt of
             CBOR_TYPE_UNSIGNED_INTEGER \<Rightarrow> Some (at, V_UNSIGNED_INTEGER val)
           | CBOR_TYPE_NEGATIVE_INTEGER \<Rightarrow> Some (at, V_INTEGER val)
           | CBOR_TYPE_FLOAT \<Rightarrow> Some (at, V_FLOAT val)
           | CBOR_TYPE_SEMANTIC_TAG \<Rightarrow> if tagSeen then None else get_singular_loop buffer at True
           | CBOR_TYPE_SIMPLE_VALUE \<Rightarrow>
               if val = CBOR_SIMPLE_FALSE then Some (at, V_BOOLEAN False)
               else if val = CBOR_SIMPLE_TRUE then Some (at, V_BOOLEAN True)
               else None
           | CBOR_TYPE_BREAK \<Rightarrow> None
           | CBOR_TYPE_BYTE_STRING \<Rightarrow> string V_OPAQUE
           | CBOR_TYPE_TEXT_STRING \<Rightarrow> string V_STRING
           | _ \<Rightarrow> None))"
  by pat_completeness auto
termination
  by (relation "measure (\<lambda>(_, _, tagSeen). if tagSeen then 0 else 1)") auto

declare get_singular_loop.simps [simp del]

definition cbor_get_singular :: "bytes \<Rightarrow> (nat \<times> lwm2m_value) option" where
  "cbor_get_singular buffer = get_singular_loop buffer 0 False"

section \<open>Writing\<close>

definition prv_serialize_value :: "nat \<Rightarrow> u8 \<Rightarrow> u64 \<Rightarrow> bytes" where
  "prv_serialize_value bufferLen mt val =
     (let first = (\<lambda>ai. push_bit 5 mt OR ai) in
      if val < 0xFF then
        (if (ucast val :: u8) < 24 then
           (if bufferLen < 1 then [] else [first (ucast val)])
         else if bufferLen < 2 then [] else [first CBOR_AI_ONE_BYTE_VALUE, ucast val])
      else if val < 0xFFFF then
        (if bufferLen < 3 then []
         else first CBOR_AI_TWO_BYTE_VALUE # put_word 2 (unat (ucast val :: u16)))
      else if val < 0xFFFFFFFF then
        (if bufferLen < 5 then []
         else first CBOR_AI_FOUR_BYTE_VALUE # put_word 4 (unat (ucast val :: u32)))
      else if bufferLen < 9 then []
      else first CBOR_AI_EIGHT_BYTE_VALUE # put_word 8 (unat val))"

text \<open>The encodings of a \<open>double\<close> that equals a \<open>float\<close>, whose pattern is \<open>uval\<close>.\<close>

definition serialize_float_as_single :: "nat \<Rightarrow> u32 \<Rightarrow> bytes" where
  "serialize_float_as_single bufferLen uval =
     (let mant = uval AND 0x7FFFFF;
          exp = uint (drop_bit 23 uval AND 0xFF) - 127;
          sign = (ucast (drop_bit 24 (uval AND 0x80000000)) :: u8);
          half = (\<lambda>b1 b2. [0xF9, b1, b2]) in
      if exp = 0xFF - 127 then half (sign OR 0x7C) 0
      else if mant = 0 \<and> exp = -127 then half sign 0
      else if mant AND 0x7FF = 0 \<and> exp \<ge> -14 \<and> exp \<le> 15 then
        (let e = (word_of_int (exp + 15) :: u32); m = drop_bit 13 mant in
         half (sign OR (ucast (push_bit 2 e) AND 0x7C) OR (ucast (drop_bit 8 m) AND 0x3)) (ucast m))
      else if exp \<ge> -24 \<and> exp \<le> -14 \<and> mant AND (push_bit (nat (1 - exp)) 1 - 1) = 0 then
        (let m = drop_bit (nat (- 1 - exp)) (mant + 0x800000) in
         half (sign OR (ucast (drop_bit 8 m) AND 0x3)) (ucast m))
      else if bufferLen < 5 then []
      else 0xFA # put_word 4 (unat uval))"

definition prv_serialize_float :: "nat \<Rightarrow> u64 \<Rightarrow> bytes" where
  "prv_serialize_float bufferLen val =
     (if bufferLen < 3 then []
      else if double_isnan val then [0xF9, 0x7E, 0]
      else if double_isinf val then [0xF9, if double_sign val = 1 then 0xFC else 0x7C, 0]
      else if double_of_float (float_of_double val) = val then
        serialize_float_as_single bufferLen (float_of_double val)
      else if bufferLen < 9 then []
      else 0xFB # put_word 8 (unat val))"

definition cbor_put_type_and_value :: "nat \<Rightarrow> cbor_type_t \<Rightarrow> u64 \<Rightarrow> bytes" where
  "cbor_put_type_and_value bufferLen type val =
     (if bufferLen < 1 then []
      else let v = (if type = CBOR_TYPE_NEGATIVE_INTEGER then NOT val else val);
               put = (\<lambda>mt. prv_serialize_value bufferLen mt v) in
      (case type of
         CBOR_TYPE_FLOAT \<Rightarrow> prv_serialize_float bufferLen v
       | CBOR_TYPE_UNSIGNED_INTEGER \<Rightarrow> put CBOR_UNSIGNED_INTEGER
       | CBOR_TYPE_NEGATIVE_INTEGER \<Rightarrow> put CBOR_NEGATIVE_INTEGER
       | CBOR_TYPE_SEMANTIC_TAG \<Rightarrow> put CBOR_SEMANTIC_TAG
       | CBOR_TYPE_SIMPLE_VALUE \<Rightarrow> if v > 255 then [] else put CBOR_FLOATING_OR_SIMPLE
       | CBOR_TYPE_BREAK \<Rightarrow> [CBOR_FLOATING_OR_SIMPLE OR 31]
       | CBOR_TYPE_BYTE_STRING \<Rightarrow> put CBOR_BYTE_STRING
       | CBOR_TYPE_TEXT_STRING \<Rightarrow> put CBOR_TEXT_STRING
       | CBOR_TYPE_ARRAY \<Rightarrow> put CBOR_ARRAY
       | CBOR_TYPE_MAP \<Rightarrow> put CBOR_MAP
       | CBOR_TYPE_UNKNOWN \<Rightarrow> []))"

text \<open>A string in \<open>cbor_put_singular\<close>: the copy is not checked against \<open>bufferLen\<close>.\<close>

definition put_singular_string :: "nat \<Rightarrow> u8 \<Rightarrow> bytes \<Rightarrow> bytes outcome" where
  "put_singular_string bufferLen mt s =
     (let header = prv_serialize_value bufferLen mt (word_of_nat (length s)) in
      if length s > 0 then
        (if length header = 0 then Ret []
         else if length header + length s > bufferLen then UB
         else Ret (header @ s))
      else Ret header)"

text \<open>An object link is printed at \<open>buffer + 1\<close> with \<open>snprintf\<close>; with an empty buffer the size
  argument wraps.\<close>

definition put_singular_objlink :: "nat \<Rightarrow> u16 \<Rightarrow> u16 \<Rightarrow> bytes outcome" where
  "put_singular_objlink bufferLen oid iid =
     (let text = dec_text (unat oid) @ ch_colon # dec_text (unat iid) in
      if bufferLen = 0 then UB
      else if bufferLen - 1 > length text then
        (let header = prv_serialize_value bufferLen CBOR_TEXT_STRING (word_of_nat (length text)) in
         if length header = 1 then Ret (header @ text) else Ret [])
      else Ret [])"

definition cbor_put_singular :: "nat \<Rightarrow> lwm2m_value \<Rightarrow> bytes outcome" where
  "cbor_put_singular bufferLen v =
     (case v of
        V_STRING s \<Rightarrow> put_singular_string bufferLen CBOR_TEXT_STRING s
      | V_CORE_LINK s \<Rightarrow> put_singular_string bufferLen CBOR_TEXT_STRING s
      | V_OPAQUE s \<Rightarrow> put_singular_string bufferLen CBOR_BYTE_STRING s
      | V_INTEGER i \<Rightarrow>
          if sint i < 0 then Ret (prv_serialize_value bufferLen CBOR_NEGATIVE_INTEGER (NOT i))
          else Ret (prv_serialize_value bufferLen CBOR_UNSIGNED_INTEGER i)
      | V_UNSIGNED_INTEGER u \<Rightarrow> Ret (prv_serialize_value bufferLen CBOR_UNSIGNED_INTEGER u)
      | V_FLOAT f \<Rightarrow> Ret (prv_serialize_float bufferLen f)
      | V_BOOLEAN b \<Rightarrow>
          Ret (prv_serialize_value bufferLen CBOR_FLOATING_OR_SIMPLE
            (if b then CBOR_SIMPLE_TRUE else CBOR_SIMPLE_FALSE))
      | V_OBJECT_LINK oid iid \<Rightarrow> put_singular_objlink bufferLen oid iid
      | _ \<Rightarrow> Ret [])"

section \<open>The CBOR content format\<close>

text \<open>\<open>cbor_parse\<close>: the new node, or \<open>None\<close> when the result is 0.  On failure the node is freed
  with its buffer, which points into the input while the value has not been copied.\<close>

definition cbor_parse_id :: "lwm2m_uri_t \<Rightarrow> u16" where
  "cbor_parse_id uriP = (if is_set_resource_instance uriP then resourceInstanceId uriP else resourceId uriP)"

definition cbor_free :: "lwm2m_value \<Rightarrow> lwm2m_data_t option outcome" where
  "cbor_free v = (case v of
      V_STRING s \<Rightarrow> if s \<noteq> [] then UB else Ret None
    | V_OPAQUE s \<Rightarrow> if s \<noteq> [] then UB else Ret None
    | _ \<Rightarrow> Ret None)"

definition cbor_parse ::
    "allocator \<Rightarrow> nat \<Rightarrow> lwm2m_uri_t option \<Rightarrow> bytes \<Rightarrow> lwm2m_data_t option outcome" where
  "cbor_parse mem k uri buffer =
     (case uri of
        None \<Rightarrow> Ret None
      | Some uriP \<Rightarrow>
          if \<not> is_set_resource uriP then Ret None
          else case mem k of None \<Rightarrow> Ret None
          | Some _ \<Rightarrow>
             (case cbor_get_singular buffer of
                None \<Rightarrow> Ret None
              | Some (n, v) \<Rightarrow>
                  if n \<noteq> length buffer then cbor_free v
                  else let copy = (case mem (Suc k) of None \<Rightarrow> Ret None
                                   | Some _ \<Rightarrow> Ret (Some (Data (cbor_parse_id uriP) v))) in
                  (case v of
                     V_STRING _ \<Rightarrow> copy
                   | V_OPAQUE _ \<Rightarrow> copy
                   | _ \<Rightarrow> Ret (Some (Data (cbor_parse_id uriP) v)))))"

text \<open>\<open>cbor_serialize\<close>: the output buffer, \<open>None\<close> when the result is 0.  \<open>tmp\<close> has 13 bytes.\<close>

definition cbor_serialize :: "allocator \<Rightarrow> nat \<Rightarrow> lwm2m_data_t list \<Rightarrow> bytes option outcome" where
  "cbor_serialize mem k dataP =
     (case dataP of
        [Data i v] \<Rightarrow>
          let out = (\<lambda>bs. if bs = [] then None else map_option (\<lambda>_. bs) (mem k));
              string = (\<lambda>mt s. let header = prv_serialize_value 13 mt (word_of_nat (length s)) in
                          out (if header = [] then [] else header @ s)) in
          (case v of
             V_STRING s \<Rightarrow> Ret (string CBOR_TEXT_STRING s)
           | V_CORE_LINK s \<Rightarrow> Ret (string CBOR_TEXT_STRING s)
           | V_OPAQUE s \<Rightarrow> Ret (string CBOR_BYTE_STRING s)
           | _ \<Rightarrow> oc_bind (cbor_put_singular 13 v) (\<lambda>bs. Ret (out bs)))
      | _ \<Rightarrow> Ret None)"

end
