(* ===== verification/CborProps.thy ===== *)
theory CborProps
  imports Cbor TlvProps
begin

text \<open>
  Properties of the CBOR code: an initial byte with its argument is read back, a value written in
  the CBOR content format is parsed to the same value, and the two places where the code loses
  information or frees memory it did not allocate.
\<close>

section \<open>Initial bytes\<close>

lemma initial_byte:
  fixes mt ai :: u8
  assumes "unat mt < 8" "unat ai < 32"
  shows "drop_bit 5 (push_bit 5 mt OR ai) = mt" "(push_bit 5 mt OR ai) AND 0x1F = ai"
proof -
  have mt: "take_bit 3 mt = mt" and ai: "take_bit 5 ai = ai"
    using assms by (simp_all add: word_unat_eq_iff unsigned_take_bit_eq take_bit_nat_eq_self)
  have b: "n < 3" if "bit mt n" for n using mt that by (metis bit_take_bit_iff)
  have a: "\<not> bit ai n" if "5 \<le> n" for n using ai that by (metis bit_take_bit_iff not_le)
  show "drop_bit 5 (push_bit 5 mt OR ai) = mt"
    by (rule bit_word_eqI) (auto simp: bit_simps a dest: b)
  have "(0x1F :: u8) = mask 5" by (simp add: mask_eq_exp_minus_1)
  then show "(push_bit 5 mt OR ai) AND 0x1F = ai"
    by (simp only: take_bit_eq_mask [symmetric]) (rule bit_word_eqI, auto simp: bit_simps a)
qed

text \<open>An item: the initial byte and the bytes of the argument.\<close>

lemma serialize_value_shape:
  assumes "9 \<le> bufferLen"
  obtains ai args where "prv_serialize_value bufferLen mt val = (push_bit 5 mt OR ai) # args"
    "unat ai < 28" "\<And>b rest. cbor_argument (b # args @ rest) ai = Some (val, Suc (length args))"
    "length args \<le> 8"
proof -
  have small: "ucast (ucast val :: u8) = val" if "val < 0xFF"
    using that by (intro ucast_ucast_less) (simp add: word_less_nat_alt)
  have u16: "ucast (ucast val :: u16) = val" if "val < 0xFFFF"
    using that by (intro ucast_ucast_less) (simp add: word_less_nat_alt)
  have u32: "ucast (ucast val :: u32) = val" if "val < 0xFFFFFFFF"
    using that by (intro ucast_ucast_less) (simp add: word_less_nat_alt)
  consider "val < 0xFF" "(ucast val :: u8) < 24" | "val < 0xFF" "\<not> (ucast val :: u8) < 24"
    | "\<not> val < 0xFF" "val < 0xFFFF" | "\<not> val < 0xFFFF" "val < 0xFFFFFFFF" | "\<not> val < 0xFFFFFFFF"
    by blast
  then show ?thesis
  proof cases
    case 1
    have "unat (ucast val :: u8) < 24" using 1 by (simp add: word_less_nat_alt)
    moreover have "cbor_argument (b # rest) (ucast val) = Some (val, 1)" for b rest
      using 1 small by (auto simp: cbor_argument_def word_less_nat_alt Let_def)
    ultimately show ?thesis
      using 1 assms by (intro that [of "ucast val" "[]"]) (auto simp: prv_serialize_value_def)
  next
    case 2
    then show ?thesis using assms small
      by (intro that [of 24 "[ucast val]"])
        (auto simp: prv_serialize_value_def cbor_argument_def utils_copyValue_def)
  next
    case 3
    then show ?thesis using assms u16
      by (intro that [of 25 "put_word 2 (unat (ucast val :: u16))"])
        (auto simp: prv_serialize_value_def cbor_argument_def Let_def)
  next
    case 4
    then have "\<not> val < 0xFF" by (auto simp: word_less_nat_alt)
    with 4 show ?thesis using assms u32
      by (intro that [of 26 "put_word 4 (unat (ucast val :: u32))"])
        (auto simp: prv_serialize_value_def cbor_argument_def Let_def)
  next
    case 5
    then have "\<not> val < 0xFF" "\<not> val < 0xFFFF" by (auto simp: word_less_nat_alt)
    with 5 show ?thesis using assms
      by (intro that [of 27 "put_word 8 (unat val)"])
        (auto simp: prv_serialize_value_def cbor_argument_def Let_def)
  qed
qed

lemma put_get_type_and_value:
  fixes val :: u64
  assumes "9 \<le> bufferLen" "unat mt < 8"
  defines "item \<equiv> prv_serialize_value bufferLen mt val"
  shows "item \<noteq> []" "length item \<le> 9"
    "cbor_get_type_and_value (item @ rest) =
      (if mt = CBOR_UNSIGNED_INTEGER then Some (length item, CBOR_TYPE_UNSIGNED_INTEGER, val)
       else if mt = CBOR_NEGATIVE_INTEGER then
         (if drop_bit 63 val \<noteq> 0 then None else Some (length item, CBOR_TYPE_NEGATIVE_INTEGER, NOT val))
       else if mt = CBOR_BYTE_STRING then Some (length item, CBOR_TYPE_BYTE_STRING, val)
       else if mt = CBOR_TEXT_STRING then Some (length item, CBOR_TYPE_TEXT_STRING, val)
       else if mt = CBOR_ARRAY then Some (length item, CBOR_TYPE_ARRAY, val)
       else if mt = CBOR_MAP then Some (length item, CBOR_TYPE_MAP, val)
       else if mt = CBOR_SEMANTIC_TAG then Some (length item, CBOR_TYPE_SEMANTIC_TAG, val)
       else Some (length item, cbor_simple_or_float (item ! 0 AND 0x1F) val))"
proof -
  obtain ai args where s: "item = (push_bit 5 mt OR ai) # args" "unat ai < 28"
    "\<And>b rest. cbor_argument (b # args @ rest) ai = Some (val, Suc (length args))" "length args \<le> 8"
    unfolding item_def using serialize_value_shape [OF assms(1)] by metis
  note i = initial_byte [of mt ai]
  show "item \<noteq> []" "length item \<le> 9" using s by auto
  show "cbor_get_type_and_value (item @ rest) =
      (if mt = CBOR_UNSIGNED_INTEGER then Some (length item, CBOR_TYPE_UNSIGNED_INTEGER, val)
       else if mt = CBOR_NEGATIVE_INTEGER then
         (if drop_bit 63 val \<noteq> 0 then None else Some (length item, CBOR_TYPE_NEGATIVE_INTEGER, NOT val))
       else if mt = CBOR_BYTE_STRING then Some (length item, CBOR_TYPE_BYTE_STRING, val)
       else if mt = CBOR_TEXT_STRING then Some (length item, CBOR_TYPE_TEXT_STRING, val)
       else if mt = CBOR_ARRAY then Some (length item, CBOR_TYPE_ARRAY, val)
       else if mt = CBOR_MAP then Some (length item, CBOR_TYPE_MAP, val)
       else if mt = CBOR_SEMANTIC_TAG then Some (length item, CBOR_TYPE_SEMANTIC_TAG, val)
       else Some (length item, cbor_simple_or_float (item ! 0 AND 0x1F) val))"
    using s i assms(2) by (simp add: cbor_get_type_and_value_def Let_def)
qed

section \<open>Round trip of the content format\<close>

lemma NOT_neg: "sint (i :: u64) < 0 \<Longrightarrow> drop_bit 63 (NOT i) = 0"
proof -
  assume "sint i < 0"
  then have "bit i 63" using bit_last_iff [of i] by simp
  then show ?thesis
    by (intro bit_word_eqI) (auto simp: bit_simps, metis add.right_neutral gr0I)
qed

lemma length_u64: "length s < 2 ^ 64 \<Longrightarrow> unat (word_of_nat (length s) :: u64) = length s"
  by (simp add: unat_of_nat)

text \<open>What is read back: a non-negative integer is unsigned, links are strings.\<close>

fun cbor_view :: "lwm2m_value \<Rightarrow> lwm2m_value" where
  "cbor_view (V_INTEGER i) = (if sint i < 0 then V_INTEGER i else V_UNSIGNED_INTEGER i)"
| "cbor_view (V_CORE_LINK s) = V_STRING s"
| "cbor_view (V_OBJECT_LINK oid iid) = V_STRING (objlink_text (oid, iid))"
| "cbor_view v = v"

fun cbor_ok :: "lwm2m_value \<Rightarrow> bool" where
  "cbor_ok (V_STRING s) \<longleftrightarrow> length s < 2 ^ 64"
| "cbor_ok (V_CORE_LINK s) \<longleftrightarrow> length s < 2 ^ 64"
| "cbor_ok (V_OPAQUE s) \<longleftrightarrow> length s < 2 ^ 64"
| "cbor_ok (V_INTEGER i) = True"
| "cbor_ok (V_UNSIGNED_INTEGER u) = True"
| "cbor_ok (V_BOOLEAN b) = True"
| "cbor_ok (V_OBJECT_LINK oid iid) = True"
| "cbor_ok _ = False"

lemma get_singular_string:
  assumes "length s < 2 ^ 64" "9 \<le> bufferLen"
  shows "cbor_get_singular (prv_serialize_value bufferLen CBOR_TEXT_STRING (word_of_nat (length s)) @ s) =
      Some (length (prv_serialize_value bufferLen CBOR_TEXT_STRING (word_of_nat (length s)) @ s), V_STRING s)"
    "cbor_get_singular (prv_serialize_value bufferLen CBOR_BYTE_STRING (word_of_nat (length s)) @ s) =
      Some (length (prv_serialize_value bufferLen CBOR_BYTE_STRING (word_of_nat (length s)) @ s), V_OPAQUE s)"
  using put_get_type_and_value(3) [OF assms(2), of 3, where val = "word_of_nat (length s)" and rest = s]
    put_get_type_and_value(3) [OF assms(2), of 2, where val = "word_of_nat (length s)" and rest = s] assms(1)
  by (simp_all add: cbor_get_singular_def get_singular_loop.simps length_u64 Let_def)

lemma get_singular_number:
  assumes "9 \<le> bufferLen"
  shows "cbor_get_singular (prv_serialize_value bufferLen CBOR_UNSIGNED_INTEGER u) =
      Some (length (prv_serialize_value bufferLen CBOR_UNSIGNED_INTEGER u), V_UNSIGNED_INTEGER u)"
    "sint i < 0 \<Longrightarrow> cbor_get_singular (prv_serialize_value bufferLen CBOR_NEGATIVE_INTEGER (NOT i)) =
      Some (length (prv_serialize_value bufferLen CBOR_NEGATIVE_INTEGER (NOT i)), V_INTEGER i)"
  using put_get_type_and_value(3) [OF assms, of 0, where val = u and rest = "[]"] put_get_type_and_value(3) [OF assms, of 1, where val = "NOT i" and rest = "[]"]
  by (simp_all add: cbor_get_singular_def get_singular_loop.simps NOT_neg Let_def)

lemma get_singular_bool:
  "cbor_get_singular (prv_serialize_value 13 CBOR_FLOATING_OR_SIMPLE
     (if b then CBOR_SIMPLE_TRUE else CBOR_SIMPLE_FALSE)) = Some (1, V_BOOLEAN b)"
  by (simp add: prv_serialize_value_def cbor_get_singular_def get_singular_loop.simps
      cbor_get_type_and_value_def cbor_argument_def cbor_simple_or_float_def Let_def)

lemma get_put_objlink:
  obtains bs where "put_singular_objlink 13 oid iid = Ret bs" "bs \<noteq> []"
    "cbor_get_singular bs = Some (length bs, V_STRING (objlink_text (oid, iid)))"
proof -
  let ?t = "objlink_text (oid, iid)"
  let ?h = "prv_serialize_value 13 CBOR_TEXT_STRING (word_of_nat (length ?t))"
  have "length (dec_text (unat v)) \<le> 5" for v :: u16
    using unat_u16_less [of v] by (subst length_dec_text_le) (simp_all del: unat_u16_less)
  from this [of oid] this [of iid] have len: "length ?t \<le> 11" by (simp add: objlink_text_def)
  then have "(word_of_nat (length ?t) :: u64) < 0xFF" "(ucast (word_of_nat (length ?t) :: u64) :: u8) < 24"
    by (simp_all add: word_less_nat_alt unat_of_nat unat_ucast_mod)
  then have "length ?h = 1" by (simp add: prv_serialize_value_def)
  with len have put: "put_singular_objlink 13 oid iid = Ret (?h @ ?t)"
    by (simp add: put_singular_objlink_def objlink_text_def [of "(oid, iid)", simplified, symmetric] Let_def)
  moreover have "?h @ ?t \<noteq> []" by (simp add: objlink_text_def)
  moreover have "cbor_get_singular (?h @ ?t) = Some (length (?h @ ?t), V_STRING ?t)"
    using len by (intro get_singular_string) auto
  ultimately show ?thesis using that by blast
qed

lemma serialize_value_nonempty: "9 \<le> bufferLen \<Longrightarrow> prv_serialize_value bufferLen mt val \<noteq> []"
  by (metis list.distinct(1) serialize_value_shape)

text \<open>\<open>cbor_serialize\<close> writes something that \<open>cbor_get_singular\<close> reads completely.\<close>

lemma cbor_serialize_reads:
  assumes "always mem" "cbor_ok v"
  obtains bs where "cbor_serialize mem k [Data i v] = Ret (Some bs)"
    "cbor_get_singular bs = Some (length bs, cbor_view v)"
proof -
  obtain m where m: "mem k = Some m" using assms(1) by (auto simp: always_def)
  note ne = serialize_value_nonempty [of 13]
  show ?thesis
  proof (cases v)
    case (V_STRING s)
    then show ?thesis using m ne assms(2) get_singular_string(1) [of s 13]
      by (intro that) (auto simp: cbor_serialize_def Let_def)
  next
    case (V_OPAQUE s)
    then show ?thesis using m ne assms(2) get_singular_string(2) [of s 13]
      by (intro that) (auto simp: cbor_serialize_def Let_def)
  next
    case (V_CORE_LINK s)
    then show ?thesis using m ne assms(2) get_singular_string(1) [of s 13]
      by (intro that) (auto simp: cbor_serialize_def Let_def)
  next
    case (V_INTEGER n)
    show ?thesis
    proof (cases "sint n < 0")
      case True
      with V_INTEGER show ?thesis using m ne get_singular_number [of 13]
        by (intro that) (auto simp: cbor_serialize_def cbor_put_singular_def Let_def)
    next
      case False
      with V_INTEGER show ?thesis using m ne get_singular_number [of 13]
        by (intro that) (auto simp: cbor_serialize_def cbor_put_singular_def Let_def)
    qed
  next
    case (V_UNSIGNED_INTEGER n)
    then show ?thesis using m ne get_singular_number [of 13]
      by (intro that) (auto simp: cbor_serialize_def cbor_put_singular_def Let_def)
  next
    case (V_BOOLEAN b)
    then show ?thesis using m get_singular_bool [of b]
      by (cases b; intro that [of "[if b then 0xF5 else 0xF4]"])
        (simp_all add: cbor_serialize_def cbor_put_singular_def prv_serialize_value_def)
  next
    case (V_OBJECT_LINK oid iid)
    obtain bs where "put_singular_objlink 13 oid iid = Ret bs" "bs \<noteq> []"
      "cbor_get_singular bs = Some (length bs, V_STRING (objlink_text (oid, iid)))"
      by (rule get_put_objlink)
    with V_OBJECT_LINK m show ?thesis
      by (intro that) (auto simp: cbor_serialize_def cbor_put_singular_def Let_def)
  qed (use assms(2) in auto)
qed

section \<open>Half precision\<close>

lemma float_fields:
  assumes "s < 2" "e < 256" "m < 2 ^ 23"
  shows "float_sign (float_bits s e m) = s" "float_exp (float_bits s e m) = e"
    "float_frac (float_bits s e m) = m"
proof -
  have "s * 2 ^ 31 + e * 2 ^ 23 + m < 2 ^ 32" using assms by simp
  then have u: "unat (float_bits s e m) = s * 2 ^ 31 + e * 2 ^ 23 + m"
    by (simp only: float_bits_def unat_of_nat) simp
  have "e * 2 ^ 23 + m < 2 ^ 31" using assms by simp
  then show "float_sign (float_bits s e m) = s" unfolding float_sign_def u by (simp add: add.assoc)
  have "(s * 2 ^ 31 + e * 2 ^ 23 + m) div 2 ^ 23 = s * 2 ^ 8 + e"
    using assms(3) by (simp add: algebra_simps)
  then show "float_exp (float_bits s e m) = e" unfolding float_exp_def u using assms(2) by simp
  have "(s * 2 ^ 31 + e * 2 ^ 23 + m) = m + (s * 2 ^ 8 + e) * 2 ^ 23" by simp
  then show "float_frac (float_bits s e m) = m" unfolding float_frac_def u
    using assms(3) by (simp only: mod_mult_self1) simp
qed

lemma unat_take_bit: "unat (take_bit n (w :: 'a::len word)) = unat w mod 2 ^ n"
  by (simp only: unsigned_take_bit_eq) (simp only: take_bit_eq_mod)

lemma unat_drop_bit: "unat (drop_bit n (w :: 'a::len word)) = unat w div 2 ^ n"
  by (simp only: unsigned_drop_bit_eq) (simp add: drop_bit_eq_div take_bit_nat_eq_self)

lemma and_low_bits: "(w :: u32) AND 0x7FFFFF = take_bit 23 w" "(w :: u32) AND 0xFF = take_bit 8 w"
  "(w :: u32) AND 0x7FF = take_bit 11 w"
proof -
  have "(0x7FFFFF :: u32) = mask 23" "(0xFF :: u32) = mask 8" "(0x7FF :: u32) = mask 11"
    by (simp_all add: mask_eq_exp_minus_1)
  then show "w AND 0x7FFFFF = take_bit 23 w" "w AND 0xFF = take_bit 8 w" "w AND 0x7FF = take_bit 11 w"
    by (simp_all only: take_bit_eq_mask)
qed

text \<open>The fields of a single precision pattern, as the code extracts them.\<close>

lemma uval_fields:
  "unat (f AND 0x7FFFFF) = float_frac f" "unat (drop_bit 23 f AND 0xFF) = float_exp f"
  "unat (ucast (drop_bit 24 (f AND 0x80000000)) :: u8) = 128 * float_sign f"
proof -
  show "unat (f AND 0x7FFFFF) = float_frac f"
    by (simp add: and_low_bits float_frac_def unat_take_bit)
  show "unat (drop_bit 23 f AND 0xFF) = float_exp f"
    by (simp add: and_low_bits float_exp_def unat_take_bit unat_drop_bit)
  have n: "(0x80000000 :: u32) = NOT (mask 31)" by (simp add: mask_eq_exp_minus_1)
  have "f AND 0x80000000 = push_bit 31 (drop_bit 31 f)"
  proof (unfold n, rule bit_word_eqI)
    fix m assume "m < LENGTH(32)"
    then consider "m < 31" | "m = 31" by fastforce
    then show "bit (f AND NOT (mask 31)) m = bit (push_bit 31 (drop_bit 31 f)) m"
      by cases (simp_all add: bit_simps)
  qed
  then have "drop_bit 24 (f AND 0x80000000) = push_bit 7 (drop_bit 31 f)"
    by (simp only:) (rule bit_word_eqI, auto simp: bit_simps dest: bit_imp_le_length)
  then have "unat (drop_bit 24 (f AND 0x80000000)) = 128 * float_sign f"
    using float_field_bounds(1) [of f]
    by (simp add: float_sign_def unat_drop_bit push_bit_eq_mult unat_word_ariths)
  then show "unat (ucast (drop_bit 24 (f AND 0x80000000)) :: u8) = 128 * float_sign f"
    using float_field_bounds(1) [of f] by (simp add: unat_ucast_mod)
qed

text \<open>Bits that do not overlap are added.\<close>

lemma unat_or_above:
  fixes a b :: u8
  assumes "unat b < 2 ^ k" "2 ^ k dvd unat a"
  shows "unat (a OR b) = unat a + unat b"
proof -
  have "unat (take_bit k a) = 0" using assms(2) by (simp add: unat_take_bit mod_eq_0_iff_dvd)
  then have "take_bit k a = 0" by (simp only: unat_eq_0)
  then have a: "\<not> bit a n" if "n < k" for n using that by (metis bit_take_bit_iff bit_0_eq bot_apply bot_bool_def)
  have "unat (take_bit k b) = unat b" using assms(1) by (simp add: unat_take_bit)
  then have "take_bit k b = b" by (simp only: word_unat_eq_iff)
  then have b: "n < k" if "bit b n" for n using that by (metis bit_take_bit_iff)
  have "a AND b = 0" by (rule bit_word_eqI) (auto simp: bit_simps dest: b a)
  then have "unat a AND unat b = 0" by (metis unsigned_and_eq unsigned_0)
  then show ?thesis by (simp add: unsigned_or_eq disjunctive_add_eq_or)
qed

lemma half_bytes:
  fixes x y z :: u8
  assumes "unat x = 128 * s" "unat y = q" "unat z = h" "s < 2" "q < 4" "e < 32"
  shows "unat (x OR (ucast (push_bit 2 (word_of_nat e :: u32)) AND 0x7C) OR y) = 128 * s + 4 * e + q"
proof -
  have "unat (ucast (push_bit 2 (word_of_nat e :: u32)) :: u8) = 4 * e"
    using assms(6) by (simp add: unat_ucast_mod unsigned_push_bit_eq push_bit_eq_mult take_bit_eq_mod
        unat_of_nat unat_word_ariths)
  then have p: "(ucast (push_bit 2 (word_of_nat e :: u32)) :: u8) = word_of_nat (4 * e)"
    using assms(6) by (simp add: word_unat_eq_iff unat_of_nat unat_word_ariths)
  have "e \<in> set [0..<32]" using assms(6) by simp
  then have m: "(word_of_nat (4 * e) :: u8) AND 0x7C = word_of_nat (4 * e)"
    by (simp add: upt_rec [of _ 32] eval_nat_numeral) (elim disjE; simp)
  have u: "unat (word_of_nat (4 * e) :: u8) = 4 * e"
    using assms(6) by (simp add: unat_of_nat unat_word_ariths)
  have "unat (word_of_nat (4 * e) OR y) = 4 * e + q"
    using unat_or_above [of y 2 "word_of_nat (4 * e)"] assms u by simp
  moreover have "unat (x OR (word_of_nat (4 * e) OR y)) = unat x + unat (word_of_nat (4 * e) OR y)"
    using assms calculation by (intro unat_or_above [of _ 7]) auto
  ultimately show ?thesis unfolding p m or.assoc using assms(1) by linarith
qed

lemma u16_of_u64: "(ucast (word_of_nat n :: u64) :: u16) = word_of_nat n"
  by (simp add: word_unat_eq_iff unat_ucast_mod unat_of_nat mod_mod_cancel)

lemma get_half:
  assumes "unat b1 = 128 * s + 4 * e + m div 256" "unat b2 = m mod 256" "s < 2" "0 < e" "e < 31" "m < 1024"
  shows "cbor_get_singular [0xF9, b1, b2] = Some (3, V_FLOAT (double_bits s (e + 1008) (m * 2 ^ 42)))"
proof -
  have g: "get_word [b1, b2] = s * 2 ^ 15 + e * 2 ^ 10 + m"
    using assms(1,2) div_mult_mod_eq [of m 256] by (simp add: get_word_2)
  then have u: "unat (word_of_nat (get_word [b1, b2]) :: u16) = s * 2 ^ 15 + e * 2 ^ 10 + m"
    using assms by (simp only: unat_of_nat) simp
  have em: "e * 2 ^ 10 + m < 2 ^ 15" using assms by simp
  have dv: "(s * 2 ^ 15 + e * 2 ^ 10 + m) div 2 ^ 15 = s"
    using em by (simp add: add.assoc)
  have "(s * 2 ^ 15 + e * 2 ^ 10 + m) div 2 ^ 10 = s * 2 ^ 5 + e"
    using assms(6) by (simp add: algebra_simps)
  then have ex: "(s * 2 ^ 15 + e * 2 ^ 10 + m) div 2 ^ 10 mod 2 ^ 5 = e" using assms(5) by simp
  have "s * 2 ^ 15 + e * 2 ^ 10 + m = m + (s * 2 ^ 5 + e) * 2 ^ 10" by simp
  then have fr: "(s * 2 ^ 15 + e * 2 ^ 10 + m) mod 2 ^ 10 = m"
    using assms(6) by (simp only: mod_mult_self1) simp
  from assms have "double_of_half (word_of_nat (get_word [b1, b2])) = double_bits s (e + 1008) (m * 2 ^ 42)"
    unfolding double_of_half_def u dv ex fr by (simp add: Let_def)
  then show ?thesis
    by (simp add: cbor_get_singular_def get_singular_loop.simps cbor_get_type_and_value_def
        cbor_argument_def cbor_simple_or_float_def Let_def u16_of_u64)
qed

lemma serialize_half:
  assumes "s < 2" "113 \<le> e" "e \<le> 142" "m < 2 ^ 23" "2048 dvd m"
  obtains b1 b2 where "serialize_float_as_single 13 (float_bits s e m) = [0xF9, b1, b2]"
    "unat b1 = 128 * s + 4 * (e - 112) + m div 2 ^ 13 div 256" "unat b2 = m div 2 ^ 13 mod 256"
proof -
  define f where "f = float_bits s e m"
  have flds: "float_sign f = s" "float_exp f = e" "float_frac f = m"
    unfolding f_def using assms by (simp_all add: float_fields)
  define mant where "mant = f AND 0x7FFFFF"
  define sign where "sign = (ucast (drop_bit 24 (f AND 0x80000000)) :: u8)"
  have u: "unat mant = m" "unat (drop_bit 23 f AND 0xFF) = e" "unat sign = 128 * s"
    using uval_fields [of f] flds by (simp_all add: mant_def sign_def)
  have ex: "uint (drop_bit 23 f AND 0xFF) - 127 = int e - 127" using u(2) by (simp add: uint_nat)
  have "unat (take_bit 11 mant) = 0" using assms(5) u(1) by (simp add: unat_take_bit mod_eq_0_iff_dvd)
  then have low: "mant AND 0x7FF = 0" by (simp only: and_low_bits unat_eq_0)
  have q: "m div 2 ^ 13 < 1024" using assms(4) by (simp add: div_less_iff_less_mult)
  have d: "unat (drop_bit 13 mant) = m div 2 ^ 13" by (simp only: unat_drop_bit u)
  have y: "unat (ucast (drop_bit 8 (drop_bit 13 mant)) AND 0x3 :: u8) = m div 2 ^ 13 div 256"
  proof -
    have three: "(0x3 :: u8) = mask 2" by (simp add: mask_eq_exp_minus_1)
    have "m div 2 ^ 13 div 2 ^ 8 < 4" using q by (simp add: div_less_iff_less_mult)
    then show ?thesis
      unfolding three take_bit_eq_mask [symmetric] unat_take_bit unat_ucast_mod unat_drop_bit u
      by simp
  qed
  have e': "(word_of_int (int e - 127 + 15) :: u32) = word_of_nat (e - 112)"
  proof -
    have "int e - 127 + 15 = int (e - 112)" using assms(2) by simp
    then show ?thesis by (simp only: of_int_of_nat_eq)
  qed
  define b1 where "b1 = sign OR (ucast (push_bit 2 (word_of_nat (e - 112) :: u32)) AND 0x7C)
      OR (ucast (drop_bit 8 (drop_bit 13 mant)) AND 0x3)"
  have "serialize_float_as_single 13 f = [0xF9, b1, ucast (drop_bit 13 mant)]"
    unfolding serialize_float_as_single_def Let_def mant_def [symmetric] sign_def [symmetric] ex e'
    using assms(2,3) unfolding low b1_def by simp
  moreover have "unat b1 = 128 * s + 4 * (e - 112) + m div 2 ^ 13 div 256"
    unfolding b1_def using u y q assms
    by (intro half_bytes [where h = 0 and z = 0]) auto
  moreover have "unat (ucast (drop_bit 13 mant) :: u8) = m div 2 ^ 13 mod 256"
    by (simp add: unat_ucast_mod d)
  ultimately show ?thesis using that unfolding f_def by blast
qed

lemma double_bits_inject:
  assumes "s < 2" "e < 2048" "m < 2 ^ 52" "m' < 2 ^ 52"
  shows "double_bits s e m = double_bits s e m' \<longleftrightarrow> m = m'"
  using double_fields(3) [OF assms(1,2)] assms(3,4) by metis

text \<open>
  C20: The value of one resource, written in the CBOR content format, is parsed back with the id of
  the URI: booleans, strings and byte strings unchanged, integers with the same number (a signed
  one that is not negative as an unsigned one), links as strings.  The value is not in floating
  point, strings have less than \<open>2^64\<close> bytes, and the allocations succeed.
\<close>

theorem cbor_roundtrip:
  assumes "always mem" "cbor_ok v" "is_set_resource uri"
  shows "\<exists>bs. cbor_serialize mem k [Data i v] = Ret (Some bs)
    \<and> cbor_parse mem k (Some uri) bs = Ret (Some (Data (cbor_parse_id uri) (cbor_view v)))"
proof -
  obtain bs where bs: "cbor_serialize mem k [Data i v] = Ret (Some bs)"
    "cbor_get_singular bs = Some (length bs, cbor_view v)"
    using cbor_serialize_reads [OF assms(1,2)] by blast
  obtain m1 m2 where "mem k = Some m1" "mem (Suc k) = Some m2"
    using assms(1) unfolding always_def by (metis not_None_eq)
  with bs assms(3) show ?thesis
    by (auto simp: cbor_parse_def Let_def split: lwm2m_value.split)
qed

theorem cbor_roundtrip_witness:
  "\<exists>bs. cbor_serialize mem_ok 0 [Data 9 (V_INTEGER 0xFFFFFFFFFFFFFE0C)] = Ret (Some bs)
    \<and> cbor_parse mem_ok 0 (Some \<lparr>objectId = 3, instanceId = 0, resourceId = 9, resourceInstanceId = 65535\<rparr>) bs
      = Ret (Some (Data 9 (V_INTEGER 0xFFFFFFFFFFFFFE0C)))"
  using cbor_roundtrip [OF always_mem_ok, of "V_INTEGER 0xFFFFFFFFFFFFFE0C"
      "\<lparr>objectId = 3, instanceId = 0, resourceId = 9, resourceInstanceId = 65535\<rparr>" 0 9]
  by (simp add: cbor_parse_id_def)

text \<open>
  A number that single precision represents and whose low eleven fraction bits are zero is
  written as a half, which keeps ten of its fraction bits: it is read back unchanged exactly when
  its low thirteen fraction bits are zero.
\<close>

theorem cbor_half_truncates:
  assumes "s < 2" "113 \<le> e" "e \<le> 142" "m < 2 ^ 23" "2048 dvd m"
  defines "d \<equiv> double_bits s (e + 896) (m * 2 ^ 29)"
  shows "\<exists>b1 b2 d'. cbor_put_singular 13 (V_FLOAT d) = Ret [0xF9, b1, b2]
    \<and> cbor_get_singular [0xF9, b1, b2] = Some (3, V_FLOAT d') \<and> (d' = d \<longleftrightarrow> 2 ^ 13 dvd m)"
proof -
  let ?q = "m div 2 ^ 13"
  have dm: "m * 2 ^ 29 < 2 ^ 52" using assms(4) by simp
  have q: "?q < 1024" using assms(4) by (simp add: div_less_iff_less_mult)
  define f where "f = float_bits s e m"
  have flds: "float_sign f = s" "float_exp f = e" "float_frac f = m"
    unfolding f_def using assms by (simp_all add: float_fields)
  have d: "double_of_float f = d"
    using assms(2,3) by (simp add: double_of_float_def flds d_def Let_def)
  have "\<not> float_isnan f" using flds assms(3) by (simp add: float_isnan_def)
  then have conv: "float_of_double d = f" using float_of_double_of_float d by metis
  obtain b1 b2 where b: "serialize_float_as_single 13 f = [0xF9, b1, b2]"
    "unat b1 = 128 * s + 4 * (e - 112) + ?q div 256" "unat b2 = ?q mod 256"
    unfolding f_def using serialize_half [OF assms(1-5)] by blast
  have "double_exp d = e + 896" unfolding d_def using assms(1,3) dm by (intro double_fields) auto
  then have "\<not> double_isnan d" "\<not> double_isinf d"
    using assms(3) by (simp_all add: double_isnan_def double_isinf_def)
  with b conv d have "cbor_put_singular 13 (V_FLOAT d) = Ret [0xF9, b1, b2]"
    by (simp add: cbor_put_singular_def prv_serialize_float_def)
  moreover have "cbor_get_singular [0xF9, b1, b2] =
      Some (3, V_FLOAT (double_bits s (e - 112 + 1008) (?q * 2 ^ 42)))"
    using b(2,3) assms(1-3) q by (intro get_half) auto
  moreover have "double_bits s (e - 112 + 1008) (?q * 2 ^ 42) = d \<longleftrightarrow> 2 ^ 13 dvd m"
  proof -
    have "e - 112 + 1008 = e + 896" using assms(2) by simp
    moreover have "?q * 2 ^ 42 < 2 ^ 52" using q by simp
    ultimately have "double_bits s (e - 112 + 1008) (?q * 2 ^ 42) = d \<longleftrightarrow> ?q * 2 ^ 42 = m * 2 ^ 29"
      unfolding d_def using assms(1,3) dm by (simp only: double_bits_inject)
    also have "\<dots> \<longleftrightarrow> ?q * 2 ^ 13 = m" by (simp add: mult.commute)
    finally show ?thesis using dvd_div_mult_self [of "2 ^ 13" m] by (metis dvd_triv_right)
  qed
  ultimately show ?thesis by blast
qed

theorem cbor_half_truncates_witness:
  "\<exists>b1 b2 d'. cbor_put_singular 13 (V_FLOAT 0x3FF0010000000000) = Ret [0xF9, b1, b2]
    \<and> cbor_get_singular [0xF9, b1, b2] = Some (3, V_FLOAT d') \<and> d' \<noteq> 0x3FF0010000000000"
proof -
  have "\<not> (2 ^ 13 :: nat) dvd 2048" by simp
  then show ?thesis
    using cbor_half_truncates [of 0 127 2048] by (simp add: double_bits_def)
qed

text \<open>
  A string that is followed by further bytes makes \<open>cbor_parse\<close> free a pointer into its input: the
  node is released with the buffer that \<open>cbor_get_singular\<close> left pointing at the message.
\<close>

theorem cbor_parse_frees_input:
  assumes "always mem" "is_set_resource uri" "s \<noteq> []" "length s < 2 ^ 64" "rest \<noteq> []"
  shows "cbor_parse mem k (Some uri)
    (prv_serialize_value 9 CBOR_TEXT_STRING (word_of_nat (length s)) @ s @ rest) = UB"
proof -
  let ?h = "prv_serialize_value 9 CBOR_TEXT_STRING (word_of_nat (length s))"
  have "cbor_get_singular (?h @ s @ rest) = Some (length (?h @ s), V_STRING s)"
    using put_get_type_and_value(3) [of 9 3, where val = "word_of_nat (length s)" and rest = "s @ rest"] assms(4)
    by (simp add: cbor_get_singular_def get_singular_loop.simps length_u64 Let_def)
  moreover obtain m where "mem k = Some m" using assms(1) by (auto simp: always_def)
  ultimately show ?thesis using assms by (simp add: cbor_parse_def cbor_free_def)
qed

theorem cbor_parse_frees_input_witness:
  "cbor_parse mem_ok 0 (Some \<lparr>objectId = 3, instanceId = 0, resourceId = 9, resourceInstanceId = 65535\<rparr>)
     [0x62, 0x68, 0x69, 0x00] = UB"
  using cbor_parse_frees_input [OF always_mem_ok, of
      "\<lparr>objectId = 3, instanceId = 0, resourceId = 9, resourceInstanceId = 65535\<rparr>" "[0x68, 0x69]" "[0]" 0]
  by (simp add: prv_serialize_value_def)

end
