(* ===== verification/DataFormats.thy ===== *)
theory DataFormats
  imports Tlv Cbor
begin

text \<open>
  The dispatch of \<open>data/data.c\<close> over the content formats, \<open>lwm2m_data_parse\<close> and
  \<open>lwm2m_data_serialize\<close>, in the build without \<open>LWM2M_VERSION_1_0\<close> and \<open>LWM2M_VERSION_1_1\<close>.  The
  coders of the JSON and SenML formats, of CoRE links and of floating point text have no model yet:
  they are fields of the environment, which the properties leave arbitrary.
\<close>

section \<open>Environment\<close>

type_synonym parser = "lwm2m_uri_t option \<Rightarrow> bytes \<Rightarrow> int \<times> lwm2m_data_t list"
type_synonym serializer = "lwm2m_uri_t option \<Rightarrow> lwm2m_data_t list \<Rightarrow> int \<times> bytes option"

text \<open>\<open>coderMem\<close> is the oracle for the allocations of the coders, \<open>dataMem\<close> says which calls of
  \<open>lwm2m_data_new\<close> of an operation succeed, \<open>dataStack\<close> gives what uninitialized stack holds.\<close>

record data_env =
  dataBuild :: build
  coderMem :: allocator
  dataMem :: "nat \<Rightarrow> bool"
  dataStack :: "nat \<Rightarrow> u8"
  floatText :: "u64 \<Rightarrow> bytes option"
  json_parse :: parser
  json_serialize :: serializer
  senml_json_parse :: parser
  senml_json_serialize :: serializer
  senml_cbor_parse :: parser
  senml_cbor_serialize :: serializer
  discover_link :: serializer

section \<open>Parsing\<close>

text \<open>The text and opaque formats: one node with a copy of the buffer.\<close>

definition parse_single ::
    "data_env \<Rightarrow> lwm2m_uri_t option \<Rightarrow> bytes \<Rightarrow> (bytes \<Rightarrow> lwm2m_value) \<Rightarrow> (int \<times> lwm2m_data_t list) outcome" where
  "parse_single env uriP buffer mk =
     (case uriP of
        None \<Rightarrow> UB
      | Some u \<Rightarrow>
          if \<not> is_set_resource u then Ret (0, [])
          else case coderMem env 0 of
            None \<Rightarrow> Ret (0, [])
          | Some _ \<Rightarrow>
              (case prv_setBuffer (coderMem env) 1 buffer of
                 (_, None) \<Rightarrow> Ret (0, [])
               | (_, Some b) \<Rightarrow>
                   Ret (1, [Data (if is_set_resource_instance u then resourceInstanceId u else resourceId u) (mk b)])))"

definition lwm2m_data_parse ::
    "data_env \<Rightarrow> lwm2m_uri_t option \<Rightarrow> bytes \<Rightarrow> lwm2m_media_type_t \<Rightarrow> (int \<times> lwm2m_data_t list) outcome" where
  "lwm2m_data_parse env uriP buffer format =
     (let b = dataBuild env;
          tlv = oc_bind (tlv_parse (coderMem env) 0 buffer) (\<lambda>(k, ds). Ret (int (length ds), ds)) in
      case format of
        LWM2M_CONTENT_TEXT \<Rightarrow> parse_single env uriP buffer V_STRING
      | LWM2M_CONTENT_OPAQUE \<Rightarrow> parse_single env uriP buffer V_OPAQUE
      | LWM2M_CONTENT_TLV_OLD \<Rightarrow> if support_tlv b \<and> old_content_format b then tlv else Ret (0, [])
      | LWM2M_CONTENT_TLV \<Rightarrow> if support_tlv b then tlv else Ret (0, [])
      | LWM2M_CONTENT_JSON_OLD \<Rightarrow>
          Ret (if support_json b \<and> old_content_format b then json_parse env uriP buffer else (0, []))
      | LWM2M_CONTENT_JSON \<Rightarrow> Ret (if support_json b then json_parse env uriP buffer else (0, []))
      | LWM2M_CONTENT_SENML_JSON \<Rightarrow>
          Ret (if support_senml_json b then senml_json_parse env uriP buffer else (0, []))
      | LWM2M_CONTENT_CBOR \<Rightarrow>
          if support_senml_cbor b then
            oc_bind (cbor_parse (coderMem env) 0 uriP buffer) (\<lambda>r.
              Ret (case r of None \<Rightarrow> (0, []) | Some d \<Rightarrow> (1, [d])))
          else Ret (0, [])
      | LWM2M_CONTENT_SENML_CBOR \<Rightarrow>
          Ret (if support_senml_cbor b then senml_cbor_parse env uriP buffer else (0, []))
      | LWM2M_CONTENT_LINK \<Rightarrow> Ret (0, []))"

section \<open>Serializing\<close>

text \<open>The check of the format: a single value is required for text, opaque and CBOR.\<close>

definition final_format ::
    "build \<Rightarrow> lwm2m_uri_t option \<Rightarrow> lwm2m_data_t list \<Rightarrow> lwm2m_media_type_t \<Rightarrow> lwm2m_media_type_t option" where
  "final_format b uriP dataP format =
     (let single = (case dataP of
            [d] \<Rightarrow> (case uriP of None \<Rightarrow> True | Some u \<Rightarrow> is_set_resource u)
              \<and> data_type (data_value d)
                  \<notin> {LWM2M_TYPE_OBJECT, LWM2M_TYPE_OBJECT_INSTANCE, LWM2M_TYPE_MULTIPLE_RESOURCE}
          | _ \<Rightarrow> False) in
      if format \<in> {LWM2M_CONTENT_TEXT, LWM2M_CONTENT_OPAQUE, LWM2M_CONTENT_CBOR} \<and> \<not> single then
        (if support_senml_cbor b then Some LWM2M_CONTENT_SENML_CBOR
         else if support_senml_json b then Some LWM2M_CONTENT_SENML_JSON
         else if support_json b then Some LWM2M_CONTENT_JSON
         else if support_tlv b then Some LWM2M_CONTENT_TLV
         else None)
      else Some format)"

text \<open>The TLV case: whether the data are resource instances.\<close>

definition serialize_tlv ::
    "data_env \<Rightarrow> lwm2m_uri_t option \<Rightarrow> lwm2m_data_t list \<Rightarrow> (int \<times> bytes option) outcome" where
  "serialize_tlv env uriP dataP =
     (let call = (\<lambda>isRI. oc_bind (tlv_serialize (coderMem env) 0 isRI dataP) (\<lambda>(k, len, buf). Ret (len, buf)));
          has = (\<lambda>i. case dataP of [d] \<Rightarrow> data_id d = i | _ \<Rightarrow> False) in
      case uriP of
        None \<Rightarrow> call False
      | Some u \<Rightarrow>
          if is_set_resource_instance u then
            (if \<not> has (resourceInstanceId u) then Ret (-1, None) else call True)
          else call (is_set_resource u \<and> \<not> has (resourceId u)))"

text \<open>The result, the format used and the buffer.\<close>

definition lwm2m_data_serialize ::
    "data_env \<Rightarrow> lwm2m_uri_t option \<Rightarrow> lwm2m_data_t list \<Rightarrow> lwm2m_media_type_t
      \<Rightarrow> (int \<times> lwm2m_media_type_t \<times> bytes option) outcome" where
  "lwm2m_data_serialize env uriP dataP format =
     (let b = dataBuild env in
      case final_format b uriP dataP format of
        None \<Rightarrow> Ret (-1, format, None)
      | Some f \<Rightarrow>
          let use = (\<lambda>ok (res, buf). Ret (if ok then (res, f, buf) else (-1, f, None)));
              tlv = oc_bind (serialize_tlv env uriP dataP) (\<lambda>(res, buf). Ret (res, f, buf)) in
          (case f of
             LWM2M_CONTENT_TEXT \<Rightarrow>
               use True (prv_textSerialize (coderMem env) (dataStack env) (floatText env) (data_value (hd dataP)))
           | LWM2M_CONTENT_OPAQUE \<Rightarrow>
               (case data_value (hd dataP) of
                  V_OPAQUE s \<Rightarrow>
                    (case coderMem env 0 of None \<Rightarrow> Ret (-1, f, None)
                     | Some _ \<Rightarrow> Ret (c_int (int (length s)), f, Some s))
                | _ \<Rightarrow> Ret (-1, f, None))
           | LWM2M_CONTENT_TLV \<Rightarrow> if support_tlv b then tlv else Ret (-1, f, None)
           | LWM2M_CONTENT_TLV_OLD \<Rightarrow> if support_tlv b \<and> old_content_format b then tlv else Ret (-1, f, None)
           | LWM2M_CONTENT_LINK \<Rightarrow> use True (discover_link env uriP dataP)
           | LWM2M_CONTENT_JSON \<Rightarrow> use (support_json b) (json_serialize env uriP dataP)
           | LWM2M_CONTENT_JSON_OLD \<Rightarrow>
               use (support_json b \<and> old_content_format b) (json_serialize env uriP dataP)
           | LWM2M_CONTENT_SENML_JSON \<Rightarrow> use (support_senml_json b) (senml_json_serialize env uriP dataP)
           | LWM2M_CONTENT_CBOR \<Rightarrow>
               if support_senml_cbor b then
                 oc_bind (cbor_serialize (coderMem env) 0 dataP) (\<lambda>r.
                   Ret (case r of None \<Rightarrow> (0, f, None) | Some bs \<Rightarrow> (int (length bs), f, Some bs)))
               else Ret (-1, f, None)
           | LWM2M_CONTENT_SENML_CBOR \<Rightarrow> use (support_senml_cbor b) (senml_cbor_serialize env uriP dataP)))"

end
