(* ===== verification/Objects.thy ===== *)
theory Objects
  imports DataFormats SortedList Block
begin

text \<open>
  The object registry of \<open>core/objects.c\<close>, on the client: the objects an application registers with
  their callbacks, reading, writing, executing and creating, the payload of a registration, and the
  servers that the Security and Server objects configure.  A callback is a function on what belongs
  to its object, the instances and the application's data; read and discover callbacks keep the
  instances.  What a callback does to the rest of the context is not modelled.  A pointer to an
  object is its identifier.  \<open>UB\<close> also stands for the call of a callback that is NULL and for a
  read beyond the array a callback returns.
\<close>

section \<open>Data\<close>

datatype lwm2m_write_type_t =
  LWM2M_WRITE_PARTIAL_UPDATE | LWM2M_WRITE_REPLACE_RESOURCES | LWM2M_WRITE_REPLACE_INSTANCE

text \<open>The result code, the array read, and the application's data.\<close>

type_synonym 's read_callback = "'s \<Rightarrow> u16 \<Rightarrow> lwm2m_data_t list \<Rightarrow> u8 \<times> lwm2m_data_t list \<times> 's"

text \<open>What the callbacks that change an object work on: its instances and the application's data.\<close>

type_synonym 's owned = "u16 list \<times> 's"

record 's lwm2m_object_t =
  objID :: u16
  versionMajor :: u8
  versionMinor :: u8
  instanceList :: "u16 list"
  objData :: 's
  readFunc :: "'s read_callback option"
  writeFunc :: "('s owned \<Rightarrow> u16 \<Rightarrow> lwm2m_data_t list \<Rightarrow> lwm2m_write_type_t \<Rightarrow> u8 \<times> 's owned) option"
  executeFunc :: "('s owned \<Rightarrow> u16 \<Rightarrow> u16 \<Rightarrow> bytes \<Rightarrow> u8 \<times> 's owned) option"
  createFunc :: "('s owned \<Rightarrow> u16 \<Rightarrow> lwm2m_data_t list \<Rightarrow> u8 \<times> 's owned) option"
  rawBlock1CreateFunc :: "('s owned \<Rightarrow> lwm2m_uri_t \<Rightarrow> lwm2m_media_type_t \<Rightarrow> bytes \<Rightarrow> u32 \<Rightarrow> u8 \<Rightarrow> u8 \<times> 's owned) option"
  rawBlock1WriteFunc :: "('s owned \<Rightarrow> lwm2m_uri_t \<Rightarrow> lwm2m_media_type_t \<Rightarrow> bytes \<Rightarrow> u32 \<Rightarrow> u8 \<Rightarrow> u8 \<times> 's owned) option"
  rawBlock1ExecuteFunc :: "('s owned \<Rightarrow> lwm2m_uri_t \<Rightarrow> bytes \<Rightarrow> u32 \<Rightarrow> u8 \<Rightarrow> u8 \<times> 's owned) option"
  deleteFunc :: "('s owned \<Rightarrow> u16 \<Rightarrow> u8 \<times> 's owned) option"
  discoverFunc :: "'s read_callback option"

type_synonym 's objects = "'s lwm2m_object_t list"

datatype lwm2m_status_t =
  STATE_DEREGISTERED | STATE_REG_HOLD_OFF | STATE_REG_PENDING | STATE_REGISTERED | STATE_REG_FAILED
| STATE_REG_UPDATE_PENDING | STATE_REG_UPDATE_NEEDED | STATE_REG_FULL_UPDATE_NEEDED
| STATE_DEREG_PENDING | STATE_BS_HOLD_OFF | STATE_BS_INITIATED | STATE_BS_PENDING
| STATE_BS_FINISHING | STATE_BS_FINISHED | STATE_BS_FAILING | STATE_BS_FAILED

text \<open>A server; \<open>'p\<close> is the type of sessions.\<close>

record 'p lwm2m_server_t =
  secObjInstID :: u16
  shortID :: u16
  s_lifetime :: int
  s_registration :: int
  s_binding :: u8
  s_sessionH :: "'p option"
  s_status :: lwm2m_status_t
  s_location :: "bytes option"
  s_dirty :: bool
  s_blockData :: block_list
  servObjInstID :: u16
  s_attempt :: u8
  s_sequence :: u8

record lwm2m_attributes_t =
  toSet :: u8
  toClear :: u8
  minPeriod :: u32
  maxPeriod :: u32
  greaterThan :: u64
  lessThan :: u64
  step :: u64

abbreviation (input) LWM2M_SECURITY_OBJECT_ID :: u16 where "LWM2M_SECURITY_OBJECT_ID \<equiv> 0"
abbreviation (input) LWM2M_SERVER_OBJECT_ID :: u16 where "LWM2M_SERVER_OBJECT_ID \<equiv> 1"
abbreviation (input) LWM2M_OSCORE_OBJECT_ID :: u16 where "LWM2M_OSCORE_OBJECT_ID \<equiv> 21"
abbreviation (input) ATTR_FLAG_NUMERIC :: u8 where "ATTR_FLAG_NUMERIC \<equiv> 0x1C"

section \<open>Calling back\<close>

definition update_object :: "'s lwm2m_object_t \<Rightarrow> 's objects \<Rightarrow> 's objects" where
  "update_object ob = map (\<lambda>x. if objID x = objID ob then ob else x)"

definition find_object :: "'s objects \<Rightarrow> u16 \<Rightarrow> 's lwm2m_object_t option" where
  "find_object objs i = lwm2m_list_find objID objs i"

definition set_owned :: "'s lwm2m_object_t \<Rightarrow> 's owned \<Rightarrow> 's lwm2m_object_t" where
  "set_owned ob w = ob\<lparr>instanceList := fst w, objData := snd w\<rparr>"

definition get_owned :: "'s lwm2m_object_t \<Rightarrow> 's owned" where
  "get_owned ob = (instanceList ob, objData ob)"

text \<open>The call of \<open>readFunc\<close> through a pointer to an object.\<close>

definition call_read ::
    "'s objects \<Rightarrow> u16 \<Rightarrow> u16 \<Rightarrow> lwm2m_data_t list \<Rightarrow> (u8 \<times> lwm2m_data_t list \<times> 's objects) outcome" where
  "call_read objs obj inst dataP =
     (case find (\<lambda>x. objID x = obj) objs of None \<Rightarrow> UB
      | Some ob \<Rightarrow> (case readFunc ob of None \<Rightarrow> UB
         | Some f \<Rightarrow> (case f (objData ob) inst dataP of
             (r, ds, u) \<Rightarrow> Ret (r, ds, update_object (ob\<lparr>objData := u\<rparr>) objs))))"

section \<open>Reading\<close>

text \<open>What is read: the node of the resource, with the node of its instance when the URI has one, or
  nothing for a whole instance.\<close>

definition read_request :: "data_env \<Rightarrow> lwm2m_uri_t \<Rightarrow> lwm2m_data_t list option" where
  "read_request env uriP =
     (if \<not> is_set_resource uriP then Some []
      else if \<not> dataMem env 0 then None
      else if is_set_resource_instance uriP then
        (if \<not> dataMem env 1 then None
         else Some [Data (resourceId uriP) (V_MULTIPLE_RESOURCE [Data (resourceInstanceId uriP) V_UNDEFINED])])
      else Some [Data (resourceId uriP) V_UNDEFINED])"

definition object_checkReadable ::
    "data_env \<Rightarrow> 's objects \<Rightarrow> lwm2m_uri_t \<Rightarrow> lwm2m_attributes_t \<Rightarrow> (u8 \<times> 's objects) outcome" where
  "object_checkReadable env objs uriP attrP =
     (case find_object objs (objectId uriP) of
        None \<Rightarrow> Ret (COAP_404_NOT_FOUND, objs)
      | Some targetP \<Rightarrow>
         (case readFunc targetP of
            None \<Rightarrow> Ret (COAP_405_METHOD_NOT_ALLOWED, objs)
          | Some f \<Rightarrow>
              if \<not> is_set_instance uriP then Ret (COAP_205_CONTENT, objs)
              else if lwm2m_list_find id (instanceList targetP) (instanceId uriP) = None
              then Ret (COAP_404_NOT_FOUND, objs)
              else if \<not> is_set_resource uriP then Ret (COAP_205_CONTENT, objs)
              else case read_request env uriP of
                None \<Rightarrow> Ret (COAP_500_INTERNAL_SERVER_ERROR, objs)
              | Some req \<Rightarrow>
                 (case f (objData targetP) (instanceId uriP) req of
                    (result, ds, u) \<Rightarrow>
                      let objs' = update_object (targetP\<lparr>objData := u\<rparr>) objs;
                          valueP = (case ds of [] \<Rightarrow> UB
                            | Data i v # _ \<Rightarrow>
                               if is_set_resource_instance uriP then
                                 (case v of V_MULTIPLE_RESOURCE (Data j w # _) \<Rightarrow> Ret w | _ \<Rightarrow> UB)
                               else Ret v) in
                      if result = COAP_205_CONTENT \<and> toSet attrP AND ATTR_FLAG_NUMERIC \<noteq> 0 then
                        oc_bind valueP (\<lambda>v.
                          Ret (if data_type v \<in> {LWM2M_TYPE_INTEGER, LWM2M_TYPE_UNSIGNED_INTEGER, LWM2M_TYPE_FLOAT}
                               then result else COAP_405_METHOD_NOT_ALLOWED, objs'))
                      else Ret (result, objs'))))"

text \<open>The loop over the instances, while the result is \<open>2.05\<close>.\<close>

fun readData_loop ::
    "'s read_callback \<Rightarrow> 's \<Rightarrow> u16 list \<Rightarrow> lwm2m_data_t list \<Rightarrow> u8 \<times> lwm2m_data_t list \<times> 's" where
  "readData_loop f u [] dataP = (COAP_205_CONTENT, dataP, u)"
| "readData_loop f u (i # is) dataP =
     (case f u i [] of (result, cs, u') \<Rightarrow>
        if result = COAP_205_CONTENT then readData_loop f u' is (dataP @ [Data i (V_OBJECT_INSTANCE cs)])
        else (result, dataP @ [Data i (V_OBJECT_INSTANCE cs)], u'))"

definition object_readData ::
    "data_env \<Rightarrow> 's objects \<Rightarrow> lwm2m_uri_t \<Rightarrow> u8 \<times> lwm2m_data_t list \<times> 's objects" where
  "object_readData env objs uriP =
     (case find_object objs (objectId uriP) of
        None \<Rightarrow> (COAP_404_NOT_FOUND, [], objs)
      | Some targetP \<Rightarrow>
         (case readFunc targetP of
            None \<Rightarrow> (COAP_405_METHOD_NOT_ALLOWED, [], objs)
          | Some f \<Rightarrow>
             let finish = (\<lambda>(result, ds, u).
                   (result, if result = COAP_205_CONTENT then ds else [],
                    update_object (targetP\<lparr>objData := u\<rparr>) objs)) in
             if is_set_instance uriP then
               (if lwm2m_list_find id (instanceList targetP) (instanceId uriP) = None
                then (COAP_404_NOT_FOUND, [], objs)
                else case read_request env uriP of
                  None \<Rightarrow> (COAP_500_INTERNAL_SERVER_ERROR, [], objs)
                | Some req \<Rightarrow> finish (f (objData targetP) (instanceId uriP) req))
             else if instanceList targetP \<noteq> [] \<and> \<not> dataMem env 0
             then (COAP_500_INTERNAL_SERVER_ERROR, [], objs)
             else finish (readData_loop f (objData targetP) (instanceList targetP) [])))"

text \<open>The result code, the format, and the length and the buffer when the code is \<open>2.05\<close>.\<close>

definition object_read ::
    "data_env \<Rightarrow> 's objects \<Rightarrow> lwm2m_uri_t \<Rightarrow> u16 list \<Rightarrow> lwm2m_media_type_t
      \<Rightarrow> (u8 \<times> lwm2m_media_type_t \<times> (int \<times> bytes option) option \<times> 's objects) outcome" where
  "object_read env objs uriP accept format =
     (case object_readData env objs uriP of
        (result, dataP, objs') \<Rightarrow>
          if result \<noteq> COAP_205_CONTENT then Ret (result, format, None, objs')
          else
            (let (result2, f) = (if accept \<noteq> [] then
                   utils_getResponseFormat (dataBuild env) accept (map (\<lambda>d. data_type (data_value d)) dataP)
                     (is_set_resource uriP)
                 else (COAP_205_CONTENT, format)) in
             if result2 \<noteq> COAP_205_CONTENT then Ret (result2, f, None, objs')
             else oc_bind (lwm2m_data_serialize env (Some uriP) dataP f) (\<lambda>(res, f', buf).
               Ret (if res < 0 then (COAP_500_INTERNAL_SERVER_ERROR, f', None, objs')
                    else (COAP_205_CONTENT, f', Some (res, buf), objs')))))"

section \<open>Server information\<close>

text \<open>Reading a resource into a one-element array, and the integer in its first element.\<close>

definition read_first ::
    "'s objects \<Rightarrow> u16 \<Rightarrow> u16 \<Rightarrow> u16 \<Rightarrow> (u8 \<times> lwm2m_value \<times> 's objects) outcome" where
  "read_first objs obj inst res =
     oc_bind (call_read objs obj inst [Data res V_UNDEFINED]) (\<lambda>(r, ds, objs').
       if r \<noteq> COAP_205_CONTENT then Ret (r, V_UNDEFINED, objs')
       else case ds of [] \<Rightarrow> UB | d # _ \<Rightarrow> Ret (r, data_value d, objs'))"

definition prv_getMandatoryInfo ::
    "bool \<Rightarrow> 's objects \<Rightarrow> u16 \<Rightarrow> u16 \<Rightarrow> 'p lwm2m_server_t \<Rightarrow> (int \<times> 'p lwm2m_server_t \<times> 's objects) outcome" where
  "prv_getMandatoryInfo mem objs objectP instanceID targetP =
     (if \<not> mem then Ret (-1, targetP, objs)
      else oc_bind (call_read objs objectP instanceID [Data 1 V_UNDEFINED, Data 7 V_UNDEFINED])
       (\<lambda>(r, ds, objs').
         if r \<noteq> COAP_205_CONTENT then Ret (-1, targetP, objs')
         else case ds of
           Data _ v0 # ds' \<Rightarrow>
             (case lwm2m_data_decode_int v0 of
                None \<Rightarrow> Ret (-1, targetP, objs')
              | Some value \<Rightarrow>
                  if sint value < 0 \<or> sint value > 0xFFFFFFFF then Ret (-1, targetP, objs')
                  else case ds' of
                    Data _ v1 # _ \<Rightarrow>
                      (let b = (case v1 of V_STRING s \<Rightarrow> utils_stringToBinding s | _ \<Rightarrow> BINDING_UNKNOWN);
                           targetP' = targetP\<lparr>s_lifetime := sint value, s_binding := b\<rparr> in
                       Ret (if b = BINDING_UNKNOWN then -1 else 0, targetP', objs'))
                  | [] \<Rightarrow> UB)
         | [] \<Rightarrow> UB))"

definition prv_getServerShortId ::
    "bool \<Rightarrow> 's objects \<Rightarrow> u16 \<Rightarrow> u16 \<Rightarrow> (u16 \<times> 's objects) outcome" where
  "prv_getServerShortId mem objs serverObjectP inst =
     (if \<not> mem then Ret (0, objs)
      else oc_bind (read_first objs serverObjectP inst 0) (\<lambda>(r, v, objs').
        Ret (if r \<noteq> COAP_205_CONTENT then 0
             else case lwm2m_data_decode_int v of
               None \<Rightarrow> 0
             | Some value \<Rightarrow> if sint value < 0 \<or> sint value > 65535 then 0 else ucast value, objs')))"

text \<open>The first server of the list with a short id.\<close>

fun update_first :: "('a \<Rightarrow> bool) \<Rightarrow> ('a \<Rightarrow> 'a) \<Rightarrow> 'a list \<Rightarrow> 'a list" where
  "update_first P f [] = []"
| "update_first P f (x # xs) = (if P x then f x # xs else x # update_first P f xs)"

definition prv_updateServerInfo ::
    "(nat \<Rightarrow> bool) \<Rightarrow> 's objects \<Rightarrow> 'p lwm2m_server_t list \<Rightarrow> u16 \<Rightarrow> u16
      \<Rightarrow> ('s objects \<times> 'p lwm2m_server_t list) outcome" where
  "prv_updateServerInfo mem objs serverList serverObjectP inst =
     oc_bind (prv_getServerShortId (mem 0) objs serverObjectP inst) (\<lambda>(serverId, objs1).
       if serverId = 0 then Ret (objs1, serverList)
       else case find (\<lambda>s. shortID s = serverId) serverList of
         None \<Rightarrow> Ret (objs1, serverList)
       | Some serverP \<Rightarrow>
           oc_bind (prv_getMandatoryInfo (mem 1) objs1 serverObjectP inst serverP) (\<lambda>(r, s', objs2).
             Ret (objs2, update_first (\<lambda>s. shortID s = serverId) (\<lambda>_. s') serverList)))"

section \<open>Writing, executing, creating\<close>

definition object_write ::
    "data_env \<Rightarrow> 's objects \<Rightarrow> 'p lwm2m_server_t list \<Rightarrow> lwm2m_uri_t \<Rightarrow> lwm2m_media_type_t \<Rightarrow> bytes \<Rightarrow> bool
      \<Rightarrow> (u8 \<times> 's objects \<times> 'p lwm2m_server_t list) outcome" where
  "object_write env objs servers uriP format buffer partial =
     (if \<not> is_set_object uriP then Ret (COAP_400_BAD_REQUEST, objs, servers)
      else if \<not> is_set_instance uriP then Ret (COAP_400_BAD_REQUEST, objs, servers)
      else case find_object objs (objectId uriP) of
        None \<Rightarrow> Ret (COAP_404_NOT_FOUND, objs, servers)
      | Some targetP \<Rightarrow>
         (case writeFunc targetP of
            None \<Rightarrow> Ret (COAP_405_METHOD_NOT_ALLOWED, objs, servers)
          | Some f \<Rightarrow>
             oc_bind (lwm2m_data_parse env (Some uriP) buffer format) (\<lambda>(size, ds).
               if size \<le> 0 then Ret (COAP_406_NOT_ACCEPTABLE, objs, servers)
               else if is_set_resource_instance uriP \<and> \<not> dataMem env 0
               then Ret (COAP_500_INTERNAL_SERVER_ERROR, objs, servers)
               else
                 oc_bind (if is_set_resource_instance uriP then
                     oc_bind (lwm2m_data_encode_instances ds V_UNDEFINED) (\<lambda>v. Ret ([Data (resourceId uriP) v], True))
                   else Ret (ds, partial)) (\<lambda>(ds', partial').
                 let writeType = (if partial' then LWM2M_WRITE_PARTIAL_UPDATE
                       else if is_set_resource uriP then LWM2M_WRITE_REPLACE_RESOURCES
                       else LWM2M_WRITE_REPLACE_INSTANCE);
                     (result, w) = f (get_owned targetP) (instanceId uriP) ds' writeType;
                     objs' = update_object (set_owned targetP w) objs in
                 if result = COAP_204_CHANGED \<and> objID targetP = LWM2M_SERVER_OBJECT_ID then
                   oc_bind (prv_updateServerInfo (\<lambda>k. dataMem env (k + 1)) objs' servers (objID targetP) (instanceId uriP))
                     (\<lambda>(objs2, servers2). Ret (result, objs2, servers2))
                 else Ret (result, objs', servers)))))"

definition object_execute ::
    "'s objects \<Rightarrow> lwm2m_uri_t \<Rightarrow> bytes \<Rightarrow> u8 \<times> 's objects" where
  "object_execute objs uriP buffer =
     (case find_object objs (objectId uriP) of
        None \<Rightarrow> (COAP_404_NOT_FOUND, objs)
      | Some targetP \<Rightarrow>
         (case executeFunc targetP of
            None \<Rightarrow> (COAP_405_METHOD_NOT_ALLOWED, objs)
          | Some f \<Rightarrow>
              if lwm2m_list_find id (instanceList targetP) (instanceId uriP) = None then (COAP_404_NOT_FOUND, objs)
              else case f (get_owned targetP) (instanceId uriP) (resourceId uriP) buffer of
                (r, w) \<Rightarrow> (r, update_object (set_owned targetP w) objs)))"

text \<open>The children of a node, as its union holds them.\<close>

definition children_of :: "lwm2m_value \<Rightarrow> lwm2m_data_t list outcome" where
  "children_of v = (case v of
      V_OBJECT cs \<Rightarrow> Ret cs | V_OBJECT_INSTANCE cs \<Rightarrow> Ret cs | V_MULTIPLE_RESOURCE cs \<Rightarrow> Ret cs
    | V_UNDEFINED \<Rightarrow> Ret [] | _ \<Rightarrow> UB)"

text \<open>\<open>object_create\<close>: the result, the URI with its instance id, and the objects.\<close>

definition object_create ::
    "data_env \<Rightarrow> 's objects \<Rightarrow> lwm2m_uri_t \<Rightarrow> lwm2m_media_type_t \<Rightarrow> bytes option
      \<Rightarrow> (u8 \<times> lwm2m_uri_t \<times> 's objects) outcome" where
  "object_create env objs uriP format buffer =
     (case buffer of
        None \<Rightarrow> Ret (COAP_400_BAD_REQUEST, uriP, objs)
      | Some bs \<Rightarrow>
        if length bs = 0 then Ret (COAP_400_BAD_REQUEST, uriP, objs)
        else case find_object objs (objectId uriP) of
          None \<Rightarrow> Ret (COAP_404_NOT_FOUND, uriP, objs)
        | Some targetP \<Rightarrow>
          (case createFunc targetP of
            None \<Rightarrow> Ret (COAP_405_METHOD_NOT_ALLOWED, uriP, objs)
          | Some f \<Rightarrow>
             oc_bind (lwm2m_data_parse env (Some uriP) bs format) (\<lambda>(size, ds).
               let call = (\<lambda>i cs. case f (get_owned targetP) i cs of
                      (r, w) \<Rightarrow> Ret (r, uriP\<lparr>instanceId := i\<rparr>, update_object (set_owned targetP w) objs)) in
               if size \<le> 0 then Ret (COAP_400_BAD_REQUEST, uriP, objs)
               else case ds of [] \<Rightarrow> UB
               | Data i v # _ \<Rightarrow>
                  (case v of
                     V_OBJECT _ \<Rightarrow> Ret (COAP_400_BAD_REQUEST, uriP, objs)
                   | V_OBJECT_INSTANCE cs \<Rightarrow>
                       if size \<noteq> 1 then Ret (COAP_400_BAD_REQUEST, uriP, objs)
                       else if lwm2m_list_find id (instanceList targetP) i \<noteq> None
                       then Ret (COAP_406_NOT_ACCEPTABLE, uriP, objs)
                       else call i cs
                   | _ \<Rightarrow> call (if is_set_instance uriP then instanceId uriP
                                else lwm2m_list_newId id (instanceList targetP)) ds))))"

text \<open>The three functions of the build with \<open>LWM2M_RAW_BLOCK1_REQUESTS\<close>.\<close>

definition raw_block1_result :: "u8 \<Rightarrow> u8 \<Rightarrow> u8 \<Rightarrow> u8" where
  "raw_block1_result fine block_more result =
     (if block_more > 0 \<and> (result = fine \<or> result = NO_ERROR) then COAP_231_CONTINUE else result)"

definition object_raw_block1_write ::
    "'s objects \<Rightarrow> lwm2m_uri_t \<Rightarrow> lwm2m_media_type_t \<Rightarrow> bytes \<Rightarrow> u32 \<Rightarrow> u8 \<Rightarrow> u8 \<times> 's objects" where
  "object_raw_block1_write objs uriP format buffer block_num block_more =
     (case find_object objs (objectId uriP) of
        None \<Rightarrow> (COAP_404_NOT_FOUND, objs)
      | Some targetP \<Rightarrow>
         (case rawBlock1WriteFunc targetP of
            None \<Rightarrow> (COAP_405_METHOD_NOT_ALLOWED, objs)
          | Some f \<Rightarrow>
              if is_set_resource_instance uriP then (COAP_400_BAD_REQUEST, objs)
              else case f (get_owned targetP) uriP format buffer block_num block_more of
                (r, w) \<Rightarrow> (raw_block1_result COAP_204_CHANGED block_more r, update_object (set_owned targetP w) objs)))"

definition object_raw_block1_execute ::
    "'s objects \<Rightarrow> lwm2m_uri_t \<Rightarrow> bytes \<Rightarrow> u32 \<Rightarrow> u8 \<Rightarrow> u8 \<times> 's objects" where
  "object_raw_block1_execute objs uriP buffer block_num block_more =
     (case find_object objs (objectId uriP) of
        None \<Rightarrow> (COAP_404_NOT_FOUND, objs)
      | Some targetP \<Rightarrow>
         (case rawBlock1ExecuteFunc targetP of
            None \<Rightarrow> (COAP_405_METHOD_NOT_ALLOWED, objs)
          | Some f \<Rightarrow>
              if lwm2m_list_find id (instanceList targetP) (instanceId uriP) = None then (COAP_404_NOT_FOUND, objs)
              else case f (get_owned targetP) uriP buffer block_num block_more of
                (r, w) \<Rightarrow> (raw_block1_result COAP_204_CHANGED block_more r, update_object (set_owned targetP w) objs)))"

definition object_raw_block1_create ::
    "'s objects \<Rightarrow> lwm2m_uri_t \<Rightarrow> lwm2m_media_type_t \<Rightarrow> bytes option \<Rightarrow> u32 \<Rightarrow> u8 \<Rightarrow> u8 \<times> 's objects" where
  "object_raw_block1_create objs uriP format buffer block_num block_more =
     (case buffer of
        None \<Rightarrow> (COAP_400_BAD_REQUEST, objs)
      | Some bs \<Rightarrow>
        if length bs = 0 then (COAP_400_BAD_REQUEST, objs)
        else case find_object objs (objectId uriP) of
          None \<Rightarrow> (COAP_404_NOT_FOUND, objs)
        | Some targetP \<Rightarrow>
           (case rawBlock1CreateFunc targetP of
              None \<Rightarrow> (COAP_405_METHOD_NOT_ALLOWED, objs)
            | Some f \<Rightarrow> (case f (get_owned targetP) uriP format bs block_num block_more of
                (r, w) \<Rightarrow> (raw_block1_result COAP_201_CREATED block_more r, update_object (set_owned targetP w) objs))))"

definition object_isInstanceNew :: "'s objects \<Rightarrow> u16 \<Rightarrow> u16 \<Rightarrow> bool" where
  "object_isInstanceNew objs obj inst =
     (case find_object objs obj of
        None \<Rightarrow> True
      | Some targetP \<Rightarrow> lwm2m_list_find id (instanceList targetP) inst = None)"

definition object_createInstance :: "'s objects \<Rightarrow> lwm2m_uri_t \<Rightarrow> lwm2m_data_t \<Rightarrow> (u8 \<times> 's objects) outcome" where
  "object_createInstance objs uriP dataP =
     (case find_object objs (objectId uriP) of
        None \<Rightarrow> Ret (COAP_404_NOT_FOUND, objs)
      | Some targetP \<Rightarrow>
         (case createFunc targetP of
            None \<Rightarrow> Ret (COAP_405_METHOD_NOT_ALLOWED, objs)
          | Some f \<Rightarrow> oc_bind (children_of (data_value dataP)) (\<lambda>cs.
              case f (get_owned targetP) (lwm2m_list_newId id (instanceList targetP)) cs of
                (r, w) \<Rightarrow> Ret (r, update_object (set_owned targetP w) objs))))"

definition object_writeInstance :: "'s objects \<Rightarrow> lwm2m_uri_t \<Rightarrow> lwm2m_data_t \<Rightarrow> (u8 \<times> 's objects) outcome" where
  "object_writeInstance objs uriP dataP =
     (case find_object objs (objectId uriP) of
        None \<Rightarrow> Ret (COAP_404_NOT_FOUND, objs)
      | Some targetP \<Rightarrow>
         (case writeFunc targetP of
            None \<Rightarrow> Ret (COAP_405_METHOD_NOT_ALLOWED, objs)
          | Some f \<Rightarrow> oc_bind (children_of (data_value dataP)) (\<lambda>cs.
              case f (get_owned targetP) (data_id dataP) cs LWM2M_WRITE_REPLACE_INSTANCE of
                (r, w) \<Rightarrow> Ret (r, update_object (set_owned targetP w) objs))))"

end
