(* ===== verification/RegPayload.thy ===== *)
theory RegPayload
  imports Objects
begin

text \<open>
  The payload of a registration of \<open>core/objects.c\<close>: the list of links to the objects and instances
  of the client, and the computation of the size of its buffer.  A pass over the buffer is the pair
  of the index and the buffer; \<open>None\<close> is the return of 0, after which the buffer is not used.
\<close>

section \<open>Text\<close>

definition ascii :: "string \<Rightarrow> bytes" where
  "ascii s = map of_char s"

lemma length_ascii [simp]: "length (ascii s) = length s"
  by (simp add: ascii_def)

abbreviation (input) ch_lt :: u8 where "ch_lt \<equiv> 0x3C"
abbreviation (input) ch_comma :: u8 where "ch_comma \<equiv> 0x2C"

definition REG_START :: bytes where "REG_START = ascii ''<''"
definition REG_DEFAULT_PATH :: bytes where "REG_DEFAULT_PATH = ascii ''/''"
definition REG_PATH_END :: bytes where "REG_PATH_END = ascii ''>,''"
definition REG_VERSION_START :: bytes where "REG_VERSION_START = ascii ''>;ver=''"

definition REG_LWM2M_RESOURCE_TYPE :: "build \<Rightarrow> bytes" where
  "REG_LWM2M_RESOURCE_TYPE b = ascii ''>;rt='' @ [0x22] @ ascii ''oma.lwm2m'' @ [0x22] @
     (if support_senml_cbor b then ascii '';ct=112,''
      else if support_senml_json b then ascii '';ct=110,''
      else if support_json b then ascii '';ct=11543,'' else ascii '','')"

text \<open>The alternative path, unless it is missing or empty.\<close>

definition reg_path :: "bytes option \<Rightarrow> bytes" where
  "reg_path altPath = (case altPath of None \<Rightarrow> REG_DEFAULT_PATH
     | Some p \<Rightarrow> if cstr_at p 0 \<noteq> 0 then p else REG_DEFAULT_PATH)"

section \<open>The start of a link\<close>

definition prv_getObjectTemplate :: "bytes \<Rightarrow> u16 \<Rightarrow> nat option \<times> bytes" where
  "prv_getObjectTemplate buffer i =
     (if length buffer < 5 then (None, buffer)
      else
        let (result, rest) = utils_intToText (ucast i) (drop 2 buffer);
            buffer1 = [ch_lt, ch_slash] @ rest;
            index = 2 + result
        in if result = 0 then (None, buffer1)
           else if length buffer - index < 2 then (None, buffer1)
           else (Some (index + 1), buffer1[index := ch_slash]))"

section \<open>The size\<close>

text \<open>\<open>buffer\<close> is the local buffer of ten bytes, which is only written.\<close>

fun payloadLength_instances :: "bytes \<Rightarrow> u16 list \<Rightarrow> nat \<Rightarrow> nat \<Rightarrow> nat \<Rightarrow> nat option" where
  "payloadLength_instances buffer [] start len index = Some index"
| "payloadLength_instances buffer (i # is) start len index =
     (let index1 = (if index \<noteq> start + len then index + len else index);
          result = fst (utils_intToText (ucast i) buffer) in
      if result = 0 then None
      else payloadLength_instances buffer is start len (index1 + result + length REG_PATH_END))"

fun payloadLength_objects :: "bytes \<Rightarrow> 's objects \<Rightarrow> nat \<Rightarrow> nat option" where
  "payloadLength_objects buffer [] index = Some index"
| "payloadLength_objects buffer (ob # obs) index =
     (if objID ob = LWM2M_SECURITY_OBJECT_ID \<or> objID ob = LWM2M_OSCORE_OBJECT_ID
      then payloadLength_objects buffer obs index
      else case fst (prv_getObjectTemplate buffer (objID ob)) of
        None \<Rightarrow> None
      | Some len \<Rightarrow>
          let index1 = index + len;
              (start, index2) =
                (if versionMajor ob \<noteq> 0 \<or> versionMinor ob \<noteq> 0 then
                   (let index3 = index1 - 1 + length REG_VERSION_START
                          + fst (utils_uintToText (ucast (versionMajor ob)) buffer) + 1
                          + fst (utils_uintToText (ucast (versionMinor ob)) buffer) + 1 in
                    if instanceList ob \<noteq> [] then (index3, index3 + len) else (index, index3))
                 else if instanceList ob = [] then (index, index1 - 1 + length REG_PATH_END)
                 else (index, index1)) in
          if instanceList ob \<noteq> [] then
            (case payloadLength_instances buffer (instanceList ob) start len index2 of
               None \<Rightarrow> None
             | Some index4 \<Rightarrow> payloadLength_objects buffer obs index4)
          else payloadLength_objects buffer obs index2)"

definition object_getRegisterPayloadBufferLength :: "build \<Rightarrow> bytes \<Rightarrow> bytes option \<Rightarrow> 's objects \<Rightarrow> nat" where
  "object_getRegisterPayloadBufferLength b buffer altPath objs =
     (case payloadLength_objects buffer objs
             (length REG_START + length (reg_path altPath) + length (REG_LWM2M_RESOURCE_TYPE b)) of
        None \<Rightarrow> 0
      | Some index \<Rightarrow> index + 1)"

section \<open>The payload\<close>

text \<open>A write at the index, and the kinds of writes.\<close>

definition put_at :: "(bytes \<Rightarrow> nat option \<times> bytes) \<Rightarrow> nat \<times> bytes \<Rightarrow> (nat \<times> bytes) option" where
  "put_at f st =
     (case f (drop (fst st) (snd st)) of
        (None, _) \<Rightarrow> None
      | (Some r, rest) \<Rightarrow> Some (fst st + r, take (fst st) (snd st) @ rest))"

definition put_copy :: "bytes \<Rightarrow> nat \<times> bytes \<Rightarrow> (nat \<times> bytes) option" where
  "put_copy str = put_at (\<lambda>b. utils_stringCopy b str)"

definition put_version :: "u8 \<Rightarrow> nat \<times> bytes \<Rightarrow> (nat \<times> bytes) option" where
  "put_version v = put_at (\<lambda>b. case utils_uintToText (ucast v) b of (r, b') \<Rightarrow> (Some r, b'))"

definition put_id :: "u16 \<Rightarrow> nat \<times> bytes \<Rightarrow> (nat \<times> bytes) option" where
  "put_id i = put_at (\<lambda>b. case utils_intToText (ucast i) b of (r, b') \<Rightarrow> (if r = 0 then None else Some r, b'))"

definition put_template :: "u16 \<Rightarrow> nat \<times> bytes \<Rightarrow> (nat \<times> bytes) option" where
  "put_template i = put_at (\<lambda>b. prv_getObjectTemplate b i)"

definition put_char :: "u8 \<Rightarrow> nat \<times> bytes \<Rightarrow> (nat \<times> bytes) option" where
  "put_char c st = (if fst st \<ge> length (snd st) then None else Some (fst st + 1, (snd st)[fst st := c]))"

definition put_again :: "nat \<Rightarrow> nat \<Rightarrow> nat \<times> bytes \<Rightarrow> (nat \<times> bytes) option" where
  "put_again start len st =
     (if fst st \<noteq> start + len then
        (if length (snd st) - fst st \<le> len then None
         else Some (fst st + len, take (fst st) (snd st) @ take len (drop start (snd st))
                 @ drop (fst st + len) (snd st)))
      else Some st)"

fun registerPayload_instances :: "u16 list \<Rightarrow> nat \<Rightarrow> nat \<Rightarrow> nat \<times> bytes \<Rightarrow> (nat \<times> bytes) option" where
  "registerPayload_instances [] start len st = Some st"
| "registerPayload_instances (i # is) start len st =
     Option.bind (put_again start len st) (\<lambda>st1.
     Option.bind (put_id i st1) (\<lambda>st2.
     Option.bind (put_copy REG_PATH_END st2) (registerPayload_instances is start len)))"

text \<open>The version of an object: the new start and length of the link, and the pass.\<close>

definition registerPayload_version ::
    "'s lwm2m_object_t \<Rightarrow> nat \<Rightarrow> nat \<Rightarrow> nat \<times> bytes \<Rightarrow> (nat \<times> nat \<times> nat \<times> bytes) option" where
  "registerPayload_version ob start len st =
     (if versionMajor ob \<noteq> 0 \<or> versionMinor ob \<noteq> 0 then
        Option.bind (put_copy REG_VERSION_START (fst st - 1, snd st)) (\<lambda>st1.
        Option.bind (put_version (versionMajor ob) st1) (\<lambda>st2.
        Option.bind (put_char ch_dot st2) (\<lambda>st3.
        Option.bind (put_version (versionMinor ob) st3) (\<lambda>st4.
        Option.bind (put_char ch_comma st4) (\<lambda>st5.
          if instanceList ob \<noteq> [] then
            Option.bind (put_template (objID ob) st5) (\<lambda>st6. Some (fst st5, fst st6 - fst st5, st6))
          else Some (start, len, st5))))))
      else if instanceList ob = [] then
        Option.bind (put_copy REG_PATH_END (fst st - 1, snd st)) (\<lambda>st1. Some (start, len, st1))
      else Some (start, len, st))"

fun registerPayload_objects :: "'s objects \<Rightarrow> nat \<times> bytes \<Rightarrow> (nat \<times> bytes) option" where
  "registerPayload_objects [] st = Some st"
| "registerPayload_objects (ob # obs) st =
     (if objID ob = LWM2M_SECURITY_OBJECT_ID then registerPayload_objects obs st
      else Option.bind (put_template (objID ob) st) (\<lambda>st1.
           Option.bind (registerPayload_version ob (fst st) (fst st1 - fst st) st1) (\<lambda>(start, len, st2).
           Option.bind (registerPayload_instances (instanceList ob) start len st2)
             (registerPayload_objects obs))))"

text \<open>The length of the payload and the buffer; \<open>None\<close> when the result is 0.\<close>

definition object_getRegisterPayload :: "build \<Rightarrow> bytes option \<Rightarrow> 's objects \<Rightarrow> bytes \<Rightarrow> (nat \<times> bytes) option" where
  "object_getRegisterPayload b altPath objs buffer =
     Option.bind (put_copy REG_START (0, buffer)) (\<lambda>st1.
     Option.bind (put_copy (reg_path altPath) st1) (\<lambda>st2.
     Option.bind (put_copy (REG_LWM2M_RESOURCE_TYPE b) st2) (\<lambda>st3.
     Option.bind (registerPayload_objects objs st3) (\<lambda>(index, buf).
       let index' = (if index > 0 then index - 1 else index) in Some (index', buf[index' := 0])))))"

section \<open>The text of the payload\<close>

definition link_start :: "u16 \<Rightarrow> bytes" where
  "link_start i = [ch_lt, ch_slash] @ dec_text (unat i) @ [ch_slash]"

definition instance_links :: "u16 \<Rightarrow> u16 list \<Rightarrow> bytes" where
  "instance_links i is = concat (map (\<lambda>j. link_start i @ dec_text (unat j) @ REG_PATH_END) is)"

definition version_link :: "'s lwm2m_object_t \<Rightarrow> bytes" where
  "version_link ob = butlast (link_start (objID ob)) @ REG_VERSION_START
     @ dec_text (unat (versionMajor ob)) @ [ch_dot] @ dec_text (unat (versionMinor ob)) @ [ch_comma]"

text \<open>An object with a version has a link of its own; one without has a link only when it has no
  instances.  The Security object has none.\<close>

definition object_links :: "'s lwm2m_object_t \<Rightarrow> bytes" where
  "object_links ob =
     (if objID ob = LWM2M_SECURITY_OBJECT_ID then []
      else if versionMajor ob \<noteq> 0 \<or> versionMinor ob \<noteq> 0
      then version_link ob @ instance_links (objID ob) (instanceList ob)
      else if instanceList ob = [] then butlast (link_start (objID ob)) @ REG_PATH_END
      else instance_links (objID ob) (instanceList ob))"

definition reg_text :: "build \<Rightarrow> bytes option \<Rightarrow> 's objects \<Rightarrow> bytes" where
  "reg_text b altPath objs = REG_START @ reg_path altPath @ REG_LWM2M_RESOURCE_TYPE b @ concat (map object_links objs)"

section \<open>Writing it\<close>

definition filled :: "nat \<Rightarrow> bytes \<Rightarrow> nat \<times> bytes \<Rightarrow> bool" where
  "filled n txt st \<longleftrightarrow> fst st = length txt \<and> length (snd st) = n \<and> length txt \<le> n \<and> take (length txt) (snd st) = txt"

text \<open>\<open>adds n txt s r\<close>: the pass \<open>r\<close> succeeded and has added \<open>s\<close> to \<open>txt\<close>.\<close>

definition adds :: "nat \<Rightarrow> bytes \<Rightarrow> bytes \<Rightarrow> (nat \<times> bytes) option \<Rightarrow> bool" where
  "adds n txt s r \<longleftrightarrow> (\<exists>st. r = Some st \<and> filled n (txt @ s) st)"

lemma put_at_adds:
  assumes "filled n txt st" "f (drop (length txt) (snd st)) = (Some (length s), rest)"
    "length rest = n - length txt" "take (length s) rest = s" "length txt + length s \<le> n"
  shows "adds n txt s (put_at f st)"
  using assms unfolding adds_def filled_def put_at_def by auto

lemma put_copy_adds:
  assumes "filled n txt st" "length (txt @ s) < n"
  shows "adds n txt s (put_copy s st)"
proof -
  have "length s < length (drop (length txt) (snd st))" using assms by (auto simp: filled_def)
  from utils_stringCopy_fits [OF this] show ?thesis
    using assms unfolding put_copy_def by (intro put_at_adds) (auto simp: filled_def)
qed

lemma unat_ids [simp]: "unat (ucast (v :: u8) :: u64) = unat v" "unat (ucast (i :: u16) :: u64) = unat i"
  by simp_all

lemma intToText_unsigned: "utils_intToText (ucast (i :: u16)) s = utils_uintToText (ucast i) s"
  using unat_u16_less [of i] by (simp add: utils_intToText_def sint_u64 del: unat_u16_less)

lemma intToText_id_fits:
  assumes "length (dec_text (unat i)) \<le> length s"
  shows "\<exists>rest. utils_intToText (ucast (i :: u16)) s = (length (dec_text (unat i)), dec_text (unat i) @ rest)
    \<and> length rest = length s - length (dec_text (unat i))"
proof -
  let ?r = "utils_uintToText (ucast i) s"
  have "fst ?r = length (dec_text (unat i)) \<and> take (length (dec_text (unat i))) (snd ?r) = dec_text (unat i)"
    using utils_uintToText_fits [of "ucast i" s] assms by simp
  moreover have "length (snd ?r) = length s" by (rule length_utils_uintToText)
  ultimately show ?thesis
    by (intro exI [of _ "drop (length (dec_text (unat i))) (snd ?r)"])
      (metis append_take_drop_id intToText_unsigned length_drop prod.collapse)
qed

lemma put_id_adds:
  assumes "filled n txt st" "length (txt @ dec_text (unat i)) \<le> n"
  shows "adds n txt (dec_text (unat i)) (put_id i st)"
proof -
  have "length (dec_text (unat i)) \<le> length (drop (length txt) (snd st))"
    using assms by (auto simp: filled_def)
  from intToText_id_fits [OF this] obtain rest
    where "utils_intToText (ucast i) (drop (length txt) (snd st)) = (length (dec_text (unat i)), dec_text (unat i) @ rest)"
      "length rest = length (drop (length txt) (snd st)) - length (dec_text (unat i))" by blast
  then show ?thesis using assms unfolding put_id_def
    by (intro put_at_adds [where rest = "dec_text (unat i) @ rest"]) (auto simp: filled_def)
qed

lemma put_version_adds:
  assumes "filled n txt st" "length (txt @ dec_text (unat v)) \<le> n"
  shows "adds n txt (dec_text (unat v)) (put_version v st)"
proof -
  have "length (dec_text (unat v)) \<le> length (drop (length txt) (snd st))"
    using assms by (auto simp: filled_def)
  then show ?thesis using assms utils_uintToText_fits [of "ucast v" "drop (length txt) (snd st)"]
      length_utils_uintToText [of "ucast v" "drop (length txt) (snd st)"]
    unfolding put_version_def
    by (intro put_at_adds [where rest = "snd (utils_uintToText (ucast v) (drop (length txt) (snd st)))"])
      (auto simp: filled_def split: prod.splits)
qed

lemma put_char_adds:
  assumes "filled n txt st" "length txt < n"
  shows "adds n txt [c] (put_char c st)"
  using assms by (auto simp: adds_def filled_def put_char_def take_Suc_conv_app_nth)

lemma objectTemplate_fits:
  assumes "length (link_start i) < length buffer"
  shows "\<exists>rest. prv_getObjectTemplate buffer i = (Some (length (link_start i)), link_start i @ rest)
    \<and> length rest = length buffer - length (link_start i)"
proof -
  have len: "length (dec_text (unat i)) + 4 \<le> length buffer" using assms by (simp add: link_start_def)
  moreover have "0 < length (dec_text (unat i))" by simp
  ultimately have "5 \<le> length buffer" by linarith
  have room: "length (dec_text (unat i)) \<le> length (drop 2 buffer)" using len by simp
  from intToText_id_fits [OF room] obtain rest
    where r: "utils_intToText (ucast i) (drop 2 buffer) = (length (dec_text (unat i)), dec_text (unat i) @ rest)"
      "length rest = length (drop 2 buffer) - length (dec_text (unat i))" by blast
  then obtain x xs where "rest = x # xs" using len by (cases rest) auto
  with r len \<open>5 \<le> length buffer\<close> show ?thesis
    by (auto simp: prv_getObjectTemplate_def link_start_def Let_def list_update_append)
qed

lemma put_template_adds:
  assumes "filled n txt st" "length (txt @ link_start i) < n"
  shows "adds n txt (link_start i) (put_template i st)"
proof -
  have "length (link_start i) < length (drop (length txt) (snd st))" using assms by (auto simp: filled_def)
  from objectTemplate_fits [OF this] obtain rest
    where "prv_getObjectTemplate (drop (length txt) (snd st)) i = (Some (length (link_start i)), link_start i @ rest)"
      "length rest = length (drop (length txt) (snd st)) - length (link_start i)" by blast
  then show ?thesis using assms unfolding put_template_def
    by (intro put_at_adds [where rest = "link_start i @ rest"]) (auto simp: filled_def)
qed

lemma adds_bind:
  assumes "adds n txt s r" "\<And>st. filled n (txt @ s) st \<Longrightarrow> adds n (txt @ s) s' (g st)"
  shows "adds n txt (s @ s') (Option.bind r g)"
  using assms by (auto simp: adds_def)

lemma adds_nil: "filled n txt st \<Longrightarrow> adds n txt [] (Some st)"
  by (simp add: adds_def)

lemma put_again_adds:
  assumes "filled n (pre @ s @ mid) st" "mid \<noteq> []" "length (pre @ s @ mid @ s) < n"
  shows "adds n (pre @ s @ mid) s (put_again (length pre) (length s) st)"
proof -
  have "take (length s) (drop (length pre) (take (length (pre @ s @ mid)) (snd st))) = s"
    using assms(1) by (simp add: filled_def)
  then have "take (length s) (drop (length pre) (snd st)) = s"
    by (simp add: drop_take min_def)
  with assms show ?thesis by (auto simp: adds_def filled_def put_again_def)
qed

lemma instances_adds:
  assumes "filled n (pre @ link_start i @ mid) st"
    "t = (if mid = [] then drop (length (link_start i)) (instance_links i is) else instance_links i is)"
    "length (pre @ link_start i @ mid @ t) < n"
  shows "adds n (pre @ link_start i @ mid) t
    (registerPayload_instances is (length pre) (length (link_start i)) st)"
  using assms
proof (induction "is" arbitrary: mid st t)
  case Nil
  then show ?case using adds_nil [of n "pre @ link_start i @ mid" st]
    by (cases "mid = []") (simp_all add: instance_links_def)
next
  case (Cons j js)
  define again where "again = (if mid = [] then [] else link_start i)"
  let ?j = "dec_text (unat j)" and ?L = "link_start i" and ?rest = "instance_links i js"
  have t: "t = again @ ?j @ REG_PATH_END @ ?rest"
    using Cons.prems(2) by (simp add: again_def instance_links_def)
  note room = Cons.prems(3) [unfolded t]
  have a: "adds n (pre @ ?L @ mid) again (put_again (length pre) (length ?L) st)"
  proof (cases "mid = []")
    case True
    then have "put_again (length pre) (length ?L) st = Some st"
      using Cons.prems(1) by (simp add: put_again_def filled_def)
    with True Cons.prems(1) show ?thesis by (simp add: again_def adds_nil)
  next
    case False
    with Cons.prems(1) room show ?thesis by (simp add: again_def put_again_adds)
  qed
  have b: "adds n (pre @ ?L @ mid @ again) ?j (put_id j st1)"
    if "filled n (pre @ ?L @ mid @ again) st1" for st1
    using put_id_adds [OF that, of j] room by simp
  have c: "adds n (pre @ ?L @ mid @ again @ ?j) REG_PATH_END (put_copy REG_PATH_END st1)"
    if "filled n (pre @ ?L @ mid @ again @ ?j) st1" for st1
    using put_copy_adds [OF that, of REG_PATH_END] room by simp
  have d: "adds n (pre @ ?L @ mid @ again @ ?j @ REG_PATH_END) ?rest
      (registerPayload_instances js (length pre) (length ?L) st1)"
    if "filled n (pre @ ?L @ mid @ again @ ?j @ REG_PATH_END) st1" for st1
    using Cons.IH [of "mid @ again @ ?j @ REG_PATH_END" st1 ?rest] that room by simp
  show ?case unfolding t registerPayload_instances.simps
    by (intro adds_bind) (use a b c d in simp_all)
qed

lemma filled_back:
  "filled n (t @ s) st \<Longrightarrow> s \<noteq> [] \<Longrightarrow> filled n (t @ butlast s) (fst st - 1, snd st)"
proof -
  assume f: "filled n (t @ s) st" and s: "s \<noteq> []"
  have "take (length (t @ butlast s)) (take (length (t @ s)) (snd st)) = t @ butlast s"
    using f s by (simp add: filled_def butlast_conv_take)
  then have "take (length (t @ butlast s)) (snd st) = t @ butlast s" by (simp add: min_def)
  with f s show ?thesis by (cases s) (auto simp: filled_def)
qed

lemma link_start_nonempty [simp]: "link_start i \<noteq> []"
  by (simp add: link_start_def)

lemma butlast_link_start: "butlast (link_start i) = [ch_lt, ch_slash] @ dec_text (unat i)"
  by (simp add: link_start_def butlast_append)

lemma version_link_adds:
  assumes "filled n (txt @ link_start (objID ob)) st" "length (txt @ version_link ob) < n"
  shows "adds n (txt @ butlast (link_start (objID ob)))
      (REG_VERSION_START @ dec_text (unat (versionMajor ob)) @ [ch_dot] @ dec_text (unat (versionMinor ob)) @ [ch_comma])
    (Option.bind (put_copy REG_VERSION_START (fst st - 1, snd st)) (\<lambda>st1.
     Option.bind (put_version (versionMajor ob) st1) (\<lambda>st2.
     Option.bind (put_char ch_dot st2) (\<lambda>st3.
     Option.bind (put_version (versionMinor ob) st3) (put_char ch_comma)))))"
proof -
  note f0 = filled_back [OF assms(1) link_start_nonempty]
  note room = assms(2) [unfolded version_link_def]
  show ?thesis
    by (intro adds_bind put_copy_adds [OF f0] put_version_adds put_char_adds) (use room in simp_all)
qed

lemma version_adds:
  assumes "filled n (txt @ link_start (objID ob)) st" "length (txt @ object_links ob) < n"
    "objID ob \<noteq> LWM2M_SECURITY_OBJECT_ID"
  shows "adds n txt (object_links ob)
    (Option.bind (registerPayload_version ob (length txt) (length (link_start (objID ob))) st)
      (\<lambda>(start, len, st2). registerPayload_instances (instanceList ob) start len st2))"
proof -
  let ?L = "link_start (objID ob)" and ?is = "instanceList ob"
  have split_links: "length (instance_links i (j # js)) =
      length (link_start i) + length (drop (length (link_start i)) (instance_links i (j # js)))" for i j js
    by (simp add: instance_links_def)
  have links: "?L @ drop (length ?L) (instance_links (objID ob) ?is) = instance_links (objID ob) ?is"
    if "?is \<noteq> []" using that by (cases ?is) (simp_all add: instance_links_def)
  have inst: "adds n (pre @ ?L) (drop (length ?L) (instance_links (objID ob) ?is))
      (registerPayload_instances ?is (length pre) (length ?L) st')"
    if "filled n (pre @ ?L) st'" "length (pre @ instance_links (objID ob) ?is) < n" "?is \<noteq> []" for pre st'
    using instances_adds [of n pre "objID ob" "[]" st' _ ?is] that links [OF that(3)]
    by (metis append_Nil2 append.assoc append_Nil)
  consider (version) "versionMajor ob \<noteq> 0 \<or> versionMinor ob \<noteq> 0"
    | (bare) "versionMajor ob = 0" "versionMinor ob = 0" "?is = []"
    | (plain) "versionMajor ob = 0" "versionMinor ob = 0" "?is \<noteq> []" by blast
  then show ?thesis
  proof cases
    case version
    then have ol: "object_links ob = version_link ob @ instance_links (objID ob) ?is"
      using assms(3) by (simp add: object_links_def)
    from version_link_adds [OF assms(1)] assms(2) ol obtain st5 where st5:
      "Option.bind (put_copy REG_VERSION_START (fst st - 1, snd st)) (\<lambda>st1.
       Option.bind (put_version (versionMajor ob) st1) (\<lambda>st2.
       Option.bind (put_char ch_dot st2) (\<lambda>st3.
       Option.bind (put_version (versionMinor ob) st3) (put_char ch_comma)))) = Some st5"
      "filled n (txt @ version_link ob) st5"
      by (auto simp: adds_def version_link_def)
    then have v: "registerPayload_version ob (length txt) (length ?L) st =
        (if ?is \<noteq> [] then Option.bind (put_template (objID ob) st5) (\<lambda>st6. Some (fst st5, fst st6 - fst st5, st6))
         else Some (length txt, length ?L, st5))"
      using version by (cases st5) (auto simp: registerPayload_version_def Option.bind_eq_Some_conv split: if_splits)
    show ?thesis
    proof (cases "?is = []")
      case True
      with v ol st5(2) show ?thesis by (simp add: adds_def instance_links_def)
    next
      case False
      then have "length ?L \<le> length (instance_links (objID ob) ?is)" using links by (metis le_add1 length_append)
      moreover have "length ?L < length (instance_links (objID ob) ?is)"
        using False by (cases ?is) (auto simp: instance_links_def)
      ultimately have "length ((txt @ version_link ob) @ ?L) < n" using assms(2) ol by simp
      from put_template_adds [OF st5(2) this] obtain st6
        where st6: "put_template (objID ob) st5 = Some st6" "filled n ((txt @ version_link ob) @ ?L) st6"
        by (auto simp: adds_def)
      have "fst st5 = length (txt @ version_link ob)" "fst st6 - fst st5 = length ?L"
        using st5(2) st6(2) by (auto simp: filled_def)
      with v st6(1) False inst [OF st6(2)] assms(2) ol links [OF False] show ?thesis
        by (auto simp: adds_def)
    qed
  next
    case bare
    then have ol: "object_links ob = butlast ?L @ REG_PATH_END" using assms(3) by (simp add: object_links_def)
    have "adds n (txt @ butlast ?L) REG_PATH_END (put_copy REG_PATH_END (fst st - 1, snd st))"
      using filled_back [OF assms(1)] assms(2) ol by (intro put_copy_adds) auto
    with bare ol show ?thesis by (auto simp: registerPayload_version_def adds_def)
  next
    case plain
    then have ol: "object_links ob = instance_links (objID ob) ?is" using assms(3) by (simp add: object_links_def)
    with plain inst [OF assms(1)] assms(2) links [OF plain(3)] show ?thesis
      by (auto simp: registerPayload_version_def adds_def)
  qed
qed

lemma objects_adds:
  assumes "filled n txt st" "length (txt @ concat (map object_links objs)) < n"
  shows "adds n txt (concat (map object_links objs)) (registerPayload_objects objs st)"
  using assms
proof (induction objs arbitrary: "txt" st)
  case Nil
  then show ?case by (simp add: adds_nil)
next
  case (Cons ob obs)
  let ?L = "link_start (objID ob)"
  show ?case
  proof (cases "objID ob = LWM2M_SECURITY_OBJECT_ID")
    case True
    with Cons show ?thesis by (simp add: object_links_def)
  next
    case False
    have "length (txt @ ?L) < n"
    proof -
      have "length ?L \<le> length (object_links ob)"
        using False by (cases "instanceList ob")
          (auto simp: object_links_def version_link_def instance_links_def REG_PATH_END_def REG_VERSION_START_def)
      then show ?thesis using Cons.prems(2) by simp
    qed
    from put_template_adds [OF Cons.prems(1) this] obtain st1
      where st1: "put_template (objID ob) st = Some st1" "filled n (txt @ ?L) st1" by (auto simp: adds_def)
    then have st1': "fst st1 - fst st = length ?L" "fst st = length txt"
      using Cons.prems(1) by (auto simp: filled_def)
    have ob: "adds n txt (object_links ob)
      (Option.bind (registerPayload_version ob (fst st) (fst st1 - fst st) st1)
        (\<lambda>(start, len, st2). registerPayload_instances (instanceList ob) start len st2))"
      using version_adds [OF st1(2) _ False] Cons.prems(2) st1' by simp
    have "adds n txt (object_links ob @ concat (map object_links obs))
      (Option.bind (Option.bind (registerPayload_version ob (fst st) (fst st1 - fst st) st1)
        (\<lambda>(start, len, st2). registerPayload_instances (instanceList ob) start len st2))
        (registerPayload_objects obs))"
      by (intro adds_bind ob Cons.IH) (use Cons.prems(2) in auto)
    then show ?thesis using False st1(1) by (simp add: split_def)
  qed
qed

lemma object_getRegisterPayload_text:
  assumes "length (reg_text b altPath objs) < length buffer"
  shows "\<exists>buf. object_getRegisterPayload b altPath objs buffer = Some (length (reg_text b altPath objs) - 1, buf)
    \<and> take (length (reg_text b altPath objs) - 1) buf = butlast (reg_text b altPath objs)
    \<and> cstr_at buf (length (reg_text b altPath objs) - 1) = 0 \<and> length buf = length buffer"
proof -
  let ?n = "length buffer" and ?t = "reg_text b altPath objs"
  have "filled ?n [] (0, buffer)" by (simp add: filled_def)
  then have "adds ?n [] ?t (Option.bind (put_copy REG_START (0, buffer)) (\<lambda>st1.
     Option.bind (put_copy (reg_path altPath) st1) (\<lambda>st2.
     Option.bind (put_copy (REG_LWM2M_RESOURCE_TYPE b) st2) (registerPayload_objects objs))))"
    unfolding reg_text_def
    by (intro adds_bind put_copy_adds objects_adds) (use assms in \<open>auto simp: reg_text_def\<close>)
  then obtain st where st: "Option.bind (put_copy REG_START (0, buffer)) (\<lambda>st1.
     Option.bind (put_copy (reg_path altPath) st1) (\<lambda>st2.
     Option.bind (put_copy (REG_LWM2M_RESOURCE_TYPE b) st2) (registerPayload_objects objs))) = Some st"
    "filled ?n ?t st" by (auto simp: adds_def)
  have ne: "?t \<noteq> []" by (simp add: reg_text_def REG_START_def ascii_def)
  let ?i = "length ?t - 1"
  have "object_getRegisterPayload b altPath objs buffer = Some (?i, (snd st)[?i := 0])"
    using st ne by (cases st) (fastforce simp: object_getRegisterPayload_def Option.bind_eq_Some_conv filled_def Let_def)
  moreover have "take ?i (snd st) = butlast ?t"
    using filled_back [of ?n "[]" ?t st] st(2) ne by (simp add: filled_def)
  moreover have "?i < length (snd st)" using st(2) ne assms by (simp add: filled_def)
  ultimately show ?thesis using st(2) by (auto simp: cstr_at_def filled_def)
qed

section \<open>The size of the buffer\<close>

lemma length_dec_text_u16: "length (dec_text (unat (i :: u16))) \<le> 5"
  using unat_u16_less [of i] by (simp add: length_dec_text_le del: unat_u16_less)

lemma length_dec_text_u8: "length (dec_text (unat (v :: u8))) \<le> 5"
  using unat_u8_less [of v] by (simp add: length_dec_text_le del: unat_u8_less)

lemma text_lengths:
  assumes "length buffer = 10"
  shows "fst (utils_intToText (ucast (i :: u16)) buffer) = length (dec_text (unat i))"
    "fst (utils_uintToText (ucast (v :: u8)) buffer) = length (dec_text (unat v))"
    "fst (prv_getObjectTemplate buffer i) = Some (length (link_start i))"
proof -
  note b = length_dec_text_u16 [of i] length_dec_text_u8 [of v]
  show "fst (utils_intToText (ucast i) buffer) = length (dec_text (unat i))"
    using intToText_id_fits [of i buffer] b assms by fastforce
  show "fst (utils_uintToText (ucast v) buffer) = length (dec_text (unat v))"
    using utils_uintToText_fits [of "ucast v" buffer] b assms by simp
  have "length (link_start i) < length buffer" using b assms by (simp add: link_start_def)
  from objectTemplate_fits [OF this] show "fst (prv_getObjectTemplate buffer i) = Some (length (link_start i))"
    by auto
qed

lemma payloadLength_instances_text:
  assumes "length buffer = 10" "len = length (link_start i)"
    "t = (if index = start + len then drop len (instance_links i insts) else instance_links i insts)"
    "start + len \<le> index"
  shows "payloadLength_instances buffer insts start len index = Some (index + length t)"
  using assms(3,4)
proof (induction insts arbitrary: index t)
  case Nil
  then show ?case by (simp add: instance_links_def)
next
  case (Cons j js)
  have "0 < length (dec_text (unat j))" by simp
  then show ?case using Cons.prems Cons.IH [OF refl] text_lengths [OF assms(1)] assms(2)
    by (auto simp: Let_def instance_links_def REG_PATH_END_def)
qed

lemma payloadLength_objects_text:
  assumes "length buffer = 10" "LWM2M_OSCORE_OBJECT_ID \<notin> objID ` set objs"
  shows "payloadLength_objects buffer objs index = Some (index + length (concat (map object_links objs)))"
  using assms(2)
proof (induction objs arbitrary: index)
  case (Cons ob obs)
  let ?L = "length (link_start (objID ob))" and ?is = "instanceList ob"
  have inst: "payloadLength_instances buffer ?is start ?L k
      = Some (start + length (instance_links (objID ob) ?is))" if "?is \<noteq> []" "k = start + ?L" for start k
    using payloadLength_instances_text [OF assms(1) refl refl, where index = "start + ?L" and start = start and i = "objID ob" and insts = ?is] that(1) unfolding that(2)
    by (cases ?is) (simp_all add: instance_links_def)
  obtain m where m: "?L = Suc m" by (metis length_greater_0_conv link_start_nonempty not0_implies_Suc not_gr0)
  moreover have "objID ob \<noteq> 21" using Cons.prems by auto
  moreover have IH: "payloadLength_objects buffer obs k = Some (k + length (concat (map object_links obs)))" for k
    using Cons.IH Cons.prems by simp
  moreover have "instance_links (objID ob) [] = []" by (simp add: instance_links_def)
  ultimately show ?case using text_lengths [OF assms(1)]
    by (auto simp: inst [unfolded m] object_links_def [of ob] version_link_def Let_def REG_VERSION_START_def REG_PATH_END_def)
qed simp

lemma bufferLength_text:
  assumes "length local = 10" "LWM2M_OSCORE_OBJECT_ID \<notin> objID ` set objs"
  shows "object_getRegisterPayloadBufferLength b local altPath objs = length (reg_text b altPath objs) + 1"
  using payloadLength_objects_text [OF assms]
  by (simp add: object_getRegisterPayloadBufferLength_def reg_text_def)

text \<open>C21: A buffer of the size that \<open>object_getRegisterPayloadBufferLength\<close> computes receives the whole
  payload, for any objects, instances, versions and alternative path, when no OSCORE object is
  registered: the links of the objects in order, of which the last comma becomes the terminating
  NUL.  The size is two more than the length, as the comment in the code says.\<close>

theorem object_getRegisterPayload_fits:
  assumes "length local = 10" "LWM2M_OSCORE_OBJECT_ID \<notin> objID ` set objs"
    "length buffer = object_getRegisterPayloadBufferLength b local altPath objs"
  shows "\<exists>buf. object_getRegisterPayload b altPath objs buffer = Some (length buffer - 2, buf)
    \<and> take (length buffer - 2) buf = butlast (reg_text b altPath objs)
    \<and> cstr_at buf (length buffer - 2) = 0 \<and> length buf = length buffer"
  using object_getRegisterPayload_text [of b altPath objs buffer] bufferLength_text [OF assms(1,2)] assms(3)
  by simp

definition plain_object :: "u16 \<Rightarrow> u16 list \<Rightarrow> unit lwm2m_object_t" where
  "plain_object i insts = \<lparr>objID = i, versionMajor = 0, versionMinor = 0, instanceList = insts, objData = (),
     readFunc = None, writeFunc = None, executeFunc = None, createFunc = None, rawBlock1CreateFunc = None,
     rawBlock1WriteFunc = None, rawBlock1ExecuteFunc = None, deleteFunc = None, discoverFunc = None\<rparr>"

lemma example_text: "reg_text server_build None [plain_object 0 [0], plain_object 1 [7]]
   = ascii ''</>;rt='' @ [0x22] @ ascii ''oma.lwm2m'' @ [0x22] @ ascii '';ct=112,</1/7>,''"
  by (simp add: reg_text_def object_links_def plain_object_def instance_links_def link_start_def dec_text_less_ten
      digit_char_def REG_START_def reg_path_def REG_DEFAULT_PATH_def REG_LWM2M_RESOURCE_TYPE_def server_build_def
      REG_PATH_END_def ascii_def)

theorem object_getRegisterPayload_fits_witness:
  "\<exists>buf. object_getRegisterPayload server_build None [plain_object 0 [0], plain_object 1 [7]] (replicate 34 0) = Some (32, buf)
    \<and> take 32 buf = butlast (ascii ''</>;rt='' @ [0x22] @ ascii ''oma.lwm2m'' @ [0x22] @ ascii '';ct=112,</1/7>,'')"
proof -
  let ?objs = "[plain_object 0 [0], plain_object 1 [7]]"
  have o: "LWM2M_OSCORE_OBJECT_ID \<notin> objID ` set ?objs" by (simp add: plain_object_def)
  have "object_getRegisterPayloadBufferLength server_build (replicate 10 0) None ?objs = 34"
    using bufferLength_text [OF _ o, of "replicate 10 0" server_build None] by (simp add: example_text)
  then show ?thesis
    using object_getRegisterPayload_fits [OF _ o, of "replicate 10 0" "replicate 34 0" server_build None]
    by (simp add: example_text) blast
qed

section \<open>The OSCORE object\<close>

lemma payloadLength_skips_oscore:
  "objID ob = LWM2M_OSCORE_OBJECT_ID \<Longrightarrow>
     payloadLength_objects buffer (objs @ [ob]) index = payloadLength_objects buffer objs index"
  by (induction objs arbitrary: index) (auto simp: Let_def split: option.splits)

lemma registerPayload_append:
  "registerPayload_objects (xs @ ys) st = Option.bind (registerPayload_objects xs st) (registerPayload_objects ys)"
proof (induction xs arbitrary: st)
  case (Cons x xs)
  have "registerPayload_objects (xs @ ys)
      = (\<lambda>st. Option.bind (registerPayload_objects xs st) (registerPayload_objects ys))"
    by (rule ext) (rule Cons.IH)
  then show ?case by (simp add: split_def)
qed simp

text \<open>C22: The size computation leaves out the OSCORE object, the payload does not: a client whose last
  object is OSCORE, with any instances and version, gets an empty payload (the result 0) from a
  buffer of the computed size, and its registration fails.\<close>

theorem object_getRegisterPayload_oscore:
  assumes "length local = 10" "LWM2M_OSCORE_OBJECT_ID \<notin> objID ` set objs" "objID ob = LWM2M_OSCORE_OBJECT_ID"
    "length buffer = object_getRegisterPayloadBufferLength b local altPath (objs @ [ob])"
  shows "object_getRegisterPayload b altPath (objs @ [ob]) buffer = None"
proof -
  let ?n = "length buffer" and ?t = "reg_text b altPath objs"
  have n: "?n = length ?t + 1"
    using assms(4) bufferLength_text [OF assms(1,2), of b altPath]
    by (simp add: object_getRegisterPayloadBufferLength_def payloadLength_skips_oscore [OF assms(3)])
  have "filled ?n [] (0, buffer)" by (simp add: filled_def)
  then have "adds ?n [] ?t (Option.bind (put_copy REG_START (0, buffer)) (\<lambda>st1.
     Option.bind (put_copy (reg_path altPath) st1) (\<lambda>st2.
     Option.bind (put_copy (REG_LWM2M_RESOURCE_TYPE b) st2) (registerPayload_objects objs))))"
    unfolding reg_text_def
    by (intro adds_bind put_copy_adds objects_adds) (use n in \<open>auto simp: reg_text_def\<close>)
  then obtain st1 st2 st3 st where st: "put_copy REG_START (0, buffer) = Some st1" "put_copy (reg_path altPath) st1 = Some st2"
     "put_copy (REG_LWM2M_RESOURCE_TYPE b) st2 = Some st3" "registerPayload_objects objs st3 = Some st"
    "filled ?n ?t st" by (auto simp: adds_def Option.bind_eq_Some_conv)
  have "length (drop (fst st) (snd st)) < 5" using st(5) n by (simp add: filled_def)
  then have "put_template (objID ob) st = None"
    by (simp add: put_template_def put_at_def prv_getObjectTemplate_def)
  then show ?thesis using st assms(3)
    by (simp add: object_getRegisterPayload_def registerPayload_append)
qed

theorem object_getRegisterPayload_oscore_witness:
  "object_getRegisterPayload server_build None [plain_object 1 [0], plain_object 21 [0]]
     (replicate (object_getRegisterPayloadBufferLength server_build (replicate 10 0) None
        [plain_object 1 [0], plain_object 21 [0]]) 0) = None"
  using object_getRegisterPayload_oscore [of "replicate 10 0" "[plain_object 1 [0]]" "plain_object 21 [0]"
      "replicate (object_getRegisterPayloadBufferLength server_build (replicate 10 0) None
        [plain_object 1 [0], plain_object 21 [0]]) 0" server_build None]
  by (simp add: plain_object_def)

end
