(* ===== verification/Servers.thy ===== *)
theory Servers
  imports Objects
begin

text \<open>
  The remaining operations of \<open>core/objects.c\<close>: \<open>object_getServers\<close>, which makes a server of every
  instance of the Security object, and \<open>object_readCompositeData\<close>, which collects what several URIs
  read into one tree.
\<close>

section \<open>The servers of the Security object\<close>

text \<open>\<open>prv_findServerInstance\<close>, over the instances from one on; \<open>k\<close> counts the allocations.\<close>

fun prv_findServerInstance ::
    "(nat \<Rightarrow> bool) \<Rightarrow> nat \<Rightarrow> 's objects \<Rightarrow> u16 \<Rightarrow> u16 list \<Rightarrow> u16 \<Rightarrow> (u16 option \<times> 's objects) outcome" where
  "prv_findServerInstance mem k objs objectP [] short = Ret (None, objs)"
| "prv_findServerInstance mem k objs objectP (i # is) short =
     (if \<not> mem k then Ret (None, objs)
      else oc_bind (read_first objs objectP i 0) (\<lambda>(r, v, objs').
        if r \<noteq> COAP_205_CONTENT then Ret (None, objs')
        else if (case lwm2m_data_decode_int v of None \<Rightarrow> False | Some value \<Rightarrow> sint value = int (unat short))
        then Ret (Some i, objs')
        else prv_findServerInstance mem (Suc k) objs' objectP is short))"

definition empty_server :: "u16 \<Rightarrow> 'p lwm2m_server_t" where
  "empty_server i = \<lparr>secObjInstID = i, shortID = 0, s_lifetime = 0, s_registration = 0, s_binding = 0,
     s_sessionH = None, s_status = STATE_DEREGISTERED, s_location = None, s_dirty = False, s_blockData = [],
     servObjInstID = 0, s_attempt = 0, s_sequence = 0\<rparr>"

text \<open>A resource of the Security object as an integer within bounds.\<close>

definition read_bounded ::
    "bool \<Rightarrow> 's objects \<Rightarrow> u16 \<Rightarrow> u16 \<Rightarrow> int \<Rightarrow> int \<Rightarrow> (int option \<times> 's objects) outcome" where
  "read_bounded mem objs inst res low high =
     (if \<not> mem then Ret (None, objs)
      else oc_bind (read_first objs LWM2M_SECURITY_OBJECT_ID inst res) (\<lambda>(r, v, objs').
        Ret (if r \<noteq> COAP_205_CONTENT then None
             else case lwm2m_data_decode_int v of
               None \<Rightarrow> None
             | Some value \<Rightarrow> if sint value < low \<or> sint value > high then None else Some (sint value), objs')))"

text \<open>The servers known and the objects.\<close>

record ('p, 's) registry =
  bootstrapServerList :: "'p lwm2m_server_t list"
  serverList :: "'p lwm2m_server_t list"
  objectList :: "'s objects"

definition add_server :: "bool \<Rightarrow> bool \<Rightarrow> 'p lwm2m_server_t \<Rightarrow> ('p, 's) registry \<Rightarrow> ('p, 's) registry" where
  "add_server checkOnly bootstrap s g =
     (if checkOnly then g
      else if bootstrap then g\<lparr>bootstrapServerList := lwm2m_list_add secObjInstID (bootstrapServerList g) s\<rparr>
      else g\<lparr>serverList := lwm2m_list_add secObjInstID (serverList g) s\<rparr>)"

text \<open>The body of the loop for an instance that is in neither list: 0 to go on, -1 to return.  The
  allocations are those of the data, from \<open>k\<close> on, and of the server.\<close>

definition getServers_bootstrap ::
    "(nat \<Rightarrow> bool) \<Rightarrow> bool \<Rightarrow> ('p, 's) registry \<Rightarrow> u16 \<Rightarrow> (int \<times> ('p, 's) registry) outcome" where
  "getServers_bootstrap mem checkOnly g i =
     oc_bind (read_bounded (mem 2) (objectList g) i 11 0 0xFFFFFFFF) (\<lambda>(value, objs).
       let g' = g\<lparr>objectList := objs\<rparr> in
       case value of None \<Rightarrow> Ret (-1, g')
       | Some v \<Rightarrow>
           Ret (0, add_server checkOnly True
             ((empty_server i)\<lparr>servObjInstID := LWM2M_MAX_ID, s_lifetime := v\<rparr>) g'))"

definition getServers_regular ::
    "(nat \<Rightarrow> bool) \<Rightarrow> bool \<Rightarrow> bool \<Rightarrow> ('p, 's) registry \<Rightarrow> u16 \<Rightarrow> (int \<times> ('p, 's) registry) outcome" where
  "getServers_regular mem hasServerObj checkOnly g i =
     oc_bind (read_bounded (mem 2) (objectList g) i 10 1 0xFFFF) (\<lambda>(value, objs).
       let g' = g\<lparr>objectList := objs\<rparr> in
       case value of None \<Rightarrow> Ret (-1, g')
       | Some v \<Rightarrow>
           if \<not> hasServerObj then UB
           else
             (let short = word_of_int v;
                  insts = (case find (\<lambda>x. objID x = LWM2M_SERVER_OBJECT_ID) objs of
                    None \<Rightarrow> [] | Some ob \<Rightarrow> instanceList ob) in
              oc_bind (prv_findServerInstance mem 4 objs LWM2M_SERVER_OBJECT_ID insts short) (\<lambda>(inst, objs2).
                let g2 = g\<lparr>objectList := objs2\<rparr> in
                case inst of None \<Rightarrow> Ret (0, g2)
                | Some serverInstP \<Rightarrow>
                    oc_bind (prv_getMandatoryInfo (mem 3) objs2 LWM2M_SERVER_OBJECT_ID serverInstP
                        ((empty_server i)\<lparr>shortID := short, servObjInstID := serverInstP\<rparr>)) (\<lambda>(r, s, objs3).
                      let g3 = g\<lparr>objectList := objs3\<rparr> in
                      Ret (if r \<noteq> 0 then (-1, g3)
                           else (0, add_server checkOnly False (s\<lparr>s_status := STATE_DEREGISTERED\<rparr>) g3))))))"

definition getServers_instance ::
    "(nat \<Rightarrow> bool) \<Rightarrow> bool \<Rightarrow> bool \<Rightarrow> ('p, 's) registry \<Rightarrow> u16 \<Rightarrow> (int \<times> ('p, 's) registry) outcome" where
  "getServers_instance mem hasServerObj checkOnly g i =
     (if \<not> mem 0 then Ret (-1, g)
      else oc_bind (read_first (objectList g) LWM2M_SECURITY_OBJECT_ID i 1) (\<lambda>(r, v, objs).
        let g1 = g\<lparr>objectList := objs\<rparr> in
        if r \<noteq> COAP_205_CONTENT then Ret (-1, g1)
        else if \<not> mem 1 then Ret (-1, g1)
        else case lwm2m_data_decode_bool v of
          None \<Rightarrow> Ret (-1, g1)
        | Some isBootstrap \<Rightarrow>
            if isBootstrap then getServers_bootstrap mem checkOnly g1 i
            else getServers_regular mem hasServerObj checkOnly g1 i))"

text \<open>The loop over the instances of the Security object; \<open>mem i\<close> is the oracle for the instance \<open>i\<close>.\<close>

fun getServers_loop ::
    "(u16 \<Rightarrow> nat \<Rightarrow> bool) \<Rightarrow> bool \<Rightarrow> bool \<Rightarrow> ('p, 's) registry \<Rightarrow> u16 list \<Rightarrow> (int \<times> ('p, 's) registry) outcome" where
  "getServers_loop mem hasServerObj checkOnly g [] = Ret (0, g)"
| "getServers_loop mem hasServerObj checkOnly g (i # is) =
     (if lwm2m_list_find secObjInstID (bootstrapServerList g) i = None
         \<and> lwm2m_list_find secObjInstID (serverList g) i = None then
        oc_bind (getServers_instance (mem i) hasServerObj checkOnly g i) (\<lambda>(r, g').
          if r \<noteq> 0 then Ret (r, g') else getServers_loop mem hasServerObj checkOnly g' is)
      else getServers_loop mem hasServerObj checkOnly g is)"

definition object_getServers ::
    "(u16 \<Rightarrow> nat \<Rightarrow> bool) \<Rightarrow> bool \<Rightarrow> ('p, 's) registry \<Rightarrow> (int \<times> ('p, 's) registry) outcome" where
  "object_getServers mem checkOnly g =
     (case find (\<lambda>x. objID x = LWM2M_SECURITY_OBJECT_ID) (objectList g) of
        None \<Rightarrow> Ret (-1, g)
      | Some securityObjP \<Rightarrow>
          getServers_loop mem (list_ex (\<lambda>x. objID x = LWM2M_SERVER_OBJECT_ID) (objectList g)) checkOnly g
            (instanceList securityObjP))"

section \<open>Composite reads\<close>

text \<open>The children that the union of a node holds are replaced; its type is not.\<close>

definition set_children :: "lwm2m_data_t \<Rightarrow> lwm2m_data_t list \<Rightarrow> lwm2m_data_t outcome" where
  "set_children d cs = (case data_value d of
      V_OBJECT _ \<Rightarrow> Ret (Data (data_id d) (V_OBJECT cs))
    | V_OBJECT_INSTANCE _ \<Rightarrow> Ret (Data (data_id d) (V_OBJECT_INSTANCE cs))
    | V_MULTIPLE_RESOURCE _ \<Rightarrow> Ret (Data (data_id d) (V_MULTIPLE_RESOURCE cs))
    | _ \<Rightarrow> UB)"

text \<open>The index of the first node with an id, or the number of nodes.\<close>

fun find_id :: "u16 \<Rightarrow> lwm2m_data_t list \<Rightarrow> nat" where
  "find_id i [] = 0"
| "find_id i (d # ds) = (if i = data_id d then 0 else Suc (find_id i ds))"

text \<open>A level of the search, on the nodes of the level: the node with the id is changed by \<open>hit\<close>, or
  \<open>new\<close> changes the node that is appended.  The first component says that every append succeeded.\<close>

definition composite_level ::
    "bool \<Rightarrow> lwm2m_data_t list \<Rightarrow> u16 \<Rightarrow> (lwm2m_data_t \<Rightarrow> (bool \<times> lwm2m_data_t) outcome)
      \<Rightarrow> lwm2m_value \<Rightarrow> (lwm2m_data_t \<Rightarrow> (bool \<times> lwm2m_data_t) outcome) \<Rightarrow> (bool \<times> lwm2m_data_t list) outcome" where
  "composite_level mem ds i hit zeroed new =
     (let j = find_id i ds in
      if j < length ds then oc_bind (hit (ds ! j)) (\<lambda>(ok, d). Ret (ok, ds[j := d]))
      else oc_bind (lwm2m_data_append_one (\<lambda>_. if mem then Some (\<lambda>_. 0) else None) 0 ds zeroed i) (\<lambda>(ok, ds').
        if ok = 0 then Ret (False, ds')
        else oc_bind (new (last ds')) (\<lambda>(ok', d). Ret (ok', butlast ds' @ [d]))))"

definition in_children ::
    "lwm2m_data_t \<Rightarrow> (lwm2m_data_t list \<Rightarrow> (bool \<times> lwm2m_data_t list) outcome) \<Rightarrow> (bool \<times> lwm2m_data_t) outcome" where
  "in_children d f =
     oc_bind (children_of (data_value d)) (\<lambda>cs.
     oc_bind (f cs) (\<lambda>(ok, cs').
     oc_bind (set_children d cs') (\<lambda>d'. Ret (ok, d'))))"

definition replace_children :: "lwm2m_data_t list \<Rightarrow> lwm2m_data_t \<Rightarrow> (bool \<times> lwm2m_data_t) outcome" where
  "replace_children cs d = oc_bind (set_children d cs) (\<lambda>d'. Ret (True, d'))"

text \<open>The first child of the resource that was read.\<close>

definition first_child :: "lwm2m_data_t \<Rightarrow> lwm2m_data_t outcome" where
  "first_child d = oc_bind (children_of (data_value d)) (\<lambda>cs. case cs of [] \<Rightarrow> UB | c # _ \<Rightarrow> Ret c)"

definition composite_resourceInstance ::
    "(nat \<Rightarrow> bool) \<Rightarrow> lwm2m_uri_t \<Rightarrow> lwm2m_data_t list \<Rightarrow> lwm2m_data_t list \<Rightarrow> (bool \<times> lwm2m_data_t list) outcome" where
  "composite_resourceInstance mem u partial ris =
     (let put = (\<lambda>_. oc_bind (first_child (hd partial)) (\<lambda>c. Ret (True, c))) in
      composite_level (mem 5) ris (resourceInstanceId u) put V_UNDEFINED put)"

definition composite_resource ::
    "(nat \<Rightarrow> bool) \<Rightarrow> lwm2m_uri_t \<Rightarrow> lwm2m_data_t list \<Rightarrow> lwm2m_data_t list \<Rightarrow> (bool \<times> lwm2m_data_t list) outcome" where
  "composite_resource mem u partial rs =
     composite_level (mem 4) rs (resourceId u)
       (\<lambda>d. if is_set_resource_instance u then in_children d (composite_resourceInstance mem u partial)
            else if data_type (data_value d) = LWM2M_TYPE_MULTIPLE_RESOURCE then replace_children partial d
            else Ret (True, hd partial))
       V_UNDEFINED (\<lambda>_. Ret (True, hd partial))"

definition composite_instance ::
    "(nat \<Rightarrow> bool) \<Rightarrow> lwm2m_uri_t \<Rightarrow> lwm2m_data_t list \<Rightarrow> lwm2m_data_t list \<Rightarrow> (bool \<times> lwm2m_data_t list) outcome" where
  "composite_instance mem u partial is =
     (let here = (if is_set_resource u then (\<lambda>d. in_children d (composite_resource mem u partial))
                  else replace_children partial) in
      composite_level (mem 3) is (instanceId u) here (V_OBJECT_INSTANCE []) here)"

definition composite_object ::
    "(nat \<Rightarrow> bool) \<Rightarrow> lwm2m_uri_t \<Rightarrow> lwm2m_data_t list \<Rightarrow> lwm2m_data_t list \<Rightarrow> (bool \<times> lwm2m_data_t list) outcome" where
  "composite_object mem u partial os =
     (let here = (if is_set_instance u then (\<lambda>d. in_children d (composite_instance mem u partial))
                  else replace_children partial) in
      composite_level (mem 2) os (objectId u) here (V_OBJECT []) here)"

text \<open>The reads of one URI into the tree, with the first error so far; \<open>env\<close> has the allocations of
  the iteration: 0 and 1 for the read, 2 to 5 for the nodes appended.\<close>

definition composite_step ::
    "data_env \<Rightarrow> 's objects \<Rightarrow> lwm2m_uri_t \<Rightarrow> u8 \<Rightarrow> lwm2m_data_t list \<Rightarrow> (u8 \<times> lwm2m_data_t list \<times> 's objects) outcome" where
  "composite_step env objs u result dataP =
     (let (res, partial, objs') =
            (if objectId u = LWM2M_SECURITY_OBJECT_ID \<or> objectId u = LWM2M_OSCORE_OBJECT_ID
             then (COAP_401_UNAUTHORIZED, [], objs) else object_readData env objs u);
          failed = (if result = COAP_205_CONTENT then COAP_400_BAD_REQUEST else result) in
      if res = COAP_205_CONTENT \<and> partial \<noteq> [] then
        (if is_set_object u then
           oc_bind (composite_object (dataMem env) u partial dataP) (\<lambda>(ok, dataP').
             Ret (if ok then result else failed, dataP', objs'))
         else
           oc_bind (lwm2m_data_append (\<lambda>_. if dataMem env 2 then Some (\<lambda>_. 0) else None) 0 dataP partial) (\<lambda>(ok, dataP').
             Ret (if ok = 0 then failed else result, dataP', objs')))
      else Ret (if result = COAP_205_CONTENT \<and> res \<noteq> COAP_404_NOT_FOUND then res else result, dataP, objs'))"

fun composite_loop ::
    "data_env \<Rightarrow> 's objects \<Rightarrow> nat \<Rightarrow> lwm2m_uri_t list \<Rightarrow> u8 \<Rightarrow> lwm2m_data_t list
      \<Rightarrow> (u8 \<times> lwm2m_data_t list \<times> 's objects) outcome" where
  "composite_loop env objs i [] result dataP = Ret (result, dataP, objs)"
| "composite_loop env objs i (u # us) result dataP =
     oc_bind (composite_step (env\<lparr>dataMem := (\<lambda>j. dataMem env (6 * i + j))\<rparr>) objs u result dataP)
       (\<lambda>(result', dataP', objs'). composite_loop env objs' (Suc i) us result' dataP')"

definition object_readCompositeData ::
    "data_env \<Rightarrow> 's objects \<Rightarrow> lwm2m_uri_t list \<Rightarrow> (u8 \<times> lwm2m_data_t list \<times> 's objects) outcome" where
  "object_readCompositeData env objs uris =
     oc_bind (composite_loop env objs 0 uris COAP_205_CONTENT []) (\<lambda>(result, dataP, objs').
       Ret (if dataP \<noteq> [] then COAP_205_CONTENT
            else if result = COAP_205_CONTENT then COAP_404_NOT_FOUND else result, dataP, objs'))"

section \<open>The shape of a composite tree\<close>

text \<open>\<open>multi\<close> says which resources are multiple, \<open>S\<close> which resources the tree may hold; \<open>b\<close> bounds the
  number of nodes at each level.  A multiple resource has instances, which are plain values.\<close>

definition plain_value :: "lwm2m_data_t \<Rightarrow> bool" where
  "plain_value d = (case data_value d of
      V_OBJECT _ \<Rightarrow> False | V_OBJECT_INSTANCE _ \<Rightarrow> False | V_MULTIPLE_RESOURCE _ \<Rightarrow> False | _ \<Rightarrow> True)"

type_synonym resource_set = "u16 \<Rightarrow> u16 \<Rightarrow> u16 \<Rightarrow> bool"

definition resource_ok :: "resource_set \<Rightarrow> resource_set \<Rightarrow> nat \<Rightarrow> u16 \<Rightarrow> u16 \<Rightarrow> lwm2m_data_t \<Rightarrow> bool" where
  "resource_ok multi S b ob i d \<longleftrightarrow> S ob i (data_id d) \<and> (case data_value d of
      V_MULTIPLE_RESOURCE cs \<Rightarrow> multi ob i (data_id d) \<and> cs \<noteq> [] \<and> length cs \<le> b \<and> list_all plain_value cs
    | _ \<Rightarrow> plain_value d \<and> \<not> multi ob i (data_id d))"

definition instance_ok :: "resource_set \<Rightarrow> resource_set \<Rightarrow> nat \<Rightarrow> u16 \<Rightarrow> lwm2m_data_t \<Rightarrow> bool" where
  "instance_ok multi S b ob d = (case data_value d of
      V_OBJECT_INSTANCE rs \<Rightarrow> length rs \<le> b \<and> list_all (resource_ok multi S b ob (data_id d)) rs | _ \<Rightarrow> False)"

definition object_ok :: "resource_set \<Rightarrow> resource_set \<Rightarrow> nat \<Rightarrow> lwm2m_data_t \<Rightarrow> bool" where
  "object_ok multi S b d = (case data_value d of
      V_OBJECT is \<Rightarrow> length is \<le> b \<and> list_all (instance_ok multi S b (data_id d)) is | _ \<Rightarrow> False)"

definition tree_ok :: "resource_set \<Rightarrow> resource_set \<Rightarrow> nat \<Rightarrow> lwm2m_data_t list \<Rightarrow> bool" where
  "tree_ok multi S b ds \<longleftrightarrow> length ds \<le> b \<and> list_all (object_ok multi S b) ds"

text \<open>The resources at or below a URI.\<close>

definition covers :: "lwm2m_uri_t \<Rightarrow> resource_set" where
  "covers u ob i r \<longleftrightarrow> ob = objectId u
     \<and> (is_set_instance u \<longrightarrow> i = instanceId u \<and> (is_set_resource u \<longrightarrow> r = resourceId u))"

text \<open>What a read of a URI has to give.\<close>

definition read_ok :: "resource_set \<Rightarrow> nat \<Rightarrow> lwm2m_uri_t \<Rightarrow> lwm2m_data_t list \<Rightarrow> bool" where
  "read_ok multi b u ds \<longleftrightarrow> length ds \<le> b \<and>
     (if \<not> is_set_instance u then list_all (instance_ok multi (\<lambda>_ _ _. True) b (objectId u)) ds
      else if \<not> is_set_resource u then list_all (resource_ok multi (\<lambda>_ _ _. True) b (objectId u) (instanceId u)) ds
      else ds \<noteq> [] \<and> data_id (hd ds) = resourceId u
        \<and> list_all (resource_ok multi (\<lambda>_ _ _. True) b (objectId u) (instanceId u)) ds
        \<and> (is_set_resource_instance u \<or> length ds \<noteq> 1 \<longrightarrow> multi (objectId u) (instanceId u) (resourceId u)))"

text \<open>A URI that reads a multiple resource as a whole; and a list of URIs in which none does so for a
  resource that an earlier one has read.\<close>

definition reads_multiple :: "resource_set \<Rightarrow> lwm2m_uri_t \<Rightarrow> bool" where
  "reads_multiple multi u \<longleftrightarrow> is_set_instance u \<and> is_set_resource u \<and> \<not> is_set_resource_instance u
     \<and> multi (objectId u) (instanceId u) (resourceId u)"

definition not_reread :: "resource_set \<Rightarrow> lwm2m_uri_t list \<Rightarrow> bool" where
  "not_reread multi uris \<longleftrightarrow> sorted_wrt (\<lambda>u v. reads_multiple multi v \<longrightarrow>
     \<not> covers u (objectId v) (instanceId v) (resourceId v)) uris"

lemma resource_ok_mono:
  "resource_ok multi T b ob i d \<Longrightarrow> S ob i (data_id d) \<Longrightarrow> b \<le> c \<Longrightarrow> resource_ok multi S c ob i d"
  unfolding resource_ok_def by (cases "data_value d") auto

lemma resource_ok_in: "resource_ok multi T b ob i d \<Longrightarrow> T ob i (data_id d)"
  by (simp add: resource_ok_def)

lemma instance_ok_mono:
  assumes "instance_ok multi T b ob d" "\<And>r. T ob (data_id d) r \<Longrightarrow> S ob (data_id d) r" "b \<le> c"
  shows "instance_ok multi S c ob d"
proof -
  obtain rs where rs: "data_value d = V_OBJECT_INSTANCE rs" "length rs \<le> b" "list_all (resource_ok multi T b ob (data_id d)) rs"
    using assms(1) by (cases "data_value d") (auto simp: instance_ok_def)
  have "list_all (resource_ok multi S c ob (data_id d)) rs"
    using rs(3) resource_ok_mono [OF _ _ assms(3)] resource_ok_in assms(2) unfolding list_all_iff by blast
  with rs(1,2) assms(3) show ?thesis by (simp add: instance_ok_def)
qed

lemma object_ok_mono:
  assumes "object_ok multi T b d" "\<And>i r. T (data_id d) i r \<Longrightarrow> S (data_id d) i r" "b \<le> c"
  shows "object_ok multi S c d"
proof -
  obtain ds where ds: "data_value d = V_OBJECT ds" "length ds \<le> b" "list_all (instance_ok multi T b (data_id d)) ds"
    using assms(1) by (cases "data_value d") (auto simp: object_ok_def)
  have "list_all (instance_ok multi S c (data_id d)) ds"
    using ds(3) instance_ok_mono [of multi T b "data_id d" _ S c] assms(2,3) unfolding list_all_iff by blast
  with ds(1,2) assms(3) show ?thesis by (simp add: object_ok_def)
qed

lemma tree_ok_mono:
  assumes "tree_ok multi T b ds" "\<And>ob i r. T ob i r \<Longrightarrow> S ob i r" "b \<le> c"
  shows "tree_ok multi S c ds"
  using assms(1,3) object_ok_mono [of multi T b _ S c] assms(2) unfolding tree_ok_def list_all_iff by auto

lemma find_id_less: "find_id i ds < length ds \<Longrightarrow> data_id (ds ! find_id i ds) = i"
  by (induction ds) auto

lemma composite_level_ok:
  assumes "length ds \<le> b" "b < INT_MAX_nat" "\<forall>d\<in>set ds. Q d" "\<And>d. Q d \<Longrightarrow> Q' d"
    "\<And>d. Q d \<Longrightarrow> data_id d = i \<Longrightarrow> \<exists>ok d'. hit d = Ret (ok, d') \<and> Q' d'"
    "\<exists>ok d'. new (Data i zeroed) = Ret (ok, d') \<and> Q' d'"
  shows "\<exists>ok ds'. composite_level mem ds i hit zeroed new = Ret (ok, ds') \<and> (\<forall>d\<in>set ds'. Q' d)
    \<and> length ds' \<le> Suc b \<and> (ds \<noteq> [] \<longrightarrow> ds' \<noteq> [])"
proof (cases "find_id i ds < length ds")
  case True
  then have "Q (ds ! find_id i ds)" using assms(3) by simp
  with assms(5) find_id_less [OF True] obtain ok d' where hd: "hit (ds ! find_id i ds) = Ret (ok, d')" "Q' d'"
    by blast
  have "\<forall>d\<in>set (ds[find_id i ds := d']). Q' d"
    using assms(3,4) hd(2) set_update_subset_insert [of ds "find_id i ds" d'] by auto
  with True hd(1) assms(1) show ?thesis by (auto simp: composite_level_def Let_def)
next
  case False
  have "lwm2m_data_append_one (\<lambda>_. if mem then Some (\<lambda>_. 0) else None) 0 ds zeroed i
      = Ret (if mem then (1, ds @ [Data i zeroed]) else (0, ds))"
    using assms(1,2) by (simp add: lwm2m_data_append_one_def lwm2m_data_new_def)
  with False assms(1,3,4,6) show ?thesis by (auto simp: composite_level_def Let_def)
qed

lemma resourceInstance_ok:
  assumes "length ris \<le> b" "b < INT_MAX_nat" "list_all plain_value ris"
    "partial \<noteq> []" "data_value (hd partial) = V_MULTIPLE_RESOURCE cs" "cs \<noteq> []" "list_all plain_value cs"
  shows "\<exists>ok ris'. composite_resourceInstance mem u partial ris = Ret (ok, ris') \<and> length ris' \<le> Suc b
    \<and> list_all plain_value ris' \<and> (ris \<noteq> [] \<longrightarrow> ris' \<noteq> [])"
proof -
  have "first_child (hd partial) = Ret (hd cs)" "plain_value (hd cs)"
    using assms(5-7) by (cases cs; simp add: first_child_def children_of_def)+
  then show ?thesis unfolding composite_resourceInstance_def list_all_iff
    using composite_level_ok [of ris b plain_value plain_value] assms(1-3) by (fastforce simp: Let_def list_all_iff)
qed

lemma resource_multi: "resource_ok multi S b ob i d \<Longrightarrow> multi ob i (data_id d) \<Longrightarrow>
    \<exists>cs. data_value d = V_MULTIPLE_RESOURCE cs \<and> cs \<noteq> [] \<and> length cs \<le> b \<and> list_all plain_value cs"
  by (auto simp: resource_ok_def split: lwm2m_value.splits)

text \<open>What the tree may hold after the read of a URI.\<close>

abbreviation (input) with_uri :: "resource_set \<Rightarrow> lwm2m_uri_t \<Rightarrow> resource_set" where
  "with_uri S u \<equiv> \<lambda>ob i r. S ob i r \<or> covers u ob i r"

lemma resource_level_ok:
  assumes "length rs \<le> b" "b < INT_MAX_nat" "\<forall>d\<in>set rs. resource_ok multi S b (objectId u) (instanceId u) d"
    "read_ok multi b u partial" "is_set_instance u" "is_set_resource u"
    "reads_multiple multi u \<longrightarrow> \<not> S (objectId u) (instanceId u) (resourceId u)"
  shows "\<exists>ok rs'. composite_resource mem u partial rs = Ret (ok, rs')
    \<and> (\<forall>d\<in>set rs'. resource_ok multi (with_uri S u) (Suc b) (objectId u) (instanceId u) d) \<and> length rs' \<le> Suc b"
proof -
  let ?Q = "resource_ok multi S b (objectId u) (instanceId u)"
  let ?Q' = "resource_ok multi (with_uri S u) (Suc b) (objectId u) (instanceId u)"
  have partial: "partial \<noteq> []" "data_id (hd partial) = resourceId u"
    "resource_ok multi (\<lambda>_ _ _. True) b (objectId u) (instanceId u) (hd partial)"
    "is_set_resource_instance u \<Longrightarrow> multi (objectId u) (instanceId u) (resourceId u)"
    using assms(4-6) by (auto simp: read_ok_def list_all_iff)
  have here: "with_uri S u (objectId u) (instanceId u) (resourceId u)" by (simp add: covers_def)
  have head: "?Q' (hd partial)" using resource_ok_mono [OF partial(3)] here partial(2) by simp
  have mono: "?Q' d" if "?Q d" for d using resource_ok_mono [OF that] that by (simp add: resource_ok_def)
  let ?hit = "\<lambda>d. if is_set_resource_instance u then in_children d (composite_resourceInstance mem u partial)
            else if data_type (data_value d) = LWM2M_TYPE_MULTIPLE_RESOURCE then replace_children partial d
            else Ret (True, hd partial)"
  have hit: "\<exists>ok d'. ?hit d = Ret (ok, d') \<and> ?Q' d'"
    if d: "?Q d" "data_id d = resourceId u" for d
  proof (cases "is_set_resource_instance u")
    case True
    then have m: "multi (objectId u) (instanceId u) (resourceId u)" by (rule partial(4))
    from resource_multi [OF d(1)] m d(2) obtain ris where ris: "data_value d = V_MULTIPLE_RESOURCE ris" "ris \<noteq> []"
      "length ris \<le> b" "list_all plain_value ris" by auto
    from resource_multi [OF partial(3)] m partial(2) obtain cs where
      cs: "data_value (hd partial) = V_MULTIPLE_RESOURCE cs" "cs \<noteq> []" "list_all plain_value cs" by auto
    from resourceInstance_ok [OF ris(3) assms(2) ris(4) partial(1) cs, of mem u] obtain ok ris' where
      r: "composite_resourceInstance mem u partial ris = Ret (ok, ris')" "length ris' \<le> Suc b" "list_all plain_value ris'" "ris' \<noteq> []"
      using ris(2) by blast
    with True ris(1) m d(2) here show ?thesis
      by (simp add: in_children_def children_of_def set_children_def resource_ok_def)
  next
    case False
    have "S (objectId u) (instanceId u) (resourceId u)" using d by (simp add: resource_ok_def)
    then have "\<not> multi (objectId u) (instanceId u) (resourceId u)"
      using assms(5-7) False by (simp add: reads_multiple_def)
    then have "data_type (data_value d) \<noteq> LWM2M_TYPE_MULTIPLE_RESOURCE"
      using d by (cases "data_value d") (auto simp: resource_ok_def plain_value_def)
    with False head show ?thesis by auto
  qed
  have new: "\<exists>ok d'. Ret (True, hd partial) = Ret (ok, d') \<and> ?Q' d'" using head by blast
  have "\<exists>ok ds'. composite_level (mem 4) rs (resourceId u) ?hit V_UNDEFINED (\<lambda>_. Ret (True, hd partial)) = Ret (ok, ds')
      \<and> (\<forall>d\<in>set ds'. ?Q' d) \<and> length ds' \<le> Suc b \<and> (rs \<noteq> [] \<longrightarrow> ds' \<noteq> [])"
    by (rule composite_level_ok [OF assms(1,2,3)]) (erule mono, erule (1) hit, rule new)
  then show ?thesis unfolding composite_resource_def by blast
qed

lemma instance_level_ok:
  assumes "length is \<le> b" "b < INT_MAX_nat" "\<forall>d\<in>set is. instance_ok multi S b (objectId u) d"
    "read_ok multi b u partial" "is_set_instance u"
    "reads_multiple multi u \<longrightarrow> \<not> S (objectId u) (instanceId u) (resourceId u)"
  shows "\<exists>ok is'. composite_instance mem u partial is = Ret (ok, is')
    \<and> (\<forall>d\<in>set is'. instance_ok multi (with_uri S u) (Suc b) (objectId u) d) \<and> length is' \<le> Suc b"
proof -
  let ?Q = "instance_ok multi S b (objectId u)" and ?Q' = "instance_ok multi (with_uri S u) (Suc b) (objectId u)"
  let ?here = "if is_set_resource u then (\<lambda>d. in_children d (composite_resource mem u partial))
                  else replace_children partial"
  have mono: "?Q' d" if "?Q d" for d using that by (rule instance_ok_mono) simp_all
  have hit: "\<exists>ok d'. ?here d = Ret (ok, d') \<and> ?Q' d'" if d: "?Q d" "data_id d = instanceId u" for d
  proof -
    from d(1) obtain rs where rs: "data_value d = V_OBJECT_INSTANCE rs" "length rs \<le> b"
      "\<forall>r\<in>set rs. resource_ok multi S b (objectId u) (instanceId u) r"
      using d(2) by (auto simp: instance_ok_def list_all_iff split: lwm2m_value.splits)
    show ?thesis
    proof (cases "is_set_resource u")
      case True
      from resource_level_ok [OF rs(2) assms(2) rs(3) assms(4,5) True assms(6), of mem] obtain ok rs' where
        "composite_resource mem u partial rs = Ret (ok, rs')"
        "\<forall>r\<in>set rs'. resource_ok multi (with_uri S u) (Suc b) (objectId u) (instanceId u) r" "length rs' \<le> Suc b" by blast
      with True rs(1) d(2) show ?thesis
        by (simp add: in_children_def children_of_def set_children_def instance_ok_def list_all_iff)
    next
      case False
      then have p: "\<forall>r\<in>set partial. resource_ok multi (\<lambda>_ _ _. True) b (objectId u) (instanceId u) r" "length partial \<le> b"
        using assms(4,5) by (auto simp: read_ok_def list_all_iff)
      have "covers u (objectId u) (instanceId u) r" for r using False by (simp add: covers_def)
      with p have "\<forall>r\<in>set partial. resource_ok multi (with_uri S u) (Suc b) (objectId u) (instanceId u) r"
        by (auto intro: resource_ok_mono)
      with False rs(1) d(2) p(2) show ?thesis
        by (auto simp: replace_children_def set_children_def instance_ok_def list_all_iff)
    qed
  qed
  have new: "\<exists>ok d'. ?here (Data (instanceId u) (V_OBJECT_INSTANCE [])) = Ret (ok, d') \<and> ?Q' d'"
    by (rule hit) (simp_all add: instance_ok_def)
  have "\<exists>ok ds'. composite_level (mem 3) is (instanceId u) ?here (V_OBJECT_INSTANCE []) ?here = Ret (ok, ds')
      \<and> (\<forall>d\<in>set ds'. ?Q' d) \<and> length ds' \<le> Suc b \<and> (is \<noteq> [] \<longrightarrow> ds' \<noteq> [])"
    by (rule composite_level_ok [OF assms(1,2,3)]) (erule mono, erule (1) hit, rule new)
  then show ?thesis unfolding composite_instance_def Let_def by blast
qed

lemma object_level_ok:
  assumes "tree_ok multi S b os" "b < INT_MAX_nat" "read_ok multi b u partial"
    "reads_multiple multi u \<longrightarrow> \<not> S (objectId u) (instanceId u) (resourceId u)"
  shows "\<exists>ok os'. composite_object mem u partial os = Ret (ok, os') \<and> tree_ok multi (with_uri S u) (Suc b) os'"
proof -
  let ?Q = "object_ok multi S b" and ?Q' = "object_ok multi (with_uri S u) (Suc b)"
  let ?here = "if is_set_instance u then (\<lambda>d. in_children d (composite_instance mem u partial))
                  else replace_children partial"
  have os: "length os \<le> b" "\<forall>d\<in>set os. ?Q d" using assms(1) by (auto simp: tree_ok_def list_all_iff)
  have mono: "?Q' d" if "?Q d" for d using that by (rule object_ok_mono) simp_all
  have hit: "\<exists>ok d'. ?here d = Ret (ok, d') \<and> ?Q' d'" if d: "?Q d" "data_id d = objectId u" for d
  proof -
    from d(1) obtain insts where ii: "data_value d = V_OBJECT insts" "length insts \<le> b"
      "\<forall>i\<in>set insts. instance_ok multi S b (objectId u) i"
      using d(2) by (auto simp: object_ok_def list_all_iff split: lwm2m_value.splits)
    show ?thesis
    proof (cases "is_set_instance u")
      case True
      from instance_level_ok [OF ii(2) assms(2) ii(3) assms(3) True assms(4), of mem] obtain ok is2 where
        "composite_instance mem u partial insts = Ret (ok, is2)"
        "\<forall>i\<in>set is2. instance_ok multi (with_uri S u) (Suc b) (objectId u) i" "length is2 \<le> Suc b" by blast
      with True ii(1) d(2) show ?thesis
        by (simp add: in_children_def children_of_def set_children_def object_ok_def list_all_iff)
    next
      case False
      then have p: "\<forall>i\<in>set partial. instance_ok multi (\<lambda>_ _ _. True) b (objectId u) i" "length partial \<le> b"
        using assms(3) by (auto simp: read_ok_def list_all_iff)
      have "covers u (objectId u) i r" for i r using False by (simp add: covers_def)
      with p(1) have "\<forall>i\<in>set partial. instance_ok multi (with_uri S u) (Suc b) (objectId u) i"
        by (auto intro: instance_ok_mono)
      with False ii(1) d(2) p(2) show ?thesis
        by (auto simp: replace_children_def set_children_def object_ok_def list_all_iff)
    qed
  qed
  have new: "\<exists>ok d'. ?here (Data (objectId u) (V_OBJECT [])) = Ret (ok, d') \<and> ?Q' d'"
    by (rule hit) (simp_all add: object_ok_def)
  have "\<exists>ok ds'. composite_level (mem 2) os (objectId u) ?here (V_OBJECT []) ?here = Ret (ok, ds')
      \<and> (\<forall>d\<in>set ds'. ?Q' d) \<and> length ds' \<le> Suc b \<and> (os \<noteq> [] \<longrightarrow> ds' \<noteq> [])"
    by (rule composite_level_ok [OF os(1) assms(2) os(2)]) (erule mono, erule (1) hit, rule new)
  then show ?thesis unfolding composite_object_def Let_def tree_ok_def list_all_iff by blast
qed

lemma composite_step_ok:
  assumes "tree_ok multi S b dataP" "b < INT_MAX_nat" "P objs" "is_set_object u"
    "reads_multiple multi u \<longrightarrow> \<not> S (objectId u) (instanceId u) (resourceId u)"
    "\<And>res ds objs'. object_readData env objs u = (res, ds, objs') \<Longrightarrow>
       P objs' \<and> (res = COAP_205_CONTENT \<longrightarrow> ds \<noteq> [] \<longrightarrow> read_ok multi b u ds)"
  shows "\<exists>res tree objs'. composite_step env objs u result dataP = Ret (res, tree, objs')
    \<and> tree_ok multi (with_uri S u) (Suc b) tree \<and> P objs'"
proof -
  have keep: "tree_ok multi (with_uri S u) (Suc b) dataP" using assms(1) by (rule tree_ok_mono) simp_all
  obtain res ds objs' where r: "(if objectId u = LWM2M_SECURITY_OBJECT_ID \<or> objectId u = LWM2M_OSCORE_OBJECT_ID
       then (COAP_401_UNAUTHORIZED, [], objs) else object_readData env objs u) = (res, ds, objs')"
    by (metis prod_cases3)
  then have P: "P objs'" "res = COAP_205_CONTENT \<Longrightarrow> ds \<noteq> [] \<Longrightarrow> read_ok multi b u ds"
    using assms(3) assms(6) [of res ds objs'] by (auto split: if_splits)
  show ?thesis
  proof (cases "res = COAP_205_CONTENT \<and> ds \<noteq> []")
    case True
    with object_level_ok [OF assms(1,2) P(2) assms(5), of "dataMem env"] obtain ok os' where
      "composite_object (dataMem env) u ds dataP = Ret (ok, os')" "tree_ok multi (with_uri S u) (Suc b) os'" by blast
    with True P(1) assms(4) show ?thesis by (simp add: composite_step_def r)
  next
    case False
    with P(1) keep show ?thesis by (auto simp: composite_step_def r)
  qed
qed

lemma read_ok_mono:
  assumes "read_ok multi b u ds" "b \<le> c"
  shows "read_ok multi c u ds"
  using assms(1) resource_ok_mono [OF _ _ assms(2), of multi "\<lambda>_ _ _. True" _ _ _ "\<lambda>_ _ _. True"]
    instance_ok_mono [OF _ _ assms(2), of multi "\<lambda>_ _ _. True" _ _ "\<lambda>_ _ _. True"] assms(2)
  by (auto simp: read_ok_def list_all_iff split: if_splits)

lemma composite_loop_ok:
  assumes "\<And>env objs u res ds objs'. P objs \<Longrightarrow> u \<in> set uris \<Longrightarrow> object_readData env objs u = (res, ds, objs') \<Longrightarrow>
       P objs' \<and> (res = COAP_205_CONTENT \<longrightarrow> ds \<noteq> [] \<longrightarrow> read_ok multi b u ds)"
    "\<forall>u\<in>set uris. is_set_object u" "b \<le> c" "c + length uris \<le> INT_MAX_nat" "tree_ok multi S c dataP" "P objs"
    "not_reread multi uris" "\<forall>u\<in>set uris. reads_multiple multi u \<longrightarrow> \<not> S (objectId u) (instanceId u) (resourceId u)"
  shows "\<exists>res tree objs'. composite_loop env objs i uris result dataP = Ret (res, tree, objs')
    \<and> tree_ok multi (\<lambda>ob i r. S ob i r \<or> (\<exists>u\<in>set uris. covers u ob i r)) (c + length uris) tree \<and> P objs'"
  using assms
proof (induction uris arbitrary: objs i result dataP c S)
  case (Cons u us)
  let ?env = "env\<lparr>dataMem := (\<lambda>j. dataMem env (6 * i + j))\<rparr>"
  have "\<exists>res tree objs'. composite_step ?env objs u result dataP = Ret (res, tree, objs')
      \<and> tree_ok multi (with_uri S u) (Suc c) tree \<and> P objs'"
  proof (rule composite_step_ok)
    show "P objs' \<and> (res = COAP_205_CONTENT \<longrightarrow> ds \<noteq> [] \<longrightarrow> read_ok multi c u ds)"
      if "object_readData ?env objs u = (res, ds, objs')" for res ds objs'
      using Cons.prems(1) [OF Cons.prems(6) _ that] Cons.prems(3) read_ok_mono by fastforce
  qed (use Cons.prems in auto)
  then obtain res tree objs' where step: "composite_step ?env objs u result dataP = Ret (res, tree, objs')"
    "tree_ok multi (with_uri S u) (Suc c) tree" "P objs'" by blast
  have "\<exists>res2 tree2 objs2. composite_loop env objs' (Suc i) us res tree = Ret (res2, tree2, objs2)
      \<and> tree_ok multi (\<lambda>ob i r. with_uri S u ob i r \<or> (\<exists>v\<in>set us. covers v ob i r)) (Suc c + length us) tree2 \<and> P objs2"
  proof (rule Cons.IH)
    show "P objs'' \<and> (res = COAP_205_CONTENT \<longrightarrow> ds \<noteq> [] \<longrightarrow> read_ok multi b v ds)"
      if "P objs0" "v \<in> set us" "object_readData env0 objs0 v = (res, ds, objs'')" for env0 objs0 v res ds objs''
      using Cons.prems(1) [OF that(1) _ that(3)] that(2) by simp
    show "not_reread multi us" using Cons.prems(7) by (simp add: not_reread_def)
    show "\<forall>v\<in>set us. reads_multiple multi v \<longrightarrow> \<not> with_uri S u (objectId v) (instanceId v) (resourceId v)"
      using Cons.prems(7,8) by (auto simp: not_reread_def)
  qed (use Cons.prems step in auto)
  with step(1) show ?case by (simp add: disj_assoc)
qed auto

text \<open>C23: Well-formedness of a composite read.  When what the application reads for a URI has the
  shape the URI asks for, consistently, there is room for the counts in an \<open>int\<close>, and no URI reads a
  multiple resource that an earlier URI has read (such a read nests the resource in itself), then
  \<open>object_readCompositeData\<close> runs into no undefined behaviour, whichever allocations fail.  Its tree
  holds objects, of object instances, of resources, which are plain values or multiple resources
  with plain values as their instances, and every resource in it was asked for by one of the URIs.\<close>

theorem object_readCompositeData_shape:
  assumes "\<And>env objs u res ds objs'. P objs \<Longrightarrow> u \<in> set uris \<Longrightarrow> object_readData env objs u = (res, ds, objs') \<Longrightarrow>
       P objs' \<and> (res = COAP_205_CONTENT \<longrightarrow> ds \<noteq> [] \<longrightarrow> read_ok multi b u ds)"
    "\<forall>u\<in>set uris. is_set_object u" "b + length uris \<le> INT_MAX_nat" "P objs" "not_reread multi uris"
  shows "\<exists>res tree objs'. object_readCompositeData env objs uris = Ret (res, tree, objs')
    \<and> tree_ok multi (\<lambda>ob i r. \<exists>u\<in>set uris. covers u ob i r) (b + length uris) tree \<and> P objs'"
proof -
  have "\<exists>res tree objs'. composite_loop env objs 0 uris COAP_205_CONTENT [] = Ret (res, tree, objs')
    \<and> tree_ok multi (\<lambda>ob i r. False \<or> (\<exists>u\<in>set uris. covers u ob i r)) (b + length uris) tree \<and> P objs'"
    by (rule composite_loop_ok [where P = P and b = b and S = "\<lambda>_ _ _. False"])
      (erule (2) assms(1), use assms in \<open>auto simp: tree_ok_def\<close>)
  then obtain res tree objs' where "composite_loop env objs 0 uris COAP_205_CONTENT [] = Ret (res, tree, objs')"
    "tree_ok multi (\<lambda>ob i r. \<exists>u\<in>set uris. covers u ob i r) (b + length uris) tree" "P objs'" by auto
  then show ?thesis by (auto simp: object_readCompositeData_def)
qed

text \<open>A device whose resource 7 is multiple and whose other resources are integers.\<close>

definition device_read :: "unit read_callback" where
  "device_read u inst req = (COAP_205_CONTENT,
     (case req of [Data i v] \<Rightarrow> [Data i (if i = 7 then V_MULTIPLE_RESOURCE [Data 0 (V_INTEGER 3800)] else V_INTEGER 1)]
      | _ \<Rightarrow> [Data 9 (V_INTEGER 100)]), u)"

definition device :: "unit lwm2m_object_t" where
  "device = \<lparr>objID = 3, versionMajor = 0, versionMinor = 0, instanceList = [0], objData = (),
     readFunc = Some device_read, writeFunc = None, executeFunc = None, createFunc = None, rawBlock1CreateFunc = None,
     rawBlock1WriteFunc = None, rawBlock1ExecuteFunc = None, deleteFunc = None, discoverFunc = None\<rparr>"

definition example_env :: data_env where
  "example_env = \<lparr>dataBuild = server_build, coderMem = (\<lambda>_. Some (\<lambda>_. 0)), dataMem = (\<lambda>_. True), dataStack = (\<lambda>_. 0),
     floatText = (\<lambda>_. None), json_parse = (\<lambda>_ _. (0, [])), json_serialize = (\<lambda>_ _. (-1, None)),
     senml_json_parse = (\<lambda>_ _. (0, [])), senml_json_serialize = (\<lambda>_ _. (-1, None)),
     senml_cbor_parse = (\<lambda>_ _. (0, [])), senml_cbor_serialize = (\<lambda>_ _. (-1, None)),
     discover_link = (\<lambda>_ _. (-1, None))\<rparr>"

definition example_uri :: "u16 \<Rightarrow> lwm2m_uri_t" where
  "example_uri r = \<lparr>objectId = 3, instanceId = 0, resourceId = r, resourceInstanceId = LWM2M_MAX_ID\<rparr>"

lemma device_readData:
  "object_readData env [device] (example_uri r) =
     (if r = 65535 then (COAP_205_CONTENT, [Data 9 (V_INTEGER 100)], [device])
      else if dataMem env 0
      then (COAP_205_CONTENT, [Data r (if r = 7 then V_MULTIPLE_RESOURCE [Data 0 (V_INTEGER 3800)] else V_INTEGER 1)], [device])
      else (COAP_500_INTERNAL_SERVER_ERROR, [], [device]))"
  by (auto simp: object_readData_def find_object_def example_uri_def read_request_def device_read_def
      update_object_def device_def)

theorem object_readCompositeData_shape_witness:
  "\<exists>res tree objs'. object_readCompositeData example_env [device] [example_uri 7, example_uri 9] = Ret (res, tree, objs')
    \<and> tree_ok (\<lambda>_ _ r. r = 7) (\<lambda>ob i r. ob = 3 \<and> i = 0 \<and> (r = 7 \<or> r = 9)) 3 tree \<and> objs' = [device]"
proof -
  have "objs' = [device] \<and> (res = COAP_205_CONTENT \<longrightarrow> ds \<noteq> [] \<longrightarrow> read_ok (\<lambda>_ _ r. r = 7) 1 u ds)"
    if "objs = [device]" "u \<in> set [example_uri 7, example_uri 9]" "object_readData env objs u = (res, ds, objs')"
    for env and objs :: "unit objects" and u res ds objs'
  proof -
    from that(2) consider "u = example_uri 7" | "u = example_uri 9" by auto
    then show ?thesis
      using that(1,3)
      by cases (auto simp: device_readData read_ok_def resource_ok_def plain_value_def split: if_splits, simp_all add: example_uri_def)
  qed
  note reads = this
  have seen: "(\<lambda>ob i r. \<exists>u\<in>set [example_uri 7, example_uri 9]. covers u ob i r)
      = (\<lambda>ob i r. ob = 3 \<and> i = 0 \<and> (r = 7 \<or> r = 9))"
    by (intro ext) (auto simp: covers_def example_uri_def)
  have "\<exists>res tree objs'. object_readCompositeData example_env [device] [example_uri 7, example_uri 9] = Ret (res, tree, objs')
    \<and> tree_ok (\<lambda>_ _ r. r = 7) (\<lambda>ob i r. \<exists>u\<in>set [example_uri 7, example_uri 9]. covers u ob i r)
        (1 + length [example_uri 7, example_uri 9]) tree \<and> objs' = [device]"
    by (rule object_readCompositeData_shape [where P = "\<lambda>objs. objs = [device]"])
      (erule (2) reads, simp_all add: example_uri_def not_reread_def reads_multiple_def)
  then show ?thesis by (simp add: seen numeral_3_eq_3 del: set_simps list.set)
qed

text \<open>Reading a multiple resource twice in one composite read nests it: the children of the
  resource are replaced by the resource itself, and its instances are one level too deep.\<close>

theorem composite_duplicate_nests:
  assumes "object_readData env objs u = (COAP_205_CONTENT, [Data (resourceId u) (V_MULTIPLE_RESOURCE ris)], objs)"
    "dataMem env = (\<lambda>_. True)" "objectId u \<notin> {LWM2M_SECURITY_OBJECT_ID, LWM2M_OSCORE_OBJECT_ID, LWM2M_MAX_ID}"
    "is_set_instance u" "is_set_resource u" "\<not> is_set_resource_instance u"
  defines "tree \<equiv> \<lambda>v. [Data (objectId u) (V_OBJECT [Data (instanceId u) (V_OBJECT_INSTANCE [Data (resourceId u) v])])]"
  shows "object_readCompositeData env objs [u] = Ret (COAP_205_CONTENT, tree (V_MULTIPLE_RESOURCE ris), objs)
    \<and> object_readCompositeData env objs [u, u]
        = Ret (COAP_205_CONTENT, tree (V_MULTIPLE_RESOURCE [Data (resourceId u) (V_MULTIPLE_RESOURCE ris)]), objs)"
proof -
  have env: "env\<lparr>dataMem := (\<lambda>j. True)\<rparr> = env"
    using assms(2) by (cases env) simp
  note defs = composite_step_def composite_object_def composite_instance_def composite_resource_def
    composite_level_def in_children_def children_of_def set_children_def replace_children_def
    lwm2m_data_append_one_def lwm2m_data_new_def Let_def
  have one: "composite_step env objs u COAP_205_CONTENT [] = Ret (COAP_205_CONTENT, tree (V_MULTIPLE_RESOURCE ris), objs)"
    using assms(1-6) by (simp add: defs tree_def)
  have two: "composite_step env objs u COAP_205_CONTENT (tree (V_MULTIPLE_RESOURCE ris)) =
      Ret (COAP_205_CONTENT, tree (V_MULTIPLE_RESOURCE [Data (resourceId u) (V_MULTIPLE_RESOURCE ris)]), objs)"
    using assms(1-6) by (simp add: defs tree_def)
  show ?thesis by (simp add: object_readCompositeData_def assms(2) env one two) (simp add: tree_def)
qed

theorem composite_duplicate_nests_witness:
  "object_readCompositeData example_env [device] [example_uri 7, example_uri 7] = Ret (COAP_205_CONTENT,
     [Data 3 (V_OBJECT [Data 0 (V_OBJECT_INSTANCE
        [Data 7 (V_MULTIPLE_RESOURCE [Data 7 (V_MULTIPLE_RESOURCE [Data 0 (V_INTEGER 3800)])])])])], [device])"
  using composite_duplicate_nests [of example_env "[device]" "example_uri 7"]
  by (simp add: device_readData) (simp add: example_env_def example_uri_def)

section \<open>The lists of servers\<close>

definition bootstrap_ok :: "'p lwm2m_server_t \<Rightarrow> bool" where
  "bootstrap_ok s \<longleftrightarrow> shortID s = 0 \<and> servObjInstID s = LWM2M_MAX_ID \<and> 0 \<le> s_lifetime s \<and> s_lifetime s \<le> 0xFFFFFFFF"

definition server_ok :: "'p lwm2m_server_t \<Rightarrow> bool" where
  "server_ok s \<longleftrightarrow> shortID s \<noteq> 0 \<and> 0 \<le> s_lifetime s \<and> s_lifetime s \<le> 0xFFFFFFFF
     \<and> s_binding s \<noteq> BINDING_UNKNOWN"

text \<open>Both lists are sorted, no instance of the Security object is in both, and every server is
  well-formed.\<close>

definition registry_ok :: "('p, 's) registry \<Rightarrow> bool" where
  "registry_ok g \<longleftrightarrow> id_sorted secObjInstID (bootstrapServerList g) \<and> id_sorted secObjInstID (serverList g)
     \<and> secObjInstID ` set (bootstrapServerList g) \<inter> secObjInstID ` set (serverList g) = {}
     \<and> Ball (set (bootstrapServerList g)) bootstrap_ok \<and> Ball (set (serverList g)) server_ok"

definition same_lists :: "('p, 's) registry \<Rightarrow> ('p, 's) registry \<Rightarrow> bool" where
  "same_lists g g' \<longleftrightarrow> bootstrapServerList g' = bootstrapServerList g \<and> serverList g' = serverList g"

lemma registry_ok_objects [simp]: "registry_ok (g\<lparr>objectList := objs\<rparr>) = registry_ok g"
  by (simp add: registry_ok_def)

lemma same_lists_simps [simp]: "same_lists g g" "same_lists g (g\<lparr>objectList := objs\<rparr>)"
    "same_lists (g\<lparr>objectList := objs\<rparr>) g' = same_lists g g'"
  by (auto simp: same_lists_def)

lemma same_lists_trans: "same_lists g g' \<Longrightarrow> same_lists g' g'' \<Longrightarrow> same_lists g g''"
  by (simp add: same_lists_def)

lemma list_find_notin:
  "id_sorted key xs \<Longrightarrow> lwm2m_list_find key xs i = None \<Longrightarrow> i \<notin> key ` set xs"
  by (simp add: lwm2m_list_find_correct id_map_eq_None)

lemma add_server_ok:
  assumes "registry_ok g" "lwm2m_list_find secObjInstID (bootstrapServerList g) (secObjInstID s) = None"
    "lwm2m_list_find secObjInstID (serverList g) (secObjInstID s) = None"
    "if bootstrap then bootstrap_ok s else server_ok s"
  shows "registry_ok (add_server checkOnly bootstrap s g)"
proof -
  have "secObjInstID s \<notin> secObjInstID ` set (bootstrapServerList g)" "secObjInstID s \<notin> secObjInstID ` set (serverList g)"
    using assms(1-3) by (auto simp: registry_ok_def dest: list_find_notin)
  then show ?thesis using assms(1,4)
    by (auto simp: registry_ok_def add_server_def lwm2m_list_add_correct)
qed

lemma mandatoryInfo_facts:
  assumes "prv_getMandatoryInfo mem objs objectP i s = Ret (r, s', objs')"
  shows "r \<in> {0, -1}" "secObjInstID s' = secObjInstID s" "shortID s' = shortID s"
    "r = 0 \<Longrightarrow> 0 \<le> s_lifetime s' \<and> s_lifetime s' \<le> 0xFFFFFFFF \<and> s_binding s' \<noteq> BINDING_UNKNOWN"
  using assms unfolding prv_getMandatoryInfo_def
  by (auto simp: oc_bind_eq_Ret Let_def split: if_splits list.splits lwm2m_data_t.splits option.splits)

lemma read_bounded_facts:
  "read_bounded mem objs i res low high = Ret (Some v, objs') \<Longrightarrow> low \<le> v \<and> v \<le> high"
  unfolding read_bounded_def
  by (auto simp: oc_bind_eq_Ret split: if_splits option.splits)

lemma word_of_int_short:
  assumes "1 \<le> v" "v \<le> 0xFFFF"
  shows "word_of_int v \<noteq> (0 :: u16)"
proof
  assume "word_of_int v = (0 :: u16)"
  then have "uint (word_of_int v :: u16) = 0" by simp
  moreover have "uint (word_of_int v :: u16) = v" using assms by (simp add: uint_word_of_int)
  ultimately show False using assms by simp
qed

text \<open>The three facts about a pass of the loop body.\<close>

definition body_ok :: "bool \<Rightarrow> ('p, 's) registry \<Rightarrow> int \<times> ('p, 's) registry \<Rightarrow> bool" where
  "body_ok checkOnly g res \<longleftrightarrow> registry_ok (snd res) \<and> fst res \<in> {0, -1} \<and> (checkOnly \<longrightarrow> same_lists g (snd res))"

lemma body_ok_objects [simp]: "body_ok checkOnly (g\<lparr>objectList := objs\<rparr>) res = body_ok checkOnly g res"
  by (simp add: body_ok_def)

lemma body_ok_kept: "registry_ok g \<Longrightarrow> r \<in> {0, -1} \<Longrightarrow> body_ok checkOnly g (r, g\<lparr>objectList := objs\<rparr>)"
  by (simp add: body_ok_def)

lemma body_ok_add:
  assumes "registry_ok g" "lwm2m_list_find secObjInstID (bootstrapServerList g) (secObjInstID s) = None"
    "lwm2m_list_find secObjInstID (serverList g) (secObjInstID s) = None"
    "if bootstrap then bootstrap_ok s else server_ok s"
  shows "body_ok checkOnly g (0, add_server checkOnly bootstrap s (g\<lparr>objectList := objs\<rparr>))"
proof -
  have "registry_ok (add_server checkOnly bootstrap s (g\<lparr>objectList := objs\<rparr>))"
    by (rule add_server_ok) (use assms in simp_all)
  then show ?thesis by (simp add: body_ok_def) (simp add: add_server_def)
qed

lemma getServers_bootstrap_ok:
  assumes "getServers_bootstrap mem checkOnly g i = Ret res" "registry_ok g"
    "lwm2m_list_find secObjInstID (bootstrapServerList g) i = None"
    "lwm2m_list_find secObjInstID (serverList g) i = None"
  shows "body_ok checkOnly g res"
proof -
  from assms(1) obtain val objs where r: "read_bounded (mem 2) (objectList g) i 11 0 0xFFFFFFFF = Ret (val, objs)"
    by (auto simp: getServers_bootstrap_def oc_bind_eq_Ret)
  show ?thesis
  proof (cases val)
    case None
    with assms(1,2) r show ?thesis by (auto simp: getServers_bootstrap_def body_ok_kept)
  next
    case (Some v)
    with r have "0 \<le> v \<and> v \<le> 0xFFFFFFFF" by (auto dest: read_bounded_facts)
    with assms(2-4) have "body_ok checkOnly g (0, add_server checkOnly True
        ((empty_server i)\<lparr>servObjInstID := LWM2M_MAX_ID, s_lifetime := v\<rparr>) (g\<lparr>objectList := objs\<rparr>))"
      by (intro body_ok_add) (simp_all add: empty_server_def bootstrap_ok_def)
    with assms(1) r Some show ?thesis by (auto simp: getServers_bootstrap_def)
  qed
qed

lemma getServers_regular_ok:
  assumes "getServers_regular mem hasServerObj checkOnly g i = Ret res" "registry_ok g"
    "lwm2m_list_find secObjInstID (bootstrapServerList g) i = None"
    "lwm2m_list_find secObjInstID (serverList g) i = None"
  shows "body_ok checkOnly g res"
proof -
  from assms(1) obtain val objs where r: "read_bounded (mem 2) (objectList g) i 10 1 0xFFFF = Ret (val, objs)"
    by (auto simp: getServers_regular_def oc_bind_eq_Ret)
  show ?thesis
  proof (cases val)
    case None
    with assms(1,2) r show ?thesis by (auto simp: getServers_regular_def body_ok_kept)
  next
    case (Some v)
    with r have v: "1 \<le> v" "v \<le> 0xFFFF" by (auto dest: read_bounded_facts)
    define insts where "insts = (case find (\<lambda>x. objID x = LWM2M_SERVER_OBJECT_ID) objs of
        None \<Rightarrow> [] | Some ob \<Rightarrow> instanceList ob)"
    from assms(1) r Some obtain inst objs2 where
      f: "prv_findServerInstance mem 4 objs LWM2M_SERVER_OBJECT_ID insts (word_of_int v) = Ret (inst, objs2)"
      by (auto simp: getServers_regular_def oc_bind_eq_Ret insts_def [symmetric] Let_def split: if_splits)
    show ?thesis
    proof (cases inst)
      case None
      with assms(1,2) r Some f show ?thesis
        by (auto simp: getServers_regular_def insts_def [symmetric] Let_def body_ok_kept split: if_splits)
    next
      case sv: (Some sv)
      let ?s = "(empty_server i)\<lparr>shortID := word_of_int v, servObjInstID := sv\<rparr>"
      from assms(1) r Some f sv obtain c s objs3 where
        m: "prv_getMandatoryInfo (mem 3) objs2 LWM2M_SERVER_OBJECT_ID sv ?s = Ret (c, s, objs3)"
          "res = (if c \<noteq> 0 then (-1, g\<lparr>objectList := objs3\<rparr>)
             else (0, add_server checkOnly False (s\<lparr>s_status := STATE_DEREGISTERED\<rparr>) (g\<lparr>objectList := objs3\<rparr>)))"
        by (auto simp: getServers_regular_def oc_bind_eq_Ret insts_def [symmetric] Let_def split: if_splits)
      show ?thesis
      proof (cases "c = 0")
        case True
        have "body_ok checkOnly g (0, add_server checkOnly False (s\<lparr>s_status := STATE_DEREGISTERED\<rparr>) (g\<lparr>objectList := objs3\<rparr>))"
          using mandatoryInfo_facts [OF m(1)] True assms(2-4) word_of_int_short [OF v]
          by (intro body_ok_add) (simp_all add: server_ok_def empty_server_def)
        with True m(2) show ?thesis by simp
      next
        case False
        with assms(2) m(2) show ?thesis by (simp add: body_ok_kept)
      qed
    qed
  qed
qed

lemma getServers_instance_ok:
  assumes "getServers_instance mem hasServerObj checkOnly g i = Ret res" "registry_ok g"
    "lwm2m_list_find secObjInstID (bootstrapServerList g) i = None"
    "lwm2m_list_find secObjInstID (serverList g) i = None"
  shows "body_ok checkOnly g res"
proof (cases "mem 0")
  case False
  with assms(1,2) show ?thesis by (auto simp: getServers_instance_def body_ok_def)
next
  case True
  with assms(1) obtain r v objs where
    rd: "read_first (objectList g) LWM2M_SECURITY_OBJECT_ID i 1 = Ret (r, v, objs)"
    by (auto simp: getServers_instance_def oc_bind_eq_Ret)
  show ?thesis
  proof (cases "r = COAP_205_CONTENT \<and> mem 1 \<and> lwm2m_data_decode_bool v \<noteq> None")
    case False
    with True assms(1,2) rd show ?thesis
      by (auto simp: getServers_instance_def body_ok_kept Let_def split: if_splits)
  next
    case c: True
    then obtain isB where "lwm2m_data_decode_bool v = Some isB" by blast
    with True c assms rd show ?thesis
      using getServers_bootstrap_ok [of mem checkOnly "g\<lparr>objectList := objs\<rparr>" i res]
        getServers_regular_ok [of mem hasServerObj checkOnly "g\<lparr>objectList := objs\<rparr>" i res]
      by (auto simp: getServers_instance_def Let_def split: if_splits)
  qed
qed

lemma getServers_loop_ok:
  assumes "getServers_loop mem hasServerObj checkOnly g is = Ret res" "registry_ok g"
  shows "body_ok checkOnly g res"
  using assms
proof (induction "is" arbitrary: g)
  case (Cons i "is")
  show ?case
  proof (cases "lwm2m_list_find secObjInstID (bootstrapServerList g) i = None
         \<and> lwm2m_list_find secObjInstID (serverList g) i = None")
    case True
    with Cons.prems(1) obtain r g' where one: "getServers_instance (mem i) hasServerObj checkOnly g i = Ret (r, g')"
      by (auto simp: oc_bind_eq_Ret)
    with True Cons.prems(2) have b: "body_ok checkOnly g (r, g')" by (auto intro: getServers_instance_ok)
    show ?thesis
    proof (cases "r = 0")
      case r: True
      with True one Cons.prems(1) have "getServers_loop mem hasServerObj checkOnly g' is = Ret res" by simp
      from Cons.IH [OF this] b show ?thesis
        by (auto simp: body_ok_def intro: same_lists_trans)
    next
      case False
      with True one Cons.prems(1) b show ?thesis by auto
    qed
  next
    case False
    with Cons show ?thesis by auto
  qed
qed (auto simp: body_ok_def)

text \<open>C24: \<open>object_getServers\<close> keeps the lists of servers well-formed, whatever the objects answer and
  whichever allocations fail: both stay sorted by the instance of the Security object, no instance
  is in both, bootstrap servers have the short id 0, the others a short id that is not 0, a lifetime
  of 32 bits and a binding that was understood.  The result is 0 or -1, and with \<open>checkOnly\<close> the
  lists do not change.\<close>

theorem object_getServers_ok:
  assumes "object_getServers mem checkOnly g = Ret (r, g')" "registry_ok g"
  shows "registry_ok g' \<and> r \<in> {0, -1} \<and> (checkOnly \<longrightarrow> same_lists g g')"
  using assms getServers_loop_ok [of mem _ checkOnly g _ "(r, g')"]
  by (auto simp: object_getServers_def body_ok_def split: option.splits)

definition security_read :: "unit read_callback" where
  "security_read u inst req = (COAP_205_CONTENT, map (\<lambda>d. Data (data_id d)
     (if data_id d = 1 then V_BOOLEAN (inst = 0) else if data_id d = 10 then V_INTEGER 123 else V_INTEGER 5)) req, u)"

definition server_read :: "unit read_callback" where
  "server_read u inst req = (COAP_205_CONTENT, map (\<lambda>d. Data (data_id d)
     (if data_id d = 0 then V_INTEGER 123 else if data_id d = 7 then V_STRING [0x55] else V_INTEGER 300)) req, u)"

definition reader_object :: "u16 \<Rightarrow> u16 list \<Rightarrow> unit read_callback \<Rightarrow> unit lwm2m_object_t" where
  "reader_object i insts f = device\<lparr>objID := i, instanceList := insts, readFunc := Some f\<rparr>"

definition example_registry :: "(unit, unit) registry" where
  "example_registry = \<lparr>bootstrapServerList = [], serverList = [],
     objectList = [reader_object 0 [0, 1] security_read, reader_object 1 [0] server_read]\<rparr>"

lemma example_getServers:
  "object_getServers (\<lambda>_ _. True) False example_registry = Ret (0, example_registry\<lparr>
     bootstrapServerList := [(empty_server 0)\<lparr>servObjInstID := LWM2M_MAX_ID, s_lifetime := 5\<rparr>],
     serverList := [(empty_server 1)\<lparr>shortID := 123, s_lifetime := 300, s_binding := 3\<rparr>]\<rparr>)"
  by (simp add: object_getServers_def example_registry_def reader_object_def device_def getServers_instance_def
      read_first_def call_read_def security_read_def server_read_def lwm2m_data_decode_bool_def getServers_bootstrap_def
      read_bounded_def lwm2m_data_decode_int_def update_object_def getServers_regular_def add_server_def empty_server_def
      prv_getMandatoryInfo_def utils_stringToBinding_def binding_flag_def Let_def)

theorem object_getServers_ok_witness:
  "registry_ok (example_registry\<lparr>
     bootstrapServerList := [(empty_server 0)\<lparr>servObjInstID := LWM2M_MAX_ID, s_lifetime := 5\<rparr>],
     serverList := [(empty_server 1)\<lparr>shortID := 123, s_lifetime := 300, s_binding := 3\<rparr>]\<rparr>)"
  using object_getServers_ok [OF example_getServers]
  by (simp add: registry_ok_def example_registry_def id_sorted_def)

text \<open>A Security object with an account of a regular server, and no Server object: the search for
  the instance of the Server object dereferences a pointer that is NULL.\<close>

theorem object_getServers_no_server_object:
  assumes "find (\<lambda>x. objID x = LWM2M_SECURITY_OBJECT_ID) (objectList g) = Some securityObjP"
    "instanceList securityObjP = i # rest" "LWM2M_SERVER_OBJECT_ID \<notin> objID ` set (objectList g)"
    "lwm2m_list_find secObjInstID (bootstrapServerList g) i = None"
    "lwm2m_list_find secObjInstID (serverList g) i = None"
    "read_first (objectList g) LWM2M_SECURITY_OBJECT_ID i 1 = Ret (COAP_205_CONTENT, V_BOOLEAN False, objs)"
    "read_first objs LWM2M_SECURITY_OBJECT_ID i 10 = Ret (COAP_205_CONTENT, V_INTEGER short, objs')"
    "1 \<le> sint short" "sint short \<le> 0xFFFF"
  shows "object_getServers (\<lambda>_ _. True) checkOnly g = UB"
proof -
  have no: "\<not> list_ex (\<lambda>x. objID x = LWM2M_SERVER_OBJECT_ID) (objectList g)"
    using assms(3) by (auto simp: list_ex_iff)
  show ?thesis using assms
    by (simp add: object_getServers_def no getServers_instance_def getServers_regular_def read_bounded_def
        lwm2m_data_decode_bool_def lwm2m_data_decode_int_def)
qed

theorem object_getServers_no_server_object_witness:
  "object_getServers (\<lambda>_ _. True) True \<lparr>bootstrapServerList = [], serverList = [],
     objectList = [reader_object 0 [1] security_read]\<rparr> = UB"
  by (rule object_getServers_no_server_object [where i = 1 and rest = "[]" and short = 123
        and securityObjP = "reader_object 0 [1] security_read" and objs = "[reader_object 0 [1] security_read]"
        and objs' = "[reader_object 0 [1] security_read]"])
    (simp_all add: reader_object_def device_def read_first_def call_read_def security_read_def update_object_def)

end
