(* ===== verification/FloatOps.thy ===== *)
theory FloatOps
  imports Floats
begin

text \<open>
  Arithmetic and comparison of \<open>float\<close> and \<open>double\<close>, on the bit patterns: a finite number is an
  integer multiple of the smallest positive one, so sums, differences and products are computed
  exactly and rounded once, to nearest with ties to even.  A comparison with a NaN is false.
\<close>

section \<open>Magnitudes\<close>

text \<open>The magnitude \<open>m\<close> of a format with \<open>p\<close> fraction bits, in units of the smallest number; infinity
  is above every finite one.\<close>

definition mag_of :: "nat \<Rightarrow> nat \<Rightarrow> nat" where
  "mag_of p m = (if m div 2 ^ p = 0 then m else (2 ^ p + m mod 2 ^ p) * 2 ^ (m div 2 ^ p - 1))"

text \<open>The pattern of \<open>n / 2 ^ s\<close> units, rounded; \<open>emax\<close> is the exponent of infinity.\<close>

definition mag_bits :: "nat \<Rightarrow> nat \<Rightarrow> nat \<Rightarrow> nat \<Rightarrow> nat" where
  "mag_bits p emax s n =
     (let k = max s (high_bit n - p) in min (emax * 2 ^ p) ((k - s) * 2 ^ p + round_shift n k))"

section \<open>Double\<close>

definition double_neg :: "u64 \<Rightarrow> u64" where
  "double_neg d = d XOR 0x8000000000000000"

definition double_val :: "u64 \<Rightarrow> int" where
  "double_val d = (if double_sign d = 1 then -1 else 1) * int (mag_of 52 (unat d mod 2 ^ 63))"

definition double_of_val :: "int \<Rightarrow> nat \<Rightarrow> u64" where
  "double_of_val v s = word_of_nat ((if v < 0 then 2 ^ 63 else 0) + mag_bits 52 2047 s (nat \<bar>v\<bar>))"

definition DOUBLE_NAN :: u64 where "DOUBLE_NAN = 0x7FF8000000000000"

definition double_lt :: "u64 \<Rightarrow> u64 \<Rightarrow> bool" where
  "double_lt a b \<longleftrightarrow> \<not> double_isnan a \<and> \<not> double_isnan b \<and> double_val a < double_val b"

definition double_le :: "u64 \<Rightarrow> u64 \<Rightarrow> bool" where
  "double_le a b \<longleftrightarrow> \<not> double_isnan a \<and> \<not> double_isnan b \<and> double_val a \<le> double_val b"

definition double_add :: "u64 \<Rightarrow> u64 \<Rightarrow> u64" where
  "double_add a b =
     (if double_isnan a \<or> double_isnan b then DOUBLE_NAN
      else if double_isinf a then (if double_isinf b \<and> double_sign a \<noteq> double_sign b then DOUBLE_NAN else a)
      else if double_isinf b then b
      else if double_val a = 0 \<and> double_val b = 0 then (if double_sign a = 1 \<and> double_sign b = 1 then a else 0)
      else double_of_val (double_val a + double_val b) 0)"

definition double_sub :: "u64 \<Rightarrow> u64 \<Rightarrow> u64" where
  "double_sub a b = double_add a (double_neg b)"

text \<open>The conversions of 64-bit integers.\<close>

definition double_of_nat :: "nat \<Rightarrow> nat" where
  "double_of_nat n =
     (if n = 0 then 0
      else let k = high_bit n in
        (k + 1022) * 2 ^ 52 + (if k \<le> 52 then n * 2 ^ (52 - k) else round_shift n (k - 52)))"

definition double_of_uint :: "u64 \<Rightarrow> u64" where
  "double_of_uint u = word_of_nat (double_of_nat (unat u))"

definition double_of_int :: "u64 \<Rightarrow> u64" where
  "double_of_int i = word_of_nat ((if sint i < 0 then 2 ^ 63 else 0) + double_of_nat (nat \<bar>sint i\<bar>))"

section \<open>Float\<close>

definition float_isinf :: "u32 \<Rightarrow> bool" where
  "float_isinf f \<longleftrightarrow> float_exp f = 255 \<and> float_frac f = 0"

definition float_val :: "u32 \<Rightarrow> int" where
  "float_val f = (if float_sign f = 1 then -1 else 1) * int (mag_of 23 (unat f mod 2 ^ 31))"

definition float_of_val :: "int \<Rightarrow> u32" where
  "float_of_val v = word_of_nat ((if v < 0 then 2 ^ 31 else 0) + mag_bits 23 255 0 (nat \<bar>v\<bar>))"

definition FLOAT_NAN :: u32 where "FLOAT_NAN = 0x7FC00000"

definition float_le :: "u32 \<Rightarrow> u32 \<Rightarrow> bool" where
  "float_le a b \<longleftrightarrow> \<not> float_isnan a \<and> \<not> float_isnan b \<and> float_val a \<le> float_val b"

definition float_add :: "u32 \<Rightarrow> u32 \<Rightarrow> u32" where
  "float_add a b =
     (if float_isnan a \<or> float_isnan b then FLOAT_NAN
      else if float_isinf a then (if float_isinf b \<and> float_sign a \<noteq> float_sign b then FLOAT_NAN else a)
      else if float_isinf b then b
      else if float_val a = 0 \<and> float_val b = 0 then (if float_sign a = 1 \<and> float_sign b = 1 then a else 0)
      else float_of_val (float_val a + float_val b))"

text \<open>\<open>2 * x\<close>, which is the sum of \<open>x\<close> and \<open>x\<close>.\<close>

definition float_twice :: "u32 \<Rightarrow> u32" where
  "float_twice x = float_add x x"

section \<open>Facts\<close>

lemma round_shift_0 [simp]: "round_shift n 0 = n"
  using round_shift_exact [of n 0] by simp

lemma high_bit_unique: "2 ^ k \<le> n \<Longrightarrow> n < 2 * 2 ^ k \<Longrightarrow> high_bit n = k"
proof -
  assume a: "2 ^ k \<le> n" "n < 2 * 2 ^ k"
  then have "0 < n" using less_le_trans [of 0 "2 ^ k" n] by simp
  from high_bit_bounds [OF this] a have "2 ^ high_bit n < (2::nat) ^ Suc k" "2 ^ k < (2::nat) ^ Suc (high_bit n)"
    by (auto intro: le_less_trans)
  then have "high_bit n < Suc k" "k < Suc (high_bit n)" by (simp_all only: power_strict_increasing_iff)
  then show ?thesis by simp
qed

lemma high_bit_less: "n < 2 ^ p \<Longrightarrow> 0 < p \<Longrightarrow> high_bit n < p"
proof (cases "0 < n")
  case True
  assume "n < 2 ^ p"
  with high_bit_bounds [OF True] have "(2::nat) ^ high_bit n < 2 ^ p" by (blast intro: le_less_trans)
  then show ?thesis by (simp only: power_strict_increasing_iff)
next
  case False
  assume "0 < p"
  with False show ?thesis by (simp add: high_bit.simps)
qed

text \<open>A number of a format is its own rounding.\<close>

lemma mag_bits_mag_of:
  assumes "m \<le> emax * 2 ^ p" "0 < p"
  shows "mag_bits p emax 0 (mag_of p m) = m"
proof (cases "m div 2 ^ p = 0")
  case True
  then have "m < 2 ^ p" by (simp add: div_eq_0_iff)
  then have "high_bit m < p" using assms(2) by (rule high_bit_less)
  with True assms(1) show ?thesis by (simp add: mag_bits_def mag_of_def)
next
  case False
  define e where "e = m div 2 ^ p"
  define f where "f = m mod 2 ^ p"
  have m: "m = e * 2 ^ p + f" unfolding e_def f_def by (rule div_mult_mod_eq [symmetric])
  have f: "f < 2 ^ p" by (simp add: f_def)
  have e: "0 < e" using False by (simp add: e_def)
  let ?n = "(2 ^ p + f) * 2 ^ (e - 1)"
  have "high_bit ?n = p + (e - 1)"
  proof (rule high_bit_unique)
    show "2 ^ (p + (e - 1)) \<le> ?n" by (simp add: power_add)
    have "2 ^ p + f < 2 * 2 ^ p" using f by simp
    then show "?n < 2 * 2 ^ (p + (e - 1))" by (simp add: power_add mult.assoc [symmetric])
  qed
  then have "mag_bits p emax 0 ?n = min (emax * 2 ^ p) ((e - 1) * 2 ^ p + (2 ^ p + f))"
    by (simp add: mag_bits_def round_shift_exact)
  also have "(e - 1) * 2 ^ p + (2 ^ p + f) = m"
    using e by (simp add: m diff_mult_distrib)
  finally show ?thesis using False assms(1) by (simp add: mag_of_def e_def f_def)
qed

lemma mag_of_mono_strict:
  assumes "a < b"
  shows "mag_of p a < mag_of p b"
proof -
  define ea eb fa fb where "ea = a div 2 ^ p" and "eb = b div 2 ^ p" and "fa = a mod 2 ^ p" and "fb = b mod 2 ^ p"
  have ab: "a = ea * 2 ^ p + fa" "b = eb * 2 ^ p + fb" unfolding ea_def eb_def fa_def fb_def
    by (rule div_mult_mod_eq [symmetric])+
  have f: "fa < 2 ^ p" "fb < 2 ^ p" by (simp_all add: fa_def fb_def)
  have le: "ea \<le> eb" using assms by (simp add: ea_def eb_def div_le_mono)
  have A: "mag_of p a = (if ea = 0 then fa else (2 ^ p + fa) * 2 ^ (ea - 1))"
    and B: "mag_of p b = (if eb = 0 then fb else (2 ^ p + fb) * 2 ^ (eb - 1))"
    using ab by (auto simp: mag_of_def ea_def eb_def fa_def fb_def div_eq_0_iff)
  show ?thesis
  proof (cases "ea = eb")
    case True
    then have "fa < fb" using ab assms by simp
    then show ?thesis unfolding A B True by simp
  next
    case False
    then have lt: "ea < eb" using le by simp
    have "mag_of p a < 2 ^ p * 2 ^ ea"
    proof (cases "ea = 0")
      case True
      then show ?thesis using A f by simp
    next
      case False
      have "(2 ^ p + fa) * 2 ^ (ea - 1) < (2 * 2 ^ p) * 2 ^ (ea - 1)" using f by simp
      also have "\<dots> = 2 ^ p * 2 ^ ea" using False by (cases ea) simp_all
      finally show ?thesis using A False by simp
    qed
    also have "2 ^ p * (2::nat) ^ ea \<le> 2 ^ p * 2 ^ (eb - 1)" using lt by simp
    also have "\<dots> \<le> mag_of p b" using B lt by simp
    finally show ?thesis .
  qed
qed

end
