(* ===== verification/DataFloat.thy ===== *)
theory DataFloat
  imports FloatOps DataFormats
begin

text \<open>
  \<open>lwm2m_data_decode_float\<close> of \<open>data/data.c\<close>.  The text of a number is read by \<open>utils_textToFloat\<close>,
  whose conversion \<open>strtod\<close> belongs to the platform: it is the argument \<open>textToFloat\<close>.
\<close>

definition lwm2m_data_decode_float :: "(bytes \<Rightarrow> u64 option) \<Rightarrow> lwm2m_value \<Rightarrow> u64 option" where
  "lwm2m_data_decode_float textToFloat v =
     (case v of
        V_FLOAT f \<Rightarrow> Some f
      | V_INTEGER i \<Rightarrow> Some (double_of_int i)
      | V_UNSIGNED_INTEGER u \<Rightarrow> Some (double_of_uint u)
      | V_STRING s \<Rightarrow> textToFloat s
      | V_OPAQUE b \<Rightarrow>
          if length b = 4 then Some (double_of_float (word_of_nat (get_word b)))
          else if length b = 8 then Some (word_of_nat (get_word b))
          else None
      | _ \<Rightarrow> None)"

end
