(* ===== verification/Observe.thy ===== *)
theory Observe
  imports DataFloat Objects Packet
begin

text \<open>
  The client side of \<open>core/observe.c\<close>: the resources that servers watch, with the watchers and their
  notification attributes.  A pointer to an entry of the list is its place; the pointer of a watcher
  to its server is a value of the type \<open>'v\<close>, whose session \<open>session\<close> gives.  An entry
  whose memory has been given back and that is still linked is marked \<open>freed\<close>: reading it is \<open>UB\<close>.
  \<open>UB\<close> also stands for an entry without watchers where the code reads the first one, and for an
  instance node that the application has freed.
\<close>

section \<open>Data\<close>

text \<open>\<open>w_format\<close> is the \<open>lwm2m_media_type_t\<close> as its number, \<open>lastValue\<close> the bits of the union.\<close>

record 'v lwm2m_watcher_t =
  active :: bool
  update :: bool
  server :: 'v
  parameters :: "lwm2m_attributes_t option"
  w_format :: u16
  w_token :: bytes
  lastTime :: int
  counter :: u32
  lastMid :: u16
  lastValue :: u64

record 'v lwm2m_observed_t =
  o_uri :: lwm2m_uri_t
  watcherList :: "'v lwm2m_watcher_t list"
  freed :: bool

type_synonym 'v observed = "'v lwm2m_observed_t list"

abbreviation (input) ATTR_FLAG_MIN_PERIOD :: u8 where "ATTR_FLAG_MIN_PERIOD \<equiv> 0x01"
abbreviation (input) ATTR_FLAG_MAX_PERIOD :: u8 where "ATTR_FLAG_MAX_PERIOD \<equiv> 0x02"
abbreviation (input) ATTR_FLAG_GREATER_THAN :: u8 where "ATTR_FLAG_GREATER_THAN \<equiv> 0x04"
abbreviation (input) ATTR_FLAG_LESS_THAN :: u8 where "ATTR_FLAG_LESS_THAN \<equiv> 0x08"
abbreviation (input) ATTR_FLAG_STEP :: u8 where "ATTR_FLAG_STEP \<equiv> 0x10"

section \<open>Finding and unlinking\<close>

definition observed_matches :: "lwm2m_uri_t \<Rightarrow> lwm2m_uri_t \<Rightarrow> bool" where
  "observed_matches uriP t \<longleftrightarrow>
     \<not> ((is_set_object uriP \<and> objectId t \<noteq> objectId uriP)
        \<or> (is_set_instance uriP \<and> instanceId t \<noteq> instanceId uriP)
        \<or> (is_set_resource uriP \<and> resourceId t \<noteq> resourceId uriP)
        \<or> (is_set_resource_instance uriP \<and> resourceInstanceId t \<noteq> resourceInstanceId uriP))"

fun prv_findObserved :: "'v observed \<Rightarrow> lwm2m_uri_t \<Rightarrow> nat option outcome" where
  "prv_findObserved [] uriP = Ret None"
| "prv_findObserved (t # ts) uriP =
     (if freed t then UB
      else if observed_matches uriP (o_uri t) then Ret (Some 0)
      else oc_bind (prv_findObserved ts uriP) (\<lambda>i. Ret (map_option Suc i)))"

definition prv_unlinkObserved :: "nat \<Rightarrow> 'v observed \<Rightarrow> 'v observed" where
  "prv_unlinkObserved i l = take i l @ drop (Suc i) l"

fun prv_findWatcher :: "'v lwm2m_watcher_t list \<Rightarrow> 'v \<Rightarrow> nat option" where
  "prv_findWatcher [] serverP = None"
| "prv_findWatcher (w # ws) serverP =
     (if server w = serverP then Some 0 else map_option Suc (prv_findWatcher ws serverP))"

definition new_watcher :: "'v \<Rightarrow> 'v lwm2m_watcher_t" where
  "new_watcher serverP = \<lparr>active = False, update = False, server = serverP, parameters = None, w_format = 0,
     w_token = [], lastTime = 0, counter = 0, lastMid = 0, lastValue = 0\<rparr>"

text \<open>\<open>prv_getWatcher\<close>: the places of the entry and of the watcher in it, and the list.  When the
  watcher cannot be allocated for a new entry, the entry is freed and stays at the head of the list.\<close>

definition prv_getWatcher ::
    "(nat \<Rightarrow> bool) \<Rightarrow> 'v observed \<Rightarrow> lwm2m_uri_t \<Rightarrow> 'v \<Rightarrow> ((nat \<times> nat) option \<times> 'v observed) outcome" where
  "prv_getWatcher mem l uriP serverP = oc_bind (prv_findObserved l uriP) (\<lambda>observedP.
     case observedP of
        None \<Rightarrow>
          if \<not> mem 0 then Ret (None, l)
          else if \<not> mem 1 then Ret (None, \<lparr>o_uri = uriP, watcherList = [], freed = True\<rparr> # l)
          else Ret (Some (0, 0), \<lparr>o_uri = uriP, watcherList = [new_watcher serverP], freed = False\<rparr> # l)
      | Some i \<Rightarrow>
          (case prv_findWatcher (watcherList (l ! i)) serverP of
             Some j \<Rightarrow> Ret (Some (i, j), l)
           | None \<Rightarrow>
               if \<not> mem 1 then Ret (None, l)
               else Ret (Some (i, 0), l[i := (l ! i)\<lparr>watcherList := new_watcher serverP # watcherList (l ! i)\<rparr>])))"

definition get_watcher :: "'v observed \<Rightarrow> nat \<times> nat \<Rightarrow> 'v lwm2m_watcher_t" where
  "get_watcher l ij = watcherList (l ! fst ij) ! snd ij"

definition set_watcher :: "nat \<times> nat \<Rightarrow> 'v lwm2m_watcher_t \<Rightarrow> 'v observed \<Rightarrow> 'v observed" where
  "set_watcher ij w l =
     l[fst ij := (l ! fst ij)\<lparr>watcherList := (watcherList (l ! fst ij))[snd ij := w]\<rparr>]"

section \<open>Requests\<close>

text \<open>The removal of a watcher by its message id and session, in one entry.\<close>

fun cancel_watcher :: "('p \<Rightarrow> 'p \<Rightarrow> bool) \<Rightarrow> ('v \<Rightarrow> 'p) \<Rightarrow> u16 \<Rightarrow> 'p \<Rightarrow> 'v lwm2m_watcher_t list \<Rightarrow> nat option" where
  "cancel_watcher sameS session m from [] = None"
| "cancel_watcher sameS session m from (w # ws) =
     (if lastMid w = m \<and> sameS (session (server w)) from then Some 0
      else map_option Suc (cancel_watcher sameS session m from ws))"

text \<open>The loop of \<open>observe_cancel\<close> over the entries from one on.\<close>

fun observe_cancel ::
    "('p \<Rightarrow> 'p \<Rightarrow> bool) \<Rightarrow> ('v \<Rightarrow> 'p) \<Rightarrow> 'v observed \<Rightarrow> u16 \<Rightarrow> 'p \<Rightarrow> 'v observed outcome" where
  "observe_cancel sameS session [] m from = Ret []"
| "observe_cancel sameS session (t # ts) m from =
     (if freed t \<or> watcherList t = [] then UB
      else case cancel_watcher sameS session m from (watcherList t) of
        None \<Rightarrow> oc_bind (observe_cancel sameS session ts m from) (\<lambda>ts'. Ret (t # ts'))
      | Some j \<Rightarrow>
          let ws = take j (watcherList t) @ drop (Suc j) (watcherList t) in
          Ret (if ws = [] then ts else t\<lparr>watcherList := ws\<rparr> # ts))"

definition valueP_of :: "lwm2m_uri_t \<Rightarrow> lwm2m_data_t list \<Rightarrow> lwm2m_value outcome" where
  "valueP_of uriP dataP =
     (case dataP of [] \<Rightarrow> UB
      | Data i v # _ \<Rightarrow>
          Ret (if is_set_resource_instance uriP then
                 (case v of V_MULTIPLE_RESOURCE [Data j w] \<Rightarrow> w | _ \<Rightarrow> v)
               else v))"

text \<open>The numeric value of a resource, with the kind of number; \<open>None\<close> when it is not a number.\<close>

definition numeric_value :: "lwm2m_value \<Rightarrow> u64 option" where
  "numeric_value v = (case v of
      V_INTEGER i \<Rightarrow> lwm2m_data_decode_int v
    | V_UNSIGNED_INTEGER u \<Rightarrow> lwm2m_data_decode_uint v
    | V_FLOAT f \<Rightarrow> lwm2m_data_decode_float (\<lambda>_. None) v
    | _ \<Rightarrow> None)"

definition observe_register ::
    "(nat \<Rightarrow> bool) \<Rightarrow> int \<Rightarrow> 'v observed \<Rightarrow> lwm2m_uri_t \<Rightarrow> 'v \<Rightarrow> lwm2m_data_t list \<Rightarrow> coap_packet_t
      \<Rightarrow> coap_packet_t \<Rightarrow> (u8 \<times> coap_packet_t \<times> 'v observed) outcome" where
  "observe_register mem now l uriP serverP dataP m response =
     (if \<not> is_set_instance uriP \<and> is_set_resource uriP then Ret (COAP_400_BAD_REQUEST, response, l)
      else if length (token m) = 0 then Ret (COAP_400_BAD_REQUEST, response, l)
      else oc_bind (prv_getWatcher mem l uriP serverP) (\<lambda>(found, l1).
        case found of
          None \<Rightarrow> Ret (COAP_500_INTERNAL_SERVER_ERROR, response, l1)
        | Some ij \<Rightarrow>
           oc_bind (if is_set_resource uriP \<or> is_set_resource_instance uriP
                    then valueP_of uriP dataP else Ret V_UNDEFINED) (\<lambda>v.
             let w0 = get_watcher l1 ij;
                 w1 = w0\<lparr>w_token := token m, active := True, lastTime := now, lastMid := mid response,
                         w_format := ucast (content_type response)\<rparr>;
                 w2 = (if is_set_resource uriP then
                         (case numeric_value v of None \<Rightarrow> w1 | Some n \<Rightarrow> w1\<lparr>lastValue := n\<rparr>)
                       else w1)
             in Ret (COAP_205_CONTENT, coap_set_header_observe response (counter w2),
                     set_watcher ij (w2\<lparr>counter := counter w2 + 1\<rparr>) l1))))"

text \<open>\<open>count\<close> is what \<open>coap_get_header_observe\<close> reads: the caller has checked that the option is there.\<close>

definition observe_handleRequest ::
    "('p \<Rightarrow> 'p \<Rightarrow> bool) \<Rightarrow> ('v \<Rightarrow> 'p) \<Rightarrow> (nat \<Rightarrow> bool) \<Rightarrow> int \<Rightarrow> 'v observed \<Rightarrow> lwm2m_uri_t \<Rightarrow> 'v
      \<Rightarrow> lwm2m_data_t list \<Rightarrow> coap_packet_t \<Rightarrow> coap_packet_t \<Rightarrow> (u8 \<times> coap_packet_t \<times> 'v observed) outcome" where
  "observe_handleRequest sameS session mem now l uriP serverP dataP m response =
     (case coap_get_header_observe m of
        None \<Rightarrow> UB
      | Some count \<Rightarrow>
          if count = 0 then observe_register mem now l uriP serverP dataP m response
          else if count = 1 then
            oc_bind (prv_findObserved l uriP) (\<lambda>observedP. case observedP of
               None \<Rightarrow> Ret (COAP_205_CONTENT, response, l)
             | Some i \<Rightarrow>
                 (case prv_findWatcher (watcherList (l ! i)) serverP of
                    None \<Rightarrow> Ret (COAP_205_CONTENT, response, l)
                  | Some j \<Rightarrow>
                      oc_bind (observe_cancel sameS session l (lastMid (get_watcher l (i, j))) (session serverP))
                        (\<lambda>l'. Ret (COAP_205_CONTENT, response, l'))))
          else Ret (COAP_400_BAD_REQUEST, response, l))"

text \<open>The loop of \<open>observe_clear\<close> visits every entry.\<close>

definition observe_clear :: "'v observed \<Rightarrow> lwm2m_uri_t \<Rightarrow> 'v observed outcome" where
  "observe_clear l uriP =
     (if list_ex freed l then UB
      else Ret (filter (\<lambda>t. \<not> (objectId (o_uri t) = objectId uriP
                    \<and> (\<not> is_set_instance uriP \<or> instanceId (o_uri t) = instanceId uriP))) l))"

section \<open>Notification attributes\<close>

definition has_flag :: "u8 \<Rightarrow> u8 \<Rightarrow> bool" where
  "has_flag flags f \<longleftrightarrow> flags AND f \<noteq> 0"

text \<open>The rule on the attributes, computed in \<open>float\<close>: \<open>attrP\<close> where it sets one, else the parameters.\<close>

definition attr_rule_violated :: "lwm2m_attributes_t \<Rightarrow> lwm2m_attributes_t option \<Rightarrow> bool outcome" where
  "attr_rule_violated attrP params =
     (let pick = (\<lambda>f sel. if has_flag (toSet attrP) f then Ret (float_of_double (sel attrP))
                         else (case params of None \<Rightarrow> UB | Some p \<Rightarrow> Ret (float_of_double (sel p)))) in
      oc_bind (pick ATTR_FLAG_GREATER_THAN greaterThan) (\<lambda>gt.
      oc_bind (pick ATTR_FLAG_LESS_THAN lessThan) (\<lambda>lt.
      oc_bind (pick ATTR_FLAG_STEP step) (\<lambda>stp.
        Ret (float_le gt (float_add lt (float_twice stp)))))))"

definition attr_update :: "lwm2m_attributes_t \<Rightarrow> lwm2m_attributes_t \<Rightarrow> lwm2m_attributes_t" where
  "attr_update attrP p =
     (let p1 = p\<lparr>toSet := toSet p AND NOT (toClear attrP)\<rparr>;
          p2 = (if has_flag (toSet attrP) ATTR_FLAG_MIN_PERIOD then p1\<lparr>minPeriod := minPeriod attrP\<rparr> else p1);
          p3 = (if has_flag (toSet attrP) ATTR_FLAG_MAX_PERIOD then p2\<lparr>maxPeriod := maxPeriod attrP\<rparr> else p2);
          p4 = (if has_flag (toSet attrP) ATTR_FLAG_GREATER_THAN then p3\<lparr>greaterThan := greaterThan attrP\<rparr> else p3);
          p5 = (if has_flag (toSet attrP) ATTR_FLAG_LESS_THAN then p4\<lparr>lessThan := lessThan attrP\<rparr> else p4)
      in if has_flag (toSet attrP) ATTR_FLAG_STEP then p5\<lparr>step := step attrP\<rparr> else p5)"

text \<open>The allocations: 0 and 1 of \<open>prv_getWatcher\<close>, 2 of the parameters.\<close>

definition observe_setParameters ::
    "data_env \<Rightarrow> (nat \<Rightarrow> bool) \<Rightarrow> 's objects \<Rightarrow> 'v observed \<Rightarrow> lwm2m_uri_t \<Rightarrow> 'v \<Rightarrow> lwm2m_attributes_t
      \<Rightarrow> (u8 \<times> 's objects \<times> 'v observed) outcome" where
  "observe_setParameters env mem objs l uriP serverP attrP =
     (if \<not> is_set_instance uriP \<and> is_set_resource uriP then Ret (COAP_400_BAD_REQUEST, objs, l)
      else oc_bind (object_checkReadable env objs uriP attrP) (\<lambda>(result, objs1).
        if result \<noteq> COAP_205_CONTENT then Ret (result, objs1, l)
        else oc_bind (prv_getWatcher mem l uriP serverP) (\<lambda>(found, l1).
          case found of
            None \<Rightarrow> Ret (COAP_500_INTERNAL_SERVER_ERROR, objs1, l1)
          | Some ij \<Rightarrow>
             (let w = get_watcher l1 ij;
                  old = (case parameters w of None \<Rightarrow> 0 | Some p \<Rightarrow> toSet p) in
              oc_bind (if (toSet attrP OR old) AND NOT (toClear attrP) AND ATTR_FLAG_NUMERIC = ATTR_FLAG_NUMERIC
                       then attr_rule_violated attrP (parameters w) else Ret False) (\<lambda>violated.
                if violated then Ret (COAP_400_BAD_REQUEST, objs1, l1)
                else case parameters w of
                  None \<Rightarrow>
                    if toSet attrP \<noteq> 0 then
                      (if \<not> mem 2 then Ret (COAP_500_INTERNAL_SERVER_ERROR, objs1, l1)
                       else Ret (COAP_204_CHANGED, objs1, set_watcher ij (w\<lparr>parameters := Some attrP\<rparr>) l1))
                    else Ret (COAP_204_CHANGED, objs1, l1)
                | Some p \<Rightarrow>
                    Ret (COAP_204_CHANGED, objs1, set_watcher ij (w\<lparr>parameters := Some (attr_update attrP p)\<rparr>) l1))))))"

definition observe_findByUri :: "'v observed \<Rightarrow> lwm2m_uri_t \<Rightarrow> 'v lwm2m_observed_t option outcome" where
  "observe_findByUri l uriP =
     (let sameId = (\<lambda>sel t. (sel uriP = LWM2M_MAX_ID \<and> sel t = LWM2M_MAX_ID)
            \<or> (sel uriP \<noteq> LWM2M_MAX_ID \<and> sel t \<noteq> LWM2M_MAX_ID \<and> sel uriP = sel t));
          stop = (\<lambda>t. freed t \<or> (objectId (o_uri t) = objectId uriP \<and> sameId instanceId (o_uri t)
              \<and> sameId resourceId (o_uri t) \<and> sameId resourceInstanceId (o_uri t))) in
      case find stop l of
        None \<Rightarrow> Ret None
      | Some t \<Rightarrow> if freed t then UB else Ret (Some t))"

definition change_concerns :: "lwm2m_uri_t \<Rightarrow> lwm2m_uri_t \<Rightarrow> bool" where
  "change_concerns uriP t \<longleftrightarrow> objectId t = objectId uriP
     \<and> (\<not> is_set_instance uriP \<or> \<not> is_set_instance t \<or> instanceId uriP = instanceId t)
     \<and> (\<not> is_set_resource uriP \<or> \<not> is_set_resource t \<or> resourceId uriP = resourceId t)
     \<and> (\<not> is_set_resource_instance uriP \<or> \<not> is_set_resource_instance t
        \<or> resourceInstanceId uriP = resourceInstanceId t)"

definition lwm2m_resource_value_changed :: "'v observed \<Rightarrow> lwm2m_uri_t \<Rightarrow> 'v observed outcome" where
  "lwm2m_resource_value_changed l uriP =
     (if list_ex freed l then UB
      else Ret (map (\<lambda>t. if change_concerns uriP (o_uri t)
              then t\<lparr>watcherList := map (\<lambda>w. if active w then w\<lparr>update := True\<rparr> else w) (watcherList t)\<rparr>
              else t) l))"

section \<open>The periodic step\<close>

text \<open>The number of a resource as a \<open>double\<close>, for the comparison with an attribute.\<close>

definition as_double :: "lwm2m_data_type_t \<Rightarrow> u64 \<Rightarrow> u64" where
  "as_double type n = (case type of
      LWM2M_TYPE_INTEGER \<Rightarrow> double_of_int n | LWM2M_TYPE_UNSIGNED_INTEGER \<Rightarrow> double_of_uint n | _ \<Rightarrow> n)"

definition is_number :: "lwm2m_data_type_t \<Rightarrow> bool" where
  "is_number type \<longleftrightarrow> type \<in> {LWM2M_TYPE_INTEGER, LWM2M_TYPE_UNSIGNED_INTEGER, LWM2M_TYPE_FLOAT}"

text \<open>Did the value cross the threshold, in either direction?\<close>

definition crossed :: "lwm2m_data_type_t \<Rightarrow> u64 \<Rightarrow> u64 \<Rightarrow> u64 \<Rightarrow> bool" where
  "crossed type now old threshold \<longleftrightarrow> is_number type \<and>
     ((double_lt (as_double type now) threshold \<and> double_lt threshold (as_double type old))
      \<or> (double_lt threshold (as_double type now) \<and> double_lt (as_double type old) threshold))"

text \<open>The step condition; the difference of two \<open>int64_t\<close> may overflow.\<close>

definition stepped :: "lwm2m_data_type_t \<Rightarrow> u64 \<Rightarrow> u64 \<Rightarrow> u64 \<Rightarrow> bool outcome" where
  "stepped type now old stp =
     (case type of
        LWM2M_TYPE_INTEGER \<Rightarrow>
          (let diff = sint now - sint old in
           if diff < - (2 ^ 63) \<or> diff \<ge> 2 ^ 63 then UB
           else if diff = - (2 ^ 63) then UB
           else Ret (double_le stp (double_of_int (word_of_int \<bar>diff\<bar>))))
      | LWM2M_TYPE_UNSIGNED_INTEGER \<Rightarrow>
          Ret (double_le stp (double_of_uint (if now \<ge> old then now - old else old - now)))
      | LWM2M_TYPE_FLOAT \<Rightarrow>
          (let diff = double_sub now old in
           Ret ((double_lt diff 0 \<and> double_le stp (double_sub 0 diff)) \<or> (double_le 0 diff \<and> double_le stp diff)))
      | _ \<Rightarrow> Ret False)"

definition numeric_condition ::
    "lwm2m_attributes_t \<Rightarrow> lwm2m_data_type_t \<Rightarrow> u64 \<Rightarrow> u64 \<Rightarrow> bool outcome" where
  "numeric_condition p type now old =
     oc_bind (if has_flag (toSet p) ATTR_FLAG_STEP then stepped type now old (step p) else Ret False) (\<lambda>st.
       Ret ((has_flag (toSet p) ATTR_FLAG_LESS_THAN \<and> crossed type now old (lessThan p))
            \<or> (has_flag (toSet p) ATTR_FLAG_GREATER_THAN \<and> crossed type now old (greaterThan p)) \<or> st))"

text \<open>Whether to notify an active watcher, and the sleep time.\<close>

definition watcher_notify ::
    "'v lwm2m_watcher_t \<Rightarrow> lwm2m_data_type_t \<Rightarrow> u64 \<Rightarrow> int \<Rightarrow> int \<Rightarrow> (bool \<times> int) outcome" where
  "watcher_notify w type now currentTime timeoutP =
     oc_bind
       (if \<not> update w then Ret (False, timeoutP)
        else case parameters w of
          None \<Rightarrow> Ret (True, timeoutP)
        | Some p \<Rightarrow>
            oc_bind (if toSet p = 0 then Ret True
                     else if has_flag (toSet p) ATTR_FLAG_NUMERIC then numeric_condition p type now (lastValue w)
                     else Ret False) (\<lambda>notify.
              if has_flag (toSet p) ATTR_FLAG_MIN_PERIOD then
                (let due = lastTime w + int (unat (minPeriod p)) in
                 Ret (if due > currentTime then (False, min timeoutP (due - currentTime)) else (True, timeoutP)))
              else Ret (notify, timeoutP)))
       (\<lambda>(notify, timeoutP').
         Ret (case parameters w of
                None \<Rightarrow> notify
              | Some p \<Rightarrow> notify \<or> (has_flag (toSet p) ATTR_FLAG_MAX_PERIOD
                   \<and> lastTime w + int (unat (maxPeriod p)) \<le> currentTime), timeoutP'))"

text \<open>The values of \<open>lwm2m_media_type_t\<close>.\<close>

definition media_of_code :: "u16 \<Rightarrow> lwm2m_media_type_t option" where
  "media_of_code c = find (\<lambda>f. media_code f = c)
     [LWM2M_CONTENT_TEXT, LWM2M_CONTENT_LINK, LWM2M_CONTENT_OPAQUE, LWM2M_CONTENT_TLV_OLD, LWM2M_CONTENT_TLV,
      LWM2M_CONTENT_JSON_OLD, LWM2M_CONTENT_JSON, LWM2M_CONTENT_SENML_JSON, LWM2M_CONTENT_CBOR, LWM2M_CONTENT_SENML_CBOR]"

text \<open>What the step works on: the message while its buffer is not NULL, the next message id, the
  sleep time, the objects and the datagrams.\<close>

record ('p, 'c, 's) observe_pass =
  op_message :: "coap_packet_t option"
  op_nextMID :: u16
  op_timeout :: int
  op_objects :: "'s objects"
  op_events :: "('p, 'c) event list"

text \<open>The payload of a notification: the length and the buffer, and the format; \<open>None\<close> on failure.\<close>

definition notify_payload ::
    "data_env \<Rightarrow> 's objects \<Rightarrow> lwm2m_uri_t \<Rightarrow> lwm2m_data_t list option \<Rightarrow> u16
      \<Rightarrow> ((int \<times> bytes option) option \<times> u16 \<times> 's objects) outcome" where
  "notify_payload env objs uri dataP fmt =
     (case media_of_code fmt of
        None \<Rightarrow> Ret (None, fmt, objs)
      | Some format \<Rightarrow>
         (case dataP of
            Some ds \<Rightarrow> oc_bind (lwm2m_data_serialize env (Some uri) ds format) (\<lambda>(res, f, buf).
              Ret (if res < 0 then None else Some (res, buf), media_code f, objs))
          | None \<Rightarrow> oc_bind (object_read env objs uri [] format) (\<lambda>(r, f, out, objs').
              Ret (if r = COAP_205_CONTENT then out else None, media_code f, objs'))))"

text \<open>The message to send to a watcher: the one of the watcher before, or a new one.\<close>

definition notify_message ::
    "data_env \<Rightarrow> lwm2m_uri_t \<Rightarrow> lwm2m_data_t list option \<Rightarrow> u16 \<Rightarrow> ('p, 'c, 's) observe_pass
      \<Rightarrow> ((coap_packet_t \<times> bool) option \<times> u16 \<times> ('p, 'c, 's) observe_pass) outcome" where
  "notify_message env uri dataP fmt s =
     (case op_message s of
        Some m \<Rightarrow> Ret (Some (m, True), fmt, s)
      | None \<Rightarrow>
          oc_bind (notify_payload env (op_objects s) uri dataP fmt) (\<lambda>(out, fmt', objs).
            let s' = s\<lparr>op_objects := objs\<rparr> in
            case out of
              None \<Rightarrow> Ret (None, fmt', s')
            | Some (len, buf) \<Rightarrow>
                let m0 = coap_set_header_content_type (coap_init_message COAP_TYPE_NON COAP_205_CONTENT 0) (ucast fmt');
                    m1 = snd (coap_set_payload m0 (map_option (take (nat len)) buf))
                in Ret (Some (m1, buf \<noteq> None), fmt', s')))"

text \<open>The part of the loop body after the decision to notify.\<close>

definition watcher_send ::
    "'p packet_env \<Rightarrow> data_env \<Rightarrow> (u16 \<Rightarrow> bool) \<Rightarrow> ('v \<Rightarrow> 'p) \<Rightarrow> int \<Rightarrow> lwm2m_uri_t \<Rightarrow> lwm2m_data_t list option
      \<Rightarrow> lwm2m_data_type_t \<Rightarrow> u64 \<Rightarrow> 'v lwm2m_watcher_t \<Rightarrow> ('p, 'c, 's) observe_pass
      \<Rightarrow> (bool \<times> 'v lwm2m_watcher_t \<times> ('p, 'c, 's) observe_pass) outcome" where
  "watcher_send penv env sendMem session currentTime uri dataP type now w s =
     oc_bind (notify_message env uri dataP (w_format w) s) (\<lambda>(out, fmt, s1).
       let w1 = w\<lparr>w_format := fmt\<rparr> in
       case out of
         None \<Rightarrow> Ret (False, w1, s1\<lparr>op_message := None\<rparr>)
       | Some (m, keep) \<Rightarrow>
          let w2 = w1\<lparr>lastTime := currentTime, lastMid := op_nextMID s1\<rparr>;
              m1 = coap_set_header_observe (coap_set_header_token (m\<lparr>mid := lastMid w2\<rparr>) (w_token w2)) (counter w2)
          in oc_bind (message_send penv (sendMem (lastMid w2)) m1 (session (server w2))) (\<lambda>(r, m2, es).
               Ret (True, w2\<lparr>counter := counter w2 + 1, update := False,
                            lastValue := (if is_number type then now else lastValue w2)\<rparr>,
                    s1\<lparr>op_message := (if keep then Some m2 else None), op_nextMID := op_nextMID s1 + 1,
                       op_events := op_events s1 @ es\<rparr>)))"

definition watcher_timer :: "int \<Rightarrow> 'v lwm2m_watcher_t \<Rightarrow> int \<Rightarrow> int" where
  "watcher_timer currentTime w timeoutP =
     (case parameters w of
        None \<Rightarrow> timeoutP
      | Some p \<Rightarrow> if has_flag (toSet p) ATTR_FLAG_MAX_PERIOD
          then min timeoutP (lastTime w + int (unat (maxPeriod p)) - currentTime) else timeoutP)"

fun observe_watchers ::
    "'p packet_env \<Rightarrow> data_env \<Rightarrow> (u16 \<Rightarrow> bool) \<Rightarrow> ('v \<Rightarrow> 'p) \<Rightarrow> int \<Rightarrow> lwm2m_uri_t \<Rightarrow> lwm2m_data_t list option
      \<Rightarrow> lwm2m_data_type_t \<Rightarrow> u64 \<Rightarrow> 'v lwm2m_watcher_t list \<Rightarrow> ('p, 'c, 's) observe_pass
      \<Rightarrow> ('v lwm2m_watcher_t list \<times> ('p, 'c, 's) observe_pass) outcome" where
  "observe_watchers penv env sendMem session currentTime uri dataP type now [] s = Ret ([], s)"
| "observe_watchers penv env sendMem session currentTime uri dataP type now (w # ws) s =
     (let rest = (\<lambda>w' s'. oc_bind (observe_watchers penv env sendMem session currentTime uri dataP type now ws s')
                            (\<lambda>(ws', s''). Ret (w' # ws', s''))) in
      if \<not> active w then rest w s
      else oc_bind (watcher_notify w type now currentTime (op_timeout s)) (\<lambda>(notify, timeoutP).
        oc_bind (if notify
                 then watcher_send penv env sendMem session currentTime uri dataP type now w (s\<lparr>op_timeout := timeoutP\<rparr>)
                 else Ret (True, w, s\<lparr>op_timeout := timeoutP\<rparr>)) (\<lambda>(ok, w', s').
          if \<not> ok then Ret (w' # ws, s')
          else rest w' (s'\<lparr>op_timeout := watcher_timer currentTime w' (op_timeout s')\<rparr>))))"

text \<open>The loop of \<open>observe_step\<close>.\<close>

definition observe_entry ::
    "'p packet_env \<Rightarrow> data_env \<Rightarrow> (u16 \<Rightarrow> bool) \<Rightarrow> ('v \<Rightarrow> 'p) \<Rightarrow> int \<Rightarrow> 'v lwm2m_observed_t \<Rightarrow> ('p, 'c, 's) observe_pass
      \<Rightarrow> ('v lwm2m_observed_t \<times> ('p, 'c, 's) observe_pass) outcome" where
  "observe_entry penv env sendMem session currentTime t s =
     (let s0 = s\<lparr>op_message := None\<rparr>;
          watchers = (\<lambda>dataP type now s1.
            oc_bind (observe_watchers penv env sendMem session currentTime (o_uri t) dataP type now (watcherList t) s1)
              (\<lambda>(ws, s2). Ret (t\<lparr>watcherList := ws\<rparr>, s2))) in
      if is_set_resource (o_uri t) then
        (case object_readData env (op_objects s0) (o_uri t) of
           (r, ds, objs) \<Rightarrow>
             let s1 = s0\<lparr>op_objects := objs\<rparr> in
             if r \<noteq> COAP_205_CONTENT then Ret (t, s1)
             else oc_bind (valueP_of (o_uri t) ds) (\<lambda>v.
               watchers (Some ds) (data_type v) (case numeric_value v of None \<Rightarrow> 0 | Some n \<Rightarrow> n) s1))
      else watchers None LWM2M_TYPE_UNDEFINED 0 s0)"

fun observe_step ::
    "'p packet_env \<Rightarrow> data_env \<Rightarrow> (u16 \<Rightarrow> bool) \<Rightarrow> ('v \<Rightarrow> 'p) \<Rightarrow> int \<Rightarrow> 'v observed \<Rightarrow> ('p, 'c, 's) observe_pass
      \<Rightarrow> ('v observed \<times> ('p, 'c, 's) observe_pass) outcome" where
  "observe_step penv env sendMem session currentTime [] s = Ret ([], s)"
| "observe_step penv env sendMem session currentTime (t # ts) s =
     (if freed t then UB
      else oc_bind (observe_entry penv env sendMem session currentTime t s) (\<lambda>(t', s').
           oc_bind (observe_step penv env sendMem session currentTime ts s') (\<lambda>(ts', s'').
             Ret (t' # ts', s''))))"

section \<open>Deleting instances\<close>

text \<open>\<open>object_delete\<close> of \<open>core/objects.c\<close>: an instance is deleted with what is observed below it.  The
  loop without an instance in the URI goes on until the object has none; it need not end, so it is
  a partial function, whose value \<open>None\<close> is that it does not return.

  The loop holds a pointer to the first node of the list while \<open>deleteFunc\<close> runs and reads the
  identifier in the node when \<open>deleteFunc\<close> reports \<open>2.02\<close>.  A node that \<open>deleteFunc\<close> has unlinked is
  taken as freed, as every \<open>deleteFunc\<close> of the examples frees it: the read is then \<open>UB\<close>.  With an
  instance in the URI the node is not read again.\<close>

definition delete_instance ::
    "'s lwm2m_object_t \<Rightarrow> lwm2m_uri_t \<Rightarrow> ('s owned \<Rightarrow> u16 \<Rightarrow> u8 \<times> 's owned) \<Rightarrow> 'v observed
      \<Rightarrow> (u8 \<times> 's lwm2m_object_t \<times> 'v observed) outcome" where
  "delete_instance ob uriP f l =
     (case f (get_owned ob) (instanceId uriP) of
        (result, w) \<Rightarrow>
          if result = COAP_202_DELETED
          then oc_bind (observe_clear l uriP) (\<lambda>l'. Ret (result, set_owned ob w, l'))
          else Ret (result, set_owned ob w, l))"

definition delete_listed ::
    "'s lwm2m_object_t \<Rightarrow> lwm2m_uri_t \<Rightarrow> ('s owned \<Rightarrow> u16 \<Rightarrow> u8 \<times> 's owned) \<Rightarrow> u16 \<Rightarrow> 'v observed
      \<Rightarrow> (u8 \<times> 's lwm2m_object_t \<times> 'v observed) outcome" where
  "delete_listed ob uriP f i l =
     (case f (get_owned ob) i of
        (result, w) \<Rightarrow>
          if result = COAP_202_DELETED
          then (if i \<notin> set (fst w) then UB
                else oc_bind (observe_clear l (uriP\<lparr>instanceId := i\<rparr>)) (\<lambda>l'. Ret (result, set_owned ob w, l')))
          else Ret (result, set_owned ob w, l))"

partial_function (option) delete_loop ::
    "'s lwm2m_object_t \<Rightarrow> lwm2m_uri_t \<Rightarrow> ('s owned \<Rightarrow> u16 \<Rightarrow> u8 \<times> 's owned) \<Rightarrow> 'v observed
      \<Rightarrow> (u8 \<times> 's lwm2m_object_t \<times> 'v observed) outcome option" where
  "delete_loop ob uriP f l =
     (case instanceList ob of
        [] \<Rightarrow> Some (Ret (COAP_202_DELETED, ob, l))
      | i # is \<Rightarrow>
         (case delete_listed ob uriP f i l of
            UB \<Rightarrow> Some UB
          | Ret (result, ob', l') \<Rightarrow>
              if result = COAP_202_DELETED then delete_loop ob' uriP f l' else Some (Ret (result, ob', l'))))"

definition object_delete ::
    "'s objects \<Rightarrow> 'v observed \<Rightarrow> lwm2m_uri_t \<Rightarrow> (u8 \<times> 's objects \<times> 'v observed) outcome option" where
  "object_delete objs l uriP =
     (let put = (\<lambda>(r, ob', l'). Ret (r, update_object ob' objs, l')) in
      case find_object objs (objectId uriP) of
        None \<Rightarrow> Some (Ret (COAP_404_NOT_FOUND, objs, l))
      | Some ob \<Rightarrow>
         (case deleteFunc ob of
            None \<Rightarrow> Some (Ret (COAP_405_METHOD_NOT_ALLOWED, objs, l))
          | Some f \<Rightarrow>
              if is_set_instance uriP then Some (oc_bind (delete_instance ob uriP f l) put)
              else map_option (\<lambda>r. oc_bind r put) (delete_loop ob uriP f l)))"

end
