(* ===== verification/ObserveProps.thy ===== *)
theory ObserveProps
  imports Observe Servers
begin

text \<open>
  Properties of the observation of resources on the client: the invariant of the list over every
  sequence of operations, the periods of a notification, what a notification carries, the deletion
  of instances, and the places where the code does not do what its interface promises.
\<close>

section \<open>The invariant of the list\<close>

definition entry_ok :: "'v lwm2m_observed_t \<Rightarrow> bool" where
  "entry_ok t \<longleftrightarrow> \<not> freed t \<and> watcherList t \<noteq> [] \<and> distinct (map server (watcherList t))"

definition observed_ok :: "'v observed \<Rightarrow> bool" where
  "observed_ok l \<longleftrightarrow> list_all entry_ok l"

lemma observed_okD: "observed_ok l \<Longrightarrow> t \<in> set l \<Longrightarrow> entry_ok t"
  by (simp add: observed_ok_def list_all_iff)

lemma observed_ok_not_freed: "observed_ok l \<Longrightarrow> \<not> list_ex freed l"
  by (auto simp: observed_ok_def list_all_iff list_ex_iff entry_ok_def)

text \<open>The list that a failed allocation leaves: its first entry is freed.\<close>

definition poisoned :: "'v observed \<Rightarrow> bool" where
  "poisoned l \<longleftrightarrow> l \<noteq> [] \<and> freed (hd l)"

lemma poisoned_UB:
  assumes "poisoned l"
  shows "prv_findObserved l u = UB" "observe_cancel sameS session l m from = UB" "observe_clear l u = UB"
    "lwm2m_resource_value_changed l u = UB" "observe_step penv env sendMem session currentTime l s = UB"
    "prv_getWatcher mem l u sv = UB"
  using assms by (cases l; simp add: poisoned_def observe_clear_def lwm2m_resource_value_changed_def
      prv_getWatcher_def)+

lemma findObserved_less: "prv_findObserved l uriP = Ret (Some i) \<Longrightarrow> i < length l"
proof (induction l arbitrary: i)
  case (Cons t ts)
  then show ?case by (cases "prv_findObserved ts uriP") (auto split: if_splits)
qed simp

lemma findWatcher_less: "prv_findWatcher ws sv = Some j \<Longrightarrow> j < length ws \<and> server (ws ! j) = sv"
  by (induction ws arbitrary: j) (auto split: if_splits)

lemma findWatcher_None: "prv_findWatcher ws sv = None \<Longrightarrow> sv \<notin> server ` set ws"
  by (induction ws) (auto split: if_splits)

lemma getWatcher_ok:
  assumes "prv_getWatcher mem l uriP sv = Ret (found, l')" "observed_ok l"
  shows "observed_ok l' \<or> found = None \<and> \<not> mem 1 \<and> poisoned l'"
    "found \<noteq> None \<Longrightarrow> observed_ok l'"
    "found = Some ij \<Longrightarrow> fst ij < length l' \<and> snd ij < length (watcherList (l' ! fst ij))
       \<and> server (get_watcher l' ij) = sv"
proof -
  have upd: "list_all entry_ok (l[i := (l ! i)\<lparr>watcherList := new_watcher sv # watcherList (l ! i)\<rparr>])"
    if "prv_findObserved l uriP = Ret (Some i)" "prv_findWatcher (watcherList (l ! i)) sv = None" for i
  proof -
    have i: "i < length l" using that(1) by (rule findObserved_less)
    then have "entry_ok (l ! i)" using assms(2) by (auto intro: observed_okD)
    then have "entry_ok ((l ! i)\<lparr>watcherList := new_watcher sv # watcherList (l ! i)\<rparr>)"
      using findWatcher_None [OF that(2)] by (auto simp: entry_ok_def new_watcher_def)
    then show ?thesis using assms(2) set_update_subset_insert [of l i]
      by (fastforce simp: observed_ok_def list_all_iff)
  qed
  obtain fo where fo: "prv_findObserved l uriP = Ret fo"
    using assms(1) by (auto simp: prv_getWatcher_def oc_bind_eq_Ret)
  show ok: "observed_ok l' \<or> found = None \<and> \<not> mem 1 \<and> poisoned l'"
    using assms upd fo unfolding prv_getWatcher_def observed_ok_def
    by (cases fo) (auto simp: entry_ok_def new_watcher_def poisoned_def split: option.splits if_splits)
  show "observed_ok l'" if "found \<noteq> None" using ok that by blast
  show "fst ij < length l' \<and> snd ij < length (watcherList (l' ! fst ij)) \<and> server (get_watcher l' ij) = sv"
    if "found = Some ij"
    using assms that fo unfolding prv_getWatcher_def
    by (cases fo) (auto simp: get_watcher_def new_watcher_def split: option.splits if_splits
        dest: findObserved_less findWatcher_less)
qed

lemma watcherList_self: "t\<lparr>watcherList := watcherList t\<rparr> = t"
  by (cases t) simp

lemma set_watcher_ok:
  assumes "observed_ok l" "server w = server (get_watcher l ij)"
  shows "observed_ok (set_watcher ij w l)"
proof (cases "fst ij < length l \<and> snd ij < length (watcherList (l ! fst ij))")
  case True
  let ?ws = "watcherList (l ! fst ij)"
  have "entry_ok (l ! fst ij)" using assms(1) True by (auto intro: observed_okD)
  moreover have "map server (?ws[snd ij := w]) = map server ?ws"
    using True assms(2) by (simp add: get_watcher_def map_update) (metis length_map list_update_id nth_map)
  ultimately have "entry_ok ((l ! fst ij)\<lparr>watcherList := ?ws[snd ij := w]\<rparr>)"
    by (simp add: entry_ok_def)
  then show ?thesis using assms(1) set_update_subset_insert [of l "fst ij"]
    unfolding set_watcher_def observed_ok_def list_all_iff by blast
next
  case False
  then have "set_watcher ij w l = l"
    by (auto simp: set_watcher_def not_less watcherList_self list_update_beyond)
  with assms(1) show ?thesis by simp
qed

lemma cancel_watcher_less: "cancel_watcher sameS session m from ws = Some j \<Longrightarrow> j < length ws"
  by (induction ws arbitrary: j) (auto split: if_splits)

lemma remove_watcher_ok:
  assumes "entry_ok t" "take j (watcherList t) @ drop (Suc j) (watcherList t) \<noteq> []"
  shows "entry_ok (t\<lparr>watcherList := take j (watcherList t) @ drop (Suc j) (watcherList t)\<rparr>)"
proof -
  have "distinct (map server (take j (watcherList t)) @ map server (drop (Suc j) (watcherList t)))"
    using assms(1) by (simp add: entry_ok_def take_map [symmetric] drop_map [symmetric])
      (metis (no_types) distinct_append distinct_drop distinct_take set_take_disj_set_drop_if_distinct le_SucI order_refl)
  then show ?thesis using assms by (simp add: entry_ok_def)
qed

lemma observe_cancel_ok:
  "observed_ok l \<Longrightarrow> \<exists>l'. observe_cancel sameS session l m from = Ret l' \<and> observed_ok l'"
proof (induction l)
  case (Cons t ts)
  then have t: "entry_ok t" and ts: "observed_ok ts" by (simp_all add: observed_ok_def)
  from Cons.IH [OF ts] obtain ts' where ts': "observe_cancel sameS session ts m from = Ret ts'" "observed_ok ts'"
    by blast
  show ?case
  proof (cases "cancel_watcher sameS session m from (watcherList t)")
    case None
    with t ts' show ?thesis by (simp add: entry_ok_def observed_ok_def)
  next
    case (Some j)
    with t ts remove_watcher_ok [OF t, of j] show ?thesis
      by (simp add: observed_ok_def Let_def) (simp add: entry_ok_def)
  qed
qed (simp add: observed_ok_def)

lemma observe_cancel_keeps: "observe_cancel sameS session l m from = Ret l' \<Longrightarrow> observed_ok l \<Longrightarrow> observed_ok l'"
  using observe_cancel_ok [of l sameS session m "from"] by auto

text \<open>What an operation may leave: a well-formed list, or the freed entry of a failed allocation.\<close>

abbreviation (input) leaves :: "(nat \<Rightarrow> bool) \<Rightarrow> 'v observed \<Rightarrow> bool" where
  "leaves mem l \<equiv> observed_ok l \<or> \<not> mem 1 \<and> poisoned l"

lemma observe_register_ok:
  assumes "observe_register mem now l uriP sv dataP m response = Ret (c, r, l')" "observed_ok l"
  shows "leaves mem l'"
proof (cases "(\<not> is_set_instance uriP \<and> is_set_resource uriP) \<or> length (token m) = 0")
  case True
  with assms show ?thesis by (auto simp: observe_register_def split: if_splits)
next
  case False
  with assms(1) obtain found l1 where g: "prv_getWatcher mem l uriP sv = Ret (found, l1)"
    by (auto simp: observe_register_def oc_bind_eq_Ret split: if_splits)
  note ok = getWatcher_ok [OF g assms(2)]
  show ?thesis
  proof (cases found)
    case None
    with False assms(1) g ok(1) show ?thesis by (auto simp: observe_register_def split: if_splits)
  next
    case (Some ij)
    have keep: "observed_ok (set_watcher ij w l1)" if "server w = server (get_watcher l1 ij)" for w
      using set_watcher_ok [OF ok(2) that] Some by simp
    from Some False assms(1) g have "observed_ok l'"
      by (auto simp: observe_register_def oc_bind_eq_Ret Let_def split: if_splits option.splits intro!: keep)
    then show ?thesis by simp
  qed
qed

lemma observe_handleRequest_ok:
  assumes "observe_handleRequest sameS session mem now l uriP sv dataP m response = Ret (c, r, l')" "observed_ok l"
  shows "leaves mem l'"
proof -
  have cancel: "observed_ok l2" if "observe_cancel sameS session l k from = Ret l2" for k "from" l2
    using observe_cancel_ok [OF assms(2), of sameS session k "from"] that by auto
  have register: "leaves mem l2" if "observe_register mem now l uriP sv dataP m response = Ret (c, r, l2)" for l2
    by (rule observe_register_ok [OF that assms(2)])
  show ?thesis
  proof (cases "coap_get_header_observe m = Some 1")
    case False
    with assms show ?thesis
      by (auto simp: observe_handleRequest_def split: option.splits if_splits dest: register)
  next
    case True
    with assms(1) obtain fo where fo: "prv_findObserved l uriP = Ret fo"
      by (auto simp: observe_handleRequest_def oc_bind_eq_Ret)
    with True assms have "observed_ok l'"
      by (cases fo) (auto simp: observe_handleRequest_def oc_bind_eq_Ret split: option.splits dest: cancel)
    then show ?thesis by simp
  qed
qed

lemma observe_handleRequest_poisoned:
  assumes "observe_handleRequest sameS session mem now l uriP sv dataP m response = Ret (c, r, l')" "poisoned l"
  shows "l' = l"
  using assms
  by (auto simp: observe_handleRequest_def observe_register_def oc_bind_eq_Ret poisoned_UB split: option.splits if_splits)

lemma observe_setParameters_ok:
  assumes "observe_setParameters env mem objs l uriP sv attrP = Ret (c, objs', l')" "observed_ok l"
  shows "leaves mem l'"
proof (cases "\<not> is_set_instance uriP \<and> is_set_resource uriP")
  case True
  with assms show ?thesis by (auto simp: observe_setParameters_def)
next
  case False
  from assms(1) False obtain result objs1 where r: "object_checkReadable env objs uriP attrP = Ret (result, objs1)"
    by (auto simp: observe_setParameters_def oc_bind_eq_Ret split: if_splits)
  show ?thesis
  proof (cases "result = COAP_205_CONTENT")
    case no: False
    with False assms r show ?thesis by (auto simp: observe_setParameters_def split: if_splits)
  next
    case True
    with assms(1) False r obtain found l1 where g: "prv_getWatcher mem l uriP sv = Ret (found, l1)"
      by (auto simp: observe_setParameters_def oc_bind_eq_Ret split: if_splits)
    note ok = getWatcher_ok [OF g assms(2)]
    have keep: "observed_ok (set_watcher ij (get_watcher l1 ij\<lparr>parameters := p\<rparr>) l1)" if "found \<noteq> None" for ij p
      by (rule set_watcher_ok [OF ok(2) [OF that]]) simp
    have "l' = l1 \<or> found \<noteq> None \<and> (\<exists>ij p. l' = set_watcher ij (get_watcher l1 ij\<lparr>parameters := p\<rparr>) l1)"
      using assms(1) False r True g
      by (cases found) (auto simp: observe_setParameters_def oc_bind_eq_Ret Let_def split: if_splits option.splits)
    then show ?thesis using ok(1) keep by auto
  qed
qed

lemma observe_setParameters_poisoned:
  assumes "observe_setParameters env mem objs l uriP sv attrP = Ret (c, objs', l')" "poisoned l"
  shows "l' = l"
  using assms by (auto simp: observe_setParameters_def oc_bind_eq_Ret poisoned_UB split: if_splits)

lemma observe_clear_ok: "observe_clear l uriP = Ret l' \<Longrightarrow> observed_ok l \<Longrightarrow> observed_ok l'"
  by (auto simp: observed_ok_def observe_clear_def list_all_iff split: if_splits)

lemma server_of_update [simp]: "server \<circ> (\<lambda>w. if active w then w\<lparr>update := True\<rparr> else w) = server"
  by (rule ext) simp

lemma value_changed_ok: "lwm2m_resource_value_changed l uriP = Ret l' \<Longrightarrow> observed_ok l \<Longrightarrow> observed_ok l'"
  by (auto simp: observed_ok_def lwm2m_resource_value_changed_def list_all_iff entry_ok_def split: if_splits)

lemma watcher_send_server:
  "watcher_send penv env sendMem session currentTime uri dataP type now w s = Ret (ok, w', s') \<Longrightarrow> server w' = server w"
  by (auto simp: watcher_send_def oc_bind_eq_Ret Let_def split: option.splits prod.splits)

lemma observe_watchers_servers:
  "observe_watchers penv env sendMem session currentTime uri dataP type now ws s = Ret (ws', s') \<Longrightarrow>
     map server ws' = map server ws"
proof (induction ws arbitrary: s ws' s')
  case (Cons w ws)
  show ?case
  proof (cases "active w")
    case False
    with Cons show ?thesis by (auto simp: oc_bind_eq_Ret)
  next
    case True
    from Cons.prems True obtain notify tp ok w1 s1 where
      n: "watcher_notify w type now currentTime (op_timeout s) = Ret (notify, tp)"
      "(if notify then watcher_send penv env sendMem session currentTime uri dataP type now w (s\<lparr>op_timeout := tp\<rparr>)
        else Ret (True, w, s\<lparr>op_timeout := tp\<rparr>)) = Ret (ok, w1, s1)"
      by (auto simp: oc_bind_eq_Ret Let_def)
    have "server w1 = server w" using n(2) by (auto split: if_splits dest: watcher_send_server)
    with Cons True n show ?thesis by (auto simp: oc_bind_eq_Ret Let_def split: if_splits)
  qed
qed simp

lemma observe_entry_ok:
  assumes "observe_entry penv env sendMem session currentTime t s = Ret (t', s')" "entry_ok t"
  shows "entry_ok t'"
proof -
  have ws: "entry_ok (t\<lparr>watcherList := ws\<rparr>)"
    if "observe_watchers penv env sendMem session currentTime (o_uri t) dataP type now (watcherList t) s1 = Ret (ws, s2)"
    for dataP type now s1 ws s2
    using observe_watchers_servers [OF that] assms(2) by (auto simp: entry_ok_def dest: map_eq_imp_length_eq)
  from assms show ?thesis
    by (auto simp: observe_entry_def oc_bind_eq_Ret Let_def split: if_splits prod.splits intro!: ws)
qed

lemma observe_step_ok:
  "observe_step penv env sendMem session currentTime l s = Ret (l', s') \<Longrightarrow> observed_ok l \<Longrightarrow> observed_ok l'"
  by (induction l arbitrary: s l' s') (auto simp: oc_bind_eq_Ret observed_ok_def dest: observe_entry_ok split: if_splits)

lemma delete_instance_ok:
  "delete_instance ob uriP f l = Ret (c, ob', l') \<Longrightarrow> observed_ok l \<Longrightarrow> observed_ok l'"
  "delete_instance ob uriP f l = Ret (c, ob', l') \<Longrightarrow> poisoned l \<Longrightarrow> l' = l"
  by (auto simp: delete_instance_def oc_bind_eq_Ret poisoned_UB dest: observe_clear_ok split: prod.splits if_splits)

lemma delete_listed_ok:
  "delete_listed ob uriP f i l = Ret (c, ob', l') \<Longrightarrow> observed_ok l \<Longrightarrow> observed_ok l'"
  "delete_listed ob uriP f i l = Ret (c, ob', l') \<Longrightarrow> poisoned l \<Longrightarrow> l' = l"
  by (auto simp: delete_listed_def oc_bind_eq_Ret poisoned_UB dest: observe_clear_ok split: prod.splits if_splits)

text \<open>What every round of the loop keeps, with the result of the round, holds when it returns.\<close>

lemma delete_loop_invariant:
  fixes ob :: "'b lwm2m_object_t" and l :: "'a observed"
  assumes "delete_loop ob uriP f l = Some (Ret (c, ob', l'))" "P COAP_202_DELETED ob l"
    and keep: "\<And>ob l i is c ob' l'. instanceList ob = i # is \<Longrightarrow>
      delete_listed ob uriP f i l = Ret (c, ob', l') \<Longrightarrow> P COAP_202_DELETED ob l \<Longrightarrow> P c ob' l'"
  shows "P c ob' l' \<and> (c = COAP_202_DELETED \<longrightarrow> instanceList ob' = [])"
proof -
  let ?R = "\<lambda>r. case r of UB \<Rightarrow> True
    | Ret (c, ob', l') \<Rightarrow> P c ob' l' \<and> (c = COAP_202_DELETED \<longrightarrow> instanceList ob' = [])"
  let ?Q = "\<lambda>ob u g l r. P COAP_202_DELETED ob l \<longrightarrow> u = uriP \<longrightarrow> g = f \<longrightarrow> ?R r"
  have "?Q ob uriP f l (Ret (c, ob', l'))"
  proof (rule delete_loop.raw_induct [where P = ?Q, OF _ assms(1)])
    fix loop and ob :: "'b lwm2m_object_t" and u g and l :: "'a observed" and r
    assume IH: "\<And>ob u g l r. loop ob u g l = Some r \<Longrightarrow> ?Q ob u g l r"
      and body: "(case instanceList ob of [] \<Rightarrow> Some (Ret (COAP_202_DELETED, ob, l))
         | i # is \<Rightarrow> (case delete_listed ob u g i l of UB \<Rightarrow> Some UB
           | Ret (result, ob', l') \<Rightarrow>
             if result = COAP_202_DELETED then loop ob' u g l' else Some (Ret (result, ob', l')))) = Some r"
    show "?Q ob u g l r"
    proof (intro impI)
      assume P: "P COAP_202_DELETED ob l" and eq: "u = uriP" "g = f"
      show "?R r"
      proof (cases "instanceList ob")
        case (Cons i "is")
        show ?thesis
        proof (cases "delete_listed ob uriP f i l")
          case (Ret x)
          obtain c1 ob1 l1 where x: "x = (c1, ob1, l1)" by (cases x)
          have P1: "P c1 ob1 l1" using keep [OF Cons _ P] Ret x by simp
          show ?thesis
          proof (cases "c1 = COAP_202_DELETED")
            case True
            with body Cons Ret x eq have "loop ob1 uriP f l1 = Some r" by simp
            from IH [OF this] P1 True show ?thesis by simp
          next
            case False
            with body Cons Ret x eq have "r = Ret (c1, ob1, l1)" by simp
            with P1 False show ?thesis by simp
          qed
        qed (use body Cons eq in simp)
      qed (use body P in auto)
    qed
  qed
  then show ?thesis using assms(2) by simp
qed

lemma delete_loop_ok:
  assumes "delete_loop ob uriP f l = Some (Ret (c, ob', l'))"
  shows "observed_ok l \<Longrightarrow> observed_ok l'" "poisoned l \<Longrightarrow> l' = l"
proof -
  show "observed_ok l'" if "observed_ok l"
    using delete_loop_invariant [OF assms, of "\<lambda>_ _. observed_ok"] that by (blast intro: delete_listed_ok(1))
  show "l' = l" if "poisoned l"
    using delete_loop_invariant [OF assms, of "\<lambda>_ _ l2. l2 = l"] that by (blast dest: delete_listed_ok(2))
qed

lemma object_delete_ok:
  assumes "object_delete objs l uriP = Some (Ret (c, objs', l'))"
  shows "observed_ok l \<Longrightarrow> observed_ok l'" "poisoned l \<Longrightarrow> l' = l"
  using assms
  by (auto simp: object_delete_def Let_def oc_bind_eq_Ret split: option.splits if_splits prod.splits
      dest: delete_instance_ok delete_loop_ok)

section \<open>Every sequence of operations\<close>

text \<open>The states of the client that the operations on the list can reach, with the state of the
  periodic step, for any arguments, allocations and data.  The flag \<open>starved\<close> tells whether the
  allocation of a watcher was denied on the way.\<close>

inductive observing ::
    "('p \<Rightarrow> 'p \<Rightarrow> bool) \<Rightarrow> ('v \<Rightarrow> 'p) \<Rightarrow> bool \<Rightarrow> 'v observed \<Rightarrow> ('p, 'c, 's) observe_pass \<Rightarrow> bool"
  for sameS :: "'p \<Rightarrow> 'p \<Rightarrow> bool" and session :: "'v \<Rightarrow> 'p" where
  start: "observing sameS session False [] s"
| request: "observing sameS session starved l s \<Longrightarrow>
    observe_handleRequest sameS session mem now l uriP sv dataP m response = Ret (c, r, l') \<Longrightarrow>
    observing sameS session (starved \<or> \<not> mem 1) l' s"
| reset: "observing sameS session starved l s \<Longrightarrow> observe_cancel sameS session l k p = Ret l' \<Longrightarrow>
    observing sameS session starved l' s"
| attributes: "observing sameS session starved l s \<Longrightarrow>
    observe_setParameters env mem (op_objects s) l uriP sv attrP = Ret (c, objs, l') \<Longrightarrow>
    observing sameS session (starved \<or> \<not> mem 1) l' (s\<lparr>op_objects := objs\<rparr>)"
| deleted: "observing sameS session starved l s \<Longrightarrow> object_delete (op_objects s) l uriP = Some (Ret (c, objs, l')) \<Longrightarrow>
    observing sameS session starved l' (s\<lparr>op_objects := objs\<rparr>)"
| changed: "observing sameS session starved l s \<Longrightarrow> lwm2m_resource_value_changed l uriP = Ret l' \<Longrightarrow>
    observing sameS session starved l' s"
| tick: "observing sameS session starved l s \<Longrightarrow>
    observe_step penv env sendMem session currentTime l s = Ret (l', s') \<Longrightarrow> observing sameS session starved l' s'"

lemma observing_observed_ok: "observing sameS session starved l s \<Longrightarrow> observed_ok l \<or> starved \<and> poisoned l"
proof (induction rule: observing.induct)
  case start
  show ?case by (simp add: observed_ok_def)
next
  case request
  show ?case
    using request.IH observe_handleRequest_ok [OF request.hyps(2)] observe_handleRequest_poisoned [OF request.hyps(2)] by blast
next
  case reset
  then show ?case by (auto simp: poisoned_UB(2) dest: observe_cancel_keeps)
next
  case attributes
  show ?case
    using attributes.IH observe_setParameters_ok [OF attributes.hyps(2)] observe_setParameters_poisoned [OF attributes.hyps(2)] by blast
next
  case deleted
  show ?case using deleted.IH object_delete_ok [OF deleted.hyps(2)] by blast
next
  case changed
  then show ?case by (auto simp: poisoned_UB dest: value_changed_ok)
next
  case tick
  then show ?case by (auto simp: poisoned_UB dest: observe_step_ok)
qed

text \<open>C25: In every state that the operations on the observed resources reach, in any order and
  whatever the peers and the objects do, there are two cases.  As long as the allocation of a watcher
  has not failed for a new entry, no entry is freed, every entry has a watcher, no server has two
  watchers of one entry, and the handling of a reset has no undefined behaviour and keeps this so.
  Otherwise the head of the list is an entry that has been freed, and the handling of the next
  reset reads it.\<close>

theorem observing_invariant:
  assumes "observing sameS session starved l s"
  shows "if l \<noteq> [] \<and> freed (hd l)
    then starved \<and> observe_cancel sameS session l m p = UB
    else (\<forall>t\<in>set l. \<not> freed t \<and> watcherList t \<noteq> [] \<and> distinct (map server (watcherList t)))
      \<and> (\<exists>l'. observe_cancel sameS session l m p = Ret l'
          \<and> (\<forall>t\<in>set l'. \<not> freed t \<and> watcherList t \<noteq> [] \<and> distinct (map server (watcherList t))))"
proof (cases "poisoned l")
  case True
  then have "\<not> observed_ok l" by (cases l) (auto simp: poisoned_def observed_ok_def entry_ok_def)
  with True observing_observed_ok [OF assms] show ?thesis by (simp add: poisoned_UB) (simp add: poisoned_def)
next
  case False
  with observing_observed_ok [OF assms] have ok: "observed_ok l" by simp
  with False observe_cancel_ok [OF ok, of sameS session m p] show ?thesis
    by (auto simp: poisoned_def observed_ok_def list_all_iff entry_ok_def)
qed

definition example_request :: coap_packet_t where
  "example_request = coap_set_header_token (coap_set_header_observe (coap_init_message COAP_TYPE_CON COAP_GET 7) 0) [1, 2]"

definition example_response :: coap_packet_t where
  "example_response = coap_init_message COAP_TYPE_ACK COAP_205_CONTENT 7"

definition example_watcher :: "nat lwm2m_watcher_t" where
  "example_watcher = \<lparr>active = True, update = False, server = 0, parameters = None, w_format = 0,
     w_token = [1, 2], lastTime = 50, counter = 1, lastMid = 7, lastValue = 100\<rparr>"

lemma example_observe:
  "observe_handleRequest (=) id (\<lambda>_. True) 50 [] (example_uri 9) (0 :: nat) [Data 9 (V_INTEGER 100)] example_request example_response
    = Ret (COAP_205_CONTENT, coap_set_header_observe example_response 0, [\<lparr>o_uri = example_uri 9, watcherList = [example_watcher], freed = False\<rparr>])"
  by (simp add: observe_handleRequest_def observe_register_def coap_get_header_observe_def example_request_def
      coap_set_header_token_def coap_set_header_observe_def coap_init_message_def coap_zero_def SET_OPTION_def
      IS_OPTION_def prv_getWatcher_def example_uri_def valueP_of_def Let_def numeric_value_def lwm2m_data_decode_int_def
      get_watcher_def set_watcher_def new_watcher_def example_response_def example_watcher_def)

text \<open>Without memory for the watcher the same request is refused and poisons the list.\<close>

lemma example_starved:
  "observe_handleRequest (=) id (\<lambda>k. k = 0) 50 [] (example_uri 9) (0 :: nat) [Data 9 (V_INTEGER 100)] example_request example_response
    = Ret (COAP_500_INTERNAL_SERVER_ERROR, example_response, [\<lparr>o_uri = example_uri 9, watcherList = [], freed = True\<rparr>])"
  by (simp add: observe_handleRequest_def observe_register_def coap_get_header_observe_def example_request_def
      coap_set_header_token_def coap_set_header_observe_def coap_init_message_def coap_zero_def SET_OPTION_def
      IS_OPTION_def prv_getWatcher_def example_uri_def)

theorem observing_invariant_witness:
  "(\<exists>l'. observe_cancel (=) id [\<lparr>o_uri = example_uri 9, watcherList = [example_watcher], freed = False\<rparr>] 7 (0 :: nat) = Ret l')
    \<and> observe_cancel (=) id [\<lparr>o_uri = example_uri 9, watcherList = [], freed = True\<rparr>] 7 (0 :: nat) = UB"
proof
  show "\<exists>l'. observe_cancel (=) id [\<lparr>o_uri = example_uri 9, watcherList = [example_watcher], freed = False\<rparr>] 7 (0 :: nat) = Ret l'"
    using observing_invariant [OF observing.request [OF observing.start example_observe], of 7 0]
    by (simp only: list.sel lwm2m_observed_t.simps simp_thms if_False) blast
  show "observe_cancel (=) id [\<lparr>o_uri = example_uri 9, watcherList = [], freed = True\<rparr>] 7 (0 :: nat) = UB"
    using observing_invariant [OF observing.request [OF observing.start example_starved], of 7 0]
    by (simp only: list.sel list.distinct lwm2m_observed_t.simps simp_thms if_True)
qed

section \<open>Notification attributes\<close>

lemma and_mask_idem: "(a AND b) AND c \<noteq> 0 \<Longrightarrow> a AND c \<noteq> (0 :: 'a::len word)"
  by (metis and.left_commute and_zero_eq and.commute)

text \<open>Writing attributes to a watcher that has some never turns one on: the flags of the request
  are not added to those of the watcher, although the answer is \<open>2.04\<close>.  A minimum period written
  first and a maximum period written later is a maximum period that is never looked at.\<close>

theorem observe_setParameters_no_new_flag:
  assumes "observe_setParameters env mem objs l uriP sv attrP = Ret (COAP_204_CHANGED, objs', l')"
    "prv_findObserved l uriP = Ret (Some i)" "prv_findWatcher (watcherList (l ! i)) sv = Some j"
    "parameters (get_watcher l (i, j)) = Some p"
  shows "\<exists>p'. parameters (get_watcher l' (i, j)) = Some p'
    \<and> (\<forall>f. has_flag (toSet p') f \<longrightarrow> has_flag (toSet p) f)"
proof -
  have ij: "i < length l" "j < length (watcherList (l ! i))"
    using assms(2,3) by (auto dest: findObserved_less findWatcher_less)
  have g: "prv_getWatcher mem l uriP sv = Ret (Some (i, j), l)"
    using assms(2,3) by (simp add: prv_getWatcher_def)
  have "l' = l \<or> l' = set_watcher (i, j) (get_watcher l (i, j)\<lparr>parameters := Some (attr_update attrP p)\<rparr>) l"
    using assms(1,4) g
    by (auto simp: observe_setParameters_def oc_bind_eq_Ret Let_def split: if_splits)
  then have "parameters (get_watcher l' (i, j)) \<in> {Some p, Some (attr_update attrP p)}"
    using ij assms(4) by (auto simp: set_watcher_def get_watcher_def)
  moreover have "toSet (attr_update attrP p) = toSet p AND NOT (toClear attrP)"
    by (simp add: attr_update_def Let_def)
  ultimately show ?thesis by (auto simp: has_flag_def dest: and_mask_idem)
qed

definition no_attributes :: lwm2m_attributes_t where
  "no_attributes = \<lparr>toSet = 0, toClear = 0, minPeriod = 0, maxPeriod = 0, greaterThan = 0, lessThan = 0, step = 0\<rparr>"

theorem observe_setParameters_no_new_flag_witness:
  "\<exists>l'. observe_setParameters example_env (\<lambda>_. True) [device]
       [\<lparr>o_uri = example_uri 9, watcherList = [example_watcher\<lparr>parameters := Some (no_attributes\<lparr>toSet := 1, minPeriod := 5\<rparr>)\<rparr>], freed = False\<rparr>]
       (example_uri 9) 0 (no_attributes\<lparr>toSet := 2, maxPeriod := 60\<rparr>) = Ret (COAP_204_CHANGED, [device], l')
     \<and> (\<exists>p'. parameters (get_watcher l' (0, 0)) = Some p' \<and> \<not> has_flag (toSet p') ATTR_FLAG_MAX_PERIOD)"
proof -
  let ?w = "example_watcher\<lparr>parameters := Some (no_attributes\<lparr>toSet := 1, minPeriod := 5\<rparr>)\<rparr>"
  let ?l = "[\<lparr>o_uri = example_uri 9, watcherList = [?w], freed = False\<rparr>]"
  have r: "object_checkReadable example_env [device] (example_uri 9) (no_attributes\<lparr>toSet := 2, maxPeriod := 60\<rparr>)
      = Ret (COAP_205_CONTENT, [device])"
    by (simp add: object_checkReadable_def find_object_def device_def example_uri_def read_request_def example_env_def
        device_read_def update_object_def no_attributes_def)
  have f: "prv_findObserved ?l (example_uri 9) = Ret (Some 0)" "prv_findWatcher (watcherList (?l ! 0)) 0 = Some 0"
    by (simp_all add: observed_matches_def example_watcher_def)
  obtain l' where s: "observe_setParameters example_env (\<lambda>_. True) [device] ?l (example_uri 9) 0
      (no_attributes\<lparr>toSet := 2, maxPeriod := 60\<rparr>) = Ret (COAP_204_CHANGED, [device], l')"
    using r f by (auto simp: observe_setParameters_def prv_getWatcher_def get_watcher_def Let_def no_attributes_def
        example_uri_def)
  from observe_setParameters_no_new_flag [OF s f, of "no_attributes\<lparr>toSet := 1, minPeriod := 5\<rparr>"]
  have "\<exists>p'. parameters (get_watcher l' (0, 0)) = Some p' \<and> \<not> has_flag (toSet p') ATTR_FLAG_MAX_PERIOD"
    by (auto simp: get_watcher_def no_attributes_def has_flag_def)
  with s show ?thesis by blast
qed

section \<open>Entries below the requested one\<close>

definition same_uri :: "lwm2m_uri_t \<Rightarrow> lwm2m_uri_t \<Rightarrow> bool" where
  "same_uri u t \<longleftrightarrow> objectId t = objectId u \<and> (\<forall>sel\<in>{instanceId, resourceId, resourceInstanceId}.
      (sel u = LWM2M_MAX_ID \<and> sel t = LWM2M_MAX_ID)
      \<or> (sel u \<noteq> LWM2M_MAX_ID \<and> sel t \<noteq> LWM2M_MAX_ID \<and> sel u = sel t))"

lemma findByUri_None:
  "observe_findByUri l u = Ret None \<longleftrightarrow> (\<forall>t\<in>set l. \<not> freed t) \<and> (\<forall>t\<in>o_uri ` set l. \<not> same_uri u t)"
proof -
  have "observe_findByUri l u = (case find (\<lambda>t. freed t \<or> same_uri u (o_uri t)) l of
      None \<Rightarrow> Ret None | Some t \<Rightarrow> if freed t then UB else Ret (Some t))"
    unfolding observe_findByUri_def same_uri_def Let_def
    by (rule arg_cong [where f = "\<lambda>P. case find P l of None \<Rightarrow> Ret None | Some t \<Rightarrow> if freed t then UB else Ret (Some t)"]) auto
  moreover have "t \<in> set l \<and> (freed t \<or> same_uri u (o_uri t))"
    if "find (\<lambda>t. freed t \<or> same_uri u (o_uri t)) l = Some t" for t
    using that by (auto simp: find_Some_iff)
  ultimately show ?thesis
    by (cases "find (\<lambda>t. freed t \<or> same_uri u (o_uri t)) l") (auto simp: find_None_iff)
qed

text \<open>A request to observe a URI is given to the first entry that agrees on the parts the URI has,
  even when the entry is for something below it.  The server's watcher of that entry gets the token
  of the request, no entry for the requested URI exists afterwards, and the answer is \<open>2.05\<close>.\<close>

theorem observe_captured_by_longer_uri:
  assumes "prv_findObserved l uriP = Ret (Some i)" "prv_findWatcher (watcherList (l ! i)) sv = Some j"
    "observe_findByUri l uriP = Ret None" "coap_get_header_observe m = Some 0" "token m \<noteq> []"
    "is_set_instance uriP" "\<not> is_set_resource uriP" "\<not> is_set_resource_instance uriP"
  shows "\<exists>r l'. observe_handleRequest sameS session mem now l uriP sv dataP m response = Ret (COAP_205_CONTENT, r, l')
    \<and> map o_uri l' = map o_uri l \<and> observe_findByUri l' uriP = Ret None \<and> w_token (get_watcher l' (i, j)) = token m"
proof -
  have ij: "i < length l" "j < length (watcherList (l ! i))"
    using assms(1,2) by (auto dest: findObserved_less findWatcher_less)
  have uris: "map o_uri (set_watcher (i, j) w l) = map o_uri l" for w
    using ij by (simp add: set_watcher_def map_update list_update_same_conv)
  have "map freed (set_watcher (i, j) w l) = map freed l" for w
    using ij by (simp add: set_watcher_def map_update list_update_same_conv)
  then have by_uri: "observe_findByUri (set_watcher (i, j) w l) uriP = Ret None" for w
    using assms(3) uris [of w] unfolding findByUri_None by (metis (no_types) list.set_map image_eqI imageE)
  have "prv_getWatcher mem l uriP sv = Ret (Some (i, j), l)" using assms(1,2) by (simp add: prv_getWatcher_def)
  then obtain r w where "observe_handleRequest sameS session mem now l uriP sv dataP m response
      = Ret (COAP_205_CONTENT, r, set_watcher (i, j) w l)" "w_token w = token m"
    using assms(4-8) by (simp add: observe_handleRequest_def observe_register_def Let_def)
  moreover have "w_token (get_watcher (set_watcher (i, j) w l) (i, j)) = w_token w"
    using ij by (simp add: set_watcher_def get_watcher_def)
  ultimately show ?thesis using uris [of w] by_uri [of w] by simp
qed

theorem observe_captured_by_longer_uri_witness:
  "\<exists>r l'. observe_handleRequest (=) id (\<lambda>_. True) 60 [\<lparr>o_uri = example_uri 9, watcherList = [example_watcher], freed = False\<rparr>]
       ((example_uri 9)\<lparr>resourceId := LWM2M_MAX_ID\<rparr>) 0 [] (coap_set_header_token example_request [3, 4]) example_response
     = Ret (COAP_205_CONTENT, r, l') \<and> map o_uri l' = [example_uri 9] \<and> w_token (get_watcher l' (0, 0)) = [3, 4]"
proof -
  let ?l = "[\<lparr>o_uri = example_uri 9, watcherList = [example_watcher], freed = False\<rparr>]"
    and ?u = "(example_uri 9)\<lparr>resourceId := LWM2M_MAX_ID\<rparr>"
    and ?m = "coap_set_header_token example_request [3, 4]"
  have m: "coap_get_header_observe ?m = Some 0" "token ?m = [3, 4]"
    by (simp_all add: example_request_def coap_get_header_observe_def coap_set_header_token_def
        coap_set_header_observe_def coap_init_message_def coap_zero_def SET_OPTION_def IS_OPTION_def)
  have u: "prv_findObserved ?l ?u = Ret (Some 0)" "observe_findByUri ?l ?u = Ret None" "is_set_instance ?u"
    "\<not> is_set_resource ?u" "\<not> is_set_resource_instance ?u"
    by (simp_all add: observed_matches_def example_uri_def observe_findByUri_def)
  have w: "prv_findWatcher (watcherList (?l ! 0)) 0 = Some 0" by (simp add: example_watcher_def)
  from observe_captured_by_longer_uri [OF u(1) w u(2) m(1) _ u(3-5), of "(=)" id "\<lambda>_. True" 60 "[]" example_response] m(2)
  obtain r l' where "observe_handleRequest (=) id (\<lambda>_. True) 60 ?l ?u 0 [] ?m example_response = Ret (COAP_205_CONTENT, r, l')"
    "map o_uri l' = map o_uri ?l" "w_token (get_watcher l' (0, 0)) = token ?m" by auto
  then show ?thesis using m(2) by auto
qed

section \<open>The periods of a notification\<close>

text \<open>C26: The periods of a watcher: it is notified when the maximum period is over; before the minimum
  period is over it is not, unless for that, and the step sleeps no longer than the rest of it; and a
  change is notified once the minimum period is over, whatever thresholds and step are set.\<close>

theorem watcher_notify_periods:
  assumes "watcher_notify w type now currentTime timeoutP = Ret (notify, timeout')" "parameters w = Some p"
  defines "pmax \<equiv> has_flag (toSet p) ATTR_FLAG_MAX_PERIOD \<and> lastTime w + int (unat (maxPeriod p)) \<le> currentTime"
    and "waiting \<equiv> lastTime w + int (unat (minPeriod p)) > currentTime"
  shows "(pmax \<longrightarrow> notify)
    \<and> (has_flag (toSet p) ATTR_FLAG_MIN_PERIOD \<and> waiting \<and> notify \<longrightarrow> pmax)
    \<and> (has_flag (toSet p) ATTR_FLAG_MIN_PERIOD \<and> waiting \<and> update w
        \<longrightarrow> timeout' \<le> lastTime w + int (unat (minPeriod p)) - currentTime)
    \<and> (has_flag (toSet p) ATTR_FLAG_MIN_PERIOD \<and> \<not> waiting \<and> update w \<longrightarrow> notify)
    \<and> timeout' \<le> timeoutP"
  using assms by (auto simp: watcher_notify_def oc_bind_eq_Ret Let_def split: if_splits)

theorem watcher_notify_periods_witness:
  "let p = no_attributes\<lparr>toSet := 0x11, minPeriod := 10, step := 0x7FE0000000000000\<rparr> in
     watcher_notify (example_watcher\<lparr>update := True, parameters := Some p\<rparr>) LWM2M_TYPE_OPAQUE 0 60 30 = Ret (True, 30)"
proof -
  let ?p = "no_attributes\<lparr>toSet := 0x11, minPeriod := 10, step := 0x7FE0000000000000\<rparr>"
  let ?w = "example_watcher\<lparr>update := True, parameters := Some ?p\<rparr>"
  obtain n t where r: "watcher_notify ?w LWM2M_TYPE_OPAQUE 0 60 30 = Ret (n, t)" "t = 30"
    by (simp add: watcher_notify_def numeric_condition_def stepped_def Let_def example_watcher_def has_flag_def no_attributes_def)
  moreover have n
    using watcher_notify_periods [OF r(1), of ?p] by (simp add: example_watcher_def has_flag_def no_attributes_def)
  ultimately show ?thesis by (simp add: Let_def)
qed

section \<open>Deleting the instances of an object\<close>




definition deletable :: "unit lwm2m_object_t" where
  "deletable = device\<lparr>instanceList := [0, 1], deleteFunc := Some (\<lambda>w i. (COAP_202_DELETED, (remove1 i (fst w), snd w)))\<rparr>"


lemma delete_listed_clear:
  "\<not> list_ex freed l \<Longrightarrow> \<exists>l'. observe_clear l u = Ret l' \<and> \<not> list_ex freed l'"
  by (auto simp: observe_clear_def list_ex_iff)

lemma delete_loop_diverges:
  fixes ob :: "'a lwm2m_object_t" and l :: "'b observed"
  assumes f: "f (is, u0) i0 = (COAP_202_DELETED, (is, u0))" "is = i0 # rest"
    and start: "get_owned ob = (is, u0)" "\<not> list_ex freed l"
  shows "delete_loop ob u f l = None"
proof (rule ccontr)
  assume "delete_loop ob u f l \<noteq> None"
  then obtain r where r: "delete_loop ob u f l = Some r" by blast
  let ?Q = "\<lambda>ob u g (l :: 'b observed) r. get_owned ob = (is, u0) \<longrightarrow> g = f \<longrightarrow> list_ex freed l"
  have "?Q ob u f l r"
  proof (rule delete_loop.raw_induct [where P = ?Q, OF _ r])
    fix loop and ob :: "'a lwm2m_object_t" and u g and l :: "'b observed" and r
    assume IH: "\<And>ob u g l r. loop ob u g l = Some r \<Longrightarrow> ?Q ob u g l r"
      and body: "(case instanceList ob of [] \<Rightarrow> Some (Ret (COAP_202_DELETED, ob, l))
         | i # is \<Rightarrow> (case delete_listed ob u g i l of UB \<Rightarrow> Some UB
           | Ret (result, ob', l') \<Rightarrow>
             if result = COAP_202_DELETED then loop ob' u g l' else Some (Ret (result, ob', l')))) = Some r"
    show "?Q ob u g l r"
    proof (intro impI, rule ccontr)
      assume owned: "get_owned ob = (is, u0)" "g = f" and "\<not> list_ex freed l"
      then obtain l' where l': "observe_clear l (u\<lparr>instanceId := i0\<rparr>) = Ret l'" "\<not> list_ex freed l'"
        using delete_listed_clear by blast
      with body owned f have "loop (set_owned ob (is, u0)) u f l' = Some r"
        by (simp add: get_owned_def delete_listed_def)
      from IH [OF this] l'(2) show False by (simp add: get_owned_def set_owned_def)
    qed
  qed
  with start show False by simp
qed

text \<open>C28: With a callback that reports an instance as deleted and keeps it, the same request never
  returns: the loop asks for the first instance for ever (unless an entry of the list of observed
  resources has been freed, which the first round reads).\<close>

theorem object_delete_diverges:
  assumes "find_object objs (objectId u) = Some ob" "deleteFunc ob = Some f" "\<not> is_set_instance u"
    "instanceList ob = i # rest" "f (get_owned ob) i = (COAP_202_DELETED, get_owned ob)"
  shows "object_delete objs l u = (if list_ex freed l then Some UB else None)"
proof (cases "list_ex freed l")
  case True
  then have "delete_loop ob u f l = Some UB"
    using assms(4,5) by (simp add: delete_loop.simps delete_listed_def observe_clear_def get_owned_def)
  with assms True show ?thesis by (simp add: object_delete_def Let_def)
next
  case False
  have "delete_loop ob u f l = None"
    using assms(4,5) False by (intro delete_loop_diverges [of f "instanceList ob" "objData ob" i rest]) (simp_all add: get_owned_def)
  with assms False show ?thesis by (simp add: object_delete_def Let_def)
qed

theorem object_delete_diverges_witness:
  "object_delete [deletable\<lparr>deleteFunc := Some (\<lambda>w i. (COAP_202_DELETED, w))\<rparr>] ([] :: nat observed)
     \<lparr>objectId = 3, instanceId = LWM2M_MAX_ID, resourceId = LWM2M_MAX_ID, resourceInstanceId = LWM2M_MAX_ID\<rparr> = None"
  using object_delete_diverges [where i = 0 and rest = "[1]" and f = "\<lambda>w i. (COAP_202_DELETED, w)"
        and ob = "deletable\<lparr>deleteFunc := Some (\<lambda>w i. (COAP_202_DELETED, w))\<rparr>"
        and objs = "[deletable\<lparr>deleteFunc := Some (\<lambda>w i. (COAP_202_DELETED, w))\<rparr>]" and l = "[] :: nat observed"
        and u = "\<lparr>objectId = 3, instanceId = LWM2M_MAX_ID, resourceId = LWM2M_MAX_ID, resourceInstanceId = LWM2M_MAX_ID\<rparr>"]
  by (simp add: find_object_def deletable_def device_def)

end
