(* ===== verification/RegLinks.thy ===== *)
theory RegLinks
  imports RegPayload Uri
begin

text \<open>
  The parsers of \<open>core/registration.c\<close> on the server: the query of a registration request and its
  payload, a list of links.  A pointer into a message is the list of the bytes from there on, to the
  end of the memory it may read; a read beyond is \<open>UB\<close>.  A segment of the query is the pair of its
  bytes and of what follows it in memory.
\<close>

section \<open>The query\<close>

text \<open>\<open>lwm2m_strncmp(data, str, strlen(str)) == 0\<close>, for a string without NUL.\<close>

fun str_prefix :: "bytes \<Rightarrow> bytes \<Rightarrow> bool outcome" where
  "str_prefix [] data = Ret True"
| "str_prefix (c # cs) [] = UB"
| "str_prefix (c # cs) (d # ds) = (if d = c then str_prefix cs ds else Ret False)"

definition QUERY_NAME :: bytes where "QUERY_NAME = ascii ''ep=''"
definition QUERY_SMS :: bytes where "QUERY_SMS = ascii ''sms=''"
definition QUERY_LIFETIME :: bytes where "QUERY_LIFETIME = ascii ''lt=''"
definition QUERY_VERSION :: bytes where "QUERY_VERSION = ascii ''lwm2m=''"
definition QUERY_BINDING :: bytes where "QUERY_BINDING = ascii ''b=''"
definition QUERY_QUEUE_MODE :: bytes where "QUERY_QUEUE_MODE = ascii ''Q''"

record reg_params =
  q_name :: "bytes option"
  q_lifetime :: u32
  q_msisdn :: "bytes option"
  q_binding :: u8
  q_version :: lwm2m_version_t

definition no_params :: reg_params where
  "no_params = \<lparr>q_name = None, q_lifetime = 0, q_msisdn = None, q_binding = 0, q_version = VERSION_MISSING\<rparr>"

text \<open>The digits of the lifetime; \<open>None\<close> is the jump to \<open>error\<close>.\<close>

fun lifetime_loop :: "bytes \<Rightarrow> u32 \<Rightarrow> u32 option" where
  "lifetime_loop [] n = Some n"
| "lifetime_loop (b # bs) n =
     (if b < ch_zero \<or> b > ch_nine then None else lifetime_loop bs (n * 10 + ucast (b - ch_zero)))"

text \<open>The copy of a value of \<open>n\<close> bytes behind a keyword.  A keyword that goes on behind its segment
  has a negative \<open>n\<close>: the copy runs over the memory when the allocation succeeds.\<close>

definition query_copy :: "bool \<Rightarrow> nat \<Rightarrow> bytes \<Rightarrow> bytes option outcome" where
  "query_copy mem k seg =
     (if \<not> mem then Ret None else if length seg < k then UB else Ret (Some (drop k seg)))"

text \<open>One segment of the query; \<open>None\<close> is the jump to \<open>error\<close>.\<close>

definition getParameters_one :: "bool \<Rightarrow> bytes \<times> bytes \<Rightarrow> reg_params \<Rightarrow> reg_params option outcome" where
  "getParameters_one mem query p =
     (let seg = fst query; data = seg @ snd query; starts = (\<lambda>str. str_prefix str data);
          empty = (\<lambda>str. length seg = length str) in
      oc_bind (starts QUERY_NAME) (\<lambda>b. if b then
        (if q_name p \<noteq> None \<or> empty QUERY_NAME then Ret None
         else oc_bind (query_copy mem (length QUERY_NAME) seg) (\<lambda>v. Ret (Some (p\<lparr>q_name := v\<rparr>))))
      else oc_bind (starts QUERY_SMS) (\<lambda>b. if b then
        (if q_msisdn p \<noteq> None \<or> empty QUERY_SMS then Ret None
         else oc_bind (query_copy mem (length QUERY_SMS) seg) (\<lambda>v. Ret (Some (p\<lparr>q_msisdn := v\<rparr>))))
      else oc_bind (starts QUERY_LIFETIME) (\<lambda>b. if b then
        (if q_lifetime p \<noteq> 0 \<or> empty QUERY_LIFETIME then Ret None
         else Ret (map_option (\<lambda>n. p\<lparr>q_lifetime := n\<rparr>) (lifetime_loop (drop (length QUERY_LIFETIME) seg) 0)))
      else oc_bind (starts QUERY_VERSION) (\<lambda>b. if b then
        (if q_version p \<noteq> VERSION_MISSING \<or> empty QUERY_VERSION then Ret None
         else Ret (Some (p\<lparr>q_version := (if length seg < length QUERY_VERSION then VERSION_UNRECOGNIZED
                else utils_stringToVersion (drop (length QUERY_VERSION) seg))\<rparr>)))
      else oc_bind (starts QUERY_BINDING) (\<lambda>b. if b then
        (if q_binding p AND NOT BINDING_Q \<noteq> 0 \<or> empty QUERY_BINDING then Ret None
         else if length seg < length QUERY_BINDING then UB
         else Ret (Some (p\<lparr>q_binding := q_binding p OR utils_stringToBinding (drop (length QUERY_BINDING) seg)\<rparr>)))
      else oc_bind (starts QUERY_QUEUE_MODE) (\<lambda>b. if b then
        (if q_binding p AND BINDING_Q \<noteq> 0 \<or> \<not> empty QUERY_QUEUE_MODE then Ret None
         else Ret (Some (p\<lparr>q_binding := q_binding p OR BINDING_Q\<rparr>)))
      else Ret (Some p))))))))"

fun getParameters_loop :: "(nat \<Rightarrow> bool) \<Rightarrow> nat \<Rightarrow> (bytes \<times> bytes) list \<Rightarrow> reg_params \<Rightarrow> reg_params option outcome" where
  "getParameters_loop mem i [] p = Ret (Some p)"
| "getParameters_loop mem i (q # qs) p =
     oc_bind (getParameters_one (mem i) q p) (\<lambda>r.
       case r of None \<Rightarrow> Ret None | Some p' \<Rightarrow> getParameters_loop mem (Suc i) qs p')"

definition prv_getParameters :: "(nat \<Rightarrow> bool) \<Rightarrow> (bytes \<times> bytes) list \<Rightarrow> reg_params option outcome" where
  "prv_getParameters mem query =
     oc_bind (getParameters_loop mem 0 query no_params) (\<lambda>r.
       Ret (case r of None \<Rightarrow> None
         | Some p \<Rightarrow>
             (let p' = (if q_binding p = 0 then p\<lparr>q_binding := BINDING_UNKNOWN\<rparr> else p) in
              if q_version p' = VERSION_1_0 \<and> q_binding p' AND (BINDING_T OR BINDING_N) \<noteq> 0 then None
              else Some p')))"

section \<open>The link of the root\<close>

abbreviation (input) ch_space :: u8 where "ch_space \<equiv> 0x20"
abbreviation (input) ch_gt :: u8 where "ch_gt \<equiv> 0x3E"
abbreviation (input) ch_semicolon :: u8 where "ch_semicolon \<equiv> 0x3B"
abbreviation (input) ch_equals :: u8 where "ch_equals \<equiv> 0x3D"
abbreviation (input) ch_quote :: u8 where "ch_quote \<equiv> 0x22"

text \<open>The number of bytes at the start that are not \<open>c\<close>, that are spaces; trailing spaces removed.\<close>

definition span_until :: "u8 \<Rightarrow> bytes \<Rightarrow> nat" where
  "span_until c d = length (takeWhile (\<lambda>b. b \<noteq> c) d)"

definition span_spaces :: "bytes \<Rightarrow> nat" where
  "span_spaces d = length (takeWhile (\<lambda>b. b = ch_space) d)"

definition trim_end :: "bytes \<Rightarrow> bytes" where
  "trim_end d = rev (dropWhile (\<lambda>b. b = ch_space) (rev d))"

text \<open>\<open>prv_splitLinkAttribute\<close>: the end, the key and the value; \<open>None\<close> is the return of 0.\<close>

definition prv_splitLinkAttribute :: "bytes \<Rightarrow> (nat \<times> bytes \<times> bytes) option" where
  "prv_splitLinkAttribute data =
     (let i0 = span_spaces data in
      if i0 = length data then None
      else let keyStart = (if data ! i0 = ch_semicolon then i0 + 1 else i0) in
      if keyStart = length data then None
      else let i1 = keyStart + span_until ch_equals (drop keyStart data) in
      if i1 = keyStart \<or> i1 = length data then None
      else let valueStart = i1 + 1 + span_spaces (drop (i1 + 1) data) in
      if valueStart = length data then None
      else let stop = valueStart + span_until ch_semicolon (drop valueStart data);
               value = take (stop - valueStart) (drop valueStart data);
               trimmed = (if value = [] then [] else hd value # trim_end (tl value)) in
      if length trimmed = 1 then None
      else Some (stop, take (i1 - keyStart) (drop keyStart data), trimmed))"

lemma splitLinkAttribute_pos: "prv_splitLinkAttribute data = Some (stop, key, value) \<Longrightarrow> 0 < stop"
  by (auto simp: prv_splitLinkAttribute_def Let_def split: if_splits)

text \<open>The loop over the attributes: the rest, the number of \<open>rt\<close> and the format.\<close>

function parseLinkAttributes_loop ::
    "build \<Rightarrow> bytes \<Rightarrow> nat \<Rightarrow> lwm2m_media_type_t \<Rightarrow> (nat \<times> lwm2m_media_type_t) option" where
  "parseLinkAttributes_loop b data rtValCount format =
     (if data = [] then Some (rtValCount, format)
      else case prv_splitLinkAttribute data of
        None \<Rightarrow> None
      | Some (stop, key, value) \<Rightarrow>
          if key = ascii ''rt'' then
            (if value \<noteq> [ch_quote] @ ascii ''oma.lwm2m'' @ [ch_quote] \<or> rtValCount \<ge> 1 then None
             else parseLinkAttributes_loop b (drop stop data) (rtValCount + 1) format)
          else if key = ascii ''ct'' then
            (if format \<noteq> LWM2M_CONTENT_TLV then None
             else if value = ascii ''11543'' then parseLinkAttributes_loop b (drop stop data) rtValCount LWM2M_CONTENT_JSON
             else if old_content_format b \<and> value = ascii ''1543''
             then parseLinkAttributes_loop b (drop stop data) rtValCount LWM2M_CONTENT_JSON_OLD
             else if value = ascii ''110'' then parseLinkAttributes_loop b (drop stop data) rtValCount LWM2M_CONTENT_SENML_JSON
             else if value = ascii ''112'' then parseLinkAttributes_loop b (drop stop data) rtValCount LWM2M_CONTENT_SENML_CBOR
             else None)
          else parseLinkAttributes_loop b (drop stop data) rtValCount format)"
  by pat_completeness auto

termination
  by (relation "measure (\<lambda>(b, data, n, f). length data)") (auto dest: splitLinkAttribute_pos)

declare parseLinkAttributes_loop.simps [simp del]

text \<open>The index of the last \<open>>\<close>, or 0.\<close>

definition last_gt :: "bytes \<Rightarrow> nat" where
  "last_gt d = length (dropWhile (\<lambda>b. b \<noteq> ch_gt) (rev d)) - 1"

text \<open>\<open>prv_parseLinkAttributes\<close>: the format and the alternative path; \<open>None\<close> is the return of 0.\<close>

definition prv_parseLinkAttributes ::
    "build \<Rightarrow> bool \<Rightarrow> bytes \<Rightarrow> lwm2m_media_type_t \<Rightarrow> (lwm2m_media_type_t \<times> bytes option) option" where
  "prv_parseLinkAttributes b mem segment format =
     (let seg = trim_end segment in
      if length seg < 2 \<or> seg ! 0 \<noteq> ch_lt then None
      else let data = tl seg; index = last_gt data in
      if index = 0 \<or> index = length data - 1 then None
      else let pathStart = (if data ! 0 = ch_slash then 1 else 0);
               path = take (index - pathStart) (drop pathStart data) in
      if data ! (index + 1) \<noteq> ch_semicolon then None
      else case parseLinkAttributes_loop b (drop (index + 2) data) 0 format of
        None \<Rightarrow> None
      | Some (rtValCount, format') \<Rightarrow>
          if rtValCount > 1 then None
          else if path = [] then Some (format', None)
          else if \<not> mem then None
          else Some (format', Some path))"

section \<open>The link of an object or an instance\<close>

text \<open>From here on the code reads the byte behind the segment.  \<open>limit\<close> is the first index from 0 up
  to \<open>n\<close> with the byte \<open>c\<close>, or \<open>n\<close>.\<close>

fun scan_until :: "u8 \<Rightarrow> bytes \<Rightarrow> nat \<Rightarrow> nat outcome" where
  "scan_until c data 0 = Ret 0"
| "scan_until c [] (Suc n) = UB"
| "scan_until c (d # ds) (Suc n) = (if d = c then Ret 0 else oc_bind (scan_until c ds n) (\<lambda>k. Ret (Suc k)))"

fun skip_spaces :: "bytes \<Rightarrow> nat \<Rightarrow> (bytes \<times> nat) outcome" where
  "skip_spaces data 0 = Ret (data, 0)"
| "skip_spaces [] (Suc n) = UB"
| "skip_spaces (d # ds) (Suc n) = (if d = ch_space then skip_spaces ds n else Ret (d # ds, Suc n))"

definition ATTR_VERSION_STR :: bytes where "ATTR_VERSION_STR = ascii ''ver=''"

text \<open>The version attribute of \<open>limit\<close> bytes: the version and what the indices \<open>data\<close>, \<open>limit\<close> and
  \<open>length\<close> move by; \<open>None\<close> is the return of 0.\<close>

definition parse_version :: "bytes \<Rightarrow> nat \<Rightarrow> (u8 \<times> u8 \<times> nat \<times> nat) option" where
  "parse_version data limit =
     (if limit < 6 then None
      else
        let shift = (if data ! 4 = ch_quote then 1 else 0);
            data1 = drop shift data; limit1 = limit - shift;
            extra = (if data1 ! (limit1 - 1) = ch_quote then 1 else 0);
            limit2 = limit1 - extra in
        if limit2 < 4 then None
        else let dot = 5 + span_until ch_dot (take (limit2 - 5) (drop 5 data1)) in
        if dot + 2 > limit2 then None
        else case utils_textToUInt (take (dot - 4) (drop 4 data1)) of
          None \<Rightarrow> None
        | Some major \<Rightarrow>
            if major > 255 then None
            else case utils_textToUInt (take (limit2 - dot - 1) (drop (dot + 1) data1)) of
              None \<Rightarrow> None
            | Some minor \<Rightarrow>
                if minor > 255 then None
                else Some (ucast major, ucast minor, shift, limit2 + extra))"

lemma skip_spaces_le: "skip_spaces data n = Ret (data1, n1) \<Longrightarrow> length data1 \<le> length data \<and> (n1 \<noteq> 0 \<longrightarrow> data1 \<noteq> [])"
proof (induction data n rule: skip_spaces.induct)
  case (3 d ds n)
  then show ?case by (cases "d = ch_space") auto
qed auto

lemma scan_until_0: "scan_until c data n = Ret 0 \<Longrightarrow> n \<noteq> 0 \<Longrightarrow> data ! 0 = c"
  by (cases data; cases n) (auto simp: oc_bind_eq_Ret split: if_splits)

lemma parse_version_pos: "parse_version data limit = Some (a, b, shift, limit2) \<Longrightarrow> 0 < limit2"
  by (auto simp: parse_version_def Let_def split: if_splits option.splits)

text \<open>The loop over the attributes; \<open>length\<close> is a \<open>uint16_t\<close> and wraps when the byte behind the link is
  a semicolon.\<close>

function link_attributes :: "bytes \<Rightarrow> u16 \<Rightarrow> u8 \<times> u8 \<Rightarrow> (u8 \<times> u8) option outcome" where
  "link_attributes data len v =
     (if len = 0 then Ret (Some v)
      else oc_bind (skip_spaces data (unat len)) (\<lambda>(data1, n1).
        if n1 = 0 then Ret (Some v)
        else oc_bind (scan_until ch_semicolon data1 n1) (\<lambda>limit.
          let isVersion = (limit > 4 \<and> take 4 data1 = ATTR_VERSION_STR);
              parsed = (if isVersion then (if v \<noteq> (0, 0) then None else parse_version data1 limit)
                        else Some (fst v, snd v, 0, limit)) in
          case parsed of
            None \<Rightarrow> Ret None
          | Some (major, minor, shift, limit2) \<Rightarrow>
              (let data2 = drop shift data1; n2 = n1 - shift in
               if limit2 \<ge> length data2 then UB
               else let limit3 = (if data2 ! limit2 = ch_semicolon then limit2 + 1 else limit2) in
                 link_attributes (drop limit3 data2) (word_of_nat n2 - word_of_nat limit3) (major, minor)))))"
  by pat_completeness auto

termination
proof (relation "measure (\<lambda>(data, n, v). length data)", simp, goal_cases)
  case (1 data len v x data1 n1 limit isV parsed y major w minor z shift limit2 data2 n2 limit3)
  then have le: "length data1 \<le> length data" "data1 \<noteq> []" by (auto dest: skip_spaces_le)
  have "0 < limit3"
  proof (cases isV)
    case True
    with 1 show ?thesis by (auto dest: parse_version_pos parse_version_pos [OF sym] split: if_splits)
  next
    case False
    with 1 have "limit2 = limit" "shift = 0" by auto
    then show ?thesis using 1 by (cases "limit = 0") (auto dest: scan_until_0)
  qed
  moreover have "limit2 < length data2" using 1 by simp
  ultimately show ?case using le 1 by auto
qed

declare link_attributes.simps [simp del]

text \<open>\<open>prv_getId\<close> on the memory from the start of a segment of \<open>len\<close> bytes: the object, the instance
  and the version; \<open>None\<close> is the return of 0.\<close>

definition prv_getId :: "bytes \<Rightarrow> nat \<Rightarrow> (u16 \<times> u16 option \<times> u8 \<times> u8) option outcome" where
  "prv_getId memory len =
     (let seg = trim_end (take len memory); stop = Ret None in
      if length seg < 2 \<or> seg ! 0 \<noteq> ch_lt \<or> seg ! 1 \<noteq> ch_slash then stop
      else
        let data = drop 2 memory; n = length seg - 2;
            limit = length (takeWhile (\<lambda>c. c \<noteq> ch_slash \<and> c \<noteq> ch_gt) (take n data)) in
        if limit = 0 \<or> limit \<ge> n then stop
        else oc_bind (uri_segmentId (take limit data)) (\<lambda>r. case r of
          None \<Rightarrow> stop
        | Some objId \<Rightarrow>
            let rest = (\<lambda>inst data n.
                  if n > 1 \<and> data ! 0 = ch_semicolon then
                    oc_bind (link_attributes (drop 1 data) (word_of_nat (n - 1)) (0, 0)) (\<lambda>a.
                      Ret (map_option (\<lambda>(major, minor). (objId, inst, major, minor)) a))
                  else Ret (Some (objId, inst, 0, 0))) in
            if data ! limit = ch_slash then
              (let data2 = drop (limit + 1) data; n2 = n - (limit + 1);
                   limit2 = span_until ch_gt (take n2 data2) in
               if limit2 \<ge> n2 then stop
               else if limit2 = 0 then rest None (drop 1 data2) (n2 - 1)
               else oc_bind (uri_segmentId (take limit2 data2)) (\<lambda>r. case r of
                 None \<Rightarrow> stop
               | Some inst \<Rightarrow> rest (Some inst) (drop (limit2 + 1) data2) (n2 - (limit2 + 1))))
            else rest None (drop (limit + 1) data) (n - (limit + 1))))"

section \<open>The payload\<close>

record lwm2m_client_object_t =
  co_id :: u16
  co_versionMajor :: u8
  co_versionMinor :: u8
  co_instanceList :: "u16 list"

definition new_client_object :: "u16 \<Rightarrow> lwm2m_client_object_t" where
  "new_client_object i = \<lparr>co_id = i, co_versionMajor = 0, co_versionMinor = 0, co_instanceList = []\<rparr>"

text \<open>The object and the instance of a link into the list; \<open>UB\<close> when an allocation fails, whose result
  is written before it is tested.\<close>

definition add_link ::
    "(nat \<Rightarrow> bool) \<Rightarrow> lwm2m_client_object_t list \<Rightarrow> u16 \<times> u16 option \<times> u8 \<times> u8 \<Rightarrow> lwm2m_client_object_t list outcome" where
  "add_link mem objList link =
     (case link of (i, inst, major, minor) \<Rightarrow>
        oc_bind (case lwm2m_list_find co_id objList i of
            Some ob \<Rightarrow> Ret (ob, objList)
          | None \<Rightarrow> if \<not> mem 0 then UB
                    else Ret (new_client_object i, lwm2m_list_add co_id objList (new_client_object i))) (\<lambda>(ob, l).
          let put = (\<lambda>ob'. map (\<lambda>x. if co_id x = i then ob' else x) l) in
          case inst of
            None \<Rightarrow> Ret (put (ob\<lparr>co_versionMajor := major, co_versionMinor := minor\<rparr>))
          | Some j \<Rightarrow>
              if lwm2m_list_find id (co_instanceList ob) j \<noteq> None then Ret l
              else if \<not> mem 1 then UB
              else Ret (put (ob\<lparr>co_instanceList := lwm2m_list_add id (co_instanceList ob) j\<rparr>))))"

record reg_content =
  rc_objects :: "lwm2m_client_object_t list"
  rc_format :: lwm2m_media_type_t
  rc_altPath :: "bytes option"

text \<open>The loop over the segments between commas: \<open>payload\<close> is what is left from \<open>index\<close> on, \<open>before\<close> what
  lies before it, \<open>after\<close> what follows the payload in memory; \<open>found\<close> is \<open>linkAttrFound\<close>, \<open>i\<close> counts the
  segments for the allocations.  \<open>start\<close> and \<open>length\<close> are \<open>uint16_t\<close>: from 65536 bytes on the segment is
  read from the wrong place.  \<open>None\<close> is the jump to \<open>error\<close>.\<close>

function decode_loop ::
    "build \<Rightarrow> (nat \<Rightarrow> bool) \<Rightarrow> bytes \<Rightarrow> nat \<Rightarrow> reg_content \<Rightarrow> bool \<Rightarrow> bytes \<Rightarrow> bytes \<Rightarrow> reg_content option outcome" where
  "decode_loop b mem after i c found before payload =
     (let spaces = takeWhile (\<lambda>x. x = ch_space) payload; rest = dropWhile (\<lambda>x. x = ch_space) payload in
      if rest = [] then Ret (Some c)
      else let n = span_until ch_comma rest; next = drop (Suc n) rest;
               before' = before @ spaces @ take (Suc n) rest;
               start = length (before @ spaces) mod 2 ^ 16; len = n mod 2 ^ 16;
               segment = drop start (before @ payload @ after) in
        oc_bind (prv_getId segment len) (\<lambda>r. case r of
          Some link \<Rightarrow>
            oc_bind (add_link (\<lambda>k. mem (3 * i + k)) (rc_objects c) link) (\<lambda>objs.
              decode_loop b mem after (Suc i) (c\<lparr>rc_objects := objs\<rparr>) found before' next)
        | None \<Rightarrow>
            if found then Ret None
            else (case prv_parseLinkAttributes b (mem (3 * i + 2)) (take len segment) (rc_format c) of
                    None \<Rightarrow> Ret None
                  | Some (format, altPath) \<Rightarrow>
                      decode_loop b mem after (Suc i) (c\<lparr>rc_format := format, rc_altPath := altPath\<rparr>) True before' next)))"
  by pat_completeness auto

termination
proof (relation "measure (\<lambda>(b, mem, after, i, c, found, before, payload). length payload)", simp, goal_cases)
  case (1 b mem after i c found before payload spaces rest n nxt)
  then have "length rest \<le> length payload" "rest \<noteq> []" by (simp_all add: length_dropWhile_le)
  then have "length (drop (Suc n) rest) < length payload" by (cases rest) auto
  with 1 show ?case by simp
next
  case (2 b mem after i c found before payload spaces rest n nxt)
  then have "length rest \<le> length payload" "rest \<noteq> []" by (simp_all add: length_dropWhile_le)
  then have "length (drop (Suc n) rest) < length payload" by (cases rest) auto
  with 2 show ?case by simp
qed

declare decode_loop.simps [simp del]

text \<open>\<open>prv_decodeRegisterPayload\<close>: the list of objects, empty for NULL, the format and the path.  On an
  error the list is NULL, and the callers do not look at the format.\<close>

definition prv_decodeRegisterPayload :: "build \<Rightarrow> (nat \<Rightarrow> bool) \<Rightarrow> bytes \<Rightarrow> bytes \<Rightarrow> reg_content outcome" where
  "prv_decodeRegisterPayload b mem after payload =
     (let none = \<lparr>rc_objects = [], rc_format = LWM2M_CONTENT_TLV, rc_altPath = None\<rparr> in
      oc_bind (decode_loop b mem after 0 none False [] payload) (\<lambda>r.
        Ret (case r of None \<Rightarrow> none | Some c \<Rightarrow> c)))"

end
