(* ===== verification/RegLinksProps.thy ===== *)
theory RegLinksProps
  imports RegLinks
begin

text \<open>
  What a client sends at its registration is what the server reads: the list of links of
  \<open>object_getRegisterPayload\<close> under \<open>prv_decodeRegisterPayload\<close>.
\<close>

section \<open>Texts without special characters\<close>

definition plain_text :: "bytes \<Rightarrow> bool" where
  "plain_text s \<longleftrightarrow> (\<forall>c\<in>set s. c \<notin> {ch_space, ch_slash, ch_gt, ch_semicolon, ch_equals, ch_quote, ch_comma, ch_dot})"

lemma plain_dec_text: "plain_text (dec_text n)"
  using dec_text_digits [of _ n] by (fastforce simp: plain_text_def is_digit_def)

lemma takeWhile_until: "c \<notin> set xs \<Longrightarrow> length (takeWhile (\<lambda>b. b \<noteq> c) (xs @ c # ys)) = length xs"
  by (subst takeWhile_append2) auto

lemma span_until_plain [simp]: "c \<notin> set xs \<Longrightarrow> span_until c (xs @ c # ys) = length xs"
  by (simp add: span_until_def takeWhile_until)

lemma trim_end_id: "s \<noteq> [] \<Longrightarrow> last s \<noteq> ch_space \<Longrightarrow> trim_end s = s"
  by (cases s rule: rev_cases) (simp_all add: trim_end_def)

lemma scan_until_absent: "c \<notin> set (take n data) \<Longrightarrow> n \<le> length data \<Longrightarrow> scan_until c data n = Ret n"
  by (induction c data n rule: scan_until.induct) auto

lemma last_gt_at: "ch_gt \<notin> set ys \<Longrightarrow> last_gt (xs @ ch_gt # ys) = length xs"
  using dropWhile_append2 [of "rev ys" "\<lambda>b. b \<noteq> ch_gt" "ch_gt # rev xs"] by (force simp: last_gt_def)

section \<open>The links of an object\<close>

definition instance_seg :: "u16 \<Rightarrow> u16 \<Rightarrow> bytes" where
  "instance_seg i j = [ch_lt, ch_slash] @ dec_text (unat i) @ [ch_slash] @ dec_text (unat j) @ [ch_gt]"

definition object_seg :: "u16 \<Rightarrow> bytes" where
  "object_seg i = [ch_lt, ch_slash] @ dec_text (unat i) @ [ch_gt]"

definition version_seg :: "u16 \<Rightarrow> u8 \<Rightarrow> u8 \<Rightarrow> bytes" where
  "version_seg i major minor = object_seg i @ [ch_semicolon] @ ATTR_VERSION_STR @ dec_text (unat major) @ [ch_dot]
     @ dec_text (unat minor)"

text \<open>\<open>seg\<close> is read as \<open>link\<close>, whatever follows it, if this does not start with a semicolon.\<close>

definition is_link :: "bytes \<Rightarrow> u16 \<times> u16 option \<times> u8 \<times> u8 \<Rightarrow> bool" where
  "is_link seg link \<longleftrightarrow> seg \<noteq> [] \<and> hd seg \<noteq> ch_space \<and> ch_comma \<notin> set seg \<and>
     (\<forall>m ms. m \<noteq> ch_semicolon \<longrightarrow> prv_getId (seg @ m # ms) (length seg) = Ret (Some link))"

lemma dec_text_not_special [simp]:
  "ch_space \<notin> set (dec_text n)" "ch_slash \<notin> set (dec_text n)" "ch_gt \<notin> set (dec_text n)"
  "ch_semicolon \<notin> set (dec_text n)" "ch_comma \<notin> set (dec_text n)" "ch_dot \<notin> set (dec_text n)"
  "ch_quote \<notin> set (dec_text n)"
  using plain_dec_text [of n] by (auto simp: plain_text_def)

lemma takeWhile_id_stop:
  assumes "c = ch_slash \<or> c = ch_gt"
  shows "takeWhile (\<lambda>b. b \<noteq> ch_slash \<and> b \<noteq> ch_gt) (dec_text n @ c # ys) = dec_text n"
proof -
  have "\<And>b. b \<in> set (dec_text n) \<Longrightarrow> b \<noteq> ch_slash \<and> b \<noteq> ch_gt"
    using dec_text_not_special [of n] by blast
  with assms show ?thesis by (subst takeWhile_append2) auto
qed

lemma instance_link:
  assumes "i \<noteq> LWM2M_MAX_ID" "j \<noteq> LWM2M_MAX_ID"
  shows "is_link (instance_seg i j) (i, Some j, 0, 0)"
proof -
  have "prv_getId (instance_seg i j @ ms) (length (instance_seg i j)) = Ret (Some (i, Some j, 0, 0))" for ms
    using uri_segmentId_text [OF assms(1)] uri_segmentId_text [OF assms(2)]
    by (simp add: prv_getId_def instance_seg_def trim_end_id takeWhile_id_stop nth_append Let_def)
  then show ?thesis by (simp add: is_link_def) (auto simp: instance_seg_def)
qed

lemma object_link:
  assumes "i \<noteq> LWM2M_MAX_ID"
  shows "is_link (object_seg i) (i, None, 0, 0)"
proof -
  have "prv_getId (object_seg i @ ms) (length (object_seg i)) = Ret (Some (i, None, 0, 0))" for ms
    using uri_segmentId_text [OF assms]
    by (simp add: prv_getId_def object_seg_def trim_end_id takeWhile_id_stop nth_append Let_def)
  then show ?thesis by (simp add: is_link_def) (auto simp: object_seg_def)
qed

lemma textToUInt_u8: "utils_textToUInt (dec_text (unat (v :: u8))) = Some (ucast v)"
  using textToUInt_dec_text [of "ucast v"] by simp

lemma dec_text_Cons: "\<exists>c cs. dec_text n = c # cs \<and> is_digit c"
  using dec_text_digits [of _ n] by (cases "dec_text n") auto

lemma last_dec_text: "is_digit (last (dec_text n))"
  using dec_text_digits [of "last (dec_text n)" n] by simp

lemma digit_not [simp]: "is_digit c \<Longrightarrow> c \<noteq> ch_quote" "is_digit c \<Longrightarrow> c \<noteq> ch_space"
  by (auto simp: is_digit_def)

lemma parse_version_text:
  assumes "t = ATTR_VERSION_STR @ dec_text (unat major) @ ch_dot # dec_text (unat minor)"
  shows "parse_version (t @ ms) (length t) = Some (major, minor, 0, length t)"
proof -
  obtain c cs where M: "dec_text (unat major) = c # cs" "is_digit c" using dec_text_Cons by blast
  have m: "dec_text (unat minor) \<noteq> []" by simp
  have len: "length t = 6 + length cs + length (dec_text (unat minor))" using assms M by (simp add: ATTR_VERSION_STR_def)
  have "(t @ ms) ! (length t - 1) = last (dec_text (unat minor))"
    using assms by (subst nth_append) (simp add: last_conv_nth)
  then have q: "(t @ ms) ! (length t - 1) \<noteq> ch_quote" using last_dec_text [of "unat minor"] by auto
  have v: "ATTR_VERSION_STR = [0x76, 0x65, 0x72, 0x3D]" by (simp add: ATTR_VERSION_STR_def ascii_def)
  have d4: "(t @ ms) ! 4 = c" "(t @ ms) ! 4 \<noteq> ch_quote" using assms M by (auto simp: v)
  have "drop 5 (t @ ms) = cs @ ch_dot # dec_text (unat minor) @ ms" using assms M by (simp add: v)
  moreover have "take (length t - 5) (cs @ ch_dot # dec_text (unat minor) @ ms) = cs @ ch_dot # dec_text (unat minor)"
    using len by simp
  moreover have "ch_dot \<notin> set cs" using dec_text_not_special(6) [of "unat major"] M by simp
  ultimately have dot: "span_until ch_dot (take (length t - 5) (drop 5 (t @ ms))) = length cs" by simp
  have "take (5 + length cs - 4) (drop 4 (t @ ms)) = dec_text (unat major)" using assms M by (simp add: v)
  moreover have "take (length t - (5 + length cs) - 1) (drop (5 + length cs + 1) (t @ ms)) = dec_text (unat minor)"
  proof -
    let ?P = "ATTR_VERSION_STR @ dec_text (unat major) @ [ch_dot]"
    have "length ?P = 5 + length cs + 1" using M by (simp add: v)
    moreover have "t @ ms = ?P @ dec_text (unat minor) @ ms" using assms by simp
    ultimately have "drop (5 + length cs + 1) (t @ ms) = dec_text (unat minor) @ ms"
      by (metis append_eq_conv_conj)
    then show ?thesis using len by simp
  qed
  moreover have "0 < length (dec_text (unat minor))" by simp
  moreover have "(ucast (ucast w :: u64) :: u8) = w" "\<not> (ucast w :: u64) > 255" for w :: u8
  proof -
    show "(ucast (ucast w :: u64) :: u8) = w" by (simp add: word_unat_eq_iff unat_ucast_mod)
    have "unat w \<le> 255" using unat_u8_less [of w] by linarith
    then show "\<not> (ucast w :: u64) > 255" by (simp add: word_less_nat_alt)
  qed
  ultimately show ?thesis using len q d4 dot textToUInt_u8 [of major] textToUInt_u8 [of minor] v
    unfolding parse_version_def Let_def
    by (simp del: append_assoc)
qed

lemma version_text_scan:
  assumes "t = ATTR_VERSION_STR @ dec_text (unat (major :: u8)) @ ch_dot # dec_text (unat (minor :: u8))"
  shows "unat (word_of_nat (length t) :: u16) = length t" "(word_of_nat (length t) :: u16) \<noteq> 0" "4 < length t" "t \<noteq> []"
    "last t \<noteq> ch_space" "skip_spaces (t @ ms) (length t) = Ret (t @ ms, length t)"
    "scan_until ch_semicolon (t @ ms) (length t) = Ret (length t)" "take 4 (t @ ms) = ATTR_VERSION_STR"
proof -
  have v: "ATTR_VERSION_STR = [0x76, 0x65, 0x72, 0x3D]" by (simp add: ATTR_VERSION_STR_def ascii_def)
  have short: "length t < 2 ^ 16" "4 < length t"
    using assms(1) length_dec_text_u8 [of major] length_dec_text_u8 [of minor] by (auto simp: v Suc_le_eq)
  then show len: "unat (word_of_nat (length t) :: u16) = length t" by (simp add: unat_of_nat)
  then show "(word_of_nat (length t) :: u16) \<noteq> 0" "t \<noteq> []" "4 < length t" using short by auto
  show "last t \<noteq> ch_space" using last_dec_text [of "unat minor"] assms by auto
  obtain k where k: "length t = Suc k" using short by (cases "length t") auto
  show "skip_spaces (t @ ms) (length t) = Ret (t @ ms, length t)" unfolding k using assms(1) by (simp add: v)
  have "ch_semicolon \<notin> set t" using assms(1) by (simp add: v)
  then show "scan_until ch_semicolon (t @ ms) (length t) = Ret (length t)" by (intro scan_until_absent) simp_all
  show "take 4 (t @ ms) = ATTR_VERSION_STR" using assms(1) by (simp add: v)
qed

text \<open>The byte behind the version is read: it is there and no semicolon, or the read is undefined.\<close>

lemma link_attributes_text:
  assumes "t = ATTR_VERSION_STR @ dec_text (unat major) @ ch_dot # dec_text (unat minor)"
  shows "m \<noteq> ch_semicolon \<Longrightarrow> link_attributes (t @ m # ms) (word_of_nat (length t)) (0, 0) = Ret (Some (major, minor))"
    "link_attributes t (word_of_nat (length t)) (0, 0) = UB"
  using version_text_scan [OF assms] version_text_scan(6-8) [OF assms, of "[]"]
    parse_version_text [OF assms, of "m # ms"] parse_version_text [OF assms, of "[]"]
  by (simp_all add: link_attributes.simps [of "t @ m # ms"] link_attributes.simps [of "m # ms"] link_attributes.simps [of t])

lemma getId_attributes:
  assumes "i \<noteq> LWM2M_MAX_ID" "t \<noteq> []" "last t \<noteq> ch_space" "seg = object_seg i @ ch_semicolon # t"
  shows "prv_getId (seg @ ms) (length seg) = oc_bind (link_attributes (t @ ms) (word_of_nat (length t)) (0, 0))
    (\<lambda>a. Ret (map_option (\<lambda>(major, minor). (i, None, major, minor)) a))"
proof -
  have trim: "trim_end seg = seg" using assms by (intro trim_end_id) (simp_all add: object_seg_def)
  have seg: "seg = ch_lt # ch_slash # dec_text (unat i) @ ch_gt # ch_semicolon # t"
    using assms(4) by (simp add: object_seg_def)
  then have n: "length seg - 2 = length (dec_text (unat i)) + Suc (Suc (length t))" by simp
  have tw: "takeWhile (\<lambda>c. c \<noteq> ch_slash \<and> c \<noteq> ch_gt) (take (length seg - 2) (drop 2 (seg @ ms))) = dec_text (unat i)"
    unfolding n using seg by (simp add: takeWhile_id_stop)
  have "take (length seg) (seg @ ms) = seg" by simp
  with trim n tw show ?thesis using seg assms(2) uri_segmentId_text [OF assms(1)]
    unfolding prv_getId_def Let_def by (simp add: nth_append)
qed

lemma version_seg_getId:
  assumes "i \<noteq> LWM2M_MAX_ID"
  shows "m \<noteq> ch_semicolon \<Longrightarrow> prv_getId (version_seg i major minor @ m # ms) (length (version_seg i major minor))
      = Ret (Some (i, None, major, minor))"
    "prv_getId (version_seg i major minor) (length (version_seg i major minor)) = UB"
proof -
  let ?t = "ATTR_VERSION_STR @ dec_text (unat major) @ ch_dot # dec_text (unat minor)"
  have "prv_getId (version_seg i major minor @ ms) (length (version_seg i major minor))
      = oc_bind (link_attributes (?t @ ms) (word_of_nat (length ?t)) (0, 0))
          (\<lambda>a. Ret (map_option (\<lambda>(major, minor). (i, None, major, minor)) a))" for ms
    using version_text_scan(4,5) [of ?t major minor] by (intro getId_attributes [OF assms]) (simp_all add: version_seg_def)
  note this [of "m # ms"] this [of "[]"]
  then show "m \<noteq> ch_semicolon \<Longrightarrow> prv_getId (version_seg i major minor @ m # ms) (length (version_seg i major minor))
      = Ret (Some (i, None, major, minor))"
    "prv_getId (version_seg i major minor) (length (version_seg i major minor)) = UB"
    using link_attributes_text(1) [of ?t major minor m ms] link_attributes_text(2) [of ?t major minor] by simp_all
qed

lemma version_seg_chars: "version_seg i major minor \<noteq> []" "hd (version_seg i major minor) \<noteq> ch_space"
  "ch_comma \<notin> set (version_seg i major minor)"
  by (auto simp: version_seg_def object_seg_def ATTR_VERSION_STR_def ascii_def)

lemma version_link: "i \<noteq> LWM2M_MAX_ID \<Longrightarrow> is_link (version_seg i major minor) (i, None, major, minor)"
  by (simp add: is_link_def version_seg_chars version_seg_getId)

section \<open>The list of objects\<close>

lemma find_all_less: "\<forall>x\<in>set l. key x < i \<Longrightarrow> lwm2m_list_find key l i = None"
  by (induction l) auto

lemma find_last: "\<forall>x\<in>set l. key x < i \<Longrightarrow> key y = i \<Longrightarrow> lwm2m_list_find key (l @ [y]) i = Some y"
  by (induction l) auto

lemma list_add_loop_last: "\<forall>x\<in>set l. key x < key y \<Longrightarrow> list_add_loop key l y = l @ [y]"
  by (induction l) auto

lemma list_add_last: "\<forall>x\<in>set l. key x < key y \<Longrightarrow> lwm2m_list_add key l y = l @ [y]"
  by (cases l) (auto simp: list_add_loop_last)

lemma map_put_last: "\<forall>x\<in>set l. key x < (i :: u16) \<Longrightarrow> key y = i \<Longrightarrow> map (\<lambda>x. if key x = i then z else x) (l @ [y]) = l @ [z]"
  by (induction l) auto

lemma add_link_object:
  "\<forall>x\<in>set l. co_id x < i \<Longrightarrow> add_link (\<lambda>_. True) l (i, None, major, minor)
    = Ret (l @ [(new_client_object i)\<lparr>co_versionMajor := major, co_versionMinor := minor\<rparr>])"
  using map_put_last [of l co_id i "new_client_object i"]
  by (simp add: add_link_def find_all_less list_add_last new_client_object_def)

lemma add_link_first_instance:
  "\<forall>x\<in>set l. co_id x < i \<Longrightarrow> add_link (\<lambda>_. True) l (i, Some j, major, minor)
    = Ret (l @ [(new_client_object i)\<lparr>co_instanceList := [j]\<rparr>])"
  using map_put_last [of l co_id i "new_client_object i"]
  by (simp add: add_link_def find_all_less list_add_last new_client_object_def)

lemma add_link_instance:
  "\<forall>x\<in>set l. co_id x < i \<Longrightarrow> co_id ob = i \<Longrightarrow> \<forall>k\<in>set (co_instanceList ob). k < j \<Longrightarrow>
     add_link (\<lambda>_. True) (l @ [ob]) (i, Some j, major, minor)
      = Ret (l @ [ob\<lparr>co_instanceList := co_instanceList ob @ [j]\<rparr>])"
  using map_put_last [of l co_id i ob]
  by (simp add: add_link_def find_last find_all_less list_add_last)

fun add_links :: "lwm2m_client_object_t list \<Rightarrow> (u16 \<times> u16 option \<times> u8 \<times> u8) list \<Rightarrow> lwm2m_client_object_t list outcome" where
  "add_links objs [] = Ret objs"
| "add_links objs (l # ls) = oc_bind (add_link (\<lambda>_. True) objs l) (\<lambda>objs'. add_links objs' ls)"

lemma add_links_append: "add_links objs (xs @ ys) = oc_bind (add_links objs xs) (\<lambda>o'. add_links o' ys)"
proof (induction xs arbitrary: objs)
  case (Cons x xs)
  then show ?case by (cases "add_link (\<lambda>_. True) objs x") auto
qed simp

lemma add_links_instances:
  "\<forall>x\<in>set l. co_id x < i \<Longrightarrow> co_id ob = i \<Longrightarrow> sorted_wrt (<) (co_instanceList ob @ js) \<Longrightarrow>
     add_links (l @ [ob]) (map (\<lambda>j. (i, Some j, 0, 0)) js) = Ret (l @ [ob\<lparr>co_instanceList := co_instanceList ob @ js\<rparr>])"
proof (induction js arbitrary: ob)
  case (Cons j js)
  have "\<forall>k\<in>set (co_instanceList ob). k < j" using Cons.prems(3) by (simp add: sorted_wrt_append)
  then show ?case using Cons.IH [of "ob\<lparr>co_instanceList := co_instanceList ob @ [j]\<rparr>"] Cons.prems
    by (simp add: add_link_instance)
qed simp

definition client_object :: "'s lwm2m_object_t \<Rightarrow> lwm2m_client_object_t" where
  "client_object ob = \<lparr>co_id = objID ob, co_versionMajor = versionMajor ob, co_versionMinor = versionMinor ob,
     co_instanceList = instanceList ob\<rparr>"

definition own_link :: "'s lwm2m_object_t \<Rightarrow> bool" where
  "own_link ob \<longleftrightarrow> versionMajor ob \<noteq> 0 \<or> versionMinor ob \<noteq> 0 \<or> instanceList ob = []"

definition links_of :: "'s lwm2m_object_t \<Rightarrow> (u16 \<times> u16 option \<times> u8 \<times> u8) list" where
  "links_of ob = (if own_link ob then [(objID ob, None, versionMajor ob, versionMinor ob)] else [])
     @ map (\<lambda>j. (objID ob, Some j, 0, 0)) (instanceList ob)"

lemma add_links_object:
  assumes "\<forall>x\<in>set l. co_id x < objID ob" "id_sorted id (instanceList ob)"
  shows "add_links l (links_of ob) = Ret (l @ [client_object ob])"
proof (cases "own_link ob")
  case True
  let ?ob = "(new_client_object (objID ob))\<lparr>co_versionMajor := versionMajor ob, co_versionMinor := versionMinor ob\<rparr>"
  have "sorted_wrt (<) (co_instanceList ?ob @ instanceList ob)"
    using assms(2) by (simp add: id_sorted_def new_client_object_def)
  then have "add_links (l @ [?ob]) (map (\<lambda>j. (objID ob, Some j, 0, 0)) (instanceList ob)) = Ret (l @ [client_object ob])"
    using assms(1) add_links_instances [of l "objID ob" ?ob "instanceList ob"]
    by (simp add: new_client_object_def client_object_def)
  with True assms(1) show ?thesis by (simp add: links_of_def add_link_object)
next
  case False
  then obtain j js where il: "instanceList ob = j # js" by (cases "instanceList ob") (auto simp: own_link_def)
  let ?ob = "(new_client_object (objID ob))\<lparr>co_instanceList := [j]\<rparr>"
  have "sorted_wrt (<) (co_instanceList ?ob @ js)"
    using assms(2) il by (simp add: id_sorted_def new_client_object_def)
  then have "add_links (l @ [?ob]) (map (\<lambda>j. (objID ob, Some j, 0, 0)) js) = Ret (l @ [client_object ob])"
    using assms(1) add_links_instances [of l "objID ob" ?ob js] il False
    by (simp add: new_client_object_def client_object_def own_link_def)
  with False assms(1) il show ?thesis by (simp add: links_of_def add_link_first_instance)
qed

lemma add_links_objects:
  assumes "id_sorted objID objs" "\<forall>ob\<in>set objs. id_sorted id (instanceList ob)"
    "\<forall>x\<in>set l. \<forall>ob\<in>set objs. co_id x < objID ob"
  shows "add_links l (concat (map links_of objs)) = Ret (l @ map client_object objs)"
  using assms
proof (induction objs arbitrary: l)
  case (Cons ob objs)
  have "add_links l (links_of ob) = Ret (l @ [client_object ob])" using Cons.prems by (intro add_links_object) (auto simp: id_def)
  moreover have "add_links (l @ [client_object ob]) (concat (map links_of objs)) = Ret ((l @ [client_object ob]) @ map client_object objs)"
    using Cons.prems by (intro Cons.IH) (auto simp: client_object_def)
  ultimately show ?case by (simp add: add_links_append)
qed simp

section \<open>The payload\<close>

definition join :: "bytes list \<Rightarrow> bytes" where
  "join segs = butlast (concat (map (\<lambda>s. s @ [ch_comma]) segs))"

lemma join_simps: "join [] = []" "join [s] = s" "join (s # t # ts) = s @ ch_comma # join (t # ts)"
  by (simp_all add: join_def butlast_append)

lemma join_first: "join (s # ts) = s @ (if ts = [] then [] else ch_comma # join ts)"
  by (cases ts) (simp_all add: join_simps)

text \<open>The loop without indices, which is what the code does with payloads of less than 65536 bytes.\<close>

function decode_segments ::
    "build \<Rightarrow> (nat \<Rightarrow> bool) \<Rightarrow> bytes \<Rightarrow> nat \<Rightarrow> reg_content \<Rightarrow> bool \<Rightarrow> bytes \<Rightarrow> reg_content option outcome" where
  "decode_segments b mem after i c found payload =
     (let rest = dropWhile (\<lambda>x. x = ch_space) payload in
      if rest = [] then Ret (Some c)
      else let n = span_until ch_comma rest; next = drop (Suc n) rest in
        oc_bind (prv_getId (rest @ after) n) (\<lambda>r. case r of
          Some link \<Rightarrow>
            oc_bind (add_link (\<lambda>k. mem (3 * i + k)) (rc_objects c) link) (\<lambda>objs.
              decode_segments b mem after (Suc i) (c\<lparr>rc_objects := objs\<rparr>) found next)
        | None \<Rightarrow>
            if found then Ret None
            else (case prv_parseLinkAttributes b (mem (3 * i + 2)) (take n rest) (rc_format c) of
                    None \<Rightarrow> Ret None
                  | Some (format, altPath) \<Rightarrow>
                      decode_segments b mem after (Suc i) (c\<lparr>rc_format := format, rc_altPath := altPath\<rparr>) True next)))"
  by pat_completeness auto

termination
proof (relation "measure (\<lambda>(b, mem, after, i, c, found, payload). length payload)", simp, goal_cases)
  case (1 b mem after i c found payload rest n nxt)
  then have "length rest \<le> length payload" "rest \<noteq> []" by (simp_all add: length_dropWhile_le)
  then have "length (drop (Suc n) rest) < length payload" by (cases rest) auto
  with 1 show ?case by simp
next
  case (2 b mem after i c found payload rest n nxt)
  then have "length rest \<le> length payload" "rest \<noteq> []" by (simp_all add: length_dropWhile_le)
  then have "length (drop (Suc n) rest) < length payload" by (cases rest) auto
  with 2 show ?case by simp
qed

declare decode_segments.simps [simp del]

lemma decode_loop_segments:
  assumes "length before + length payload < 2 ^ 16"
  shows "decode_loop b mem after i c found before payload = decode_segments b mem after i c found payload"
  using assms
proof (induction b mem after i c found payload arbitrary: before rule: decode_segments.induct)
  case (1 b mem after i c found payload)
  let ?spaces = "takeWhile (\<lambda>x. x = ch_space) payload" and ?rest = "dropWhile (\<lambda>x. x = ch_space) payload"
  let ?n = "span_until ch_comma ?rest"
  let ?before = "before @ ?spaces @ take (Suc ?n) ?rest" and ?next = "drop (Suc ?n) ?rest"
  have parts: "payload = ?spaces @ ?rest" by simp
  have len: "length payload = length ?spaces + length ?rest" by (metis parts length_append)
  have start: "length (before @ ?spaces) mod 2 ^ 16 = length (before @ ?spaces)" and "?n \<le> length ?rest"
    using 1(3) len by (simp_all add: span_until_def length_takeWhile_le)
  then have n: "?n mod 2 ^ 16 = ?n" using 1(3) len by simp
  have "before @ payload @ after = (before @ ?spaces) @ ?rest @ after" by (metis parts append_assoc)
  then have seg: "drop (length (before @ ?spaces)) (before @ payload @ after) = ?rest @ after" by (metis append_eq_conv_conj)
  have tk: "take ?n (?rest @ after) = take ?n ?rest" using \<open>?n \<le> length ?rest\<close> by simp
  show ?case
  proof (cases "?rest = []")
    case True
    then show ?thesis by (simp add: decode_loop.simps [of b mem after i c found before] decode_segments.simps [of b mem after i c found payload])
  next
    case False
    have "length ?before + length ?next = length before + length payload" using len by simp
    then have small: "length ?before + length ?next < 2 ^ 16" using 1(3) by simp
    note eqs = decode_loop.simps [of b mem after i c found before] decode_segments.simps [of b mem after i c found payload]
      Let_def start n seg tk if_not_P [OF False]
    show ?thesis
    proof (cases "prv_getId (?rest @ after) ?n")
      case UB
      then show ?thesis unfolding eqs by simp
    next
      case (Ret r)
      show ?thesis
      proof (cases r)
        case None
        have "decode_loop b mem after (Suc i) (c\<lparr>rc_format := f, rc_altPath := a\<rparr>) True ?before ?next
            = decode_segments b mem after (Suc i) (c\<lparr>rc_format := f, rc_altPath := a\<rparr>) True ?next"
          if "\<not> found" "prv_parseLinkAttributes b (mem (3 * i + 2)) (take ?n ?rest) (rc_format c) = Some (f, a)" for f a
          by (rule 1(1) [OF refl False refl refl Ret None that(1) that(2) refl small])
        then show ?thesis using Ret None unfolding eqs by (auto split: option.split)
      next
        case (Some link)
        have "decode_loop b mem after (Suc i) (c\<lparr>rc_objects := objs\<rparr>) found ?before ?next
            = decode_segments b mem after (Suc i) (c\<lparr>rc_objects := objs\<rparr>) found ?next"
          if "add_link (\<lambda>k. mem (3 * i + k)) (rc_objects c) link = Ret objs" for objs
          by (rule 1(2) [OF refl False refl refl Ret Some that small])
        then show ?thesis using Ret Some unfolding eqs
          by (cases "add_link (\<lambda>k. mem (3 * i + k)) (rc_objects c) link") simp_all
      qed
    qed
  qed
qed

lemma decodeRegisterPayload_segments:
  assumes "length payload < 2 ^ 16"
  shows "prv_decodeRegisterPayload b mem after payload =
     (let none = \<lparr>rc_objects = [], rc_format = LWM2M_CONTENT_TLV, rc_altPath = None\<rparr> in
      oc_bind (decode_segments b mem after 0 none False payload) (\<lambda>r.
        Ret (case r of None \<Rightarrow> none | Some c \<Rightarrow> c)))"
  using assms by (simp add: prv_decodeRegisterPayload_def decode_loop_segments)

lemma decode_link:
  assumes "is_link seg link" "m \<noteq> ch_semicolon"
  shows "decode_segments b mem (m # ms) i c found seg = oc_bind (add_link (\<lambda>k. mem (3 * i + k)) (rc_objects c) link)
      (\<lambda>objs. decode_segments b mem (m # ms) (Suc i) (c\<lparr>rc_objects := objs\<rparr>) found [])"
    "decode_segments b mem after i c found (seg @ ch_comma # rest) = oc_bind (add_link (\<lambda>k. mem (3 * i + k)) (rc_objects c) link)
      (\<lambda>objs. decode_segments b mem after (Suc i) (c\<lparr>rc_objects := objs\<rparr>) found rest)"
proof -
  from assms(1) have seg: "seg \<noteq> []" "hd seg \<noteq> ch_space" "ch_comma \<notin> set seg"
    "\<And>m ms. m \<noteq> ch_semicolon \<Longrightarrow> prv_getId (seg @ m # ms) (length seg) = Ret (Some link)"
    by (auto simp: is_link_def)
  have dw: "dropWhile (\<lambda>x. x = ch_space) (seg @ x) = seg @ x" for x
    using seg(1,2) by (cases seg) auto
  have n: "span_until ch_comma seg = length seg" using seg(3) by (metis (mono_tags, lifting) span_until_def takeWhile_eq_all_conv)
  show "decode_segments b mem (m # ms) i c found seg = oc_bind (add_link (\<lambda>k. mem (3 * i + k)) (rc_objects c) link)
      (\<lambda>objs. decode_segments b mem (m # ms) (Suc i) (c\<lparr>rc_objects := objs\<rparr>) found [])"
    using seg dw [of "[]"] n assms(2) by (subst decode_segments.simps) (simp add: Let_def)
  show "decode_segments b mem after i c found (seg @ ch_comma # rest) = oc_bind (add_link (\<lambda>k. mem (3 * i + k)) (rc_objects c) link)
      (\<lambda>objs. decode_segments b mem after (Suc i) (c\<lparr>rc_objects := objs\<rparr>) found rest)"
    using seg dw [of "ch_comma # rest"] by (subst decode_segments.simps) (simp add: Let_def)
qed

lemma decode_nil: "decode_segments b mem after i c found [] = Ret (Some c)"
  by (simp add: decode_segments.simps)

lemma decode_links:
  assumes "list_all2 is_link segs links" "m \<noteq> ch_semicolon"
  shows "decode_segments b (\<lambda>_. True) (m # ms) i c found (join segs)
    = oc_bind (add_links (rc_objects c) links) (\<lambda>objs. Ret (Some (c\<lparr>rc_objects := objs\<rparr>)))"
  using assms(1)
proof (induction segs arbitrary: links i c)
  case Nil
  then show ?case by (simp add: join_simps decode_nil)
next
  case (Cons seg segs)
  then obtain link ls where links: "links = link # ls" "is_link seg link" "list_all2 is_link segs ls"
    by (auto simp: list_all2_Cons1)
  note IH = Cons.IH [OF links(3)]
  show ?case
  proof (cases segs)
    case Nil
    with links show ?thesis using decode_link(1) [OF links(2) assms(2)]
      by (cases "add_link (\<lambda>_. True) (rc_objects c) link") (simp_all add: join_simps decode_nil)
  next
    case (Cons t ts)
    with links IH show ?thesis using decode_link(2) [OF links(2) assms(2)]
      by (cases "add_link (\<lambda>_. True) (rc_objects c) link") (simp_all add: join_simps)
  qed
qed

section \<open>The link of the root\<close>

definition root_seg :: "build \<Rightarrow> bytes option \<Rightarrow> bytes" where
  "root_seg b altPath = butlast (REG_START @ reg_path altPath @ REG_LWM2M_RESOURCE_TYPE b)"

definition root_attributes :: "build \<Rightarrow> bytes" where
  "root_attributes b = ascii ''rt='' @ [ch_quote] @ ascii ''oma.lwm2m'' @ [ch_quote] @
     (if support_senml_cbor b then ascii '';ct=112'' else if support_senml_json b then ascii '';ct=110''
      else if support_json b then ascii '';ct=11543'' else [])"

definition reg_format :: "build \<Rightarrow> lwm2m_media_type_t" where
  "reg_format b = (if support_senml_cbor b then LWM2M_CONTENT_SENML_CBOR
     else if support_senml_json b then LWM2M_CONTENT_SENML_JSON
     else if support_json b then LWM2M_CONTENT_JSON else LWM2M_CONTENT_TLV)"

text \<open>The alternative paths that are told from the number of an object, with their text after the slash.\<close>

definition path_ok :: "bytes option \<Rightarrow> bool" where
  "path_ok altPath \<longleftrightarrow> altPath = None \<or>
     (utils_isAltPathValid altPath \<and> (\<forall>p. altPath = Some p \<longrightarrow> \<not> is_digit (cstr_at p 1)))"

definition path_text :: "bytes option \<Rightarrow> bytes" where
  "path_text altPath = (case altPath of None \<Rightarrow> [] | Some p \<Rightarrow> tl p)"

lemma path_ok_text:
  assumes "path_ok altPath"
  shows "reg_path altPath = ch_slash # path_text altPath" "altPath_loop (path_text altPath)"
    "path_text altPath \<noteq> [] \<Longrightarrow> \<not> is_digit (hd (path_text altPath))"
proof -
  show "reg_path altPath = ch_slash # path_text altPath" "altPath_loop (path_text altPath)"
    using assms by (cases altPath; cases "the altPath";
        force simp: path_ok_def reg_path_def path_text_def REG_DEFAULT_PATH_def ascii_def utils_isAltPathValid_def
          cstr_at_def split: if_splits)+
  show "\<not> is_digit (hd (path_text altPath))" if "path_text altPath \<noteq> []"
    using assms that by (cases altPath; cases "the altPath"; cases "tl (the altPath)")
      (auto simp: path_ok_def path_text_def cstr_at_def)
qed

lemma altPath_loop_plain: "altPath_loop p \<Longrightarrow> c \<in> set p \<Longrightarrow>
    c \<noteq> ch_slash \<and> c \<noteq> ch_gt \<and> c \<noteq> ch_comma \<and> c \<noteq> ch_space"
  by (induction p) (auto simp: altPath_char_def is_digit_def split: if_splits)

lemma root_seg_text: "path_ok altPath \<Longrightarrow>
    root_seg b altPath = ch_lt # ch_slash # path_text altPath @ ch_gt # ch_semicolon # root_attributes b"
  by (simp add: root_seg_def path_ok_text(1) REG_START_def REG_LWM2M_RESOURCE_TYPE_def root_attributes_def ascii_def
      butlast_append)

lemma root_attributes_chars: "ch_gt \<notin> set (root_attributes b)" "ch_comma \<notin> set (root_attributes b)"
  "last (root_attributes b) \<noteq> ch_space" "root_attributes b \<noteq> []"
  by (simp_all add: root_attributes_def ascii_def)

lemma segmentId_none: "c \<noteq> ch_slash \<Longrightarrow> \<not> is_digit c \<Longrightarrow> uri_segmentId (c # cs) = Ret None"
  by (auto simp: uri_segmentId_def uri_getNumber_def prv_parseNumber_def is_digit_def)

lemma root_not_id:
  assumes "path_ok altPath"
  shows "prv_getId (root_seg b altPath @ ms) (length (root_seg b altPath)) = Ret None"
proof -
  let ?p = "path_text altPath" and ?r = "root_seg b altPath" and ?a = "root_attributes b"
  have r: "?r = ch_lt # ch_slash # ?p @ ch_gt # ch_semicolon # ?a" by (rule root_seg_text [OF assms])
  have trim: "trim_end ?r = ?r" using root_attributes_chars(3,4) [of b] by (intro trim_end_id) (simp_all add: r)
  have n: "length ?r - 2 = length ?p + Suc (Suc (length ?a))" by (simp add: r)
  have "\<And>c. c \<in> set ?p \<Longrightarrow> c \<noteq> ch_slash \<and> c \<noteq> ch_gt"
    using altPath_loop_plain [OF path_ok_text(2) [OF assms]] by blast
  then have tw: "takeWhile (\<lambda>c. c \<noteq> ch_slash \<and> c \<noteq> ch_gt) (take (length ?r - 2) (drop 2 (?r @ ms))) = ?p"
    unfolding n by (subst r) (simp add: takeWhile_append2)
  have seg: "?p \<noteq> [] \<Longrightarrow> uri_segmentId ?p = Ret None"
    using path_ok_text(2,3) [OF assms] altPath_loop_plain [of ?p "hd ?p"] segmentId_none [of "hd ?p" "tl ?p"] by simp
  have "take (length ?r) (?r @ ms) = ?r" by simp
  with trim n tw seg show ?thesis unfolding prv_getId_def Let_def by (simp add: r nth_append)
qed

lemma root_attributes_loop: "parseLinkAttributes_loop b (root_attributes b) 0 LWM2M_CONTENT_TLV = Some (1, reg_format b)"
  by (cases "support_senml_cbor b"; cases "support_senml_json b"; cases "support_json b")
    (simp_all add: root_attributes_def reg_format_def ascii_def parseLinkAttributes_loop.simps prv_splitLinkAttribute_def
      span_spaces_def span_until_def trim_end_def Let_def)

lemma root_link:
  assumes "path_ok altPath"
  shows "prv_parseLinkAttributes b True (root_seg b altPath) LWM2M_CONTENT_TLV
    = Some (reg_format b, if path_text altPath = [] then None else Some (path_text altPath))"
proof -
  let ?p = "path_text altPath" and ?r = "root_seg b altPath" and ?a = "root_attributes b"
  have r: "?r = ch_lt # ch_slash # ?p @ ch_gt # ch_semicolon # ?a" by (rule root_seg_text [OF assms])
  have trim: "trim_end ?r = ?r" using root_attributes_chars(3,4) [of b] by (intro trim_end_id) (simp_all add: r)
  have "last_gt (tl ?r) = Suc (length ?p)"
    using last_gt_at [of "ch_semicolon # ?a" "ch_slash # ?p"] root_attributes_chars(1) [of b] by (simp add: r)
  with trim r show ?thesis using root_attributes_loop [of b] root_attributes_chars(4) [of b]
    by (simp add: prv_parseLinkAttributes_def Let_def nth_append)
qed

section \<open>Client and server\<close>

definition segs_of :: "'s lwm2m_object_t \<Rightarrow> bytes list" where
  "segs_of ob = (if own_link ob then
       [if versionMajor ob \<noteq> 0 \<or> versionMinor ob \<noteq> 0 then version_seg (objID ob) (versionMajor ob) (versionMinor ob)
        else object_seg (objID ob)] else [])
     @ map (instance_seg (objID ob)) (instanceList ob)"

definition ids_ok :: "'s lwm2m_object_t \<Rightarrow> bool" where
  "ids_ok ob \<longleftrightarrow> objID ob \<noteq> LWM2M_MAX_ID \<and> LWM2M_MAX_ID \<notin> set (instanceList ob) \<and> id_sorted id (instanceList ob)"

lemma segs_links:
  assumes "ids_ok ob"
  shows "list_all2 is_link (segs_of ob) (links_of ob)"
proof -
  have "list_all2 is_link (map (instance_seg (objID ob)) is) (map (\<lambda>j. (objID ob, Some j, 0, 0)) is)"
    if "LWM2M_MAX_ID \<notin> set is" for "is"
    using that assms by (induction "is") (auto simp: ids_ok_def instance_link)
  with assms show ?thesis
    by (auto simp: segs_of_def links_of_def ids_ok_def own_link_def version_link object_link)
qed

lemma segs_links_objects: "\<forall>ob\<in>set obs. ids_ok ob \<Longrightarrow> list_all2 is_link (concat (map segs_of obs)) (concat (map links_of obs))"
  by (induction obs) (auto intro!: list_all2_appendI segs_links)

lemma segs_text: "objID ob \<noteq> LWM2M_SECURITY_OBJECT_ID \<Longrightarrow> concat (map (\<lambda>s. s @ [ch_comma]) (segs_of ob)) = object_links ob"
  by (auto simp: segs_of_def own_link_def object_links_def instance_links_def version_link_def butlast_link_start
      version_seg_def object_seg_def instance_seg_def link_start_def REG_PATH_END_def REG_VERSION_START_def
      ATTR_VERSION_STR_def ascii_def comp_def intro!: arg_cong [where f = concat])

definition visible :: "'s objects \<Rightarrow> 's objects" where
  "visible objs = filter (\<lambda>ob. objID ob \<noteq> LWM2M_SECURITY_OBJECT_ID) objs"

lemma visible_text: "concat (map object_links objs) = concat (map (\<lambda>s. s @ [ch_comma]) (concat (map segs_of (visible objs))))"
proof (induction objs)
  case (Cons ob objs)
  then show ?case by (simp add: visible_def segs_text) (simp add: object_links_def)
qed (simp add: visible_def)

lemma reg_text_join:
  "butlast (reg_text b altPath objs) = join (root_seg b altPath # concat (map segs_of (visible objs)))"
proof -
  have "REG_START @ reg_path altPath @ REG_LWM2M_RESOURCE_TYPE b = root_seg b altPath @ [ch_comma]"
    by (simp add: root_seg_def REG_LWM2M_RESOURCE_TYPE_def ascii_def butlast_append)
  then have "reg_text b altPath objs = (root_seg b altPath @ [ch_comma]) @ concat (map object_links objs)"
    unfolding reg_text_def by (metis append_assoc)
  then show ?thesis by (simp add: join_def visible_text)
qed

lemma decode_root:
  assumes "path_ok altPath" "segs = [] \<or> tail = ch_comma # join segs" "segs \<noteq> [] \<or> tail = []"
  shows "decode_segments b (\<lambda>_. True) after 0 \<lparr>rc_objects = [], rc_format = LWM2M_CONTENT_TLV, rc_altPath = None\<rparr> False
      (root_seg b altPath @ tail)
    = decode_segments b (\<lambda>_. True) after 1 \<lparr>rc_objects = [], rc_format = reg_format b,
        rc_altPath = (if path_text altPath = [] then None else Some (path_text altPath))\<rparr> True (join segs)"
proof -
  let ?r = "root_seg b altPath"
  have r: "?r = ch_lt # ch_slash # path_text altPath @ ch_gt # ch_semicolon # root_attributes b"
    by (rule root_seg_text [OF assms(1)])
  have "ch_comma \<notin> set ?r" using root_attributes_chars(2) [of b] altPath_loop_plain [OF path_ok_text(2) [OF assms(1)]]
    by (auto simp: r)
  then have n: "span_until ch_comma (?r @ tail) = length ?r"
    using assms(2,3) by (cases "segs = []") (simp_all, metis (mono_tags, lifting) span_until_def takeWhile_eq_all_conv)
  have dw: "dropWhile (\<lambda>x. x = ch_space) (?r @ tail) = ?r @ tail" by (simp add: r)
  have nt: "drop (Suc (length ?r)) (?r @ tail) = join segs"
    using assms(2,3) by (cases "segs = []") (simp_all add: join_simps)
  have id: "prv_getId ((?r @ tail) @ after) (length ?r) = Ret None"
    using root_not_id [OF assms(1), of b "tail @ after"] by simp
  have ne: "?r @ tail \<noteq> []" by (simp add: r)
  show ?thesis
    by (subst decode_segments.simps) (simp only: Let_def dw n nt id ne root_link [OF assms(1)] oc_bind.simps, simp add: root_link [OF assms(1)])
qed

lemma decode_visible:
  assumes "path_ok altPath" "id_sorted objID objs" "\<forall>ob\<in>set objs. ids_ok ob" "m \<noteq> ch_semicolon"
    "length (butlast (reg_text b altPath objs)) < 2 ^ 16"
  shows "prv_decodeRegisterPayload b (\<lambda>_. True) (m # ms) (butlast (reg_text b altPath objs))
    = Ret \<lparr>rc_objects = map client_object (visible objs), rc_format = reg_format b,
           rc_altPath = (if path_text altPath = [] then None else Some (path_text altPath))\<rparr>"
proof -
  let ?segs = "concat (map segs_of (visible objs))" and ?vs = "visible objs"
  have vs: "id_sorted objID ?vs" "\<forall>ob\<in>set ?vs. ids_ok ob" using assms(2,3)
    by (auto simp: visible_def id_sorted_def sorted_wrt_map intro: sorted_wrt_filter)
  note links = decode_links [OF segs_links_objects [OF vs(2)] assms(4)]
  have "add_links [] (concat (map links_of ?vs)) = Ret (map client_object ?vs)"
    using add_links_objects [OF vs(1), of "[]"] vs(2) by (simp add: ids_ok_def)
  moreover have "decode_segments b (\<lambda>_. True) (m # ms) 0 \<lparr>rc_objects = [], rc_format = LWM2M_CONTENT_TLV, rc_altPath = None\<rparr> False
      (root_seg b altPath @ (if ?segs = [] then [] else ch_comma # join ?segs))
    = decode_segments b (\<lambda>_. True) (m # ms) 1 \<lparr>rc_objects = [], rc_format = reg_format b,
        rc_altPath = (if path_text altPath = [] then None else Some (path_text altPath))\<rparr> True (join ?segs)"
    by (rule decode_root [OF assms(1)]) auto
  ultimately show ?thesis unfolding decodeRegisterPayload_segments [OF assms(5)] unfolding reg_text_join Let_def join_first [of "root_seg b altPath"]
    by (simp add: links split del: if_split)
qed

text \<open>C29: What a client sends is what the server reads: from the payload of a registration, the list of
  links that \<open>object_getRegisterPayload\<close> writes into the buffer of the computed size,
  \<open>prv_decodeRegisterPayload\<close> gets the objects with their versions and instances, the content format
  of the client and its alternative path, when the payload has less than 65536 bytes (the parser
  keeps indices in 16 bits), the byte behind it in memory is not a semicolon, no OSCORE object is
  registered, and the alternative path does not start with a digit.\<close>

theorem register_payload_roundtrip:
  assumes "path_ok altPath" "id_sorted objID objs" "\<forall>ob\<in>set objs. ids_ok ob" "m \<noteq> ch_semicolon"
    "length local = 10" "LWM2M_OSCORE_OBJECT_ID \<notin> objID ` set objs"
    "length buffer = object_getRegisterPayloadBufferLength b local altPath objs" "length buffer - 2 < 2 ^ 16"
  shows "\<exists>n buf. object_getRegisterPayload b altPath objs buffer = Some (n, buf)
    \<and> prv_decodeRegisterPayload b (\<lambda>_. True) (m # ms) (take n buf)
      = Ret \<lparr>rc_objects = map client_object (visible objs), rc_format = reg_format b,
             rc_altPath = (if path_text altPath = [] then None else Some (path_text altPath))\<rparr>"
  using object_getRegisterPayload_text [of b altPath objs buffer] bufferLength_text [OF assms(5,6)] assms(7,8)
    decode_visible [OF assms(1-4)] by fastforce

theorem register_payload_roundtrip_witness:
  "\<exists>n buf. object_getRegisterPayload server_build None [plain_object 0 [0], plain_object 1 [7]] (replicate 34 0) = Some (n, buf)
    \<and> prv_decodeRegisterPayload server_build (\<lambda>_. True) [0] (take n buf)
      = Ret \<lparr>rc_objects = [\<lparr>co_id = 1, co_versionMajor = 0, co_versionMinor = 0, co_instanceList = [7]\<rparr>],
             rc_format = LWM2M_CONTENT_SENML_CBOR, rc_altPath = None\<rparr>"
proof -
  let ?objs = "[plain_object 0 [0], plain_object 1 [7]]"
  have o: "LWM2M_OSCORE_OBJECT_ID \<notin> objID ` set ?objs" by (simp add: plain_object_def)
  have "object_getRegisterPayloadBufferLength server_build (replicate 10 0) None ?objs = 34"
    using bufferLength_text [OF _ o, of "replicate 10 0" server_build None] by (simp add: example_text)
  then show ?thesis
    using register_payload_roundtrip [OF _ _ _ _ _ o, of None 0 "replicate 10 0" "replicate 34 0" server_build "[]"]
    by (simp add: path_ok_def plain_object_def ids_ok_def visible_def client_object_def reg_format_def server_build_def path_text_def)
qed

section \<open>The byte behind the payload\<close>

lemma decode_links_overread:
  assumes "list_all2 is_link segs links" "add_links (rc_objects c) links = Ret objs" "i \<noteq> LWM2M_MAX_ID"
  shows "decode_segments b (\<lambda>_. True) [] k c found (join (segs @ [version_seg i major minor])) = UB"
  using assms(1,2)
proof (induction segs arbitrary: links k c)
  case Nil
  let ?s = "version_seg i major minor"
  have "dropWhile (\<lambda>x. x = ch_space) ?s = ?s" using version_seg_chars(1,2) [of i major minor] by (cases ?s) auto
  moreover have "span_until ch_comma ?s = length ?s"
    using version_seg_chars(3) by (metis (mono_tags, lifting) span_until_def takeWhile_eq_all_conv)
  ultimately show ?case using version_seg_getId(2) [OF assms(3)] version_seg_chars(1)
    by (simp add: join_simps decode_segments.simps [of b _ _ _ _ _ ?s] Let_def)
next
  case (Cons seg segs)
  then obtain link ls where links: "links = link # ls" "is_link seg link" "list_all2 is_link segs ls"
    by (auto simp: list_all2_Cons1)
  then obtain objs1 where "add_link (\<lambda>_. True) (rc_objects c) link = Ret objs1" "add_links objs1 ls = Ret objs"
    using Cons.prems(2) by (auto simp: oc_bind_eq_Ret)
  then show ?case using Cons.IH [OF links(3), of "c\<lparr>rc_objects := objs1\<rparr>"] decode_link(2) [OF links(2), of 0]
    by (simp add: join_first)
qed

text \<open>C30: When the last link of a payload has a version and the payload ends with its buffer, as one put
  together from blocks does, the parser reads the byte behind the buffer (for payloads of less than
  65536 bytes).\<close>

theorem register_payload_overread:
  assumes "path_ok altPath" "id_sorted objID (objs @ [ob])" "\<forall>x\<in>set (objs @ [ob]). ids_ok x"
    "objID ob \<noteq> LWM2M_SECURITY_OBJECT_ID" "versionMajor ob \<noteq> 0" "instanceList ob = []"
    "length (butlast (reg_text b altPath (objs @ [ob]))) < 2 ^ 16"
  shows "prv_decodeRegisterPayload b (\<lambda>_. True) [] (butlast (reg_text b altPath (objs @ [ob]))) = UB"
proof -
  let ?vs = "visible objs" and ?s = "version_seg (objID ob) (versionMajor ob) (versionMinor ob)"
  let ?segs = "concat (map segs_of ?vs)"
  have vs: "id_sorted objID ?vs" "\<forall>ob\<in>set ?vs. ids_ok ob" using assms(2,3)
    by (auto simp: visible_def id_sorted_def sorted_wrt_map sorted_wrt_append intro: sorted_wrt_filter)
  have segs: "concat (map segs_of (visible (objs @ [ob]))) = ?segs @ [?s]"
    using assms(4-6) by (simp add: visible_def segs_of_def own_link_def)
  have "add_links [] (concat (map links_of ?vs)) = Ret (map client_object ?vs)"
    using add_links_objects [OF vs(1), of "[]"] vs(2) by (simp add: ids_ok_def)
  moreover have "objID ob \<noteq> LWM2M_MAX_ID" using assms(3) by (simp add: ids_ok_def)
  ultimately have "decode_segments b (\<lambda>_. True) [] k \<lparr>rc_objects = [], rc_format = f, rc_altPath = a\<rparr> True (join (?segs @ [?s])) = UB"
    for k f a using segs_links_objects [OF vs(2)]
    by (intro decode_links_overread [where links = "concat (map links_of ?vs)" and objs = "map client_object ?vs"]) simp_all
  moreover have "decode_segments b (\<lambda>_. True) [] 0 \<lparr>rc_objects = [], rc_format = LWM2M_CONTENT_TLV, rc_altPath = None\<rparr> False
      (root_seg b altPath @ ch_comma # join (?segs @ [?s]))
    = decode_segments b (\<lambda>_. True) [] 1 \<lparr>rc_objects = [], rc_format = reg_format b,
        rc_altPath = (if path_text altPath = [] then None else Some (path_text altPath))\<rparr> True (join (?segs @ [?s]))"
    by (rule decode_root [OF assms(1)]) auto
  ultimately show ?thesis unfolding decodeRegisterPayload_segments [OF assms(7)] unfolding reg_text_join Let_def segs
    by (simp add: join_first [of "root_seg b altPath"])
qed

theorem register_payload_overread_witness:
  "prv_decodeRegisterPayload server_build (\<lambda>_. True) []
     (butlast (reg_text server_build None ([] @ [(plain_object 5 [])\<lparr>versionMajor := 1, versionMinor := 1\<rparr>]))) = UB"
proof -
  have "length (butlast (reg_text server_build None [(plain_object 5 [])\<lparr>versionMajor := 1, versionMinor := 1\<rparr>])) < 2 ^ 16"
    by (simp add: reg_text_def object_links_def plain_object_def link_start_def dec_text_less_ten
        digit_char_def REG_START_def reg_path_def REG_DEFAULT_PATH_def REG_LWM2M_RESOURCE_TYPE_def server_build_def
        REG_PATH_END_def ascii_def version_link_def instance_links_def REG_VERSION_START_def)
  then show ?thesis
    by (intro register_payload_overread) (simp_all add: path_ok_def plain_object_def ids_ok_def)
qed

end
