(* ===== verification/RegServer.thy ===== *)
theory RegServer
  imports RegLinks Block CoapCodec
begin

text \<open>
  The server side of \<open>core/registration.c\<close>: the clients that registered, the handling of register,
  update and de-register requests, and the expiry of registrations.  A pointer to a client is its
  identifier, a callback with its user data is a value of the type \<open>'o\<close>, and its calls are events.
  \<open>UB\<close> also stands for the use of a client that was freed.
\<close>

section \<open>Data\<close>

record 'o lwm2m_observation_t =
  ob_id :: u16
  ob_uri :: lwm2m_uri_t
  ob_status :: lwm2m_status_t
  ob_callback :: 'o

record ('p, 'o) lwm2m_client_t =
  c_internalID :: u16
  c_name :: "bytes option"
  c_version :: lwm2m_version_t
  c_binding :: u8
  c_msisdn :: "bytes option"
  c_altPath :: "bytes option"
  c_format :: lwm2m_media_type_t
  c_lifetime :: u32
  c_endOfLife :: int
  c_sessionH :: 'p
  c_objectList :: "lwm2m_client_object_t list"
  c_observationList :: "'o lwm2m_observation_t list"
  c_observationId :: u16
  c_blockData :: block_list

record ('p, 'o) server_ctx =
  clientList :: "('p, 'o) lwm2m_client_t list"
  monitorCallback :: bool

text \<open>A call of the monitoring callback with a client and a status, and of a result callback.\<close>

type_synonym block_info_t = "u32 \<times> u16 \<times> bool"

datatype 'o server_event =
    Monitored u16 u8
  | Reported 'o u16 lwm2m_uri_t int "block_info_t option" lwm2m_media_type_t "bytes option"

abbreviation (input) LWM2M_DEFAULT_LIFETIME :: u32 where "LWM2M_DEFAULT_LIFETIME \<equiv> 86400"

text \<open>The allocations: of the parameters, of the payload, of the client, of the location.\<close>

record reg_mem =
  paramMem :: "nat \<Rightarrow> bool"
  decodeMem :: "nat \<Rightarrow> bool"
  clientMem :: bool
  locationMem :: "nat \<Rightarrow> bool"

section \<open>Clients\<close>

text \<open>Names are compared with \<open>strcmp\<close>, up to the first NUL.\<close>

definition c_str :: "bytes \<Rightarrow> bytes" where
  "c_str n = takeWhile (\<lambda>x. x \<noteq> 0) n"

definition client_str :: "('p, 'o) lwm2m_client_t \<Rightarrow> bytes option" where
  "client_str c = map_option c_str (c_name c)"

definition prv_getClientByName :: "('p, 'o) lwm2m_client_t list \<Rightarrow> bytes \<Rightarrow> ('p, 'o) lwm2m_client_t option" where
  "prv_getClientByName l n = find (\<lambda>c. client_str c = Some (c_str n)) l"

definition utils_findClient :: "('p \<Rightarrow> 'p \<Rightarrow> bool) \<Rightarrow> ('p, 'o) lwm2m_client_t list \<Rightarrow> 'p \<Rightarrow> ('p, 'o) lwm2m_client_t option" where
  "utils_findClient sameS l from = find (\<lambda>c. sameS (c_sessionH c) from) l"

text \<open>Writing through a pointer to a client.\<close>

definition put_client :: "('p, 'o) lwm2m_client_t \<Rightarrow> ('p, 'o) lwm2m_client_t list \<Rightarrow> ('p, 'o) lwm2m_client_t list" where
  "put_client c = map (\<lambda>x. if c_internalID x = c_internalID c then c else x)"

text \<open>A client after \<open>memset\<close>.\<close>

definition new_client :: "u16 \<Rightarrow> 'p \<Rightarrow> ('p, 'o) lwm2m_client_t" where
  "new_client i from = \<lparr>c_internalID = i, c_name = None, c_version = VERSION_MISSING, c_binding = 0, c_msisdn = None,
     c_altPath = None, c_format = LWM2M_CONTENT_TEXT, c_lifetime = 0, c_endOfLife = 0, c_sessionH = from,
     c_objectList = [], c_observationList = [], c_observationId = 0, c_blockData = []\<rparr>"

definition prv_getLocationString :: "u16 \<Rightarrow> bytes option" where
  "prv_getLocationString i =
     (case utils_stringCopy (replicate 10 0) (ascii ''/rd/'') of
        (None, _) \<Rightarrow> None
      | (Some index, buf) \<Rightarrow>
          (case utils_intToText (ucast i) (drop index buf) of
             (0, _) \<Rightarrow> None
           | (n, rest) \<Rightarrow> Some (take (index + n) (take index buf @ rest))))"

section \<open>Requests\<close>

definition monitored :: "('p, 'o) server_ctx \<Rightarrow> u16 \<Rightarrow> u8 \<Rightarrow> 'o server_event list" where
  "monitored ctx i status = (if monitorCallback ctx then [Monitored i status] else [])"

text \<open>The client that a register request is for, when its name is known or it comes in blocks; the
  client of the session is freed when the name is another's.\<close>

definition register_client ::
    "('p \<Rightarrow> 'p \<Rightarrow> bool) \<Rightarrow> ('p, 'o) lwm2m_client_t list \<Rightarrow> bytes \<Rightarrow> bool \<Rightarrow> 'p
      \<Rightarrow> (('p, 'o) lwm2m_client_t option \<times> ('p, 'o) lwm2m_client_t list) outcome" where
  "register_client sameS l n block1 from =
     (let named = prv_getClientByName l n in
      if \<not> block1 then Ret (named, l)
      else case named of
        None \<Rightarrow> Ret (utils_findClient sameS l from, l)
      | Some clientP \<Rightarrow>
          (case utils_findClient sameS l from of
             None \<Rightarrow> UB
           | Some tmpClientP \<Rightarrow>
               (case lwm2m_list_remove c_internalID l (c_internalID tmpClientP) of
                  (l', None) \<Rightarrow> UB
                | (l', Some freed) \<Rightarrow>
                    if c_internalID freed = c_internalID clientP then UB else Ret (named, l'))))"

definition registration_register ::
    "('p \<Rightarrow> 'p \<Rightarrow> bool) \<Rightarrow> reg_mem \<Rightarrow> int \<Rightarrow> ('p, 'o) server_ctx \<Rightarrow> 'p \<Rightarrow> bool \<Rightarrow> reg_params \<Rightarrow> reg_content
      \<Rightarrow> coap_packet_t \<Rightarrow> (u8 \<times> coap_packet_t \<times> ('p, 'o) server_ctx \<times> 'o server_event list) outcome" where
  "registration_register sameS mem tv_sec ctx from block1 p content response =
     (let fail = (\<lambda>c ctx. Ret (c, response, ctx, [])) in
      if q_version p = VERSION_MISSING then fail COAP_400_BAD_REQUEST ctx
      else case q_name p of
        None \<Rightarrow> fail COAP_400_BAD_REQUEST ctx
      | Some n \<Rightarrow>
          if rc_objects content = [] then fail COAP_400_BAD_REQUEST ctx
          else if q_version p \<noteq> VERSION_1_0 \<and> q_version p \<noteq> VERSION_1_1 then fail COAP_412_PRECONDITION_FAILED ctx
          else
            let lifetime = (if q_lifetime p = 0 then LWM2M_DEFAULT_LIFETIME else q_lifetime p) in
            oc_bind (register_client sameS (clientList ctx) n block1 from) (\<lambda>(found, l).
              if found = None \<and> \<not> clientMem mem then fail COAP_500_INTERNAL_SERVER_ERROR (ctx\<lparr>clientList := l\<rparr>)
              else
                let (c0, l1) = (case found of
                      Some c \<Rightarrow> (c, l)
                    | None \<Rightarrow> (let c = new_client (lwm2m_list_newId c_internalID l) from
                              in (c, lwm2m_list_add c_internalID l c)));
                    c1 = c0\<lparr>c_name := Some n, c_version := q_version p, c_binding := q_binding p, c_msisdn := q_msisdn p,
                       c_altPath := rc_altPath content, c_format := rc_format content, c_lifetime := lifetime,
                       c_endOfLife := tv_sec + int (unat lifetime), c_objectList := rc_objects content, c_sessionH := from\<rparr>
                in case prv_getLocationString (c_internalID c1) of
                  None \<Rightarrow> UB
                | Some location \<Rightarrow>
                    (case coap_set_header_location_path (locationMem mem) response location of
                       (k, response') \<Rightarrow>
                         if k = 0 then UB
                         else Ret (COAP_201_CREATED, response', ctx\<lparr>clientList := put_client c1 l1\<rparr>,
                                   monitored ctx (c_internalID c1) COAP_201_CREATED))))"

definition observe_remove :: "'o lwm2m_observation_t list \<Rightarrow> 'o lwm2m_observation_t \<Rightarrow> 'o lwm2m_observation_t list" where
  "observe_remove l observationP = fst (lwm2m_list_remove ob_id l (ob_id observationP))"

text \<open>The loop over the observations: those of objects or instances that are gone are removed.\<close>

definition still_there :: "lwm2m_client_object_t list \<Rightarrow> lwm2m_uri_t \<Rightarrow> bool" where
  "still_there objects u =
     (case lwm2m_list_find co_id objects (objectId u) of
        None \<Rightarrow> False
      | Some objP \<Rightarrow> \<not> is_set_instance u \<or> lwm2m_list_find id (co_instanceList objP) (instanceId u) \<noteq> None)"

fun drop_observations ::
    "u16 \<Rightarrow> lwm2m_client_object_t list \<Rightarrow> 'o lwm2m_observation_t list \<Rightarrow> 'o lwm2m_observation_t list
      \<Rightarrow> 'o lwm2m_observation_t list \<times> 'o server_event list" where
  "drop_observations clientID objects [] l = (l, [])"
| "drop_observations clientID objects (o1 # os) l =
     (if still_there objects (ob_uri o1) then drop_observations clientID objects os l
      else let (l', es) = drop_observations clientID objects os (observe_remove l o1) in
        (l', Reported (ob_callback o1) clientID (ob_uri o1) (uint COAP_202_DELETED) None LWM2M_CONTENT_TEXT None # es))"

definition registration_update ::
    "int \<Rightarrow> ('p, 'o) server_ctx \<Rightarrow> lwm2m_uri_t \<Rightarrow> 'p \<Rightarrow> reg_params \<Rightarrow> reg_content \<Rightarrow> coap_packet_t
      \<Rightarrow> u8 \<times> coap_packet_t \<times> ('p, 'o) server_ctx \<times> 'o server_event list" where
  "registration_update tv_sec ctx uriP from p content response =
     (if is_set_instance uriP then (COAP_400_BAD_REQUEST, response, ctx, [])
      else case lwm2m_list_find c_internalID (clientList ctx) (objectId uriP) of
        None \<Rightarrow> (COAP_404_NOT_FOUND, response, ctx, [])
      | Some c \<Rightarrow>
          if q_name p \<noteq> None then (COAP_400_BAD_REQUEST, response, ctx, [])
          else
            let c1 = (if q_binding p \<noteq> BINDING_UNKNOWN then c\<lparr>c_binding := q_binding p\<rparr> else c);
                c2 = (if q_msisdn p \<noteq> None then c1\<lparr>c_msisdn := q_msisdn p\<rparr> else c1);
                c3 = (if q_lifetime p \<noteq> 0 then c2\<lparr>c_lifetime := q_lifetime p\<rparr> else c2);
                c4 = c3\<lparr>c_sessionH := from\<rparr>;
                (c5, es) = (if rc_objects content \<noteq> [] then
                    (let (obs, es) = drop_observations (c_internalID c4) (rc_objects content)
                           (c_observationList c4) (c_observationList c4)
                     in (c4\<lparr>c_observationList := obs, c_objectList := rc_objects content\<rparr>, es))
                    else (c4, []));
                c6 = c5\<lparr>c_endOfLife := tv_sec + int (unat (c_lifetime c5))\<rparr>
            in (COAP_204_CHANGED, response, ctx\<lparr>clientList := put_client c6 (clientList ctx)\<rparr>,
                es @ monitored ctx (c_internalID c6) COAP_204_CHANGED))"

text \<open>\<open>follow\<close> gives what follows the segments of the query in memory, \<open>after\<close> what follows the payload.\<close>

definition registration_handleRequest ::
    "build \<Rightarrow> ('p \<Rightarrow> 'p \<Rightarrow> bool) \<Rightarrow> reg_mem \<Rightarrow> (nat \<Rightarrow> bytes) \<Rightarrow> bytes \<Rightarrow> int \<Rightarrow> ('p, 'o) server_ctx \<Rightarrow> lwm2m_uri_t
      \<Rightarrow> 'p \<Rightarrow> coap_packet_t \<Rightarrow> coap_packet_t
      \<Rightarrow> (u8 \<times> coap_packet_t \<times> ('p, 'o) server_ctx \<times> 'o server_event list) outcome" where
  "registration_handleRequest b sameS mem follow after tv_sec ctx uriP from m response =
     (let fail = (\<lambda>c. Ret (c, response, ctx, [])) in
      if tv_sec < 0 then fail COAP_500_INTERNAL_SERVER_ERROR
      else if code m = COAP_POST then
        oc_bind (prv_getParameters (paramMem mem) (map (\<lambda>i. (uri_query m ! i, follow i)) [0..<length (uri_query m)])) (\<lambda>r.
          case r of
            None \<Rightarrow> fail COAP_400_BAD_REQUEST
          | Some p \<Rightarrow>
              if content_type m \<noteq> 40 \<and> content_type m \<noteq> 0 then fail COAP_400_BAD_REQUEST
              else oc_bind (prv_decodeRegisterPayload b (decodeMem mem) after (ptr_bytes (payload m))) (\<lambda>content.
                if \<not> is_set_object uriP
                then registration_register sameS mem tv_sec ctx from (IS_OPTION m OPT_BLOCK1) p content response
                else Ret (registration_update tv_sec ctx uriP from p content response)))
      else if code m = COAP_DELETE then
        (if \<not> is_set_object uriP \<or> is_set_instance uriP then fail COAP_400_BAD_REQUEST
         else case lwm2m_list_remove c_internalID (clientList ctx) (objectId uriP) of
           (l, None) \<Rightarrow> Ret (COAP_400_BAD_REQUEST, response, ctx\<lparr>clientList := l\<rparr>, [])
         | (l, Some c) \<Rightarrow> Ret (COAP_202_DELETED, response, ctx\<lparr>clientList := l\<rparr>, monitored ctx (c_internalID c) COAP_202_DELETED))
      else fail COAP_400_BAD_REQUEST)"

section \<open>The periodic step\<close>

fun expire_clients ::
    "('p, 'o) server_ctx \<Rightarrow> int \<Rightarrow> ('p, 'o) lwm2m_client_t list \<Rightarrow> ('p, 'o) lwm2m_client_t list \<Rightarrow> int
      \<Rightarrow> ('p, 'o) lwm2m_client_t list \<times> int \<times> 'o server_event list" where
  "expire_clients ctx currentTime [] l timeoutP = (l, timeoutP, [])"
| "expire_clients ctx currentTime (c # cs) l timeoutP =
     (if c_endOfLife c \<le> currentTime then
        (let (l', t', es) = expire_clients ctx currentTime cs (fst (lwm2m_list_remove c_internalID l (c_internalID c))) timeoutP
         in (l', t', monitored ctx (c_internalID c) COAP_202_DELETED @ es))
      else expire_clients ctx currentTime cs l (min timeoutP (c_endOfLife c - currentTime)))"

definition registration_step_server ::
    "('p, 'o) server_ctx \<Rightarrow> int \<Rightarrow> int \<Rightarrow> ('p, 'o) server_ctx \<times> int \<times> 'o server_event list" where
  "registration_step_server ctx currentTime timeoutP =
     (let (l, t, es) = expire_clients ctx currentTime (clientList ctx) (clientList ctx) timeoutP
      in (ctx\<lparr>clientList := l\<rparr>, t, es))"

end
