(* ===== verification/ObserveServer.thy ===== *)
theory ObserveServer
  imports RegServer Packet
begin

text \<open>
  The server side of \<open>core/observe.c\<close>: requests to observe a resource of a client and to cancel it,
  their answers, and notifications.  The user data of a transaction is part of its callback
  \<open>server_callback\<close>; freeing it is not modelled, except that freeing it twice is \<open>UB\<close>.
\<close>

section \<open>Data\<close>

record 'o observation_data_t =
  od_id :: u16
  od_client :: u16
  od_uri :: lwm2m_uri_t
  od_callback :: 'o

record 'o cancellation_data_t =
  cd_client :: u16
  cd_uri :: lwm2m_uri_t
  cd_callback :: 'o

text \<open>The data of a device management request, of \<open>core/management.c\<close>.\<close>

record 'o dm_data_t =
  dm_clientID :: u16
  dm_uri :: lwm2m_uri_t
  dm_callback :: 'o

datatype 'o server_callback =
    ObsRequest "'o observation_data_t"
  | ObsCancel "'o cancellation_data_t"
  | DmResult "'o dm_data_t"

definition prv_findObservationByURI :: "('p, 'o) lwm2m_client_t \<Rightarrow> lwm2m_uri_t \<Rightarrow> 'o lwm2m_observation_t option" where
  "prv_findObservationByURI clientP uriP =
     find (\<lambda>t. objectId (ob_uri t) = objectId uriP \<and> instanceId (ob_uri t) = instanceId uriP
             \<and> resourceId (ob_uri t) = resourceId uriP \<and> resourceInstanceId (ob_uri t) = resourceInstanceId uriP)
       (c_observationList clientP)"

definition find_client :: "('p, 'o) server_ctx \<Rightarrow> u16 \<Rightarrow> ('p, 'o) lwm2m_client_t option" where
  "find_client ctx i = lwm2m_list_find c_internalID (clientList ctx) i"

definition set_client :: "('p, 'o) lwm2m_client_t \<Rightarrow> ('p, 'o) server_ctx \<Rightarrow> ('p, 'o) server_ctx" where
  "set_client c ctx = ctx\<lparr>clientList := put_client c (clientList ctx)\<rparr>"

text \<open>Writing through a pointer to an observation.\<close>

definition set_observation :: "'o lwm2m_observation_t \<Rightarrow> ('p, 'o) lwm2m_client_t \<Rightarrow> ('p, 'o) lwm2m_client_t" where
  "set_observation t c = c\<lparr>c_observationList := map (\<lambda>x. if ob_id x = ob_id t then t else x) (c_observationList c)\<rparr>"

text \<open>The \<open>block_info\<close> of a response.\<close>

definition block_info :: "coap_packet_t \<Rightarrow> block_info_t option" where
  "block_info m = (case coap_get_header_block2 m of None \<Rightarrow> None | Some (num, mr, sz, offset) \<Rightarrow> Some (num, sz, mr \<noteq> 0))"

section \<open>Answers\<close>

definition prv_obsRequestCallback ::
    "build \<Rightarrow> bool \<Rightarrow> ('p, 'o) server_ctx \<Rightarrow> 'o observation_data_t \<Rightarrow> coap_packet_t option
      \<Rightarrow> ('p, 'o) server_ctx \<times> 'o server_event list" where
  "prv_obsRequestCallback b mem ctx d msg =
     (let report = Reported (od_callback d) (od_client d) (od_uri d) in
      case find_client ctx (od_client d) of
        None \<Rightarrow> (ctx, [report (uint COAP_500_INTERNAL_SERVER_ERROR) None LWM2M_CONTENT_TEXT None])
      | Some clientP \<Rightarrow>
          (let observationP = prv_findObservationByURI clientP (od_uri d);
               failed = (\<lambda>c. (ctx, [report (uint (c :: u8)) None LWM2M_CONTENT_TEXT None])) in
           if map_option ob_status observationP = Some STATE_DEREG_PENDING then failed COAP_400_BAD_REQUEST
           else case msg of
             None \<Rightarrow> failed COAP_503_SERVICE_UNAVAILABLE
           | Some packet \<Rightarrow>
               if code packet = COAP_205_CONTENT \<and> \<not> IS_OPTION packet OPT_OBSERVE then failed COAP_405_METHOD_NOT_ALLOWED
               else if code packet \<noteq> COAP_205_CONTENT then failed (code packet)
               else if IS_OPTION packet OPT_BLOCK2 \<and> block2_more packet \<noteq> 0
               then (ctx, [report (uint COAP_205_CONTENT) None (utils_convertMediaType b (ucast (content_type packet))) (payload packet)])
               else if observationP = None \<and> \<not> mem then (ctx, [])
               else
                 let (l, es) = (case observationP of
                       None \<Rightarrow> (c_observationList clientP, [])
                     | Some t \<Rightarrow> (fst (lwm2m_list_remove ob_id (c_observationList clientP) (ob_id t)),
                                  [report (uint COAP_202_DELETED) None LWM2M_CONTENT_TEXT None]));
                     t = \<lparr>ob_id = od_id d, ob_uri = od_uri d, ob_status = STATE_REGISTERED, ob_callback = od_callback d\<rparr>
                 in (set_client (clientP\<lparr>c_observationList := lwm2m_list_add ob_id l t\<rparr>) ctx,
                     es @ [report 0 (block_info packet) (utils_convertMediaType b (ucast (content_type packet))) (payload packet)])))"

text \<open>\<open>UB\<close>: the observation is removed without a test that it was found.\<close>

definition prv_obsCancelRequestCallback ::
    "build \<Rightarrow> ('p, 'o) server_ctx \<Rightarrow> 'o cancellation_data_t \<Rightarrow> coap_packet_t option
      \<Rightarrow> (('p, 'o) server_ctx \<times> 'o server_event list) outcome" where
  "prv_obsCancelRequestCallback b ctx d msg =
     (let report = Reported (cd_callback d) (cd_client d) (cd_uri d) in
      case find_client ctx (cd_client d) of
        None \<Rightarrow> Ret (ctx, [report (uint COAP_500_INTERNAL_SERVER_ERROR) None LWM2M_CONTENT_TEXT None])
      | Some clientP \<Rightarrow>
          (case msg of
             None \<Rightarrow> Ret (ctx, [report (uint COAP_503_SERVICE_UNAVAILABLE) None LWM2M_CONTENT_TEXT None])
           | Some packet \<Rightarrow>
               if code packet \<noteq> COAP_205_CONTENT
               then Ret (ctx, [report (uint (code packet)) None LWM2M_CONTENT_TEXT None])
               else
                 let es = [report 0 (block_info packet) (utils_convertMediaType b (ucast (content_type packet))) (payload packet)] in
                 if (case block_info packet of None \<Rightarrow> False | Some (num, sz, mr) \<Rightarrow> mr) then Ret (ctx, es)
                 else case prv_findObservationByURI clientP (cd_uri d) of
                   None \<Rightarrow> UB
                 | Some t \<Rightarrow>
                     Ret (set_client (clientP\<lparr>c_observationList := observe_remove (c_observationList clientP) t\<rparr>) ctx, es)))"

section \<open>Requests\<close>

text \<open>The token of an observation.\<close>

definition observation_token :: "u16 \<Rightarrow> u16 \<Rightarrow> bytes" where
  "observation_token client i = [ucast (drop_bit 8 client), ucast client, ucast (drop_bit 8 i), ucast i]"

text \<open>A new transaction with its callback, put on the list and sent.  When sending fails the user data
  is freed, after the callback of the transaction has freed it, if there was a call.\<close>

definition send_request ::
    "'p packet_env \<Rightarrow> bool \<Rightarrow> ('p, 'o server_callback, unit) packet_ctx
      \<Rightarrow> ('p, 'o server_callback, unit) lwm2m_transaction_t \<Rightarrow> bool
      \<Rightarrow> (int \<times> ('p, 'o server_callback, unit) packet_ctx \<times> ('p, 'o server_callback) event list) outcome" where
  "send_request env allocated pctx t freeData =
     oc_bind (send_on_list env allocated (pctx\<lparr>transactionList := lwm2m_list_add mID (transactionList pctx) t\<rparr>) t)
       (\<lambda>(r, pctx', es).
          if freeData \<and> r \<noteq> 0 \<and> list_ex (\<lambda>e. case e of Called c i m \<Rightarrow> True | _ \<Rightarrow> False) es then UB
          else Ret (r, pctx', es))"

text \<open>\<open>userMem\<close> is the allocation of the user data.\<close>

definition prv_lwm2m_observe ::
    "'p packet_env \<Rightarrow> packet_mem \<Rightarrow> bool \<Rightarrow> ('p, 'o) server_ctx \<Rightarrow> ('p, 'o server_callback, unit) packet_ctx
      \<Rightarrow> u16 \<Rightarrow> lwm2m_uri_t \<Rightarrow> 'o
      \<Rightarrow> (int \<times> ('p, 'o) server_ctx \<times> ('p, 'o server_callback, unit) packet_ctx \<times> ('p, 'o server_callback) event list) outcome" where
  "prv_lwm2m_observe env mem userMem ctx pctx clientID uriP cb =
     (if \<not> is_set_instance uriP \<and> is_set_resource uriP then Ret (uint COAP_400_BAD_REQUEST, ctx, pctx, [])
      else case find_client ctx clientID of
        None \<Rightarrow> Ret (uint COAP_404_NOT_FOUND, ctx, pctx, [])
      | Some c0 \<Rightarrow>
          if \<not> userMem then Ret (uint COAP_500_INTERNAL_SERVER_ERROR, ctx, pctx, [])
          else
            let i = c_observationId c0 + 1; c = c0\<lparr>c_observationId := i\<rparr> in
            if lwm2m_list_find ob_id (c_observationList c) i \<noteq> None
            then Ret (uint COAP_500_INTERNAL_SERVER_ERROR, set_client c ctx, pctx, [])
            else
              let d = \<lparr>od_id = i, od_client = c_internalID c, od_uri = uriP, od_callback = cb\<rparr>;
                  pctx1 = pctx\<lparr>nextMID := nextMID pctx + 1\<rparr> in
              case transaction_new (newMem mem) (gettime env) (stackJunk env) (Some (c_sessionH c)) COAP_GET (c_altPath c)
                     (Some uriP) (nextMID pctx) 4 (Some (observation_token (c_internalID c) i)) () of
                None \<Rightarrow> Ret (uint COAP_500_INTERNAL_SERVER_ERROR, set_client c ctx, pctx1, [])
              | Some t \<Rightarrow>
                  let m = coap_set_header_accept (coap_set_header_observe (message t) 0) (media_code (c_format c));
                      c' = (case prv_findObservationByURI c uriP of None \<Rightarrow> c
                            | Some ob \<Rightarrow> set_observation (ob\<lparr>ob_status := STATE_REG_PENDING\<rparr>) c)
                  in oc_bind (send_request env (bufferMem mem) pctx1 (t\<lparr>message := m, callback := Some (ObsRequest d)\<rparr>) True)
                       (\<lambda>(r, pctx2, es). Ret (r, set_client c' ctx, pctx2, es)))"

definition prv_lwm2m_observe_cancel ::
    "'p packet_env \<Rightarrow> packet_mem \<Rightarrow> bool \<Rightarrow> ('p, 'o) server_ctx \<Rightarrow> ('p, 'o server_callback, unit) packet_ctx
      \<Rightarrow> u16 \<Rightarrow> lwm2m_uri_t \<Rightarrow> 'o
      \<Rightarrow> (int \<times> ('p, 'o) server_ctx \<times> ('p, 'o server_callback, unit) packet_ctx \<times> ('p, 'o server_callback) event list) outcome" where
  "prv_lwm2m_observe_cancel env mem userMem ctx pctx clientID uriP cb =
     (case find_client ctx clientID of
        None \<Rightarrow> Ret (uint COAP_404_NOT_FOUND, ctx, pctx, [])
      | Some c \<Rightarrow>
          (case prv_findObservationByURI c uriP of
             None \<Rightarrow> Ret (uint COAP_404_NOT_FOUND, ctx, pctx, [])
           | Some ob \<Rightarrow>
               if ob_status ob = STATE_REGISTERED then
                 (let pctx1 = pctx\<lparr>nextMID := nextMID pctx + 1\<rparr>;
                      d = \<lparr>cd_client = c_internalID c, cd_uri = uriP, cd_callback = cb\<rparr> in
                  case transaction_new (newMem mem) (gettime env) (stackJunk env) (Some (c_sessionH c)) COAP_GET (c_altPath c)
                         (Some uriP) (nextMID pctx) 4 (Some (observation_token (c_internalID c) (ob_id ob))) () of
                    None \<Rightarrow> Ret (uint COAP_500_INTERNAL_SERVER_ERROR, ctx, pctx1, [])
                  | Some t \<Rightarrow>
                      if \<not> userMem then Ret (uint COAP_500_INTERNAL_SERVER_ERROR, ctx, pctx1, [])
                      else
                        let t' = t\<lparr>message := coap_set_header_observe (message t) 1, callback := Some (ObsCancel d)\<rparr>;
                            c' = set_observation (ob\<lparr>ob_status := STATE_DEREG_PENDING\<rparr>) c
                        in oc_bind (send_request env (bufferMem mem) pctx1 t' True)
                             (\<lambda>(r, pctx2, es). Ret (r, set_client c' ctx, pctx2, es)))
               else
                 Ret (if ob_status ob = STATE_REG_PENDING then uint COAP_204_CHANGED else uint COAP_IGNORE,
                      set_client (c\<lparr>c_observationList := observe_remove (c_observationList c) ob\<rparr>) ctx, pctx, [])))"

section \<open>Notifications\<close>

text \<open>Whether the notification was handled, the calls, and the acknowledgement or reset sent.\<close>

definition observe_handleNotify ::
    "build \<Rightarrow> 'p packet_env \<Rightarrow> bool \<Rightarrow> ('p, 'o) server_ctx \<Rightarrow> 'p \<Rightarrow> coap_packet_t
      \<Rightarrow> (bool \<times> 'o server_event list \<times> ('p, 'c) event list) outcome" where
  "observe_handleNotify b env allocated ctx from m =
     (let tok = coap_get_header_token m; no = Ret (False, [], []) in
      if length tok \<noteq> 4 then no
      else case coap_get_header_observe m of
        None \<Rightarrow> no
      | Some count \<Rightarrow>
          let clientID = word_cat (tok ! 0) (tok ! 1) :: u16; obsID = word_cat (tok ! 2) (tok ! 3) :: u16 in
          case find_client ctx clientID of
            None \<Rightarrow> no
          | Some clientP \<Rightarrow>
              (case lwm2m_list_find ob_id (c_observationList clientP) obsID of
                 None \<Rightarrow> oc_bind (message_send env allocated (coap_init_message COAP_TYPE_RST 0 (mid m)) from)
                           (\<lambda>(r, m', es). Ret (True, [], es))
               | Some ob \<Rightarrow>
                   oc_bind (if msg_type m = COAP_TYPE_CON
                            then oc_bind (message_send env allocated (coap_init_message COAP_TYPE_ACK 0 (mid m)) from)
                                   (\<lambda>(r, m', es). Ret es)
                            else Ret []) (\<lambda>es.
                     Ret (True, [Reported (ob_callback ob) clientID (ob_uri ob) (sint (count :: u32)) (block_info m)
                            (utils_convertMediaType b (ucast (content_type m))) (payload m)], es))))"

end
