(* ===== verification/RegServerProps.thy ===== *)
theory RegServerProps
  imports ObserveServer RegLinksProps CoapRoundtrip TransactionProps
begin

text \<open>
  Properties of the registration server: the invariant of the list of clients over all sequences of
  requests, the life of a registration, and the errors of the code.
\<close>

section \<open>Lists of nodes\<close>

lemma sorted_list_add:
  assumes "sorted (map key l)"
  shows "sorted (map key (lwm2m_list_add key l x)) \<and> set (lwm2m_list_add key l x) = insert x (set l)"
proof -
  have loop: "sorted (map key ts) \<Longrightarrow> sorted (map key (list_add_loop key ts x)) \<and> set (list_add_loop key ts x) = insert x (set ts)" for ts
    by (induction ts) auto
  show ?thesis
  proof (cases l)
    case (Cons h ts)
    with assms loop [of ts] show ?thesis by (auto intro: less_imp_le)
  qed simp
qed

lemma list_remove_loop_sorted: "sorted (map key l) \<Longrightarrow> sorted (map key (fst (list_remove_loop key l i)))
    \<and> set (fst (list_remove_loop key l i)) \<subseteq> set l"
  by (induction l) (auto split: prod.splits)

lemma sorted_list_remove: "sorted (map key l) \<Longrightarrow> sorted (map key (fst (lwm2m_list_remove key l i)))
    \<and> set (fst (lwm2m_list_remove key l i)) \<subseteq> set l"
  using list_remove_loop_sorted [of key "tl l" i] by (cases l) (auto split: prod.splits)

lemma id_sorted_remove_eq:
  "id_sorted key l \<Longrightarrow> fst (lwm2m_list_remove key l i) = filter (\<lambda>x. key x \<noteq> i) l"
proof -
  have loop: "id_sorted key ts \<Longrightarrow> fst (list_remove_loop key ts i) = filter (\<lambda>x. key x \<noteq> i) ts" for ts
  proof (induction ts)
    case (Cons t ts)
    have "filter (\<lambda>x. key x \<noteq> i) ts = ts" if "i \<le> key t"
      using Cons.prems that by (intro filter_True) auto
    with Cons show ?case by (auto split: prod.splits simp: not_less)
  qed simp
  assume l: "id_sorted key l"
  show ?thesis
  proof (cases l)
    case (Cons h ts)
    have "filter (\<lambda>x. key x \<noteq> key h) ts = ts" using l Cons by (intro filter_True) auto
    with l Cons loop [of ts] show ?thesis by (auto split: prod.splits)
  qed simp
qed

section \<open>The invariant\<close>

definition objects_ok :: "lwm2m_client_object_t list \<Rightarrow> bool" where
  "objects_ok l \<longleftrightarrow> id_sorted co_id l \<and> (\<forall>ob\<in>set l. id_sorted id (co_instanceList ob))"

definition client_ok :: "('p, 'o) lwm2m_client_t \<Rightarrow> bool" where
  "client_ok c \<longleftrightarrow> objects_ok (c_objectList c) \<and> sorted (map ob_id (c_observationList c))"

definition names_distinct :: "('p, 'o) lwm2m_client_t list \<Rightarrow> bool" where
  "names_distinct l \<longleftrightarrow> (\<forall>c\<in>set l. \<forall>d\<in>set l. client_str c \<noteq> None \<and> client_str c = client_str d \<longrightarrow> c_internalID c = c_internalID d)"

definition clients_ok :: "('p, 'o) lwm2m_client_t list \<Rightarrow> bool" where
  "clients_ok l \<longleftrightarrow> id_sorted c_internalID l \<and> (\<forall>c\<in>set l. client_ok c) \<and> names_distinct l"

lemma clients_okD: "clients_ok l \<Longrightarrow> id_sorted c_internalID l" "clients_ok l \<Longrightarrow> c \<in> set l \<Longrightarrow> client_ok c"
  "clients_ok l \<Longrightarrow> names_distinct l"
  by (auto simp: clients_ok_def)

lemma id_sorted_put: "id_sorted c_internalID (put_client c l) = id_sorted c_internalID l"
proof -
  have "map c_internalID (put_client c l) = map c_internalID l" by (simp add: put_client_def)
  then show ?thesis by (simp add: id_sorted_def)
qed

lemma set_put: "set (put_client c l) \<subseteq> insert c {x\<in>set l. c_internalID x \<noteq> c_internalID c}"
  by (auto simp: put_client_def)

lemma put_client_ok:
  assumes "clients_ok l" "client_ok c"
    "\<And>d. d \<in> set l \<Longrightarrow> client_str d = client_str c \<Longrightarrow> client_str c \<noteq> None \<Longrightarrow> c_internalID d = c_internalID c"
  shows "clients_ok (put_client c l)"
proof -
  have mem: "x = c \<or> (x \<in> set l \<and> c_internalID x \<noteq> c_internalID c)" if "x \<in> set (put_client c l)" for x
    using set_put [of c l] that by blast
  have "names_distinct (put_client c l)" unfolding names_distinct_def
  proof (intro ballI impI)
    fix x y assume xy: "x \<in> set (put_client c l)" "y \<in> set (put_client c l)" "client_str x \<noteq> None \<and> client_str x = client_str y"
    have both: "x \<in> set l \<Longrightarrow> y \<in> set l \<Longrightarrow> c_internalID x = c_internalID y"
      using clients_okD(3) [OF assms(1)] xy(3) unfolding names_distinct_def by blast
    note e = conjunct2 [OF xy(3), symmetric]
    from conjunct1 [OF xy(3)] obtain n where "client_str x = Some n" by blast
    with e have n: "client_str x = Some n" "client_str y = Some n" by simp_all
    from mem [OF xy(1)] mem [OF xy(2)] show "c_internalID x = c_internalID y"
      by (elim disjE conjE) (use both n assms(3) [of x] assms(3) [of y] in auto)
  qed
  moreover have "\<forall>x\<in>set (put_client c l). client_ok x" using mem assms(1,2) clients_okD(2) by blast
  ultimately show ?thesis using assms(1) by (simp add: clients_ok_def id_sorted_put)
qed

lemma clients_ok_subset: "clients_ok l \<Longrightarrow> set l' \<subseteq> set l \<Longrightarrow> id_sorted c_internalID l' \<Longrightarrow> clients_ok l'"
  unfolding clients_ok_def names_distinct_def by (meson subsetD)

lemma put_same_name:
  assumes "clients_ok l" "c0 \<in> set l" "client_ok c" "c_name c = c_name c0" "c_internalID c = c_internalID c0"
  shows "clients_ok (put_client c l)"
proof (rule put_client_ok [OF assms(1,3)])
  fix d assume "d \<in> set l" "client_str d = client_str c" "client_str c \<noteq> None"
  moreover have "client_str c = client_str c0" using assms(4) by (simp add: client_str_def)
  ultimately show "c_internalID d = c_internalID c"
    using clients_okD(3) [OF assms(1)] assms(2,5) unfolding names_distinct_def by metis
qed

lemma find_client_in: "find_client ctx i = Some c \<Longrightarrow> clients_ok (clientList ctx) \<Longrightarrow> c \<in> set (clientList ctx) \<and> c_internalID c = i"
  by (auto simp: find_client_def lwm2m_list_find_correct clients_ok_def dest: id_map_key)

lemma remove_clients_ok:
  assumes "clients_ok l"
  shows "clients_ok (fst (lwm2m_list_remove c_internalID l i))"
proof -
  note s = clients_okD(1) [OF assms]
  show ?thesis by (rule clients_ok_subset [OF assms lwm2m_list_remove_correct(2) [OF s] lwm2m_list_remove_correct(1) [OF s]])
qed

section \<open>What the parser gives\<close>

lemma objects_ok_put:
  assumes "objects_ok l" "id_sorted id (co_instanceList ob)" "co_id ob = i"
  shows "objects_ok (map (\<lambda>x. if co_id x = i then ob else x) l)"
proof -
  have "map co_id (map (\<lambda>x. if co_id x = i then ob else x) l) = map co_id l" using assms(3) by simp
  then have "id_sorted co_id (map (\<lambda>x. if co_id x = i then ob else x) l) = id_sorted co_id l"
    unfolding id_sorted_def by (rule arg_cong)
  with assms show ?thesis by (auto simp: objects_ok_def)
qed

lemma add_id_sorted: "id_sorted id l \<Longrightarrow> lwm2m_list_find id l j = None \<Longrightarrow> id_sorted id (lwm2m_list_add id l j)"
  using lwm2m_list_add_correct(1) [of id l j] by (auto simp: lwm2m_list_find_correct id_map_eq_None)

lemma add_link_ok:
  assumes "add_link mem l link = Ret l'" "objects_ok l"
  shows "objects_ok l'"
proof -
  obtain i inst major minor where link: "link = (i, inst, major, minor)" by (cases link)
  have sorted: "id_sorted co_id l" using assms(2) by (simp add: objects_ok_def)
  have found: "\<exists>ob l1. l1 = (case lwm2m_list_find co_id l i of None \<Rightarrow> lwm2m_list_add co_id l (new_client_object i) | Some _ \<Rightarrow> l)
      \<and> ob = (case lwm2m_list_find co_id l i of None \<Rightarrow> new_client_object i | Some ob \<Rightarrow> ob)
      \<and> objects_ok l1 \<and> co_id ob = i \<and> id_sorted id (co_instanceList ob)"
  proof (cases "lwm2m_list_find co_id l i")
    case None
    then have "co_id (new_client_object i) \<notin> co_id ` set l"
      using sorted by (simp add: lwm2m_list_find_correct id_map_eq_None new_client_object_def)
    with None assms(2) lwm2m_list_add_correct(1,3) [OF sorted this] show ?thesis
      by (auto simp: objects_ok_def new_client_object_def)
  next
    case (Some ob)
    then have "ob \<in> set l" "co_id ob = i" using sorted by (auto simp: lwm2m_list_find_correct dest: id_map_key)
    with Some assms(2) show ?thesis by (auto simp: objects_ok_def)
  qed
  then obtain ob l1 where ob: "l1 = (case lwm2m_list_find co_id l i of None \<Rightarrow> lwm2m_list_add co_id l (new_client_object i) | Some _ \<Rightarrow> l)"
    "ob = (case lwm2m_list_find co_id l i of None \<Rightarrow> new_client_object i | Some ob \<Rightarrow> ob)"
    "objects_ok l1" "co_id ob = i" "id_sorted id (co_instanceList ob)" by blast
  from assms(1) ob show ?thesis unfolding link
    by (auto simp: add_link_def split: option.splits if_splits intro!: objects_ok_put add_id_sorted)
qed

lemma decode_loop_ok:
  "decode_loop b mem after i c found before pl = Ret (Some c') \<Longrightarrow> objects_ok (rc_objects c) \<Longrightarrow> objects_ok (rc_objects c')"
proof (induction b mem after i c found before pl arbitrary: c' rule: decode_loop.induct)
  case (1 b mem after i c found before payload)
  let ?rest = "dropWhile (\<lambda>x. x = ch_space) payload"
  let ?n = "span_until ch_comma ?rest" and ?spaces = "takeWhile (\<lambda>x. x = ch_space) payload"
  let ?before = "before @ ?spaces @ take (Suc ?n) ?rest" and ?len = "?n mod 2 ^ 16"
    and ?seg = "drop (length (before @ ?spaces) mod 2 ^ 16) (before @ payload @ after)"
  show ?case
  proof (cases "?rest = []")
    case True
    with "1.prems" show ?thesis by (simp add: decode_loop.simps [of b mem after i c found before payload])
  next
    case False
    note eq = "1.prems"(1) [unfolded decode_loop.simps [of b mem after i c found before payload] Let_def if_not_P [OF False]]
    from eq obtain r where r: "prv_getId ?seg ?len = Ret r" by (auto simp: oc_bind_eq_Ret)
    show ?thesis
    proof (cases r)
      case None
      with r eq have nf: "\<not> found" by (auto split: if_splits)
      with None r eq obtain f a where p: "prv_parseLinkAttributes b (mem (3 * i + 2)) (take ?len ?seg) (rc_format c) = Some (f, a)"
        "decode_loop b mem after (Suc i) (c\<lparr>rc_format := f, rc_altPath := a\<rparr>) True ?before (drop (Suc ?n) ?rest) = Ret (Some c')"
        by (auto split: option.splits)
      show ?thesis
        by (rule "1.IH"(1) [OF refl refl False refl refl refl refl refl refl r None nf p(1) refl p(2)]) (use "1.prems"(2) in simp)
    next
      case (Some link)
      with r eq obtain objs where p: "add_link (\<lambda>k. mem (3 * i + k)) (rc_objects c) link = Ret objs"
        "decode_loop b mem after (Suc i) (c\<lparr>rc_objects := objs\<rparr>) found ?before (drop (Suc ?n) ?rest) = Ret (Some c')"
        by (auto simp: oc_bind_eq_Ret)
      show ?thesis
        by (rule "1.IH"(2) [OF refl refl False refl refl refl refl refl refl r Some p(1) p(2)]) (use "1.prems"(2) add_link_ok [OF p(1)] in simp)
    qed
  qed
qed

lemma decodeRegisterPayload_ok:
  assumes "prv_decodeRegisterPayload b mem after pl = Ret c"
  shows "objects_ok (rc_objects c)"
proof -
  let ?none = "\<lparr>rc_objects = [], rc_format = LWM2M_CONTENT_TLV, rc_altPath = None\<rparr>"
  have none: "objects_ok (rc_objects ?none)" by (simp add: objects_ok_def)
  from assms obtain r where r: "decode_loop b mem after 0 ?none False [] pl = Ret r" "c = (case r of None \<Rightarrow> ?none | Some c \<Rightarrow> c)"
    unfolding prv_decodeRegisterPayload_def Let_def oc_bind_eq_Ret by auto
  show ?thesis
  proof (cases r)
    case None
    with r none show ?thesis by simp
  next
    case (Some c')
    with r decode_loop_ok [OF _ none, of b mem after 0 False "[]" pl c'] show ?thesis by simp
  qed
qed

section \<open>Every operation keeps it\<close>

lemma prv_getClientByName_None: "prv_getClientByName l n = None \<Longrightarrow> d \<in> set l \<Longrightarrow> client_str d \<noteq> Some (c_str n)"
  by (auto simp: prv_getClientByName_def find_None_iff)

lemma prv_getClientByName_Some: "prv_getClientByName l n = Some c \<Longrightarrow> c \<in> set l \<and> client_str c = Some (c_str n)"
  by (auto simp: prv_getClientByName_def find_Some_iff)

lemma register_client_ok:
  assumes "register_client sameS l n block1 from = Ret (found, l')" "clients_ok l"
  shows "clients_ok l'" "length l' \<le> length l"
    "found = Some c \<Longrightarrow> c \<in> set l' \<and> (\<forall>d\<in>set l'. client_str d = Some (c_str n) \<longrightarrow> c_internalID d = c_internalID c)"
    "found = None \<Longrightarrow> \<forall>d\<in>set l'. client_str d \<noteq> Some (c_str n)"
proof -
  note s = clients_okD(1) [OF assms(2)]
  define named where "named = prv_getClientByName l n"
  have step: "(l' = l \<and> found = named) \<or> (l' = l \<and> named = None \<and> found = utils_findClient sameS l from)
      \<or> (\<exists>i c. l' = fst (lwm2m_list_remove c_internalID l i) \<and> named = Some c \<and> found = named
           \<and> i \<noteq> c_internalID c)"
  proof (cases "block1 \<and> named \<noteq> None")
    case False
    with assms(1) show ?thesis
      by (auto simp: register_client_def named_def [symmetric] Let_def split: if_splits option.splits prod.splits)
  next
    case True
    then obtain c where c: "block1" "named = Some c" by auto
    with assms(1) obtain i freed where r: "lwm2m_list_remove c_internalID l i = (l', Some freed)"
      "c_internalID freed \<noteq> c_internalID c" "found = named"
      by (auto simp: register_client_def named_def [symmetric] Let_def split: if_splits option.splits prod.splits)
    have "c_internalID freed = i" using lwm2m_list_remove_correct(4) [OF s, of i] r(1) id_map_key [of c_internalID l i freed] by simp
    then have "l' = fst (lwm2m_list_remove c_internalID l i) \<and> named = Some c \<and> found = named \<and> i \<noteq> c_internalID c"
      using r c by simp
    then show ?thesis by blast
  qed
  have step': "l' = l \<or> (\<exists>i. l' = fst (lwm2m_list_remove c_internalID l i))" using step by metis
  show "clients_ok l'" using step' assms(2) remove_clients_ok [OF assms(2)] by (elim disjE exE) simp_all
  show "length l' \<le> length l" using step' id_sorted_remove_eq [OF s] by (elim disjE exE) simp_all
  have same: "c_internalID d = c_internalID c" if nc: "named = Some c" "d \<in> set l" "client_str d = Some (c_str n)" for c d
  proof -
    have c: "c \<in> set l" "client_str c = Some (c_str n)" using nc(1) prv_getClientByName_Some [of l n c] by (simp_all add: named_def)
    then have "client_str d \<noteq> None \<and> client_str d = client_str c" using nc(3) by simp
    with clients_okD(3) [OF assms(2)] c(1) nc(2) show ?thesis unfolding names_distinct_def by blast
  qed
  show "c \<in> set l' \<and> (\<forall>d\<in>set l'. client_str d = Some (c_str n) \<longrightarrow> c_internalID d = c_internalID c)" if "found = Some c"
    using step
  proof (elim disjE conjE exE)
    assume e: "l' = l" "found = named"
    then have nc: "named = Some c" using that by simp
    then have "c \<in> set l" using prv_getClientByName_Some [of l n c] by (simp add: named_def)
    with e same [OF nc] show ?thesis by simp
  next
    assume e: "l' = l" "named = None" "found = utils_findClient sameS l from"
    then have "utils_findClient sameS l from = Some c" using that by simp
    then have "c \<in> set l" by (auto simp: utils_findClient_def find_Some_iff)
    with e prv_getClientByName_None [of l n] show ?thesis by (simp add: named_def)
  next
    fix i c' assume e: "l' = fst (lwm2m_list_remove c_internalID l i)" "named = Some c'" "found = named" "i \<noteq> c_internalID c'"
    then have nc: "named = Some c" and i: "i \<noteq> c_internalID c" using that by simp_all
    then have "c \<in> set l" using prv_getClientByName_Some [of l n c] by (simp add: named_def)
    with e(1) i same [OF nc] show ?thesis by (auto simp: id_sorted_remove_eq [OF s])
  qed
  show "\<forall>d\<in>set l'. client_str d \<noteq> Some (c_str n)" if "found = None"
    using step that prv_getClientByName_None [of l n] by (auto simp: named_def)
qed

lemma registration_register_ok:
  fixes ctx :: "('p, 'o) server_ctx"
  assumes "registration_register sameS mem tv ctx from block1 p content response = Ret (c, r, ctx', es)"
    "clients_ok (clientList ctx)" "length (clientList ctx) < 65536" "objects_ok (rc_objects content)"
  shows "clients_ok (clientList ctx')"
proof (cases "\<exists>n. q_name p = Some n \<and> q_version p \<noteq> VERSION_MISSING \<and> rc_objects content \<noteq> []
    \<and> (q_version p = VERSION_1_0 \<or> q_version p = VERSION_1_1)")
  case False
  with assms(1,2) show ?thesis by (auto simp: registration_register_def Let_def split: option.splits if_splits)
next
  case True
  then obtain n where n: "q_name p = Some n" "q_version p \<noteq> VERSION_MISSING" "rc_objects content \<noteq> []"
    "q_version p = VERSION_1_0 \<or> q_version p = VERSION_1_1" by blast
  with assms(1) obtain found l where f: "register_client sameS (clientList ctx) n block1 from = Ret (found, l)"
    by (auto simp: registration_register_def Let_def oc_bind_eq_Ret)
  note l = register_client_ok [OF f assms(2)]
  show ?thesis
  proof (cases "found = None \<and> \<not> clientMem mem")
    case True
    with assms(1) n f l(1) show ?thesis by (auto simp: registration_register_def Let_def)
  next
    case False
    let ?new = "new_client (lwm2m_list_newId c_internalID l) from :: ('p, 'o) lwm2m_client_t"
    define c0 where "c0 = (case found of Some c \<Rightarrow> c | None \<Rightarrow> ?new)"
    define l1 where "l1 = (case found of Some c \<Rightarrow> l | None \<Rightarrow> lwm2m_list_add c_internalID l ?new)"
    have l1: "clients_ok l1 \<and> c0 \<in> set l1 \<and> (\<forall>d\<in>set l1. client_str d = Some (c_str n) \<longrightarrow> c_internalID d = c_internalID c0)"
    proof (cases found)
      case None
      have s: "id_sorted c_internalID l" by (rule clients_okD(1) [OF l(1)])
      have fresh: "c_internalID ?new \<notin> c_internalID ` set l"
        using list_newId_loop_least [of c_internalID l 0] s assms(3) l(2)
        by (simp add: lwm2m_list_newId_def id_sorted_def new_client_def)
      note add = lwm2m_list_add_correct(1,3) [OF s fresh]
      have "client_ok ?new" by (simp add: client_ok_def new_client_def objects_ok_def)
      moreover have "client_str ?new = None" by (simp add: new_client_def client_str_def)
      ultimately have "clients_ok (lwm2m_list_add c_internalID l ?new)"
        using add l(1) by (simp add: clients_ok_def names_distinct_def) (metis option.distinct(1))
      with None add(2) l(4) show ?thesis by (auto simp: l1_def c0_def new_client_def)
    next
      case (Some c)
      with l(1,3) show ?thesis by (auto simp: l1_def c0_def)
    qed
    define c1 where "c1 = c0\<lparr>c_name := Some n, c_version := q_version p, c_binding := q_binding p, c_msisdn := q_msisdn p,
        c_altPath := rc_altPath content, c_format := rc_format content,
        c_lifetime := (if q_lifetime p = 0 then LWM2M_DEFAULT_LIFETIME else q_lifetime p),
        c_endOfLife := tv + int (unat (if q_lifetime p = 0 then LWM2M_DEFAULT_LIFETIME else q_lifetime p)),
        c_objectList := rc_objects content, c_sessionH := from\<rparr>"
    have "clients_ok (put_client c1 l1)"
    proof (rule put_client_ok)
      show "clients_ok l1" using l1 by blast
      show "client_ok c1" using l1 clients_okD(2) [of l1 c0] assms(4) by (simp add: client_ok_def c1_def)
      show "c_internalID d = c_internalID c1" if "d \<in> set l1" "client_str d = client_str c1" for d
        using l1 that by (simp add: c1_def client_str_def)
    qed
    moreover have "clientList ctx' = put_client c1 l1"
      using assms(1) n f False unfolding registration_register_def c1_def c0_def l1_def Let_def
      by (auto split: option.splits prod.splits if_splits)
    ultimately show ?thesis by simp
  qed
qed

lemma drop_observations_sorted: "sorted (map ob_id l) \<Longrightarrow> sorted (map ob_id (fst (drop_observations i objs os l)))"
  by (induction i objs os l rule: drop_observations.induct) (auto simp: observe_remove_def sorted_list_remove split: prod.splits)

lemma dropped_client_ok:
  "drop_observations i objs os (c_observationList c) = (obs, es) \<Longrightarrow> client_ok c \<Longrightarrow> sorted (map ob_id obs)"
  using drop_observations_sorted [of "c_observationList c" i objs os] by (simp add: client_ok_def)

lemma registration_update_ok:
  assumes "registration_update tv ctx u from p content response = (c, r, ctx', es)" "clients_ok (clientList ctx)"
    "objects_ok (rc_objects content)"
  shows "clients_ok (clientList ctx')"
proof (cases "lwm2m_list_find c_internalID (clientList ctx) (objectId u)")
  case None
  with assms(1,2) show ?thesis by (auto simp: registration_update_def split: if_splits)
next
  case (Some c0)
  then have c0: "c0 \<in> set (clientList ctx)" "c_internalID c0 = objectId u"
    using find_client_in [of ctx "objectId u" c0] assms(2) by (auto simp: find_client_def)
  have "clientList ctx' = clientList ctx \<or> (\<exists>c6. clientList ctx' = put_client c6 (clientList ctx)
      \<and> c_internalID c6 = c_internalID c0 \<and> c_name c6 = c_name c0 \<and> client_ok c6)"
    using assms(1) Some clients_okD(2) [OF assms(2) c0(1)] assms(3)
    by (auto simp: registration_update_def Let_def client_ok_def split: if_splits prod.splits
        dest!: dropped_client_ok)
  then show ?thesis using assms(2) c0 put_same_name [OF assms(2) c0(1)] by auto
qed

section \<open>Every sequence of events\<close>

lemma registration_handleRequest_ok:
  fixes ctx :: "('p, 'o) server_ctx"
  assumes "registration_handleRequest b sameS mem follow after tv ctx u from m response = Ret (c, r, ctx', es)"
    "clients_ok (clientList ctx)" "length (clientList ctx) < 65536"
  shows "clients_ok (clientList ctx')"
proof (cases "code m = COAP_POST \<and> 0 \<le> tv")
  case False
  with assms(1,2) remove_clients_ok [OF assms(2), of "objectId u"] show ?thesis
    by (auto simp: registration_handleRequest_def Let_def split: if_splits option.splits prod.splits)
next
  case True
  from assms(1) True obtain q where q: "q = None \<and> ctx' = ctx \<or> (\<exists>p content. q = Some p
      \<and> (ctx' = ctx \<or> prv_decodeRegisterPayload b (decodeMem mem) after (ptr_bytes (payload m)) = Ret content
         \<and> (registration_register sameS mem tv ctx from (IS_OPTION m OPT_BLOCK1) p content response = Ret (c, r, ctx', es)
           \<or> registration_update tv ctx u from p content response = (c, r, ctx', es))))"
    by (auto simp: registration_handleRequest_def Let_def oc_bind_eq_Ret split: if_splits option.splits)
  then show ?thesis
    using assms(2,3) registration_register_ok registration_update_ok decodeRegisterPayload_ok by metis
qed

lemma expire_clients_eq:
  assumes "id_sorted c_internalID (pre @ cs)"
  shows "expire_clients ctx now cs (pre @ cs) timeout
    = (pre @ filter (\<lambda>c. now < c_endOfLife c) cs,
       fold (\<lambda>c t. min t (c_endOfLife c - now)) (filter (\<lambda>c. now < c_endOfLife c) cs) timeout,
       concat (map (\<lambda>c. monitored ctx (c_internalID c) COAP_202_DELETED) (filter (\<lambda>c. c_endOfLife c \<le> now) cs)))"
  using assms
proof (induction cs arbitrary: pre timeout)
  case (Cons c cs)
  have keys: "c_internalID x \<noteq> c_internalID c" if "x \<in> set pre \<or> x \<in> set cs" for x
    using that Cons.prems by (auto simp: id_sorted_def sorted_wrt_append)
  then have "filter (\<lambda>x. c_internalID x \<noteq> c_internalID c) pre = pre" "filter (\<lambda>x. c_internalID x \<noteq> c_internalID c) cs = cs"
    by (simp_all add: filter_id_conv)
  then have rm: "fst (lwm2m_list_remove c_internalID (pre @ c # cs) (c_internalID c)) = pre @ cs"
    using id_sorted_remove_eq [OF Cons.prems, of "c_internalID c"] by simp
  have s: "id_sorted c_internalID (pre @ cs)" using Cons.prems by (auto simp: id_sorted_def sorted_wrt_append)
  show ?case
  proof (cases "c_endOfLife c \<le> now")
    case True
    with rm Cons.IH [OF s] show ?thesis by simp
  next
    case False
    with Cons.IH [of "pre @ [c]"] Cons.prems show ?thesis by simp
  qed
qed simp

lemma fold_min_Min: "fold (\<lambda>c t. min t (f c)) cs t = (Min (insert t (f ` set cs)) :: int)"
proof (induction cs arbitrary: t)
  case (Cons c cs)
  have "Min (insert (min t (f c)) (f ` set cs)) = Min (insert t (insert (f c) (f ` set cs)))"
    by (cases "cs = []") (simp_all add: min.assoc)
  with Cons show ?case by simp
qed simp

lemma clients_ok_filter: "clients_ok l \<Longrightarrow> clients_ok (filter P l)"
  by (rule clients_ok_subset) (auto simp: clients_ok_def id_sorted_def sorted_wrt_map intro: sorted_wrt_filter)

lemma expired_ok: "clients_ok (clientList ctx) \<Longrightarrow> clients_ok (clientList (fst (registration_step_server ctx now timeout)))"
  using expire_clients_eq [of "[]" "clientList ctx" ctx now timeout] clients_okD(1) [of "clientList ctx"]
  by (simp add: registration_step_server_def clients_ok_filter)

text \<open>What the server of a context goes through: requests, the periodic step, and the requests to observe
  with their answers.\<close>

inductive serving :: "build \<Rightarrow> ('p \<Rightarrow> 'p \<Rightarrow> bool) \<Rightarrow> ('p, 'o) server_ctx \<Rightarrow> bool" for b sameS where
  serving_init: "serving b sameS \<lparr>clientList = [], monitorCallback = mon\<rparr>"
| serving_request: "serving b sameS ctx \<Longrightarrow> length (clientList ctx) < 65536
    \<Longrightarrow> registration_handleRequest b sameS mem follow after tv ctx u from m response = Ret (c, r, ctx', es)
    \<Longrightarrow> serving b sameS ctx'"
| serving_step: "serving b sameS ctx \<Longrightarrow> registration_step_server ctx now timeout = (ctx', t', es) \<Longrightarrow> serving b sameS ctx'"
| serving_observe: "serving b sameS ctx
    \<Longrightarrow> prv_lwm2m_observe env pmem userMem ctx pctx i u cb = Ret (k, ctx', pctx', pes) \<Longrightarrow> serving b sameS ctx'"
| serving_cancel: "serving b sameS ctx
    \<Longrightarrow> prv_lwm2m_observe_cancel env pmem userMem ctx pctx i u cb = Ret (k, ctx', pctx', pes) \<Longrightarrow> serving b sameS ctx'"
| serving_observed: "serving b sameS ctx \<Longrightarrow> prv_obsRequestCallback b allocated ctx d msg = (ctx', es) \<Longrightarrow> serving b sameS ctx'"
| serving_cancelled: "serving b sameS ctx \<Longrightarrow> prv_obsCancelRequestCallback b ctx cd msg = Ret (ctx', es) \<Longrightarrow> serving b sameS ctx'"

lemma set_observation_simps [simp]:
  "c_internalID (set_observation t c) = c_internalID c" "c_name (set_observation t c) = c_name c"
  "client_ok (set_observation t c) = client_ok c"
proof -
  have "map ob_id (c_observationList (set_observation t c)) = map ob_id (c_observationList c)" by (simp add: set_observation_def)
  then show "client_ok (set_observation t c) = client_ok c" by (simp only: client_ok_def) (simp add: set_observation_def)
qed (simp_all add: set_observation_def)

lemma set_client_ok:
  assumes "clients_ok (clientList ctx)" "find_client ctx i = Some c0" "c_name c = c_name c0" "c_internalID c = c_internalID c0"
    "client_ok c0 \<Longrightarrow> client_ok c"
  shows "clients_ok (clientList (set_client c ctx))"
  using assms put_same_name [OF assms(1), of c0 c] find_client_in [OF assms(2,1)] clients_okD(2) [OF assms(1), of c0]
  by (simp add: set_client_def)

lemma client_ok_update_id [simp]: "client_ok (c\<lparr>c_observationId := i\<rparr>) = client_ok c"
  by (simp add: client_ok_def)

lemma observe_ok:
  assumes "prv_lwm2m_observe env pmem userMem ctx pctx i u cb = Ret (k, ctx', pctx', pes)" "clients_ok (clientList ctx)"
  shows "clients_ok (clientList ctx')"
proof (cases "find_client ctx i")
  case None
  with assms show ?thesis by (auto simp: prv_lwm2m_observe_def split: if_splits)
next
  case (Some c0)
  let ?c = "c0\<lparr>c_observationId := c_observationId c0 + 1\<rparr>"
  have "ctx' = ctx \<or> ctx' = set_client ?c ctx \<or> (\<exists>t. ctx' = set_client (set_observation t ?c) ctx)"
    using assms(1) Some
    by (auto simp: prv_lwm2m_observe_def Let_def oc_bind_eq_Ret split: if_splits option.splits)
  with assms(2) set_client_ok [OF assms(2) Some] show ?thesis by (elim disjE exE) simp_all
qed

lemma cancel_ok:
  assumes "prv_lwm2m_observe_cancel env pmem userMem ctx pctx i u cb = Ret (k, ctx', pctx', pes)" "clients_ok (clientList ctx)"
  shows "clients_ok (clientList ctx')"
proof (cases "find_client ctx i")
  case None
  with assms show ?thesis by (auto simp: prv_lwm2m_observe_cancel_def)
next
  case (Some c)
  have "ctx' = ctx \<or> (\<exists>t. ctx' = set_client (set_observation t c) ctx)
      \<or> (\<exists>t. ctx' = set_client (c\<lparr>c_observationList := observe_remove (c_observationList c) t\<rparr>) ctx)"
    using assms(1) Some
    by (auto simp: prv_lwm2m_observe_cancel_def Let_def oc_bind_eq_Ret split: if_splits option.splits)
  then show ?thesis
  proof (elim disjE exE)
    assume "ctx' = ctx" with assms(2) show ?thesis by simp
  next
    fix t assume "ctx' = set_client (set_observation t c) ctx"
    with set_client_ok [OF assms(2) Some, of "set_observation t c"] show ?thesis by simp
  next
    fix t assume "ctx' = set_client (c\<lparr>c_observationList := observe_remove (c_observationList c) t\<rparr>) ctx"
    with set_client_ok [OF assms(2) Some] sorted_list_remove [of ob_id "c_observationList c"] show ?thesis
      by (simp add: client_ok_def observe_remove_def)
  qed
qed

lemma observed_ok:
  assumes "prv_obsRequestCallback b allocated ctx d msg = (ctx', es)" "clients_ok (clientList ctx)"
  shows "clients_ok (clientList ctx')"
proof (cases "find_client ctx (od_client d)")
  case None
  with assms show ?thesis by (simp add: prv_obsRequestCallback_def)
next
  case (Some c)
  have "ctx' = ctx \<or> (\<exists>l t. ctx' = set_client (c\<lparr>c_observationList := lwm2m_list_add ob_id l t\<rparr>) ctx
      \<and> (l = c_observationList c \<or> (\<exists>j. l = fst (lwm2m_list_remove ob_id (c_observationList c) j))))"
    using assms(1) Some
    by (auto simp: prv_obsRequestCallback_def Let_def split: if_splits option.splits)
  then show ?thesis
  proof (elim disjE exE conjE)
    assume "ctx' = ctx" with assms(2) show ?thesis by simp
  next
    fix l t assume "ctx' = set_client (c\<lparr>c_observationList := lwm2m_list_add ob_id l t\<rparr>) ctx" "l = c_observationList c"
    with set_client_ok [OF assms(2) Some] sorted_list_add [of ob_id l t] show ?thesis by (simp add: client_ok_def)
  next
    fix l t j assume "ctx' = set_client (c\<lparr>c_observationList := lwm2m_list_add ob_id l t\<rparr>) ctx"
      "l = fst (lwm2m_list_remove ob_id (c_observationList c) j)"
    with set_client_ok [OF assms(2) Some] sorted_list_add [of ob_id l t] sorted_list_remove [of ob_id "c_observationList c" j]
    show ?thesis by (simp add: client_ok_def)
  qed
qed

lemma cancelled_ok:
  assumes "prv_obsCancelRequestCallback b ctx d msg = Ret (ctx', es)" "clients_ok (clientList ctx)"
  shows "clients_ok (clientList ctx')"
proof (cases "find_client ctx (cd_client d)")
  case None
  with assms show ?thesis by (simp add: prv_obsCancelRequestCallback_def)
next
  case (Some c)
  have "ctx' = ctx \<or> (\<exists>t. ctx' = set_client (c\<lparr>c_observationList := observe_remove (c_observationList c) t\<rparr>) ctx)"
    using assms(1) Some
    by (auto simp: prv_obsCancelRequestCallback_def Let_def split: if_splits option.splits)
  with assms(2) set_client_ok [OF assms(2) Some] sorted_list_remove [of ob_id "c_observationList c"] show ?thesis
    by (elim disjE exE) (simp_all add: client_ok_def observe_remove_def)
qed

lemma serving_clients_ok: "serving b sameS ctx \<Longrightarrow> clients_ok (clientList ctx)"
proof (induction rule: serving.induct)
  case (serving_init mon)
  show ?case by (simp add: clients_ok_def names_distinct_def id_sorted_def)
next
  case (serving_request ctx mem follow after tv u "from" m response c r ctx' es)
  show ?case
    by (rule registration_handleRequest_ok [OF serving_request.hyps(3) serving_request.IH serving_request.hyps(2)])
next
  case (serving_step ctx now timeout ctx' t' es)
  then show ?case using expired_ok [of ctx now timeout] by simp
next
  case (serving_observe ctx env pmem userMem pctx i u cb k ctx' pctx' pes)
  show ?case by (rule observe_ok [OF serving_observe.hyps(2) serving_observe.IH])
next
  case (serving_cancel ctx env pmem userMem pctx i u cb k ctx' pctx' pes)
  show ?case by (rule cancel_ok [OF serving_cancel.hyps(2) serving_cancel.IH])
next
  case (serving_observed ctx allocated d msg ctx' es)
  show ?case by (rule observed_ok [OF serving_observed.hyps(2) serving_observed.IH])
next
  case (serving_cancelled ctx cd msg ctx' es)
  show ?case by (rule cancelled_ok [OF serving_cancelled.hyps(2) serving_cancelled.IH])
qed

text \<open>C31: In every state the server reaches, the clients are sorted by distinct identifiers, no two have
  the same endpoint name, and the objects, their instances and the observations of each are sorted.\<close>

theorem serving_invariant:
  "serving b sameS ctx \<Longrightarrow> id_sorted c_internalID (clientList ctx) \<and> names_distinct (clientList ctx)
     \<and> (\<forall>c\<in>set (clientList ctx). objects_ok (c_objectList c) \<and> sorted (map ob_id (c_observationList c)))"
  using serving_clients_ok [of b sameS ctx] unfolding clients_ok_def client_ok_def by blast

section \<open>The life of a registration\<close>

text \<open>C32: The periodic step keeps exactly the clients whose life has not ended, reports the others, and
  shortens the sleep to the next end of a life.\<close>

theorem registration_step_expires:
  assumes "serving b sameS ctx"
  shows "registration_step_server ctx now timeout
    = (ctx\<lparr>clientList := filter (\<lambda>c. now < c_endOfLife c) (clientList ctx)\<rparr>,
       Min (insert timeout ((\<lambda>c. c_endOfLife c - now) ` {c \<in> set (clientList ctx). now < c_endOfLife c})),
       concat (map (\<lambda>c. monitored ctx (c_internalID c) COAP_202_DELETED) (filter (\<lambda>c. c_endOfLife c \<le> now) (clientList ctx))))"
  using expire_clients_eq [of "[]" "clientList ctx" ctx now timeout] clients_okD(1) [OF serving_clients_ok [OF assms]]
  by (simp add: registration_step_server_def fold_min_Min)

lemma find_in_sorted: "id_sorted c_internalID l \<Longrightarrow> c \<in> set l \<Longrightarrow> lwm2m_list_find c_internalID l (c_internalID c) = Some c"
proof -
  assume l: "id_sorted c_internalID l" "c \<in> set l"
  then have "inj_on c_internalID (set l)" "distinct l"
    by (auto simp: id_sorted_def strict_sorted_iff distinct_map)
  then have "distinct (map fst (map (\<lambda>x. (c_internalID x, x)) l))" by (simp add: distinct_map o_def)
  with l show ?thesis by (simp add: lwm2m_list_find_correct id_map_def map_of_eq_Some_iff)
qed

lemma find_put:
  assumes "id_sorted c_internalID l" "c_internalID c \<in> c_internalID ` set l"
  shows "lwm2m_list_find c_internalID (put_client c l) j = (if j = c_internalID c then Some c else lwm2m_list_find c_internalID l j)"
proof -
  have s: "id_sorted c_internalID (put_client c l)" using assms(1) by (simp add: id_sorted_put)
  have c: "c \<in> set (put_client c l)" using assms(2) by (auto simp: put_client_def)
  have other: "id_map c_internalID (map (\<lambda>x. if c_internalID x = c_internalID c then c else x) l) j = id_map c_internalID l j"
    if "j \<noteq> c_internalID c" using that by (induction l) auto
  then show ?thesis
    using find_in_sorted [OF s c] other lwm2m_list_find_correct [OF s] lwm2m_list_find_correct [OF assms(1)]
    by (simp add: put_client_def)
qed

lemma int_text_id: "int_text (ucast (i :: u16)) = dec_text (unat i)"
proof -
  have "unat (ucast i :: u64) = unat i" by simp
  moreover have "unat i < 2 ^ 63" using unat_u16_less [of i] by (simp del: unat_u16_less)
  ultimately show ?thesis by (simp add: int_text_def sint_u64 del: unat_u16_less)
qed

lemma getLocationString_text: "prv_getLocationString i = Some (ascii ''/rd/'' @ dec_text (unat i))"
proof -
  let ?rest = "replicate 6 (0 :: u8)"
  have copy: "utils_stringCopy (replicate 10 0) (ascii ''/rd/'') = (Some 4, ascii ''/rd/'' @ ?rest)"
    using utils_stringCopy_fits [of "ascii ''/rd/''" "replicate 10 0"] by (simp add: ascii_def numeral_eq_Suc)
  obtain n s where n: "utils_intToText (ucast i) ?rest = (n, s)" by fastforce
  have room: "length (int_text (ucast i)) < length ?rest" using length_dec_text_id [of i] by (simp add: int_text_id)
  from intToText_room [OF room] have "fst (utils_intToText (ucast i) ?rest) \<noteq> 0" .
  from intToText_written [OF this] n have "n = length (dec_text (unat i))" "take n s = dec_text (unat i)" "n \<noteq> 0"
    using length_dec_text_pos [of "unat i"] by (simp_all add: int_text_id)
  with copy n show ?thesis by (auto simp: prv_getLocationString_def ascii_def numeral_eq_Suc split: nat.split)
qed

lemma location_segments:
  "coap_set_header_location_path (\<lambda>_. True) p (ascii ''/rd/'' @ dec_text (unat (i :: u16))) = (k, r)
    \<Longrightarrow> location_path r = [URI_REGISTRATION_SEGMENT, dec_text (unat i)] \<and> k \<noteq> 0"
proof -
  have "ch_slash \<notin> set (dec_text (unat i))" using dec_text_digits digit_not_slash by blast
  moreover have "dec_text (unat i) \<noteq> []" using length_dec_text_pos [of "unat i"] by fastforce
  moreover have "length (dec_text (unat i)) < 256" using length_dec_text_id [of i] by simp
  ultimately have "split_segments_loop ch_slash (\<lambda>_. True) [] (sep_join ch_slash [URI_REGISTRATION_SEGMENT, dec_text (unat i)])
      = ([] @ [URI_REGISTRATION_SEGMENT, dec_text (unat i)], length (sep_join ch_slash [URI_REGISTRATION_SEGMENT, dec_text (unat i)]))"
    by (intro split_segments_join) auto
  moreover assume "coap_set_header_location_path (\<lambda>_. True) p (ascii ''/rd/'' @ dec_text (unat i)) = (k, r)"
  ultimately show ?thesis
    by (auto simp: coap_set_header_location_path_def skip_first_def cstr_at_def ascii_def)
qed

text \<open>What a register request makes of a client: the parameters and the content it carries.\<close>

definition registered_as :: "reg_params \<Rightarrow> reg_content \<Rightarrow> int \<Rightarrow> 'p \<Rightarrow> ('p, 'o) lwm2m_client_t \<Rightarrow> bool" where
  "registered_as p content tv from c \<longleftrightarrow>
     c_name c = q_name p \<and> c_version c = q_version p \<and> c_binding c = q_binding p \<and> c_msisdn c = q_msisdn p
     \<and> c_lifetime c = (if q_lifetime p = 0 then LWM2M_DEFAULT_LIFETIME else q_lifetime p)
     \<and> c_endOfLife c = tv + int (unat (c_lifetime c)) \<and> c_sessionH c = from
     \<and> c_objectList c = rc_objects content \<and> c_altPath c = rc_altPath content \<and> c_format c = rc_format content"

lemma registration_register_created:
  fixes ctx :: "('p, 'o) server_ctx"
  assumes "registration_register sameS mem tv ctx from block1 p content response = Ret (COAP_201_CREATED, r, ctx', es)"
    "clients_ok (clientList ctx)" "length (clientList ctx) < 65536" "locationMem mem = (\<lambda>_. True)"
  obtains n c l where "ctx' = ctx\<lparr>clientList := put_client c l\<rparr>" "c_internalID c \<in> c_internalID ` set l" "q_name p = Some n"
    "registered_as p content tv from c" "rc_objects content \<noteq> []" "q_version p = VERSION_1_0 \<or> q_version p = VERSION_1_1"
    "location_path r = [URI_REGISTRATION_SEGMENT, dec_text (unat (c_internalID c))]"
    "es = monitored ctx (c_internalID c) COAP_201_CREATED"
proof -
  obtain n where n: "q_name p = Some n" "q_version p \<noteq> VERSION_MISSING" "rc_objects content \<noteq> []"
    "q_version p = VERSION_1_0 \<or> q_version p = VERSION_1_1"
    using assms(1) by (auto simp: registration_register_def Let_def split: option.splits if_splits)
  with assms(1) obtain found l where f: "register_client sameS (clientList ctx) n block1 from = Ret (found, l)"
    by (auto simp: registration_register_def Let_def oc_bind_eq_Ret)
  have some: "found = Some c0 \<Longrightarrow> c0 \<in> set l" for c0 using register_client_ok(3) [OF f assms(2), of c0] by blast
  have nf: "\<not> (found = None \<and> \<not> clientMem mem)"
  proof
    assume "found = None \<and> \<not> clientMem mem"
    with assms(1) n f show False by (auto simp: registration_register_def Let_def)
  qed
  let ?new = "new_client (lwm2m_list_newId c_internalID l) from :: ('p, 'o) lwm2m_client_t"
  define c0 where "c0 = (case found of Some c \<Rightarrow> c | None \<Rightarrow> ?new)"
  define l1 where "l1 = (case found of Some c \<Rightarrow> l | None \<Rightarrow> lwm2m_list_add c_internalID l ?new)"
  define c1 where "c1 = c0\<lparr>c_name := Some n, c_version := q_version p, c_binding := q_binding p, c_msisdn := q_msisdn p,
      c_altPath := rc_altPath content, c_format := rc_format content,
      c_lifetime := (if q_lifetime p = 0 then LWM2M_DEFAULT_LIFETIME else q_lifetime p),
      c_endOfLife := tv + int (unat (if q_lifetime p = 0 then LWM2M_DEFAULT_LIFETIME else q_lifetime p)),
      c_objectList := rc_objects content, c_sessionH := from\<rparr>"
  have "clients_ok l" by (rule register_client_ok(1) [OF f assms(2)])
  then have "c0 \<in> set l1" using some sorted_list_add [of c_internalID l ?new]
    by (auto simp: c0_def l1_def clients_ok_def id_sorted_def strict_sorted_imp_sorted split: option.split)
  then have "c_internalID c1 \<in> c_internalID ` set l1" by (simp add: c1_def)
  moreover have "ctx' = ctx\<lparr>clientList := put_client c1 l1\<rparr> \<and> es = monitored ctx (c_internalID c1) COAP_201_CREATED
      \<and> (\<exists>k. coap_set_header_location_path (\<lambda>_. True) response (ascii ''/rd/'' @ dec_text (unat (c_internalID c1))) = (k, r))"
    using assms(1,4) n f nf unfolding registration_register_def c1_def c0_def l1_def Let_def
    by (auto simp: getLocationString_text split: option.splits prod.splits if_splits)
  moreover have "registered_as p content tv from c1" using n(1) by (simp add: c1_def registered_as_def)
  ultimately show thesis
    using that [of c1 l1 n] n location_segments by (auto simp: c1_def)
qed

text \<open>C33: A request to register that is answered 2.01 leaves a client that is found by its identifier and
  by the name of the request.  Its name, version, binding and number are those that \<open>prv_getParameters\<close>
  reads from the query of the request, its lifetime too (86400 s when the request has none), its
  objects, alternative path and content format those that \<open>prv_decodeRegisterPayload\<close> reads from the
  payload; its session is that of the request and its life ends one lifetime after it.  The monitoring
  callback is told of this client only, and the location in the response is the path under which an
  update reaches it (unless it has the identifier 65535).  The server has less than 65536 clients, and
  the segments of the location can be allocated.\<close>

theorem registration_request_registers:
  assumes "serving b sameS ctx" "length (clientList ctx) < 65536" "\<not> is_set_object u" "locationMem mem = (\<lambda>_. True)"
    "registration_handleRequest b sameS mem follow after tv ctx u from m response = Ret (COAP_201_CREATED, r, ctx', es)"
  shows "\<exists>p content n c.
    prv_getParameters (paramMem mem) (map (\<lambda>i. (uri_query m ! i, follow i)) [0..<length (uri_query m)]) = Ret (Some p)
    \<and> prv_decodeRegisterPayload b (decodeMem mem) after (ptr_bytes (payload m)) = Ret content
    \<and> q_name p = Some n \<and> q_version p \<in> {VERSION_1_0, VERSION_1_1} \<and> rc_objects content \<noteq> []
    \<and> find_client ctx' (c_internalID c) = Some c \<and> prv_getClientByName (clientList ctx') n = Some c
    \<and> registered_as p content tv from c
    \<and> es = monitored ctx (c_internalID c) COAP_201_CREATED
    \<and> (c_internalID c \<noteq> LWM2M_MAX_ID \<longrightarrow> uri_decode None (location_path r) method
         = Ret (LWM2M_REQUEST_TYPE_REGISTRATION, LWM2M_URI_RESET\<lparr>objectId := c_internalID c\<rparr>))"
proof -
  note ok = serving_clients_ok [OF assms(1)]
  have post: "code m = COAP_POST" "0 \<le> tv" using assms(3,5)
    by (auto simp: registration_handleRequest_def Let_def split: if_splits)
  with assms(3,5) obtain p content where
      parsed: "prv_getParameters (paramMem mem) (map (\<lambda>i. (uri_query m ! i, follow i)) [0..<length (uri_query m)]) = Ret (Some p)"
        "prv_decodeRegisterPayload b (decodeMem mem) after (ptr_bytes (payload m)) = Ret content"
      and p: "registration_register sameS mem tv ctx from (IS_OPTION m OPT_BLOCK1) p content response
        = Ret (COAP_201_CREATED, r, ctx', es)"
    by (auto simp: registration_handleRequest_def Let_def oc_bind_eq_Ret split: if_splits option.splits)
  note ok' = registration_handleRequest_ok [OF assms(5) ok assms(2)]
  obtain n c l where c: "ctx' = ctx\<lparr>clientList := put_client c l\<rparr>" "c_internalID c \<in> c_internalID ` set l" "q_name p = Some n"
    "registered_as p content tv from c" "rc_objects content \<noteq> []" "q_version p = VERSION_1_0 \<or> q_version p = VERSION_1_1"
    "location_path r = [URI_REGISTRATION_SEGMENT, dec_text (unat (c_internalID c))]"
    "es = monitored ctx (c_internalID c) COAP_201_CREATED"
    by (rule registration_register_created [OF p ok assms(2,4)])
  have s: "id_sorted c_internalID (put_client c l)" and names: "names_distinct (put_client c l)"
    using ok' c(1) by (simp_all add: clients_ok_def)
  have mem: "c \<in> set (put_client c l)" using c(2) by (auto simp: put_client_def)
  have found: "find_client ctx' (c_internalID c) = Some c" using find_in_sorted [OF s mem] c(1) by (simp add: find_client_def)
  have str: "client_str c = Some (c_str n)" using c(3,4) by (simp add: registered_as_def client_str_def)
  have named: "prv_getClientByName (put_client c l) n = Some c"
  proof (cases "prv_getClientByName (put_client c l) n")
    case None
    with prv_getClientByName_None [OF None mem] str show ?thesis by simp
  next
    case (Some d)
    then have d: "d \<in> set (put_client c l)" "client_str d = Some (c_str n)" using prv_getClientByName_Some by blast+
    then have "client_str d \<noteq> None \<and> client_str d = client_str c" using str by simp
    with names d(1) mem have "c_internalID d = c_internalID c" unfolding names_distinct_def by blast
    then have "Some d = Some c" using find_in_sorted [OF s d(1)] find_in_sorted [OF s mem] by (simp only:)
    with Some show ?thesis by (simp only:)
  qed
  have "uri_decode None (location_path r) method = Ret (LWM2M_REQUEST_TYPE_REGISTRATION, LWM2M_URI_RESET\<lparr>objectId := c_internalID c\<rparr>)"
    if "c_internalID c \<noteq> LWM2M_MAX_ID" using uri_segmentId_text [OF that] c(7) by (simp add: uri_decode_def)
  then show ?thesis using parsed found named c
    by (intro exI [of _ p] exI [of _ content] exI [of _ n] exI [of _ c]) simp
qed

text \<open>A request to register, and its parameters and content.\<close>

definition sample_mem :: reg_mem where
  "sample_mem = \<lparr>paramMem = (\<lambda>_. True), decodeMem = (\<lambda>_. True), clientMem = True, locationMem = (\<lambda>_. True)\<rparr>"

definition sample_params :: reg_params where
  "sample_params = \<lparr>q_name = Some (ascii ''x''), q_lifetime = 0, q_msisdn = None, q_binding = BINDING_UNKNOWN, q_version = VERSION_1_1\<rparr>"

definition sample_content :: reg_content where
  "sample_content = \<lparr>rc_objects = [\<lparr>co_id = 3, co_versionMajor = 0, co_versionMinor = 0, co_instanceList = [0]\<rparr>],
     rc_format = LWM2M_CONTENT_SENML_CBOR, rc_altPath = None\<rparr>"

definition sample_request :: coap_packet_t where
  "sample_request = coap_zero\<lparr>code := COAP_POST, content_type := 40, uri_query := [ascii ''lwm2m=1.1'', ascii ''ep=x''],
     payload := Some (butlast (reg_text server_build None [plain_object 3 [0]]))\<rparr>"

definition no_clients :: "(nat, nat) server_ctx" where
  "no_clients = \<lparr>clientList = [], monitorCallback = True\<rparr>"

lemma sample_parsed:
  "prv_getParameters (\<lambda>_. True) [(ascii ''lwm2m=1.1'', []), (ascii ''ep=x'', [])] = Ret (Some sample_params)"
  "prv_decodeRegisterPayload server_build (\<lambda>_. True) [0] (butlast (reg_text server_build None [plain_object 3 [0]])) = Ret sample_content"
  by (simp add: prv_getParameters_def getParameters_one_def no_params_def QUERY_NAME_def QUERY_SMS_def QUERY_LIFETIME_def
      QUERY_VERSION_def QUERY_BINDING_def QUERY_QUEUE_MODE_def ascii_def utils_stringToVersion_def query_copy_def sample_params_def)
    (subst decode_visible; simp add: path_ok_def plain_object_def ids_ok_def visible_def client_object_def reg_format_def
      server_build_def path_text_def sample_content_def reg_text_def object_links_def instance_links_def link_start_def
      dec_text_less_ten digit_char_def REG_START_def reg_path_def REG_DEFAULT_PATH_def REG_LWM2M_RESOURCE_TYPE_def
      REG_PATH_END_def ascii_def)

lemma sample_registered:
  obtains r ctx' es where "registration_handleRequest server_build (=) sample_mem (\<lambda>_. []) [0] 100 no_clients LWM2M_URI_RESET 5
      sample_request coap_zero = Ret (COAP_201_CREATED, r, ctx', es)"
    "registration_register (=) sample_mem 100 no_clients 5 False sample_params sample_content coap_zero = Ret (COAP_201_CREATED, r, ctx', es)"
proof -
  obtain k r where k: "coap_set_header_location_path (\<lambda>_. True) coap_zero (ascii ''/rd/'' @ dec_text (unat (0 :: u16))) = (k, r)"
    by fastforce
  then have "\<exists>ctx' es. registration_register (=) sample_mem 100 no_clients 5 False sample_params sample_content coap_zero
      = Ret (COAP_201_CREATED, r, ctx', es)"
    using location_segments [OF k]
    by (simp add: registration_register_def sample_params_def sample_content_def Let_def register_client_def no_clients_def
        prv_getClientByName_def sample_mem_def lwm2m_list_newId_def new_client_def getLocationString_text)
  then obtain ctx' es where reg: "registration_register (=) sample_mem 100 no_clients 5 False sample_params sample_content coap_zero
      = Ret (COAP_201_CREATED, r, ctx', es)" by blast
  moreover have "registration_handleRequest server_build (=) sample_mem (\<lambda>_. []) [0] 100 no_clients LWM2M_URI_RESET 5
      sample_request coap_zero = Ret (COAP_201_CREATED, r, ctx', es)"
    using reg sample_parsed
    by (simp add: registration_handleRequest_def sample_request_def sample_mem_def LWM2M_URI_RESET_def IS_OPTION_def coap_zero_def upt_rec)
  ultimately show thesis using that by blast
qed

theorem registration_request_registers_witness:
  "\<exists>(ctx' :: (nat, nat) server_ctx) c. find_client ctx' (c_internalID c) = Some c
    \<and> prv_getClientByName (clientList ctx') (ascii ''x'') = Some c \<and> registered_as sample_params sample_content 100 5 c"
proof -
  have start: "serving server_build (=) no_clients" unfolding no_clients_def by (rule serving_init)
  obtain r ctx' es where r: "registration_handleRequest server_build (=) sample_mem (\<lambda>_. []) [0] 100 no_clients LWM2M_URI_RESET 5
      sample_request coap_zero = Ret (COAP_201_CREATED, r, ctx', es)" by (rule sample_registered)
  have small: "length (clientList no_clients) < 65536" "\<not> is_set_object LWM2M_URI_RESET" "locationMem sample_mem = (\<lambda>_. True)"
    by (simp_all add: no_clients_def LWM2M_URI_RESET_def sample_mem_def)
  obtain p content n c where c: "prv_getParameters (paramMem sample_mem)
      (map (\<lambda>i. (uri_query sample_request ! i, [])) [0..<length (uri_query sample_request)]) = Ret (Some p)"
    "prv_decodeRegisterPayload server_build (decodeMem sample_mem) [0] (ptr_bytes (payload sample_request)) = Ret content"
    "q_name p = Some n" "find_client ctx' (c_internalID c) = Some c" "prv_getClientByName (clientList ctx') n = Some c"
    "registered_as p content 100 5 c"
    using registration_request_registers [OF start small r, of 0] by blast
  have "p = sample_params" "content = sample_content"
    using c(1,2) sample_parsed by (simp_all add: sample_request_def sample_mem_def ptr_bytes_def upt_rec)
  then show ?thesis using c(3-6) by (auto simp: sample_params_def)
qed

text \<open>A state the server reaches, with one client.\<close>

lemma sample_reachable:
  obtains ctx' c where "serving server_build (=) (ctx' :: (nat, nat) server_ctx)" "clientList ctx' = [c]" "monitorCallback ctx'"
    "find_client ctx' 0 = Some c" "c_name c = Some (ascii ''x'')" "c_observationList c = []"
    "utils_findClient (=) (clientList ctx') 5 = Some c" "prv_getClientByName (clientList ctx') (ascii ''x'') = Some c"
    "c_internalID c = 0" "c_endOfLife c = 86500" "map co_id (c_objectList c) = [3]"
proof -
  have start: "serving server_build (=) no_clients" unfolding no_clients_def by (rule serving_init)
  obtain r ctx' es where r: "registration_handleRequest server_build (=) sample_mem (\<lambda>_. []) [0] 100 no_clients LWM2M_URI_RESET 5
      sample_request coap_zero = Ret (COAP_201_CREATED, r, ctx', es)"
    "registration_register (=) sample_mem 100 no_clients 5 False sample_params sample_content coap_zero = Ret (COAP_201_CREATED, r, ctx', es)"
    by (rule sample_registered)
  have "serving server_build (=) ctx'" by (rule serving_request [OF start _ r(1)]) (simp add: no_clients_def)
  moreover obtain c where "clientList ctx' = [c]" "c_internalID c = 0" "c_name c = Some (ascii ''x'')" "c_observationList c = []"
    "c_sessionH c = 5" "monitorCallback ctx'" "c_endOfLife c = 86500" "map co_id (c_objectList c) = [3]"
    using r(2) by (auto simp: registration_register_def sample_params_def sample_content_def Let_def register_client_def no_clients_def
        prv_getClientByName_def sample_mem_def lwm2m_list_newId_def new_client_def getLocationString_text put_client_def
        split: prod.splits if_splits)
  ultimately show thesis
    using that [of ctx' c] by (simp add: find_client_def utils_findClient_def prv_getClientByName_def client_str_def)
qed

theorem serving_invariant_witness:
  "\<exists>(ctx :: (nat, nat) server_ctx) c. clientList ctx = [c] \<and> map co_id (c_objectList c) = [3]
    \<and> id_sorted c_internalID (clientList ctx) \<and> names_distinct (clientList ctx) \<and> objects_ok (c_objectList c)"
proof -
  obtain ctx :: "(nat, nat) server_ctx" and c where ctx: "serving server_build (=) ctx" "clientList ctx = [c]"
    "map co_id (c_objectList c) = [3]" by (rule sample_reachable)
  from serving_invariant [OF ctx(1)] ctx(2,3) show ?thesis by (intro exI [of _ ctx] exI [of _ c]) simp
qed

theorem registration_step_expires_witness:
  "\<exists>(ctx :: (nat, nat) server_ctx) c. clientList ctx = [c]
    \<and> registration_step_server ctx 86500 60 = (ctx\<lparr>clientList := []\<rparr>, 60, [Monitored 0 COAP_202_DELETED])
    \<and> registration_step_server ctx 86450 60 = (ctx, 50, [])"
proof -
  obtain ctx :: "(nat, nat) server_ctx" and c where ctx: "serving server_build (=) ctx" "clientList ctx = [c]"
    "monitorCallback ctx" "c_internalID c = 0" "c_endOfLife c = 86500" by (rule sample_reachable)
  from registration_step_expires [OF ctx(1), of 86500 60] registration_step_expires [OF ctx(1), of 86450 60] ctx(2-)
  show ?thesis by (intro exI [of _ ctx] exI [of _ c]) (simp add: monitored_def Collect_conv_if conj_commute)
qed

section \<open>Updates\<close>

lemma drop_observations_filter:
  assumes "id_sorted ob_id (pre @ os)"
  shows "fst (drop_observations i objs os (pre @ os)) = pre @ filter (\<lambda>t. still_there objs (ob_uri t)) os"
  using assms
proof (induction os arbitrary: pre)
  case (Cons t os)
  show ?case
  proof (cases "still_there objs (ob_uri t)")
    case True
    with Cons.IH [of "pre @ [t]"] Cons.prems show ?thesis by simp
  next
    case False
    have keys: "ob_id x \<noteq> ob_id t" if "x \<in> set pre \<or> x \<in> set os" for x
      using that Cons.prems by (auto simp: id_sorted_def sorted_wrt_append)
    then have "filter (\<lambda>x. ob_id x \<noteq> ob_id t) pre = pre" "filter (\<lambda>x. ob_id x \<noteq> ob_id t) os = os"
      by (simp_all add: filter_id_conv)
    then have rm: "observe_remove (pre @ t # os) t = pre @ os"
      using id_sorted_remove_eq [OF Cons.prems, of "ob_id t"] by (simp add: observe_remove_def)
    have "id_sorted ob_id (pre @ os)" using Cons.prems by (auto simp: id_sorted_def sorted_wrt_append)
    with Cons.IH [of pre] False rm show ?thesis by (auto split: prod.splits)
  qed
qed simp

text \<open>C34: An update that is answered 2.04 keeps the identifier and the name of its client, moves it to the
  session of the request and starts its life anew; the other clients stay as they are.\<close>

theorem registration_update_refreshes:
  assumes "serving b sameS ctx" "is_set_object u" "code m = COAP_POST"
    "registration_handleRequest b sameS mem follow after tv ctx u from m response = Ret (COAP_204_CHANGED, r, ctx', es)"
  shows "\<exists>c c'. find_client ctx (objectId u) = Some c \<and> find_client ctx' (objectId u) = Some c' \<and> c_name c' = c_name c
    \<and> c_sessionH c' = from \<and> c_endOfLife c' = tv + int (unat (c_lifetime c'))
    \<and> (\<forall>j. j \<noteq> objectId u \<longrightarrow> find_client ctx' j = find_client ctx j)"
proof -
  note ok = serving_clients_ok [OF assms(1)]
  have "0 \<le> tv" using assms(4) by (auto simp: registration_handleRequest_def Let_def split: if_splits)
  with assms(2-4) obtain p content where p: "registration_update tv ctx u from p content response = (COAP_204_CHANGED, r, ctx', es)"
    by (auto simp: registration_handleRequest_def Let_def oc_bind_eq_Ret split: if_splits option.splits)
  then obtain c where c: "find_client ctx (objectId u) = Some c"
    by (auto simp: registration_update_def find_client_def split: if_splits option.splits)
  from p c obtain c' where c': "clientList ctx' = put_client c' (clientList ctx)" "c_internalID c' = c_internalID c"
    "c_name c' = c_name c" "c_sessionH c' = from" "c_endOfLife c' = tv + int (unat (c_lifetime c'))"
    by (auto simp: registration_update_def find_client_def Let_def split: if_splits prod.splits)
  have mem: "c \<in> set (clientList ctx)" "c_internalID c = objectId u" using find_client_in [OF c ok] by simp_all
  with c'(2) have "c_internalID c' \<in> c_internalID ` set (clientList ctx)" by (metis imageI)
  from find_put [OF clients_okD(1) [OF ok] this] c c' mem(2) show ?thesis by (simp add: find_client_def)
qed

section \<open>Errors of the code\<close>

text \<open>C35: A client that is known by its name and registers again from the same session, with a payload in
  blocks, is freed and then used.\<close>

theorem block1_reregistration_use_after_free:
  assumes "serving b sameS ctx" "prv_getClientByName (clientList ctx) n = Some c" "utils_findClient sameS (clientList ctx) from = Some c"
    "q_name p = Some n" "q_version p = VERSION_1_1" "rc_objects content \<noteq> []"
  shows "registration_register sameS mem tv ctx from True p content response = UB"
proof -
  note s = clients_okD(1) [OF serving_clients_ok [OF assms(1)]]
  have "c \<in> set (clientList ctx)" using assms(2) prv_getClientByName_Some by blast
  with find_in_sorted [OF s this] have "snd (lwm2m_list_remove c_internalID (clientList ctx) (c_internalID c)) = Some c"
    by (simp add: lwm2m_list_remove_correct(4) [OF s] lwm2m_list_find_correct [OF s])
  then have "register_client sameS (clientList ctx) n True from = UB"
    using assms(2,3) by (auto simp: register_client_def split: prod.splits)
  with assms(4-6) show ?thesis by (simp add: registration_register_def Let_def)
qed

theorem block1_reregistration_use_after_free_witness:
  "\<exists>ctx :: (nat, nat) server_ctx. registration_register (=) sample_mem 100 ctx 5 True sample_params sample_content coap_zero = UB"
proof -
  obtain ctx :: "(nat, nat) server_ctx" and c where ctx: "serving server_build (=) ctx"
    "utils_findClient (=) (clientList ctx) 5 = Some c" "prv_getClientByName (clientList ctx) (ascii ''x'') = Some c"
    by (rule sample_reachable)
  have "registration_register (=) sample_mem 100 ctx 5 True sample_params sample_content coap_zero = UB"
    by (rule block1_reregistration_use_after_free [OF ctx(1,3,2)]) (simp_all add: sample_params_def sample_content_def)
  then show ?thesis by blast
qed

lemma decode_no_payload: "prv_decodeRegisterPayload b mem after [] = Ret \<lparr>rc_objects = [], rc_format = LWM2M_CONTENT_TLV, rc_altPath = None\<rparr>"
  by (simp add: prv_decodeRegisterPayload_def decode_loop.simps)

theorem registration_update_refreshes_witness:
  "\<exists>(ctx' :: (nat, nat) server_ctx) c'. find_client ctx' 0 = Some c' \<and> c_name c' = Some (ascii ''x'') \<and> c_sessionH c' = 6
    \<and> c_endOfLife c' = 200 + int (unat (c_lifetime c'))"
proof -
  obtain ctx :: "(nat, nat) server_ctx" and c where ctx: "serving server_build (=) ctx"
    "find_client ctx 0 = Some c" "c_name c = Some (ascii ''x'')" by (rule sample_reachable)
  let ?m = "coap_zero\<lparr>code := COAP_POST, content_type := 40\<rparr>" and ?u = "LWM2M_URI_RESET\<lparr>objectId := 0\<rparr>"
  obtain r ctx' es where r: "registration_handleRequest server_build (=) sample_mem (\<lambda>_. []) [0] 200 ctx ?u 6 ?m coap_zero
      = Ret (COAP_204_CHANGED, r, ctx', es)"
    using ctx(2)
    by (simp add: registration_handleRequest_def registration_update_def find_client_def prv_getParameters_def no_params_def
        decode_no_payload ptr_bytes_def coap_zero_def LWM2M_URI_RESET_def split: prod.splits)
  have u: "is_set_object ?u" "code ?m = COAP_POST" by simp_all
  from registration_update_refreshes [OF ctx(1) u r] obtain c0 c' where "find_client ctx 0 = Some c0" "find_client ctx' 0 = Some c'"
    "c_name c' = c_name c0" "c_sessionH c' = 6" "c_endOfLife c' = 200 + int (unat (c_lifetime c'))" by auto
  with ctx(2,3) show ?thesis by (intro exI [of _ ctx'] exI [of _ c']) simp
qed

text \<open>C36: When an update removes the object of an observation whose cancellation is under way, the answer to the
  cancellation makes the server dereference NULL.\<close>

theorem cancelled_after_update:
  assumes "serving b sameS ctx" "find_client ctx (cd_client d) = Some c" "id_sorted ob_id (c_observationList c)"
    "objectId u = cd_client d" "\<not> is_set_instance u" "q_name p = None" "rc_objects content \<noteq> []"
    "objectId (cd_uri d) \<notin> co_id ` set (rc_objects content)" "objects_ok (rc_objects content)"
    "registration_update tv ctx u from p content response = (k, r, ctx', es)"
    "code answer = COAP_205_CONTENT" "block_info answer = None"
  shows "k = COAP_204_CHANGED \<and> prv_obsCancelRequestCallback b ctx' d (Some answer) = UB"
proof -
  note ok = serving_clients_ok [OF assms(1)]
  let ?obs = "filter (\<lambda>t. still_there (rc_objects content) (ob_uri t)) (c_observationList c)"
  have mem: "c \<in> set (clientList ctx)" "c_internalID c = objectId u" using find_client_in [OF assms(2) ok] assms(4) by simp_all
  have "fst (drop_observations (c_internalID c) (rc_objects content) (c_observationList c) (c_observationList c)) = ?obs"
    using drop_observations_filter [of "[]" "c_observationList c" "c_internalID c" "rc_objects content"] assms(3) by simp
  then obtain c' where c': "clientList ctx' = put_client c' (clientList ctx)" "c_internalID c' = c_internalID c"
    "c_observationList c' = ?obs" "k = COAP_204_CHANGED"
    using assms(2,4-7,10) by (auto simp: registration_update_def find_client_def Let_def split: if_splits prod.splits)
  with mem have "c_internalID c' \<in> c_internalID ` set (clientList ctx)" by (metis imageI)
  from find_put [OF clients_okD(1) [OF ok] this] c'(1,2) mem(2) assms(4)
  have found: "find_client ctx' (cd_client d) = Some c'" by (simp add: find_client_def)
  have s: "id_sorted co_id (rc_objects content)" using assms(9) by (simp add: objects_ok_def)
  have "lwm2m_list_find co_id (rc_objects content) (objectId (cd_uri d)) = None"
    using assms(8) by (simp only: lwm2m_list_find_correct [OF s] id_map_eq_None not_False_eq_True)
  then have "\<not> still_there (rc_objects content) (ob_uri t)" if "objectId (ob_uri t) = objectId (cd_uri d)" for t :: "'c lwm2m_observation_t"
    using that by (simp add: still_there_def)
  then have "prv_findObservationByURI c' (cd_uri d) = None"
    unfolding prv_findObservationByURI_def c'(3) find_None_iff by auto
  with found assms(11,12) c'(4) show ?thesis by (simp add: prv_obsCancelRequestCallback_def)
qed

theorem cancelled_after_update_witness:
  "\<exists>ctx' :: (nat, nat) server_ctx. prv_obsCancelRequestCallback server_build ctx'
     \<lparr>cd_client = 0, cd_uri = LWM2M_URI_RESET\<lparr>objectId := 5\<rparr>, cd_callback = 7\<rparr> (Some (coap_zero\<lparr>code := COAP_205_CONTENT\<rparr>)) = UB"
proof -
  obtain ctx :: "(nat, nat) server_ctx" and c where ctx: "serving server_build (=) ctx"
    "find_client ctx 0 = Some c" "c_observationList c = []" by (rule sample_reachable)
  let ?d = "\<lparr>cd_client = 0, cd_uri = LWM2M_URI_RESET\<lparr>objectId := 5\<rparr>, cd_callback = 7\<rparr> :: nat cancellation_data_t"
  let ?p = "sample_params\<lparr>q_name := None\<rparr>" and ?u = "LWM2M_URI_RESET\<lparr>objectId := 0\<rparr>"
  obtain k r ctx' es where up: "registration_update 200 ctx ?u 6 ?p sample_content coap_zero = (k, r, ctx', es)"
    by (metis prod_cases4)
  have "k = COAP_204_CHANGED \<and> prv_obsCancelRequestCallback server_build ctx' ?d (Some (coap_zero\<lparr>code := COAP_205_CONTENT\<rparr>)) = UB"
    by (rule cancelled_after_update [OF ctx(1) _ _ _ _ _ _ _ _ up, where c = c])
      (use ctx(2,3) in \<open>simp_all add: LWM2M_URI_RESET_def sample_params_def sample_content_def id_sorted_def objects_ok_def
        block_info_def coap_get_header_block2_def IS_OPTION_def coap_zero_def\<close>)
  then show ?thesis by blast
qed

text \<open>A client with an alternative path registers with the payload it writes; the server keeps the path
  without its slash, and when it sends a request to this client it drops one more character.  So the
  first segment of the request is the path without its first character, and when this is not empty,
  is not \<open>rd\<close> or \<open>bs\<close> and does not start with the character that was dropped, the client does not
  recognise it (otherwise it does or may, as the client accepts every prefix of its path).\<close>

theorem alternative_path_not_recognised:
  assumes "path_ok (Some (ch_slash # x # ps))" "id_sorted objID objs" "\<forall>ob\<in>set objs. ids_ok ob" "e \<noteq> ch_semicolon"
    "length (butlast (reg_text b (Some (ch_slash # x # ps)) objs)) < 2 ^ 16"
    "prv_decodeRegisterPayload b (\<lambda>_. True) (e # es) (butlast (reg_text b (Some (ch_slash # x # ps)) objs)) = Ret content"
    "registered_as p content tv from c"
    "ps \<noteq> []" "hd ps \<noteq> x" "ps \<noteq> URI_REGISTRATION_SEGMENT" "ps \<noteq> URI_BOOTSTRAP_SEGMENT" "length ps < 255" "\<forall>k. mem k"
    "transaction_new mem now junk (Some (c_sessionH c)) method (c_altPath c) (Some u) m len tok noData = Some t"
  shows "uri_path (message t) = ps # map (\<lambda>i. dec_text (unat i)) (uri_set_ids (Some u))
    \<and> uri_decode (Some (ch_slash # x # ps)) (uri_path (message t)) method = Ret (LWM2M_REQUEST_TYPE_UNKNOWN, LWM2M_URI_RESET)"
proof -
  have altPath: "c_altPath c = Some (x # ps)"
    using decode_visible [OF assms(1-5), of es] assms(6,7) by (auto simp: registered_as_def path_text_def)
  let ?m0 = "coap_init_message COAP_TYPE_CON method m"
  let ?m1 = "snd (coap_set_header_uri_path_segment True ?m0 (Some ps))"
  have m1: "uri_path ?m1 = [ps]" using assms(12)
    by (simp add: coap_set_header_uri_path_segment_def Let_def add_segment coap_init_message_def coap_zero_def)
  obtain m2 where m2: "add_id_segments mem 3 ?m1 (uri_set_ids (Some u)) = Some m2"
    "uri_path m2 = ps # map (\<lambda>i. dec_text (unat i)) (uri_set_ids (Some u))"
    using add_id_segments_path [OF assms(13), of 3 ?m1 "uri_set_ids (Some u)"] m1 by (metis append_Cons append_Nil)
  have path: "uri_path (message t) = uri_path m2" using assms(13,14) altPath m2
    by (auto simp: transaction_new_def Let_def coap_set_header_token_def split: option.splits if_splits)
  obtain y ys where y: "ps = y # ys" "y \<noteq> x" using assms(8,9) by (cases ps) auto
  then have "altPath_match ps (x # ps) = Ret False" by simp
  then show ?thesis unfolding path m2(2) by (simp add: uri_decode_def assms(10,11))
qed

theorem alternative_path_not_recognised_witness:
  "\<exists>t :: (nat, nat, nat) lwm2m_transaction_t. uri_path (message t) = [[0x62], dec_text 3, dec_text 0]
     \<and> uri_decode (Some [ch_slash, 0x61, 0x62]) (uri_path (message t)) 1 = Ret (LWM2M_REQUEST_TYPE_UNKNOWN, LWM2M_URI_RESET)"
proof -
  let ?alt = "Some [ch_slash, 0x61, 0x62] :: bytes option" and ?content = "sample_content\<lparr>rc_objects := [], rc_altPath := Some [0x61, 0x62]\<rparr>"
  let ?c = "(new_client 0 5 :: (nat, nat) lwm2m_client_t)\<lparr>c_name := Some (ascii ''x''), c_version := VERSION_1_1,
    c_binding := BINDING_UNKNOWN, c_lifetime := LWM2M_DEFAULT_LIFETIME, c_endOfLife := 86500, c_altPath := Some [0x61, 0x62],
    c_format := LWM2M_CONTENT_SENML_CBOR\<rparr>"
  have p: "path_ok ?alt" by (simp add: path_ok_def utils_isAltPathValid_def altPath_char_def is_digit_def cstr_at_def)
  have len: "length (butlast (reg_text server_build ?alt ([] :: unit objects))) < 2 ^ 16"
    by (simp add: reg_text_def REG_START_def reg_path_def REG_DEFAULT_PATH_def REG_LWM2M_RESOURCE_TYPE_def server_build_def ascii_def)
  have d: "prv_decodeRegisterPayload server_build (\<lambda>_. True) [0] (butlast (reg_text server_build ?alt ([] :: unit objects))) = Ret ?content"
    using decode_visible [OF p, of "[]" 0 server_build "[]"] len
    by (simp add: id_sorted_def visible_def reg_format_def server_build_def path_text_def sample_content_def)
  have r: "registered_as sample_params ?content 100 5 ?c"
    by (simp add: registered_as_def sample_params_def sample_content_def new_client_def)
  obtain m2 where "add_id_segments (\<lambda>_. True) 3 (snd (coap_set_header_uri_path_segment True (coap_init_message COAP_TYPE_CON 1 21) (Some [0x62])))
      (uri_set_ids (Some (uri_of [3, 0]))) = Some m2" using add_id_segments_path [of "\<lambda>_. True"] by metis
  then obtain t :: "(nat, nat, nat) lwm2m_transaction_t" where
    t: "transaction_new (\<lambda>_. True) 100 [] (Some (c_sessionH ?c)) 1 (c_altPath ?c) (Some (uri_of [3, 0])) 21 4 None 0 = Some t"
    by (simp add: transaction_new_def Let_def)
  from alternative_path_not_recognised [OF p _ _ _ len d r _ _ _ _ _ _ t] show ?thesis
    by (auto simp: id_sorted_def uri_set_ids_def uri_of_def LWM2M_URI_RESET_def)
qed

end
