(* ===== verification/RegClient.thy ===== *)
theory RegClient
  imports Servers RegPayload RegLinks Packet
begin

text \<open>
  The client side of \<open>core/registration.c\<close>: the registration with each server of the context as a state
  machine, with its retries, the order of the servers, updates and de-registration.  A pointer to a server
  is its \<open>secObjInstID\<close>; a pointer to a server that was freed is \<open>UB\<close>, as is the use of a value that the
  read callback of the application left unset.
\<close>

abbreviation (input) COAP_NO_ERROR :: u8 where "COAP_NO_ERROR \<equiv> 0"

section \<open>State\<close>

datatype lwm2m_client_state_t =
  STATE_INITIAL | STATE_BOOTSTRAP_REQUIRED | STATE_BOOTSTRAPPING | STATE_REGISTER_REQUIRED | STATE_REGISTERING | STATE_READY

text \<open>The callbacks of the client's transactions, with the server of their user data.\<close>

datatype client_callback =
    RegistrationReply u16
  | RegistrationUpdateReply u16
  | DeregistrationReply u16
  | BootstrapReply u16

record ('p, 's) client_ctx =
  cstate :: lwm2m_client_state_t
  endpointName :: bytes
  ctx_msisdn :: "bytes option"
  ctx_altPath :: "bytes option"
  registry :: "('p, 's) registry"
  outgoing :: "('p, client_callback, unit) packet_ctx"

text \<open>The build, the platform with \<open>lwm2m_connect_server\<close>, and the contents of local arrays.\<close>

record 'p client_env =
  cbuild :: build
  penv :: "'p packet_env"
  connect :: "u16 \<Rightarrow> 'p option"
  localBytes :: bytes

text \<open>The allocations: of a value read from a server instance, of the payload, the query, the messages and the
  user data.  Those for one server within one call have one outcome.\<close>

record client_mem =
  readMem :: "u16 \<Rightarrow> u16 \<Rightarrow> bool"
  listMem :: bool
  queryMem :: bool
  pmem :: packet_mem
  dataMem2 :: bool
  segMem :: "nat \<Rightarrow> bool"

definition set_objects :: "'s objects \<Rightarrow> ('p, 's) client_ctx \<Rightarrow> ('p, 's) client_ctx" where
  "set_objects objs c = c\<lparr>registry := (registry c)\<lparr>objectList := objs\<rparr>\<rparr>"

definition server_of :: "('p, 's) client_ctx \<Rightarrow> u16 \<Rightarrow> 'p lwm2m_server_t option" where
  "server_of c i = find (\<lambda>s. secObjInstID s = i) (serverList (registry c))"

definition put_server :: "'p lwm2m_server_t \<Rightarrow> ('p, 's) client_ctx \<Rightarrow> ('p, 's) client_ctx" where
  "put_server s c = c\<lparr>registry := (registry c)\<lparr>serverList :=
     map (\<lambda>x. if secObjInstID x = secObjInstID s then s else x) (serverList (registry c))\<rparr>\<rparr>"

text \<open>Writing through the pointer to a server.\<close>

definition with_server :: "u16 \<Rightarrow> ('p lwm2m_server_t \<Rightarrow> 'p lwm2m_server_t) \<Rightarrow> ('p, 's) client_ctx \<Rightarrow> ('p, 's) client_ctx outcome" where
  "with_server i f c = (case server_of c i of None \<Rightarrow> UB | Some s \<Rightarrow> Ret (put_server (f s) c))"

section \<open>The query\<close>

definition QUERY_STARTER :: bytes where "QUERY_STARTER = ascii ''?''"
definition QUERY_DELIMITER :: bytes where "QUERY_DELIMITER = ascii ''&''"
definition QUERY_VERSION_FULL :: bytes where "QUERY_VERSION_FULL = QUERY_VERSION @ ascii ''1.1''"

text \<open>The length in the code's order; \<open>local\<close> is the array of 21 bytes for the number.\<close>

definition prv_getRegistrationQueryLength :: "bytes \<Rightarrow> ('p, 's) client_ctx \<Rightarrow> 'p lwm2m_server_t \<Rightarrow> nat" where
  "prv_getRegistrationQueryLength local c server =
     (let b = s_binding server;
          index0 = length (QUERY_STARTER @ QUERY_VERSION_FULL @ QUERY_DELIMITER @ QUERY_NAME) + length (endpointName c);
          index1 = index0 + (case ctx_msisdn c of None \<Rightarrow> 0 | Some m \<Rightarrow> length (QUERY_DELIMITER @ QUERY_SMS) + length m);
          index2 = index1 + (if b AND NOT (BINDING_UNKNOWN OR BINDING_Q) \<noteq> 0
             then length QUERY_DELIMITER + length QUERY_BINDING
               + (if b AND BINDING_U \<noteq> 0 then 1 else 0) + (if b AND BINDING_T \<noteq> 0 then 1 else 0)
               + (if b AND BINDING_S \<noteq> 0 then 1 else 0) + (if b AND BINDING_N \<noteq> 0 then 1 else 0)
             else 0);
          index3 = index2 + (if b AND BINDING_Q \<noteq> 0 then length QUERY_DELIMITER + length QUERY_QUEUE_MODE else 0)
      in if s_lifetime server \<noteq> 0 then
           (case fst (utils_intToText (word_of_int (s_lifetime server)) local) of
              0 \<Rightarrow> 0
            | res \<Rightarrow> index3 + length (QUERY_DELIMITER @ QUERY_LIFETIME) + res + 1)
         else index3 + 1)"

definition put_if :: "bool \<Rightarrow> (nat \<times> bytes \<Rightarrow> (nat \<times> bytes) option) \<Rightarrow> nat \<times> bytes \<Rightarrow> (nat \<times> bytes) option" where
  "put_if b f st = (if b then f st else Some st)"

definition put_int :: "int \<Rightarrow> nat \<times> bytes \<Rightarrow> (nat \<times> bytes) option" where
  "put_int n = put_at (\<lambda>b. case utils_intToText (word_of_int n) b of (r, b') \<Rightarrow> (if r = 0 then None else Some r, b'))"

text \<open>The length written and the buffer; \<open>None\<close> is the return of 0.\<close>

definition prv_getRegistrationQuery :: "('p, 's) client_ctx \<Rightarrow> 'p lwm2m_server_t \<Rightarrow> bytes \<Rightarrow> (nat \<times> bytes) option" where
  "prv_getRegistrationQuery c server buf =
     (let b = s_binding server in
      Option.bind (put_copy (QUERY_STARTER @ QUERY_VERSION_FULL @ QUERY_DELIMITER @ QUERY_NAME) (0, buf)) (\<lambda>st.
      Option.bind (put_copy (endpointName c) st) (\<lambda>st.
      Option.bind (case ctx_msisdn c of None \<Rightarrow> Some st
                   | Some m \<Rightarrow> Option.bind (put_copy (QUERY_DELIMITER @ QUERY_SMS) st) (put_copy m)) (\<lambda>st.
      Option.bind (put_if (b AND NOT (BINDING_UNKNOWN OR BINDING_Q) \<noteq> 0)
          (\<lambda>st. Option.bind (put_copy (QUERY_DELIMITER @ QUERY_BINDING) st) (\<lambda>st.
             Option.bind (put_if (b AND BINDING_U \<noteq> 0) (put_char 0x55) st) (\<lambda>st.
             Option.bind (put_if (b AND BINDING_T \<noteq> 0) (put_char 0x54) st) (\<lambda>st.
             Option.bind (put_if (b AND BINDING_S \<noteq> 0) (put_char 0x53) st)
               (put_if (b AND BINDING_N \<noteq> 0) (put_char 0x4E)))))) st) (\<lambda>st.
      Option.bind (put_if (b AND BINDING_Q \<noteq> 0) (put_copy (QUERY_DELIMITER @ QUERY_QUEUE_MODE)) st) (\<lambda>st.
      Option.bind (put_if (s_lifetime server \<noteq> 0)
          (\<lambda>st. Option.bind (put_copy (QUERY_DELIMITER @ QUERY_LIFETIME) st) (put_int (s_lifetime server))) st)
        (put_char 0)))))))"

section \<open>The resources of the Server object\<close>

text \<open>The result and the value, which is unset when the callback reports \<open>COAP_NO_ERROR\<close>.\<close>

definition prv_readUint :: "client_mem \<Rightarrow> 's objects \<Rightarrow> u16 \<Rightarrow> u16 \<Rightarrow> (u8 \<times> u64 option \<times> 's objects) outcome" where
  "prv_readUint mem objs inst res =
     (if \<not> readMem mem inst res then Ret (COAP_500_INTERNAL_SERVER_ERROR, None, objs)
      else oc_bind (read_first objs LWM2M_SERVER_OBJECT_ID inst res) (\<lambda>(r, v, objs').
        Ret (if r = COAP_205_CONTENT
             then (case lwm2m_data_decode_uint v of
                     Some n \<Rightarrow> (COAP_NO_ERROR, Some n, objs')
                   | None \<Rightarrow> (COAP_400_BAD_REQUEST, None, objs'))
             else (r, None, objs'))))"

definition prv_readBoolean :: "client_mem \<Rightarrow> 's objects \<Rightarrow> u16 \<Rightarrow> u16 \<Rightarrow> (u8 \<times> bool option \<times> 's objects) outcome" where
  "prv_readBoolean mem objs inst res =
     (if \<not> readMem mem inst res then Ret (COAP_500_INTERNAL_SERVER_ERROR, None, objs)
      else oc_bind (read_first objs LWM2M_SERVER_OBJECT_ID inst res) (\<lambda>(r, v, objs').
        Ret (if r = COAP_205_CONTENT
             then (case lwm2m_data_decode_bool v of
                     Some n \<Rightarrow> (COAP_NO_ERROR, Some n, objs')
                   | None \<Rightarrow> (COAP_400_BAD_REQUEST, None, objs'))
             else (r, None, objs'))))"

text \<open>A value with a default for \<open>COAP_404_NOT_FOUND\<close>.\<close>

definition or_default :: "'a \<Rightarrow> (u8 \<times> 'a option \<times> 's objects) outcome \<Rightarrow> (u8 \<times> 'a option \<times> 's objects) outcome" where
  "or_default d m = oc_bind m (\<lambda>(r, v, objs).
     if r = COAP_404_NOT_FOUND then Ret (COAP_NO_ERROR, Some d, objs)
     else if r = COAP_NO_ERROR \<and> v = None then UB else Ret (r, v, objs))"

text \<open>Whether the server is ordered, and its order.\<close>

definition prv_getRegistrationOrder ::
    "client_mem \<Rightarrow> 's objects \<Rightarrow> u16 \<Rightarrow> (u8 \<times> bool \<times> u64 option \<times> 's objects) outcome" where
  "prv_getRegistrationOrder mem objs inst =
     oc_bind (prv_readUint mem objs inst 13) (\<lambda>(r, v, objs').
       Ret (if r = COAP_NO_ERROR then (r, True, v, objs')
            else if r = COAP_404_NOT_FOUND then (COAP_NO_ERROR, False, None, objs')
            else (r, False, None, objs')))"

definition prv_getRegistrationFailureBlocking ::
    "client_mem \<Rightarrow> 's objects \<Rightarrow> u16 \<Rightarrow> (u8 \<times> bool option \<times> 's objects) outcome" where
  "prv_getRegistrationFailureBlocking mem objs inst = or_default False (prv_readBoolean mem objs inst 15)"

definition prv_getBootstrapOnRegistrationFailure ::
    "client_mem \<Rightarrow> 's objects \<Rightarrow> u16 \<Rightarrow> (u8 \<times> bool option \<times> 's objects) outcome" where
  "prv_getBootstrapOnRegistrationFailure mem objs inst = or_default True (prv_readBoolean mem objs inst 16)"

text \<open>A limit of at most 254 and a delay.\<close>

definition read_limits ::
    "client_mem \<Rightarrow> 's objects \<Rightarrow> u16 \<Rightarrow> u16 \<Rightarrow> u64 \<Rightarrow> u16 \<Rightarrow> u64 \<Rightarrow> (u8 \<times> (u8 \<times> u64) option \<times> 's objects) outcome" where
  "read_limits mem objs inst limitID limit0 delayID delay0 =
     oc_bind (or_default limit0 (prv_readUint mem objs inst limitID)) (\<lambda>(r, limit, objs1).
       if r \<noteq> COAP_NO_ERROR then Ret (r, None, objs1)
       else oc_bind (or_default delay0 (prv_readUint mem objs1 inst delayID)) (\<lambda>(r2, delay, objs2).
         Ret (if r2 \<noteq> COAP_NO_ERROR then (r2, None, objs2)
              else (r2, Some (ucast (min (the limit) 254), the delay), objs2))))"

definition prv_getRegistrationAttemptLimit ::
    "client_mem \<Rightarrow> 's objects \<Rightarrow> u16 \<Rightarrow> (u8 \<times> (u8 \<times> u64) option \<times> 's objects) outcome" where
  "prv_getRegistrationAttemptLimit mem objs inst = read_limits mem objs inst 17 5 18 60"

definition prv_getRegistrationSequenceLimit ::
    "client_mem \<Rightarrow> 's objects \<Rightarrow> u16 \<Rightarrow> (u8 \<times> (u8 \<times> u64) option \<times> 's objects) outcome" where
  "prv_getRegistrationSequenceLimit mem objs inst = read_limits mem objs inst 20 1 19 86400"

section \<open>Starting\<close>

text \<open>The sum of a \<open>time_t\<close> and a \<open>uint64_t\<close>, as a \<open>time_t\<close>.\<close>

definition time_after :: "int \<Rightarrow> u64 \<Rightarrow> int" where
  "time_after now delay = sint (word_of_int now + delay)"

definition prv_startRegistration ::
    "client_mem \<Rightarrow> int \<Rightarrow> 's objects \<Rightarrow> 'p lwm2m_server_t \<Rightarrow> (u8 \<times> 'p lwm2m_server_t \<times> 's objects) outcome" where
  "prv_startRegistration mem now objs s =
     oc_bind (or_default 0 (prv_readUint mem objs (servObjInstID s) 14)) (\<lambda>(r, delay, objs').
       Ret (r, if r = COAP_NO_ERROR then s\<lparr>s_registration := time_after now (the delay), s_status := STATE_REG_HOLD_OFF\<rparr> else s,
            objs'))"

text \<open>The loop over the servers: the result, the servers, and the first server by its order.\<close>

fun start_loop ::
    "client_mem \<Rightarrow> int \<Rightarrow> bool \<Rightarrow> 's objects \<Rightarrow> 'p lwm2m_server_t list \<Rightarrow> (u64 \<times> u16) option
      \<Rightarrow> (u8 \<times> 'p lwm2m_server_t list \<times> (u64 \<times> u16) option \<times> 's objects) outcome" where
  "start_loop mem now restartFailed objs [] first = Ret (COAP_NO_ERROR, [], first, objs)"
| "start_loop mem now restartFailed objs (s # ss) first =
     (if s_status s = STATE_DEREGISTERED \<or> restartFailed \<and> s_status s = STATE_REG_FAILED then
        (let s1 = s\<lparr>s_attempt := 0, s_sequence := 0\<rparr> in
         oc_bind (prv_getRegistrationOrder mem objs (servObjInstID s)) (\<lambda>(r, ordered, order, objs1).
           if r \<noteq> COAP_NO_ERROR then Ret (r, s1 # ss, first, objs1)
           else if ordered then
             (case order of
                None \<Rightarrow> UB
              | Some n \<Rightarrow>
                  oc_bind (start_loop mem now restartFailed objs1 ss
                      (case first of None \<Rightarrow> Some (n, secObjInstID s)
                       | Some (m, i) \<Rightarrow> if n < m then Some (n, secObjInstID s) else first))
                    (\<lambda>(r2, ss', first', objs2). Ret (r2, s1 # ss', first', objs2)))
           else
             oc_bind (prv_startRegistration mem now objs1 s1) (\<lambda>(r2, s2, objs2).
               if r2 \<noteq> COAP_NO_ERROR then Ret (r2, s2 # ss, first, objs2)
               else oc_bind (start_loop mem now restartFailed objs2 ss first)
                 (\<lambda>(r3, ss', first', objs3). Ret (r3, s2 # ss', first', objs3)))))
      else oc_bind (start_loop mem now restartFailed objs ss first)
        (\<lambda>(r, ss', first', objs'). Ret (r, s # ss', first', objs')))"

definition registration_start ::
    "client_mem \<Rightarrow> int \<Rightarrow> bool \<Rightarrow> ('p, 's) client_ctx \<Rightarrow> (u8 \<times> ('p, 's) client_ctx) outcome" where
  "registration_start mem now restartFailed c =
     (if find_object (objectList (registry c)) LWM2M_SERVER_OBJECT_ID = None then Ret (COAP_500_INTERNAL_SERVER_ERROR, c)
      else oc_bind (start_loop mem now restartFailed (objectList (registry c)) (serverList (registry c)) None)
        (\<lambda>(r, ss, first, objs).
          let c1 = c\<lparr>registry := (registry c)\<lparr>serverList := ss, objectList := objs\<rparr>\<rparr> in
          case first of
            None \<Rightarrow> Ret (r, c1)
          | Some (n, i) \<Rightarrow>
              (case server_of c1 i of
                 None \<Rightarrow> UB
               | Some s \<Rightarrow>
                   oc_bind (prv_startRegistration mem now objs s) (\<lambda>(r2, s2, objs2).
                     Ret (r2, put_server s2 (set_objects objs2 c1))))))"

section \<open>Failures\<close>

text \<open>The loop that fails the other ordered servers.\<close>

fun fail_others ::
    "client_mem \<Rightarrow> 's objects \<Rightarrow> 'p lwm2m_server_t list \<Rightarrow> ('p lwm2m_server_t list \<times> 's objects) outcome" where
  "fail_others mem objs [] = Ret ([], objs)"
| "fail_others mem objs (s # ss) =
     (if s_status s = STATE_DEREGISTERED then
        oc_bind (prv_getRegistrationOrder mem objs (servObjInstID s)) (\<lambda>(r, ordered, order, objs1).
          oc_bind (fail_others mem objs1 ss) (\<lambda>(ss', objs2).
            Ret ((if r = COAP_NO_ERROR \<and> ordered then s\<lparr>s_status := STATE_REG_FAILED\<rparr> else s) # ss', objs2)))
      else oc_bind (fail_others mem objs ss) (\<lambda>(ss', objs'). Ret (s # ss', objs')))"

text \<open>Whether the server is ordered and blocking; the next server is started when it does not block.\<close>

definition sequence_order ::
    "client_mem \<Rightarrow> int \<Rightarrow> 'p lwm2m_server_t \<Rightarrow> ('p, 's) client_ctx \<Rightarrow> (bool \<times> bool \<times> ('p, 's) client_ctx) outcome" where
  "sequence_order mem now s c =
     oc_bind (prv_getRegistrationOrder mem (objectList (registry c)) (servObjInstID s)) (\<lambda>(r, ordered, order, objs1).
       if r = COAP_NO_ERROR \<and> ordered then
         oc_bind (prv_getRegistrationFailureBlocking mem objs1 (servObjInstID s)) (\<lambda>(r2, blocking, objs2).
           let c2 = set_objects objs2 c; b = (r2 = COAP_NO_ERROR \<and> blocking = Some True) in
           if r2 = COAP_NO_ERROR \<and> \<not> b \<and> s_sequence s = 1
           then oc_bind (registration_start mem now False c2) (\<lambda>(r3, c3). Ret (True, b, c3))
           else Ret (True, b, c2))
       else Ret (False, False, set_objects objs1 c))"

definition prv_handleRegistrationSequenceFailure ::
    "client_mem \<Rightarrow> int \<Rightarrow> u16 \<Rightarrow> ('p, 's) client_ctx \<Rightarrow> ('p, 's) client_ctx outcome" where
  "prv_handleRegistrationSequenceFailure mem now i c =
     (case server_of c i of
        None \<Rightarrow> UB
      | Some s0 \<Rightarrow>
          oc_bind (sequence_order mem now s0 c) (\<lambda>(ordered, blocking, c1).
            case server_of c1 i of
              None \<Rightarrow> UB
            | Some s \<Rightarrow>
                oc_bind (prv_getRegistrationSequenceLimit mem (objectList (registry c1)) (servObjInstID s)) (\<lambda>(r, limits, objs2).
                  let c2 = set_objects objs2 c1 in
                  if r \<noteq> COAP_NO_ERROR then Ret (put_server (s\<lparr>s_status := STATE_REG_FAILED\<rparr>) c2)
                  else
                    let (limit, delay) = the limits in
                    if s_sequence s \<ge> limit then
                      oc_bind (prv_getBootstrapOnRegistrationFailure mem objs2 (servObjInstID s)) (\<lambda>(r2, bootstrap, objs3).
                        let c3 = put_server (s\<lparr>s_status := STATE_REG_FAILED\<rparr>) (set_objects objs3 c2) in
                        if r2 \<noteq> COAP_NO_ERROR \<or> bootstrap = Some True then Ret (c3\<lparr>cstate := STATE_BOOTSTRAP_REQUIRED\<rparr>)
                        else if ordered \<and> blocking then
                          oc_bind (fail_others mem objs3 (serverList (registry c3))) (\<lambda>(ss, objs4).
                            Ret (c3\<lparr>registry := (registry c3)\<lparr>serverList := ss, objectList := objs4\<rparr>\<rparr>))
                        else Ret c3)
                    else Ret (put_server (s\<lparr>s_registration := time_after now delay, s_status := STATE_REG_HOLD_OFF,
                                s_attempt := 0\<rparr>) c2))))"

text \<open>The shift of an \<open>int\<close> by \<open>attempt - 1\<close>.\<close>

definition prv_handleRegistrationAttemptFailure ::
    "client_mem \<Rightarrow> int \<Rightarrow> u16 \<Rightarrow> ('p, 's) client_ctx \<Rightarrow> ('p, 's) client_ctx outcome" where
  "prv_handleRegistrationAttemptFailure mem now i c =
     (case server_of c i of
        None \<Rightarrow> UB
      | Some s \<Rightarrow>
          if find_object (objectList (registry c)) LWM2M_SERVER_OBJECT_ID = None
          then Ret (put_server (s\<lparr>s_status := STATE_REG_FAILED\<rparr>) c)
          else
            oc_bind (prv_getRegistrationAttemptLimit mem (objectList (registry c)) (servObjInstID s)) (\<lambda>(r, limits, objs1).
              let c1 = set_objects objs1 c in
              if r \<noteq> COAP_NO_ERROR then Ret (put_server (s\<lparr>s_status := STATE_REG_FAILED\<rparr>) c1)
              else
                let (limit, delay) = the limits in
                if s_attempt s \<ge> limit then prv_handleRegistrationSequenceFailure mem now i c1
                else if s_attempt s = 0 \<or> s_attempt s \<ge> 32 then UB
                else Ret (put_server (s\<lparr>s_registration := time_after now (delay * 2 ^ (unat (s_attempt s) - 1)),
                            s_status := STATE_REG_HOLD_OFF\<rparr>) c1)))"

section \<open>Replies\<close>

text \<open>A reply to a block of the payload.\<close>

definition block_reply :: "coap_packet_t option \<Rightarrow> bool" where
  "block_reply msg = (case msg of None \<Rightarrow> False | Some packet \<Rightarrow>
     code packet = COAP_231_CONTINUE
     \<or> code packet = COAP_413_ENTITY_TOO_LARGE \<and> (\<not> IS_OPTION packet OPT_BLOCK1 \<or> block1_num packet = 0))"

text \<open>After a registration: the next ordered server is started, except when this one blocks.\<close>

definition start_next ::
    "client_mem \<Rightarrow> int \<Rightarrow> u16 \<Rightarrow> ('p, 's) client_ctx \<Rightarrow> ('p, 's) client_ctx outcome" where
  "start_next mem now i c =
     (if find_object (objectList (registry c)) LWM2M_SERVER_OBJECT_ID = None then Ret c
      else case server_of c i of
        None \<Rightarrow> UB
      | Some s \<Rightarrow>
          oc_bind (prv_getRegistrationOrder mem (objectList (registry c)) (servObjInstID s)) (\<lambda>(r, ordered, order, objs1).
            let c1 = set_objects objs1 c in
            if r = COAP_NO_ERROR \<and> ordered then
              (if s_sequence s = 1 then oc_bind (registration_start mem now False c1) (\<lambda>(r2, c2). Ret c2)
               else oc_bind (prv_getRegistrationFailureBlocking mem objs1 (servObjInstID s)) (\<lambda>(r2, blocking, objs2).
                 let c2 = set_objects objs2 c1 in
                 if r2 = COAP_NO_ERROR \<and> blocking = Some False
                 then oc_bind (registration_start mem now False c2) (\<lambda>(r3, c3). Ret c3)
                 else Ret c2))
            else Ret c1))"

text \<open>\<open>locMem\<close> is the allocation of the location.\<close>

definition prv_handleRegistrationReply ::
    "client_mem \<Rightarrow> bool \<Rightarrow> int \<Rightarrow> u16 \<Rightarrow> coap_packet_t option \<Rightarrow> ('p, 's) client_ctx \<Rightarrow> ('p, 's) client_ctx outcome" where
  "prv_handleRegistrationReply mem locMem now i msg c =
     (case server_of c i of
        None \<Rightarrow> UB
      | Some s0 \<Rightarrow>
          if s_status s0 \<noteq> STATE_REG_PENDING then Ret c
          else
            let s = (if now \<ge> 0 then s0\<lparr>s_registration := now\<rparr> else s0); c1 = put_server s c in
            if block_reply msg then Ret c1
            else (case msg of
              Some packet \<Rightarrow>
                if code packet = COAP_201_CREATED then
                  start_next mem now i (put_server (s\<lparr>s_status := STATE_REGISTERED,
                    s_location := (if locMem then Some (coap_get_multi_option_as_path_string (location_path packet)) else None)\<rparr>) c1)
                else prv_handleRegistrationAttemptFailure mem now i c1
            | None \<Rightarrow> prv_handleRegistrationAttemptFailure mem now i c1))"

definition prv_handleRegistrationUpdateReply ::
    "int \<Rightarrow> u16 \<Rightarrow> coap_packet_t option \<Rightarrow> ('p, 's) client_ctx \<Rightarrow> ('p, 's) client_ctx outcome" where
  "prv_handleRegistrationUpdateReply now i msg c =
     (case server_of c i of
        None \<Rightarrow> UB
      | Some s0 \<Rightarrow>
          if s_status s0 \<noteq> STATE_REG_UPDATE_PENDING then Ret c
          else
            let s = (if now \<ge> 0 then s0\<lparr>s_registration := now\<rparr> else s0) in
            if block_reply msg then Ret (put_server s c)
            else Ret (put_server (s\<lparr>s_status :=
                   (if map_option code msg = Some COAP_204_CHANGED then STATE_REGISTERED else STATE_REG_FAILED)\<rparr>) c))"

definition prv_handleDeregistrationReply :: "u16 \<Rightarrow> ('p, 's) client_ctx \<Rightarrow> ('p, 's) client_ctx outcome" where
  "prv_handleDeregistrationReply i c =
     (case server_of c i of
        None \<Rightarrow> UB
      | Some s \<Rightarrow> Ret (if s_status s = STATE_DEREG_PENDING then put_server (s\<lparr>s_status := STATE_DEREGISTERED\<rparr>) c else c))"

section \<open>Requests\<close>

text \<open>The payload; \<open>None\<close> is a return with an error.\<close>

definition registration_payload :: "'p client_env \<Rightarrow> client_mem \<Rightarrow> ('p, 's) client_ctx \<Rightarrow> bytes option" where
  "registration_payload env mem c =
     (let objs = objectList (registry c);
          n = object_getRegisterPayloadBufferLength (cbuild env) (take 10 (localBytes env)) (ctx_altPath c) objs in
      if n = 0 \<or> \<not> listMem mem then None
      else case object_getRegisterPayload (cbuild env) (ctx_altPath c) objs (replicate n 0) of
        None \<Rightarrow> None
      | Some (k, buf) \<Rightarrow> if k = 0 then None else Some (take k buf))"

text \<open>A new transaction is put on the list and sent.  The callback of a transaction that fails to be sent
  does nothing, because the status of the server is not yet the one it waits for.\<close>

definition send_client ::
    "'p client_env \<Rightarrow> client_mem \<Rightarrow> ('p, client_callback, unit) lwm2m_transaction_t \<Rightarrow> ('p, 's) client_ctx
      \<Rightarrow> (int \<times> ('p, 's) client_ctx \<times> ('p, client_callback) event list) outcome" where
  "send_client env mem t c =
     (let ctx = outgoing c in
      oc_bind (send_on_list (penv env) (bufferMem (pmem mem)) (ctx\<lparr>transactionList := lwm2m_list_add mID (transactionList ctx) t\<rparr>) t)
        (\<lambda>(r, ctx', es). Ret (r, c\<lparr>outgoing := ctx'\<rparr>, es)))"

definition new_request ::
    "'p client_env \<Rightarrow> client_mem \<Rightarrow> 'p \<Rightarrow> u8 \<Rightarrow> ('p, 's) client_ctx
      \<Rightarrow> ('p, client_callback, unit) lwm2m_transaction_t option \<times> ('p, 's) client_ctx" where
  "new_request env mem session method c =
     (transaction_new (newMem (pmem mem)) (gettime (penv env)) (stackJunk (penv env)) (Some session) method None None
        (nextMID (outgoing c)) 4 None (),
      c\<lparr>outgoing := (outgoing c)\<lparr>nextMID := nextMID (outgoing c) + 1\<rparr>\<rparr>)"

definition registration_message :: "client_mem \<Rightarrow> bytes \<Rightarrow> coap_packet_t \<Rightarrow> coap_packet_t" where
  "registration_message mem query m0 =
     (let m1 = snd (coap_set_header_uri_path (segMem mem) m0 (ascii ''/rd''));
          m2 = snd (coap_set_header_uri_query (segMem mem) m1 query)
      in coap_set_header_content_type m2 40)"

definition prv_register ::
    "'p client_env \<Rightarrow> client_mem \<Rightarrow> u16 \<Rightarrow> ('p, 's) client_ctx
      \<Rightarrow> (u8 \<times> ('p, 's) client_ctx \<times> ('p, client_callback) event list) outcome" where
  "prv_register env mem i c =
     (let fail = (\<lambda>e c. Ret (e, c, [])) in
      case server_of c i of
        None \<Rightarrow> UB
      | Some s0 \<Rightarrow>
          (case registration_payload env mem c of
             None \<Rightarrow> fail COAP_500_INTERNAL_SERVER_ERROR c
           | Some pl \<Rightarrow>
               let query_length = prv_getRegistrationQueryLength (take 21 (localBytes env)) c s0 in
               if query_length = 0 \<or> \<not> queryMem mem then fail COAP_500_INTERNAL_SERVER_ERROR c
               else case prv_getRegistrationQuery c s0 (replicate query_length 0) of
                 None \<Rightarrow> fail COAP_500_INTERNAL_SERVER_ERROR c
               | Some (n, query) \<Rightarrow>
                   if n \<noteq> query_length then fail COAP_500_INTERNAL_SERVER_ERROR c
                   else
                     let session = (case s_sessionH s0 of Some p \<Rightarrow> Some p | None \<Rightarrow> connect env i);
                         s = s0\<lparr>s_sessionH := session\<rparr>; c1 = put_server s c in
                     case session of
                       None \<Rightarrow> fail COAP_503_SERVICE_UNAVAILABLE c1
                     | Some p \<Rightarrow>
                         (case new_request env mem p COAP_POST c1 of
                            (None, c2) \<Rightarrow> fail COAP_503_SERVICE_UNAVAILABLE c2
                          | (Some t, c2) \<Rightarrow>
                              (case transaction_set_payload (payloadMem (pmem mem)) (coap_block_size (penv env))
                                     (t\<lparr>message := registration_message mem (take (n - 1) query) (message t)\<rparr>) pl of
                                 (False, _) \<Rightarrow> fail COAP_503_SERVICE_UNAVAILABLE c2
                               | (True, t2) \<Rightarrow>
                                   if \<not> dataMem2 mem then fail COAP_503_SERVICE_UNAVAILABLE c2
                                   else oc_bind (send_client env mem (t2\<lparr>callback := Some (RegistrationReply i)\<rparr>) c2) (\<lambda>(r, c3, es).
                                     if r \<noteq> 0 then Ret (COAP_503_SERVICE_UNAVAILABLE, c3, es)
                                     else Ret (COAP_NO_ERROR,
                                       put_server (s\<lparr>s_sequence := (if s_attempt s = 0 then s_sequence s + 1 else s_sequence s),
                                         s_attempt := s_attempt s + 1, s_status := STATE_REG_PENDING\<rparr>) c3, es))))))"

text \<open>A session or a location that is missing: \<open>transaction_new\<close> returns NULL, the setter reads through NULL.\<close>

definition prv_updateRegistration ::
    "'p client_env \<Rightarrow> client_mem \<Rightarrow> u16 \<Rightarrow> bool \<Rightarrow> ('p, 's) client_ctx
      \<Rightarrow> (u8 \<times> ('p, 's) client_ctx \<times> ('p, client_callback) event list) outcome" where
  "prv_updateRegistration env mem i withObjects c =
     (let fail = (\<lambda>c. Ret (COAP_500_INTERNAL_SERVER_ERROR, c, [])) in
      case server_of c i of
        None \<Rightarrow> UB
      | Some s \<Rightarrow>
          (case s_sessionH s of
             None \<Rightarrow> fail (c\<lparr>outgoing := (outgoing c)\<lparr>nextMID := nextMID (outgoing c) + 1\<rparr>\<rparr>)
           | Some p \<Rightarrow>
               (case new_request env mem p COAP_POST c of
                  (None, c1) \<Rightarrow> fail c1
                | (Some t, c1) \<Rightarrow>
                    (case s_location s of
                       None \<Rightarrow> UB
                     | Some loc \<Rightarrow>
                         let t1 = t\<lparr>message := snd (coap_set_header_uri_path (segMem mem) (message t) loc)\<rparr>;
                             t2 = (if withObjects
                               then (case registration_payload env mem c of None \<Rightarrow> None
                                     | Some pl \<Rightarrow> (case transaction_set_payload (payloadMem (pmem mem)) (coap_block_size (penv env)) t1 pl of
                                         (False, _) \<Rightarrow> None | (True, t2) \<Rightarrow> Some t2))
                               else Some t1)
                         in case t2 of
                           None \<Rightarrow> fail c1
                         | Some t2 \<Rightarrow>
                             if \<not> dataMem2 mem then fail c1
                             else oc_bind (send_client env mem (t2\<lparr>callback := Some (RegistrationUpdateReply i)\<rparr>) c1) (\<lambda>(r, c2, es).
                               Ret (COAP_NO_ERROR,
                                 if r = 0 then put_server (s\<lparr>s_status := STATE_REG_UPDATE_PENDING\<rparr>) c2 else c2, es))))))"

definition registration_deregister ::
    "'p client_env \<Rightarrow> client_mem \<Rightarrow> u16 \<Rightarrow> ('p, 's) client_ctx
      \<Rightarrow> (('p, 's) client_ctx \<times> ('p, client_callback) event list) outcome" where
  "registration_deregister env mem i c =
     (case server_of c i of
        None \<Rightarrow> UB
      | Some s \<Rightarrow>
          if s_status s \<in> {STATE_DEREGISTERED, STATE_REG_PENDING, STATE_DEREG_PENDING, STATE_REG_FAILED} then Ret (c, [])
          else case s_location s of
            None \<Rightarrow> Ret (c, [])
          | Some loc \<Rightarrow>
              (case s_sessionH s of
                 None \<Rightarrow> Ret (c\<lparr>outgoing := (outgoing c)\<lparr>nextMID := nextMID (outgoing c) + 1\<rparr>\<rparr>, [])
               | Some p \<Rightarrow>
                   (case new_request env mem p COAP_DELETE c of
                      (None, c1) \<Rightarrow> Ret (c1, [])
                    | (Some t, c1) \<Rightarrow>
                        oc_bind (send_client env mem (t\<lparr>message := snd (coap_set_header_uri_path (segMem mem) (message t) loc),
                            callback := Some (DeregistrationReply i)\<rparr>) c1) (\<lambda>(r, c2, es).
                          Ret (if r = 0 then put_server (s\<lparr>s_status := STATE_DEREG_PENDING\<rparr>) c2 else c2, es)))))"

section \<open>Updates asked for, and the status\<close>

definition update_needed :: "bool \<Rightarrow> 'p lwm2m_server_t \<Rightarrow> 'p lwm2m_server_t" where
  "update_needed withObjects s =
     s\<lparr>s_status := (if withObjects then STATE_REG_FULL_UPDATE_NEEDED else STATE_REG_UPDATE_NEEDED)\<rparr>"

text \<open>The loop over the servers: the result, unless the end of the list was reached.\<close>

fun update_registration_loop ::
    "u16 \<Rightarrow> bool \<Rightarrow> 'p lwm2m_server_t list \<Rightarrow> u8 option \<times> 'p lwm2m_server_t list" where
  "update_registration_loop short withObjects [] = (None, [])"
| "update_registration_loop short withObjects (s # ss) =
     (if short \<noteq> 0 \<and> shortID s = short then
        (if s_status s = STATE_REGISTERED \<or> s_status s = STATE_REG_UPDATE_PENDING
         then (Some COAP_NO_ERROR, update_needed withObjects s # ss)
         else if s_status s = STATE_REG_FULL_UPDATE_NEEDED \<or> s_status s = STATE_REG_UPDATE_NEEDED
         then (Some COAP_NO_ERROR, (if withObjects then s\<lparr>s_status := STATE_REG_FULL_UPDATE_NEEDED\<rparr> else s) # ss)
         else (Some COAP_400_BAD_REQUEST, s # ss))
      else
        let s' = (if short = 0 \<and> (s_status s = STATE_REGISTERED \<or> s_status s = STATE_REG_UPDATE_PENDING)
                  then update_needed withObjects s else s);
            (r, ss') = update_registration_loop short withObjects ss
        in (r, s' # ss'))"

definition lwm2m_update_registration ::
    "(u16 \<Rightarrow> nat \<Rightarrow> bool) \<Rightarrow> u16 \<Rightarrow> bool \<Rightarrow> ('p, 's) client_ctx \<Rightarrow> (u8 \<times> ('p, 's) client_ctx) outcome" where
  "lwm2m_update_registration mem short withObjects c =
     (if serverList (registry c) = [] then
        oc_bind (object_getServers mem False (registry c)) (\<lambda>(r, g).
          Ret (if r = -1 \<or> short \<noteq> 0 then COAP_404_NOT_FOUND else COAP_NO_ERROR, c\<lparr>registry := g\<rparr>))
      else
        let (r, ss) = update_registration_loop short withObjects (serverList (registry c)) in
        Ret (case r of Some e \<Rightarrow> e | None \<Rightarrow> if short \<noteq> 0 then COAP_404_NOT_FOUND else COAP_NO_ERROR,
             c\<lparr>registry := (registry c)\<lparr>serverList := ss\<rparr>\<rparr>))"

fun getStatus_loop :: "'p lwm2m_server_t list \<Rightarrow> lwm2m_status_t \<Rightarrow> lwm2m_status_t" where
  "getStatus_loop [] st = st"
| "getStatus_loop (s # ss) st =
     getStatus_loop ss (case s_status s of
         STATE_REGISTERED \<Rightarrow> if st = STATE_REG_FAILED then STATE_REGISTERED else st
       | STATE_REG_UPDATE_NEEDED \<Rightarrow> if st = STATE_REG_FAILED then STATE_REGISTERED else st
       | STATE_REG_FULL_UPDATE_NEEDED \<Rightarrow> if st = STATE_REG_FAILED then STATE_REGISTERED else st
       | STATE_REG_UPDATE_PENDING \<Rightarrow> if st = STATE_REG_FAILED then STATE_REGISTERED else st
       | STATE_DEREG_PENDING \<Rightarrow> if st = STATE_REG_FAILED then STATE_REGISTERED else st
       | STATE_REG_HOLD_OFF \<Rightarrow> STATE_REG_PENDING
       | STATE_REG_PENDING \<Rightarrow> STATE_REG_PENDING
       | _ \<Rightarrow> st)"

definition registration_getStatus :: "('p, 's) client_ctx \<Rightarrow> lwm2m_status_t" where
  "registration_getStatus c = getStatus_loop (serverList (registry c)) STATE_REG_FAILED"

section \<open>The periodic step\<close>

abbreviation (input) COAP_MAX_TRANSMIT_WAIT :: int where "COAP_MAX_TRANSMIT_WAIT \<equiv> 93"

definition update_interval :: "int \<Rightarrow> int" where
  "update_interval lifetime = (if COAP_MAX_TRANSMIT_WAIT < lifetime then lifetime - COAP_MAX_TRANSMIT_WAIT else lifetime div 2)"

text \<open>One server: the context, the new timeout, the events and the sessions closed.\<close>

definition step_server ::
    "'p client_env \<Rightarrow> client_mem \<Rightarrow> int \<Rightarrow> int \<Rightarrow> u16 \<Rightarrow> ('p, 's) client_ctx
      \<Rightarrow> (('p, 's) client_ctx \<times> int \<times> ('p, client_callback) event list \<times> 'p list) outcome" where
  "step_server env mem currentTime timeoutP i c =
     (case server_of c i of
        None \<Rightarrow> UB
      | Some s \<Rightarrow>
          let send = (\<lambda>m. oc_bind m (\<lambda>(r, c', es). Ret (c', timeoutP, es, []))) in
          (case s_status s of
             STATE_REG_HOLD_OFF \<Rightarrow>
               (let interval = s_registration s - currentTime in
                if interval \<le> 0 then send (prv_register env mem i c)
                else Ret (c, min interval timeoutP, [], []))
           | STATE_REGISTERED \<Rightarrow>
               (let interval = s_registration s + update_interval (s_lifetime s) - currentTime in
                if interval \<le> 0 then send (prv_updateRegistration env mem i False c)
                else Ret (c, min interval timeoutP, [], []))
           | STATE_REG_UPDATE_NEEDED \<Rightarrow> send (prv_updateRegistration env mem i False c)
           | STATE_REG_FULL_UPDATE_NEEDED \<Rightarrow> send (prv_updateRegistration env mem i True c)
           | STATE_REG_FAILED \<Rightarrow>
               (case s_sessionH s of
                  None \<Rightarrow> Ret (c, timeoutP, [], [])
                | Some p \<Rightarrow> Ret (put_server (s\<lparr>s_sessionH := None\<rparr>) c, timeoutP, [], [p]))
           | _ \<Rightarrow> Ret (c, timeoutP, [], [])))"

fun step_servers ::
    "'p client_env \<Rightarrow> (u16 \<Rightarrow> client_mem) \<Rightarrow> int \<Rightarrow> int \<Rightarrow> u16 list \<Rightarrow> ('p, 's) client_ctx
      \<Rightarrow> (('p, 's) client_ctx \<times> int \<times> ('p, client_callback) event list \<times> 'p list) outcome" where
  "step_servers env mem currentTime timeoutP [] c = Ret (c, timeoutP, [], [])"
| "step_servers env mem currentTime timeoutP (i # is) c =
     oc_bind (step_server env (mem i) currentTime timeoutP i c) (\<lambda>(c1, t1, es1, cl1).
       oc_bind (step_servers env mem currentTime t1 is c1) (\<lambda>(c2, t2, es2, cl2). Ret (c2, t2, es1 @ es2, cl1 @ cl2)))"

text \<open>\<open>registration_step\<close> in the client.\<close>

definition registration_step_client ::
    "'p client_env \<Rightarrow> (u16 \<Rightarrow> client_mem) \<Rightarrow> int \<Rightarrow> int \<Rightarrow> ('p, 's) client_ctx
      \<Rightarrow> (('p, 's) client_ctx \<times> int \<times> ('p, client_callback) event list \<times> 'p list) outcome" where
  "registration_step_client env mem currentTime timeoutP c =
     step_servers env mem currentTime timeoutP (map secObjInstID (serverList (registry c))) c"

end
