(* ===== verification/RegClientProps.thy ===== *)
theory RegClientProps
  imports RegClient RegLinksProps CoapRoundtrip
begin

text \<open>
  Properties of the registration client: its query is read back by the server, the counters of its retries,
  and its state machine.
\<close>

section \<open>The text of the query\<close>

definition binding_text :: "u8 \<Rightarrow> bytes" where
  "binding_text b = (if b AND BINDING_U \<noteq> 0 then [0x55] else []) @ (if b AND BINDING_T \<noteq> 0 then [0x54] else [])
     @ (if b AND BINDING_S \<noteq> 0 then [0x53] else []) @ (if b AND BINDING_N \<noteq> 0 then [0x4E] else [])"

abbreviation (input) has_flags :: "u8 \<Rightarrow> bool" where "has_flags b \<equiv> b AND NOT (BINDING_UNKNOWN OR BINDING_Q) \<noteq> 0"

text \<open>The segments behind the version.\<close>

definition query_rest :: "('p, 's) client_ctx \<Rightarrow> 'p lwm2m_server_t \<Rightarrow> bytes list" where
  "query_rest c s = [QUERY_NAME @ endpointName c]
     @ (case ctx_msisdn c of None \<Rightarrow> [] | Some m \<Rightarrow> [QUERY_SMS @ m])
     @ (if has_flags (s_binding s) then [QUERY_BINDING @ binding_text (s_binding s)] else [])
     @ (if s_binding s AND BINDING_Q \<noteq> 0 then [QUERY_QUEUE_MODE] else [])
     @ (if s_lifetime s \<noteq> 0 then [QUERY_LIFETIME @ dec_text (nat (s_lifetime s))] else [])"

definition query_text :: "('p, 's) client_ctx \<Rightarrow> 'p lwm2m_server_t \<Rightarrow> bytes" where
  "query_text c s = QUERY_STARTER @ QUERY_VERSION_FULL @ concat (map (\<lambda>v. QUERY_DELIMITER @ v) (query_rest c s))"

lemma sep_join_concat: "sep_join ch (v # vs) = v @ concat (map (\<lambda>v. ch # v) vs)"
  by (induction vs arbitrary: v) auto

definition lifetime_ok :: "'p lwm2m_server_t \<Rightarrow> bool" where
  "lifetime_ok s \<longleftrightarrow> 0 \<le> s_lifetime s \<and> s_lifetime s < 2 ^ 32"

lemma lifetime_word:
  assumes "lifetime_ok s"
  shows "unat (word_of_int (s_lifetime s) :: u64) = nat (s_lifetime s)" "\<not> sint (word_of_int (s_lifetime s) :: u64) < 0"
proof -
  have "s_lifetime s < 2 ^ 64" using assms by (simp add: lifetime_ok_def)
  with assms show u: "unat (word_of_int (s_lifetime s) :: u64) = nat (s_lifetime s)"
    by (simp add: lifetime_ok_def unat_eq_nat_uint uint_word_of_int_eq take_bit_int_eq_self)
  show "\<not> sint (word_of_int (s_lifetime s) :: u64) < 0"
  proof -
    have "nat (s_lifetime s) < 4294967296" using assms by (simp add: lifetime_ok_def nat_less_iff)
    then show ?thesis unfolding sint_neg_iff u by simp
  qed
qed

lemma lifetime_digits: "lifetime_ok s \<Longrightarrow> length (dec_text (nat (s_lifetime s))) \<le> 20"
proof -
  assume "lifetime_ok s"
  then have "nat (s_lifetime s) < 4294967296" by (simp add: lifetime_ok_def nat_less_iff)
  then have "nat (s_lifetime s) < 10 ^ 20" by simp
  then show ?thesis by (simp add: length_dec_text_le)
qed

lemma put_int_adds:
  assumes "filled n txt st" "lifetime_ok s" "length (txt @ dec_text (nat (s_lifetime s))) \<le> n"
  shows "adds n txt (dec_text (nat (s_lifetime s))) (put_int (s_lifetime s) st)"
proof -
  let ?b = "drop (length txt) (snd st)" and ?w = "word_of_int (s_lifetime s) :: u64"
  have room: "length (dec_text (unat ?w)) \<le> length ?b" using assms by (auto simp: filled_def lifetime_word)
  obtain r t where rt: "utils_uintToText ?w ?b = (r, t)" by fastforce
  have "r = length (dec_text (nat (s_lifetime s)))" "take r t = dec_text (nat (s_lifetime s))" "length t = length ?b"
    using utils_uintToText_fits [OF room] length_utils_uintToText [of ?w ?b] rt lifetime_word(1) [OF assms(2)] by auto
  moreover have "r \<noteq> 0" using calculation(1) length_dec_text_pos [of "nat (s_lifetime s)"] by simp
  ultimately show ?thesis unfolding put_int_def
    using assms(1,3) rt lifetime_word(2) [OF assms(2)]
    by (intro put_at_adds [where rest = t]) (auto simp: utils_intToText_def filled_def)
qed

lemma put_if_adds:
  assumes "filled n txt st" "b \<Longrightarrow> adds n txt s (f st)"
  shows "adds n txt (if b then s else []) (put_if b f st)"
  using assms by (cases b) (simp_all add: put_if_def adds_def)

lemma adds_bind':
  assumes "adds n txt s r" "\<And>st. filled n (txt @ s) st \<Longrightarrow> adds n (txt @ s) s' (g st)" "t = s @ s'"
  shows "adds n txt t (Option.bind r g)"
  using adds_bind [OF assms(1,2)] assms(3) by simp

definition flags_text :: "u8 \<Rightarrow> bytes" where
  "flags_text b = (if has_flags b then QUERY_DELIMITER @ QUERY_BINDING @ binding_text b else [])"

lemma binding_adds:
  assumes "filled n txt st" "length (txt @ binding_text b) < n"
  shows "adds n txt (binding_text b)
    (Option.bind (put_if (b AND BINDING_U \<noteq> 0) (put_char 0x55) st) (\<lambda>st.
     Option.bind (put_if (b AND BINDING_T \<noteq> 0) (put_char 0x54) st) (\<lambda>st.
     Option.bind (put_if (b AND BINDING_S \<noteq> 0) (put_char 0x53) st)
       (put_if (b AND BINDING_N \<noteq> 0) (put_char 0x4E)))))"
  using assms(2) unfolding binding_text_def
  by (intro adds_bind put_if_adds put_char_adds assms(1); (assumption | simp split: if_splits))

lemma query_written:
  assumes "lifetime_ok s" "length (query_text c s) < n"
  shows "\<exists>buf. prv_getRegistrationQuery c s (replicate n 0) = Some (length (query_text c s) + 1, buf)
    \<and> take (length (query_text c s)) buf = query_text c s"
proof -
  define t1 where "t1 = QUERY_STARTER @ QUERY_VERSION_FULL @ QUERY_DELIMITER @ QUERY_NAME"
  define t3 where "t3 = (case ctx_msisdn c of None \<Rightarrow> [] | Some m \<Rightarrow> (QUERY_DELIMITER @ QUERY_SMS) @ m)"
  define t5 where "t5 = (if s_binding s AND BINDING_Q \<noteq> 0 then QUERY_DELIMITER @ QUERY_QUEUE_MODE else [])"
  define t6 where "t6 = (if s_lifetime s \<noteq> 0 then (QUERY_DELIMITER @ QUERY_LIFETIME) @ dec_text (nat (s_lifetime s)) else [])"
  have text_eq: "query_text c s = t1 @ endpointName c @ t3 @ flags_text (s_binding s) @ t5 @ t6"
    by (simp add: query_text_def query_rest_def t1_def t3_def t5_def t6_def flags_text_def split: option.split)
  have len: "length (t1 @ endpointName c @ t3 @ flags_text (s_binding s) @ t5 @ t6) < n" using assms(2) text_eq by simp
  have "adds n [] ((t1 @ endpointName c @ t3 @ flags_text (s_binding s) @ t5 @ t6) @ [0]) (prv_getRegistrationQuery c s (replicate n 0))"
    unfolding prv_getRegistrationQuery_def Let_def append_assoc
  proof (rule adds_bind, goal_cases)
    case 1
    have "filled n [] (0, replicate n 0)" by (simp add: filled_def)
    then show ?case unfolding t1_def [symmetric] using len by (intro put_copy_adds) auto
  next
    case (2 st)
    show ?case
    proof (rule adds_bind, goal_cases)
      case 1
      show ?case using len by (intro put_copy_adds [OF 2]) auto
    next
      case (2 st)
      show ?case
      proof (rule adds_bind, goal_cases)
        case 1
        show ?case
        proof (cases "ctx_msisdn c")
          case None
          then show ?thesis using 2 by (simp add: t3_def adds_nil)
        next
          case (Some m)
          show ?thesis unfolding t3_def Some option.case
            using len Some by (intro adds_bind put_copy_adds [OF 2] put_copy_adds) (auto simp: t3_def)
        qed
      next
        case (2 st)
        show ?case
        proof (rule adds_bind, goal_cases)
          case 1
          show ?case unfolding flags_text_def
          proof (rule put_if_adds [OF 2], goal_cases)
            case 1
            have fit: "length (t1 @ endpointName c @ t3 @ QUERY_DELIMITER @ QUERY_BINDING @ binding_text (s_binding s)) < n"
              using len 1 by (simp add: flags_text_def)
            show ?case
              by (rule adds_bind' [OF put_copy_adds [OF 2], where s' = "binding_text (s_binding s)"], use fit in simp,
                  rule binding_adds, assumption, use fit in simp, simp)
          qed
        next
          case (2 st)
          show ?case
          proof (rule adds_bind, goal_cases)
            case 1
            show ?case unfolding t5_def using len
              by (intro put_if_adds [OF 2] put_copy_adds [OF 2]) (auto simp: t5_def)
          next
            case (2 st)
            show ?case
            proof (rule adds_bind, goal_cases)
              case 1
              show ?case unfolding t6_def
              proof (rule put_if_adds [OF 2], goal_cases)
                case 1
                then show ?case
                  using len by (intro adds_bind put_copy_adds [OF 2] put_int_adds [OF _ assms(1)]) (auto simp: t6_def)
              qed
            next
              case (2 st)
              show ?case using len by (intro put_char_adds [OF 2]) auto
            qed
          qed
        qed
      qed
    qed
  qed
  then obtain st where "prv_getRegistrationQuery c s (replicate n 0) = Some st" "filled n (query_text c s @ [0]) st"
    unfolding adds_def text_eq by auto
  then show ?thesis by (cases st) (auto simp: filled_def dest: arg_cong [of _ _ "take (length (query_text c s))"])
qed

lemma bit_counts: "length (binding_text b) = (if b AND BINDING_U \<noteq> 0 then 1 else 0) + (if b AND BINDING_T \<noteq> 0 then 1 else 0)
    + (if b AND BINDING_S \<noteq> 0 then 1 else 0) + (if b AND BINDING_N \<noteq> 0 then 1 else 0)"
  by (simp add: binding_text_def)

lemma query_length:
  assumes "lifetime_ok s" "length local = 21"
  shows "prv_getRegistrationQueryLength local c s = length (query_text c s) + 1"
proof -
  let ?w = "word_of_int (s_lifetime s) :: u64" and ?t = "dec_text (nat (s_lifetime s))"
  have "length ?t \<le> 20" by (rule lifetime_digits [OF assms(1)])
  then have room: "length (dec_text (unat ?w)) \<le> length local" using assms by (simp add: lifetime_word)
  have n: "fst (utils_intToText ?w local) = length ?t"
    using utils_uintToText_fits [OF room] lifetime_word [OF assms(1)] by (simp add: utils_intToText_def)
  obtain k where k: "length ?t = Suc k" using length_dec_text_pos [of "nat (s_lifetime s)"] by (metis Suc_pred)
  have rest: "length (concat (map (\<lambda>v. QUERY_DELIMITER @ v) (query_rest c s)))
      = 4 + length (endpointName c) + (case ctx_msisdn c of None \<Rightarrow> 0 | Some m \<Rightarrow> 5 + length m)
        + (if has_flags (s_binding s) then 3 + length (binding_text (s_binding s)) else 0)
        + (if s_binding s AND BINDING_Q \<noteq> 0 then 2 else 0) + (if s_lifetime s \<noteq> 0 then 4 + length ?t else 0)"
    by (simp add: query_rest_def QUERY_DELIMITER_def QUERY_NAME_def QUERY_SMS_def QUERY_BINDING_def QUERY_QUEUE_MODE_def
        QUERY_LIFETIME_def split: option.split)
  show ?thesis
    unfolding prv_getRegistrationQueryLength_def Let_def n k query_text_def length_append rest bit_counts
    by (simp add: k QUERY_DELIMITER_def QUERY_STARTER_def QUERY_VERSION_FULL_def QUERY_VERSION_def QUERY_NAME_def QUERY_SMS_def
        QUERY_BINDING_def QUERY_QUEUE_MODE_def QUERY_LIFETIME_def split: option.split)
qed

section \<open>Reading it back\<close>

definition no_amp :: "bytes \<Rightarrow> bool" where
  "no_amp v \<longleftrightarrow> v \<noteq> [] \<and> ch_amp \<notin> set v \<and> length v < 250"

definition query_ok :: "('p, 's) client_ctx \<Rightarrow> 'p lwm2m_server_t \<Rightarrow> bool" where
  "query_ok c s \<longleftrightarrow> no_amp (endpointName c) \<and> (\<forall>m. ctx_msisdn c = Some m \<longrightarrow> no_amp m) \<and> lifetime_ok s
     \<and> s_binding s AND 0xC0 = 0"

lemma query_segments:
  assumes "query_ok c s"
  shows "uri_query (snd (coap_set_header_uri_query (\<lambda>_. True) m (query_text c s))) = QUERY_VERSION_FULL # query_rest c s"
proof -
  let ?segs = "QUERY_VERSION_FULL # query_rest c s"
  have text_eq: "query_text c s = ch_quest # sep_join ch_amp ?segs"
    by (simp only: query_text_def sep_join_concat) (simp add: QUERY_STARTER_def QUERY_DELIMITER_def ascii_def)
  have digits: "ch_amp \<notin> set (dec_text k)" for k using dec_text_digits [of ch_amp k] by (auto simp: is_digit_def)
  have "length (dec_text (nat (s_lifetime s))) \<le> 20" using assms by (simp add: query_ok_def lifetime_digits)
  then have ok: "\<forall>v\<in>set ?segs. ch_amp \<notin> set v \<and> length v < 256"
    using assms digits
    by (cases "ctx_msisdn c") (auto simp: query_rest_def query_ok_def no_amp_def QUERY_VERSION_FULL_def QUERY_VERSION_def QUERY_NAME_def QUERY_SMS_def
        QUERY_BINDING_def QUERY_QUEUE_MODE_def QUERY_LIFETIME_def ascii_def binding_text_def split: option.splits if_splits)
  have ne: "\<forall>v\<in>set (query_rest c s). v \<noteq> []"
    by (auto simp: query_rest_def QUERY_NAME_def QUERY_SMS_def QUERY_BINDING_def QUERY_QUEUE_MODE_def QUERY_LIFETIME_def
        ascii_def split: option.splits if_splits)
  have "query_rest c s \<noteq> []" by (simp add: query_rest_def)
  then have "last ?segs \<noteq> []" using ne by simp
  with ok have "split_segments_loop ch_amp (\<lambda>_. True) [] (sep_join ch_amp ?segs) = ([] @ ?segs, length (sep_join ch_amp ?segs))"
    by (intro split_segments_join) auto
  then show ?thesis unfolding text_eq coap_set_header_uri_query_def by (simp add: skip_first_def cstr_at_def)
qed

lemmas query_keys = QUERY_VERSION_FULL_def QUERY_VERSION_def QUERY_NAME_def QUERY_SMS_def QUERY_BINDING_def QUERY_QUEUE_MODE_def
  QUERY_LIFETIME_def ascii_def

lemma lifetime_loop_append: "lifetime_loop (xs @ ys) n = Option.bind (lifetime_loop xs n) (lifetime_loop ys)"
  by (induction xs arbitrary: n) auto

lemma getParameters_segment:
  "q_version p = VERSION_MISSING \<Longrightarrow> getParameters_one a (QUERY_VERSION_FULL, f) p = Ret (Some (p\<lparr>q_version := VERSION_1_1\<rparr>))"
  "q_name p = None \<Longrightarrow> v \<noteq> [] \<Longrightarrow> getParameters_one True (QUERY_NAME @ v, f) p = Ret (Some (p\<lparr>q_name := Some v\<rparr>))"
  "q_msisdn p = None \<Longrightarrow> v \<noteq> [] \<Longrightarrow> getParameters_one True (QUERY_SMS @ v, f) p = Ret (Some (p\<lparr>q_msisdn := Some v\<rparr>))"
  "q_binding p AND NOT BINDING_Q = 0 \<Longrightarrow> v \<noteq> []
     \<Longrightarrow> getParameters_one a (QUERY_BINDING @ v, f) p = Ret (Some (p\<lparr>q_binding := q_binding p OR utils_stringToBinding v\<rparr>))"
  "q_binding p AND BINDING_Q = 0
     \<Longrightarrow> getParameters_one a (QUERY_QUEUE_MODE, f) p = Ret (Some (p\<lparr>q_binding := q_binding p OR BINDING_Q\<rparr>))"
  "q_lifetime p = 0 \<Longrightarrow> v \<noteq> []
     \<Longrightarrow> getParameters_one a (QUERY_LIFETIME @ v, f) p = Ret (map_option (\<lambda>n. p\<lparr>q_lifetime := n\<rparr>) (lifetime_loop v 0))"
  by (simp_all add: getParameters_one_def query_keys utils_stringToVersion_def query_copy_def)

lemma lifetime_digit:
  assumes "d < 10"
  shows "lifetime_loop [digit_char d] n = Some (n * 10 + word_of_nat d)"
proof -
  have "d \<in> {0, 1, 2, 3, 4, 5, 6, 7, 8, 9}" using assms by auto
  then show ?thesis by (elim insertE emptyE) (simp_all add: digit_char_def)
qed

lemma lifetime_dec_text: "lifetime_loop (dec_text k) 0 = Some (word_of_nat k)"
proof (induction k rule: dec_text.induct)
  case (1 n)
  show ?case
  proof (cases "n < 10")
    case True
    then show ?thesis by (simp add: dec_text.simps [of n] lifetime_digit del: lifetime_loop.simps)
  next
    case False
    have "(word_of_nat (n div 10) :: u32) * 10 + word_of_nat (n mod 10) = word_of_nat (n div 10 * 10 + n mod 10)"
      by (simp only: of_nat_add of_nat_mult of_nat_numeral)
    with False 1 show ?thesis
      by (simp add: dec_text.simps [of n] lifetime_loop_append lifetime_digit del: lifetime_loop.simps)
  qed
qed

text \<open>The binding the server stores.\<close>

definition received_binding :: "u8 \<Rightarrow> u8" where
  "received_binding b =
     (let v = (if has_flags b then utils_stringToBinding (binding_text b) else 0);
          w = (if b AND BINDING_Q \<noteq> 0 then v OR BINDING_Q else v)
      in if w = 0 then BINDING_UNKNOWN else w)"

lemma binding_bytes:
  "list_all (\<lambda>n. let b = word_of_nat n :: u8 in b AND 0xC0 = 0 \<longrightarrow>
     received_binding b AND NOT BINDING_UNKNOWN = b AND NOT BINDING_UNKNOWN
     \<and> (has_flags b \<longrightarrow> binding_text b \<noteq> []) \<and> utils_stringToBinding (binding_text b) AND BINDING_Q = 0) [0..<256]"
  by code_simp

lemma word_of_unat_u8: "word_of_nat (unat b) = (b :: u8)"
  by simp

lemma binding_facts:
  assumes "b AND 0xC0 = 0"
  shows "received_binding b AND NOT BINDING_UNKNOWN = b AND NOT BINDING_UNKNOWN" "has_flags b \<Longrightarrow> binding_text b \<noteq> []"
    "utils_stringToBinding (binding_text b) AND BINDING_Q = 0"
proof -
  have "unat b \<in> set [0..<256]" using unat_u8_less [of b] by simp
  with binding_bytes have "let b = word_of_nat (unat b) :: u8 in b AND 0xC0 = 0 \<longrightarrow>
     received_binding b AND NOT BINDING_UNKNOWN = b AND NOT BINDING_UNKNOWN
     \<and> (has_flags b \<longrightarrow> binding_text b \<noteq> []) \<and> utils_stringToBinding (binding_text b) AND BINDING_Q = 0"
    unfolding list_all_iff by blast
  with assms show "received_binding b AND NOT BINDING_UNKNOWN = b AND NOT BINDING_UNKNOWN" "has_flags b \<Longrightarrow> binding_text b \<noteq> []"
    "utils_stringToBinding (binding_text b) AND BINDING_Q = 0"
    unfolding word_of_unat_u8 Let_def by blast+
qed

lemma getParameters_skip:
  "getParameters_loop m k ([] @ qs) p = getParameters_loop m k qs p"
  "getParameters_one (m k) q p = Ret (Some p') \<Longrightarrow> getParameters_loop m k (q # qs) p = getParameters_loop m (Suc k) qs p'"
  by simp_all

text \<open>C37: The server reads from the query of a registration the endpoint name, the number, the lifetime, the version
  and the binding flags of the client, whatever follows the segments in memory.\<close>

theorem registration_query_roundtrip:
  assumes "query_ok c s" "length local = 21" "prv_getRegistrationQueryLength local c s = n"
  shows "\<exists>buf p. prv_getRegistrationQuery c s (replicate n 0) = Some (n, buf)
    \<and> prv_getParameters (\<lambda>_. True) (map (\<lambda>v. (v, follow v))
        (uri_query (snd (coap_set_header_uri_query (\<lambda>_. True) m (take (n - 1) buf))))) = Ret (Some p)
    \<and> q_name p = Some (endpointName c) \<and> q_msisdn p = ctx_msisdn c \<and> q_lifetime p = word_of_int (s_lifetime s)
    \<and> q_version p = VERSION_1_1 \<and> q_binding p AND NOT BINDING_UNKNOWN = s_binding s AND NOT BINDING_UNKNOWN"
proof -
  have ok: "lifetime_ok s" "s_binding s AND 0xC0 = 0" "endpointName c \<noteq> []" "\<And>m. ctx_msisdn c = Some m \<Longrightarrow> m \<noteq> []"
    using assms(1) by (auto simp: query_ok_def no_amp_def)
  have n: "n = length (query_text c s) + 1" using query_length [OF ok(1) assms(2), of c] assms(3) by simp
  obtain buf where buf: "prv_getRegistrationQuery c s (replicate n 0) = Some (n, buf)" "take (n - 1) buf = query_text c s"
    using query_written [OF ok(1), of c n] n by auto
  define p where "p = \<lparr>q_name = Some (endpointName c), q_lifetime = word_of_int (s_lifetime s), q_msisdn = ctx_msisdn c,
     q_binding = received_binding (s_binding s), q_version = VERSION_1_1\<rparr>"
  have life: "word_of_nat (nat (s_lifetime s)) = (word_of_int (s_lifetime s) :: u32)"
    using ok(1) by (simp add: lifetime_ok_def)
  have "prv_getParameters (\<lambda>_. True) (map (\<lambda>v. (v, follow v)) (QUERY_VERSION_FULL # query_rest c s)) = Ret (Some p)"
    using ok binding_facts [OF ok(2)]
    by (cases "ctx_msisdn c"; cases "has_flags (s_binding s)"; cases "s_binding s AND BINDING_Q = 0"; cases "s_lifetime s = 0")
      (simp_all add: prv_getParameters_def query_rest_def getParameters_segment no_params_def lifetime_dec_text life p_def
        received_binding_def Let_def)
  with buf query_segments [OF assms(1), of m] binding_facts(1) [OF ok(2)] show ?thesis
    by (intro exI [of _ buf] exI [of _ p]) (simp add: p_def)
qed

section \<open>The status of the client\<close>

definition is_pending :: "lwm2m_status_t \<Rightarrow> bool" where
  "is_pending st \<longleftrightarrow> st \<in> {STATE_REG_HOLD_OFF, STATE_REG_PENDING}"

definition is_registered :: "lwm2m_status_t \<Rightarrow> bool" where
  "is_registered st \<longleftrightarrow> st \<in> {STATE_REGISTERED, STATE_REG_UPDATE_NEEDED, STATE_REG_FULL_UPDATE_NEEDED,
     STATE_REG_UPDATE_PENDING, STATE_DEREG_PENDING}"

lemma getStatus_step:
  "getStatus_loop (s # ss) st = getStatus_loop ss (if is_pending (s_status s) then STATE_REG_PENDING
     else if is_registered (s_status s) \<and> st = STATE_REG_FAILED then STATE_REGISTERED else st)"
  by (cases "s_status s") (simp_all add: is_pending_def is_registered_def)

lemma getStatus_loop_eq:
  assumes "st \<in> {STATE_REG_FAILED, STATE_REGISTERED, STATE_REG_PENDING}"
  shows "getStatus_loop ss st =
    (if st = STATE_REG_PENDING \<or> (\<exists>s\<in>set ss. is_pending (s_status s)) then STATE_REG_PENDING
     else if st = STATE_REGISTERED \<or> (\<exists>s\<in>set ss. is_registered (s_status s)) then STATE_REGISTERED
     else STATE_REG_FAILED)"
  using assms
proof (induction ss arbitrary: st)
  case (Cons s ss)
  let ?st = "if is_pending (s_status s) then STATE_REG_PENDING
     else if is_registered (s_status s) \<and> st = STATE_REG_FAILED then STATE_REGISTERED else st"
  have "?st \<in> {STATE_REG_FAILED, STATE_REGISTERED, STATE_REG_PENDING}" using Cons.prems by simp
  from Cons.IH [OF this] show ?case unfolding getStatus_step using Cons.prems
    by (cases "is_pending (s_status s)"; cases "is_registered (s_status s)") auto
qed auto

text \<open>C38: The status of the client is pending when a registration is, registered when none is and a server
  accepted one, and failed otherwise.\<close>

theorem registration_getStatus_summary:
  "registration_getStatus c =
    (if \<exists>s\<in>set (serverList (registry c)). s_status s \<in> {STATE_REG_HOLD_OFF, STATE_REG_PENDING} then STATE_REG_PENDING
     else if \<exists>s\<in>set (serverList (registry c)). s_status s \<in> {STATE_REGISTERED, STATE_REG_UPDATE_NEEDED,
       STATE_REG_FULL_UPDATE_NEEDED, STATE_REG_UPDATE_PENDING, STATE_DEREG_PENDING} then STATE_REGISTERED
     else STATE_REG_FAILED)"
  unfolding registration_getStatus_def is_pending_def [symmetric] is_registered_def [symmetric]
  by (subst getStatus_loop_eq) simp_all

section \<open>The counters of the retries\<close>

text \<open>A server that waits has attempts and sequences left; one with a request under way has counted it, and every
  server the client is registered with, or was, has a session.\<close>

definition retry_ok :: "'p lwm2m_server_t \<Rightarrow> bool" where
  "retry_ok s \<longleftrightarrow>
     (s_status s = STATE_REG_HOLD_OFF \<longrightarrow> s_attempt s \<le> 253 \<and> s_sequence s \<le> (if s_attempt s = 0 then 253 else 254)
        \<and> (s_attempt s \<noteq> 0 \<longrightarrow> 1 \<le> s_sequence s))
     \<and> (s_status s = STATE_REG_PENDING \<longrightarrow> 1 \<le> s_attempt s \<and> s_attempt s \<le> 254 \<and> 1 \<le> s_sequence s \<and> s_sequence s \<le> 254)
     \<and> (s_status s \<in> {STATE_REG_PENDING, STATE_REGISTERED, STATE_REG_UPDATE_NEEDED, STATE_REG_FULL_UPDATE_NEEDED,
          STATE_REG_UPDATE_PENDING, STATE_DEREG_PENDING} \<longrightarrow> s_sessionH s \<noteq> None)"

definition servers_ok :: "('p, 's) client_ctx \<Rightarrow> bool" where
  "servers_ok c \<longleftrightarrow> distinct (map secObjInstID (serverList (registry c))) \<and> (\<forall>s\<in>set (serverList (registry c)). retry_ok s)"

lemma set_objects_simps [simp]:
  "servers_ok (set_objects objs c) = servers_ok c" "server_of (set_objects objs c) i = server_of c i"
  "serverList (registry (set_objects objs c)) = serverList (registry c)"
  "servers_ok (c\<lparr>outgoing := x\<rparr>) = servers_ok c" "server_of (c\<lparr>outgoing := x\<rparr>) i = server_of c i"
  "servers_ok (c\<lparr>cstate := y\<rparr>) = servers_ok c"
  by (simp_all add: set_objects_def servers_ok_def server_of_def)

lemma server_of_in: "server_of c i = Some s \<Longrightarrow> s \<in> set (serverList (registry c)) \<and> secObjInstID s = i"
  by (auto simp: server_of_def find_Some_iff)

lemma server_of_ok: "server_of c i = Some s \<Longrightarrow> servers_ok c \<Longrightarrow> retry_ok s"
  using server_of_in [of c i s] by (simp add: servers_ok_def)

lemma find_distinct:
  "distinct (map secObjInstID ss) \<Longrightarrow> s \<in> set ss \<Longrightarrow> find (\<lambda>x. secObjInstID x = secObjInstID s) ss = Some s"
  by (induction ss) auto

lemma put_server_ok: "servers_ok c \<Longrightarrow> retry_ok s \<Longrightarrow> servers_ok (put_server s c)"
proof -
  assume c: "servers_ok c" "retry_ok s"
  have "map secObjInstID (serverList (registry (put_server s c))) = map secObjInstID (serverList (registry c))"
    by (simp add: put_server_def)
  moreover have "\<forall>x\<in>set (serverList (registry (put_server s c))). retry_ok x" using c by (auto simp: put_server_def servers_ok_def)
  ultimately show ?thesis using c(1) by (simp only: servers_ok_def)
qed

lemma server_of_put: "server_of c i = Some s0 \<Longrightarrow> secObjInstID s = i \<Longrightarrow> server_of (put_server s c) i = Some s"
proof -
  have "find (\<lambda>x. secObjInstID x = i) l = Some s0 \<Longrightarrow> secObjInstID s = i
      \<Longrightarrow> find (\<lambda>x. secObjInstID x = i) (map (\<lambda>x. if secObjInstID x = secObjInstID s then s else x) l) = Some s" for l
    by (induction l) (auto split: if_splits)
  then show "server_of c i = Some s0 \<Longrightarrow> secObjInstID s = i \<Longrightarrow> server_of (put_server s c) i = Some s"
    by (simp add: server_of_def put_server_def)
qed

lemma server_of_put_other: "secObjInstID s \<noteq> i \<Longrightarrow> server_of (put_server s c) i = server_of c i"
proof -
  have "secObjInstID s \<noteq> i \<Longrightarrow> find (\<lambda>x. secObjInstID x = i) (map (\<lambda>x. if secObjInstID x = secObjInstID s then s else x) l)
      = find (\<lambda>x. secObjInstID x = i) l" for l
    by (induction l) auto
  then show "secObjInstID s \<noteq> i \<Longrightarrow> server_of (put_server s c) i = server_of c i" by (simp add: server_of_def put_server_def)
qed

lemma startRegistration_cases:
  "prv_startRegistration mem now objs s = Ret (r, s', objs')
    \<Longrightarrow> s' = s \<or> (\<exists>t. s' = s\<lparr>s_registration := t, s_status := STATE_REG_HOLD_OFF\<rparr>)"
  by (auto simp: prv_startRegistration_def oc_bind_eq_Ret split: if_splits)

text \<open>What the loop does to each server, and which it can return.\<close>

definition kept ::
    "bool \<Rightarrow> 'p lwm2m_server_t list \<Rightarrow> 'p lwm2m_server_t list \<Rightarrow> (u64 \<times> u16) option \<Rightarrow> (u64 \<times> u16) option \<Rightarrow> bool" where
  "kept restart ss ss' first first' \<longleftrightarrow> map secObjInstID ss' = map secObjInstID ss \<and> (\<forall>s\<in>set ss'. retry_ok s)
    \<and> (\<forall>s\<in>set ss. s_status s \<noteq> STATE_DEREGISTERED \<and> \<not> restart \<longrightarrow> s \<in> set ss')
    \<and> (\<forall>n i. first' = Some (n, i) \<longrightarrow> first = Some (n, i)
        \<or> (\<exists>s\<in>set ss'. secObjInstID s = i \<and> s_attempt s = 0 \<and> s_sequence s = 0
             \<and> (\<not> restart \<longrightarrow> s_status s = STATE_DEREGISTERED)))"

lemma kept_cons:
  assumes "kept restart ss ss1 first1 first'" "retry_ok s'" "secObjInstID s' = secObjInstID s"
    "s_status s \<noteq> STATE_DEREGISTERED \<Longrightarrow> \<not> restart \<Longrightarrow> s' = s"
    "\<And>n i. first1 = Some (n, i) \<Longrightarrow> first = Some (n, i) \<or> secObjInstID s' = i \<and> s_attempt s' = 0 \<and> s_sequence s' = 0
       \<and> (\<not> restart \<longrightarrow> s_status s' = STATE_DEREGISTERED)"
  shows "kept restart (s # ss) (s' # ss1) first first'"
proof -
  note k = assms(1) [unfolded kept_def]
  have "\<forall>n i. first' = Some (n, i) \<longrightarrow> first = Some (n, i)
        \<or> (\<exists>s\<in>set (s' # ss1). secObjInstID s = i \<and> s_attempt s = 0 \<and> s_sequence s = 0
             \<and> (\<not> restart \<longrightarrow> s_status s = STATE_DEREGISTERED))"
  proof (intro allI impI)
    fix n i assume "first' = Some (n, i)"
    with k have "first1 = Some (n, i) \<or> (\<exists>s\<in>set ss1. secObjInstID s = i \<and> s_attempt s = 0 \<and> s_sequence s = 0
             \<and> (\<not> restart \<longrightarrow> s_status s = STATE_DEREGISTERED))" by blast
    with assms(5) [of n i] show "first = Some (n, i)
        \<or> (\<exists>s\<in>set (s' # ss1). secObjInstID s = i \<and> s_attempt s = 0 \<and> s_sequence s = 0
             \<and> (\<not> restart \<longrightarrow> s_status s = STATE_DEREGISTERED))" by auto
  qed
  moreover have "map secObjInstID (s' # ss1) = map secObjInstID (s # ss)" "\<forall>s\<in>set (s' # ss1). retry_ok s"
    using k assms(2,3) by simp_all
  moreover have "\<forall>x\<in>set (s # ss). s_status x \<noteq> STATE_DEREGISTERED \<and> \<not> restart \<longrightarrow> x \<in> set (s' # ss1)"
    using k assms(4) by simp
  ultimately show ?thesis unfolding kept_def by (intro conjI)
qed

lemma kept_refl: "\<forall>s\<in>set ss. retry_ok s \<Longrightarrow> kept restart ss ss first first"
  by (simp add: kept_def)

lemma retry_started:
  assumes "s_status s = STATE_DEREGISTERED \<or> s_status s = STATE_REG_FAILED"
    "prv_startRegistration mem now objs (s\<lparr>s_attempt := 0, s_sequence := 0\<rparr>) = Ret (r, s', objs')"
  shows "retry_ok s' \<and> secObjInstID s' = secObjInstID s"
  using startRegistration_cases [OF assms(2)] assms(1) by (elim disjE exE) (simp_all add: retry_ok_def)

lemma start_loop_servers:
  assumes "start_loop mem now restart objs ss first = Ret (r, ss', first', objs')" "\<forall>s\<in>set ss. retry_ok s"
  shows "kept restart ss ss' first first'"
  using assms
proof (induction mem now restart objs ss first arbitrary: r ss' first' objs' rule: start_loop.induct)
  case (1 mem now restart objs first)
  then show ?case by (simp add: kept_def)
next
  case (2 mem now restart objs s ss first)
  let ?s1 = "s\<lparr>s_attempt := 0, s_sequence := 0\<rparr>"
  have tl: "\<forall>s\<in>set ss. retry_ok s" "retry_ok s" using "2.prems"(2) by simp_all
  show ?case
  proof (cases "s_status s = STATE_DEREGISTERED \<or> restart \<and> s_status s = STATE_REG_FAILED")
    case False
    with "2.prems" obtain ss1 where r: "start_loop mem now restart objs ss first = Ret (r, ss1, first', objs')" "ss' = s # ss1"
      by (auto simp: oc_bind_eq_Ret)
    show ?thesis unfolding r(2) by (rule kept_cons [OF "2.IH"(3) [OF False r(1) tl(1)] tl(2)]) simp_all
  next
    case True
    then have st: "s_status s = STATE_DEREGISTERED \<or> s_status s = STATE_REG_FAILED" "\<not> restart \<Longrightarrow> s_status s = STATE_DEREGISTERED" by blast+
    have s1: "retry_ok ?s1" using st(1) by (auto simp: retry_ok_def)
    from "2.prems"(1) True obtain r1 ordered order objs1
      where o: "prv_getRegistrationOrder mem objs (servObjInstID s) = Ret (r1, ordered, order, objs1)"
      by (auto simp: oc_bind_eq_Ret Let_def)
    consider "r1 \<noteq> 0" | "r1 = 0" "ordered" | "r1 = 0" "\<not> ordered" by blast
    then show ?thesis
    proof cases
      case 1
      with "2.prems"(1) True o have e: "ss' = ?s1 # ss" "first' = first" by (auto simp: Let_def)
      show ?thesis unfolding e by (rule kept_cons [OF kept_refl [OF tl(1)] s1]) (use st in auto)
    next
      case 2
      with "2.prems"(1) True o obtain n ss1 where n: "order = Some n" "ss' = ?s1 # ss1"
        "start_loop mem now restart objs1 ss (case first of None \<Rightarrow> Some (n, secObjInstID s)
           | Some (m, i) \<Rightarrow> if n < m then Some (n, secObjInstID s) else first) = Ret (r, ss1, first', objs')"
        by (auto simp: Let_def oc_bind_eq_Ret split: option.splits)
      have "kept restart ss ss1 (case first of None \<Rightarrow> Some (n, secObjInstID s)
           | Some (m, i) \<Rightarrow> if n < m then Some (n, secObjInstID s) else first) first'"
        using "2.IH"(1) [OF True refl o _ _ refl _ _ n(1) n(3) tl(1)] 2 by simp
      then show ?thesis unfolding n(2)
        by (rule kept_cons [OF _ s1]) (use st in \<open>auto split: option.splits if_splits\<close>)
    next
      case 3
      with "2.prems"(1) True o obtain r2 s2 objs2 where s2: "prv_startRegistration mem now objs1 ?s1 = Ret (r2, s2, objs2)"
        "r2 \<noteq> 0 \<and> ss' = s2 # ss \<and> first' = first
         \<or> r2 = 0 \<and> (\<exists>ss1. start_loop mem now restart objs2 ss first = Ret (r, ss1, first', objs') \<and> ss' = s2 # ss1)"
        by (auto simp: Let_def oc_bind_eq_Ret split: if_splits)
      note rs = retry_started [OF st(1) s2(1)]
      show ?thesis using s2(2)
      proof (elim disjE conjE exE)
        assume e: "ss' = s2 # ss" "first' = first"
        show ?thesis unfolding e by (rule kept_cons [OF kept_refl [OF tl(1)]]) (use st rs in auto)
      next
        fix ss1 assume e: "r2 = 0" "start_loop mem now restart objs2 ss first = Ret (r, ss1, first', objs')" "ss' = s2 # ss1"
        have "kept restart ss ss1 first first'"
          using "2.IH"(2) [OF True refl o refl refl refl _ _ s2(1) refl refl _ e(2) tl(1)] 3 e(1) by simp
        then show ?thesis unfolding e(3) by (rule kept_cons) (use st rs in auto)
      qed
    qed
  qed
qed

lemma registration_start_ok:
  assumes "registration_start mem now restart c = Ret (r, c')" "servers_ok c"
  shows "servers_ok c'"
    "\<not> restart \<Longrightarrow> server_of c i = Some s \<Longrightarrow> s_status s \<noteq> STATE_DEREGISTERED \<Longrightarrow> server_of c' i = Some s"
proof -
  let ?ss = "serverList (registry c)"
  have "servers_ok c' \<and> (\<not> restart \<longrightarrow> server_of c i = Some s \<longrightarrow> s_status s \<noteq> STATE_DEREGISTERED \<longrightarrow> server_of c' i = Some s)"
  proof (cases "find_object (objectList (registry c)) LWM2M_SERVER_OBJECT_ID")
    case None
    with assms show ?thesis by (simp add: registration_start_def)
  next
    case (Some so)
    with assms(1) obtain r1 ss first objs where l: "start_loop mem now restart (objectList (registry c)) ?ss None = Ret (r1, ss, first, objs)"
      by (auto simp: registration_start_def oc_bind_eq_Ret)
    define c1 where "c1 = c\<lparr>registry := (registry c)\<lparr>serverList := ss, objectList := objs\<rparr>\<rparr>"
    have k: "kept restart ?ss ss None first" using start_loop_servers [OF l] assms(2) by (simp add: servers_ok_def)
    then have ids: "map secObjInstID ss = map secObjInstID ?ss" and ok: "\<forall>s\<in>set ss. retry_ok s" by (auto simp: kept_def)
    have d: "distinct (map secObjInstID ss)" using ids assms(2) by (simp add: servers_ok_def)
    have c1: "servers_ok c1" using d ok by (simp add: servers_ok_def c1_def)
    have same: "server_of c1 i = Some s" if h: "\<not> restart" "server_of c i = Some s" "s_status s \<noteq> STATE_DEREGISTERED"
    proof -
      have "s \<in> set ss" using k server_of_in [OF h(2)] h(1,3) unfolding kept_def by blast
      with find_distinct [OF d this] server_of_in [OF h(2)] show ?thesis by (simp add: server_of_def c1_def)
    qed
    show ?thesis
    proof (cases first)
      case None
      with assms(1) Some l have "c' = c1" by (simp add: registration_start_def c1_def)
      with c1 same show ?thesis by simp
    next
      case (Some ni)
      obtain n j where ni: "first = Some (n, j)" using Some by (cases ni) simp
      with k obtain s1 where s1: "s1 \<in> set ss" "secObjInstID s1 = j" "s_attempt s1 = 0" "s_sequence s1 = 0"
        "\<not> restart \<Longrightarrow> s_status s1 = STATE_DEREGISTERED" unfolding kept_def by auto
      have f: "server_of c1 j = Some s1" using find_distinct [OF d s1(1)] s1(2) by (simp add: server_of_def c1_def)
      with assms(1) \<open>find_object _ _ = Some so\<close> l ni obtain r2 s2 objs2 where
        s2: "prv_startRegistration mem now objs s1 = Ret (r2, s2, objs2)" "c' = put_server s2 (set_objects objs2 c1)"
        by (auto simp: registration_start_def c1_def oc_bind_eq_Ret)
      have s2ok: "retry_ok s2 \<and> secObjInstID s2 = j"
        using startRegistration_cases [OF s2(1)] s1(2-4) server_of_ok [OF f c1] by (elim disjE exE) (simp_all add: retry_ok_def)
      then have "servers_ok c'" unfolding s2(2) by (intro put_server_ok) (simp_all add: c1)
      moreover have "server_of c' i = Some s" if h: "\<not> restart" "server_of c i = Some s" "s_status s \<noteq> STATE_DEREGISTERED"
      proof -
        have i: "server_of c1 i = Some s" by (rule same [OF h])
        then have "i \<noteq> j" using f s1(5) h(1,3) by auto
        then show ?thesis using i s2ok unfolding s2(2) by (simp add: server_of_put_other)
      qed
      ultimately show ?thesis by blast
    qed
  qed
  then show "servers_ok c'" "\<not> restart \<Longrightarrow> server_of c i = Some s \<Longrightarrow> s_status s \<noteq> STATE_DEREGISTERED \<Longrightarrow> server_of c' i = Some s"
    by blast+
qed

lemma limit_bound: "(ucast (min n 254 :: u64) :: u8) \<le> 254"
proof -
  have "unat (min n 254 :: u64) \<le> 254" by (simp add: min_def word_le_nat_alt)
  then have "unat (ucast (min n 254 :: u64) :: u8) \<le> 254" by (simp add: unsigned_ucast_eq unsigned_take_bit_eq take_bit_nat_eq_self)
  then show ?thesis by (simp add: word_le_nat_alt)
qed

lemma read_limits_bound:
  "read_limits mem objs inst a d1 b d2 = Ret (0, limits, objs') \<Longrightarrow> \<exists>n delay. limits = Some (n, delay) \<and> n \<le> 254"
  by (auto simp: read_limits_def oc_bind_eq_Ret limit_bound split: if_splits)

lemma fail_others_ok:
  "fail_others mem objs ss = Ret (ss', objs') \<Longrightarrow> \<forall>s\<in>set ss. retry_ok s
    \<Longrightarrow> map secObjInstID ss' = map secObjInstID ss \<and> (\<forall>s\<in>set ss'. retry_ok s)"
proof (induction mem objs ss arbitrary: ss' objs' rule: fail_others.induct)
  case (2 mem objs s ss)
  have failed: "retry_ok (s\<lparr>s_status := STATE_REG_FAILED\<rparr>)" by (simp add: retry_ok_def)
  show ?case
  proof (cases "s_status s = STATE_DEREGISTERED")
    case True
    with "2.prems"(1) obtain r ordered order objs1 ss1 where o: "prv_getRegistrationOrder mem objs (servObjInstID s) = Ret (r, ordered, order, objs1)"
      "fail_others mem objs1 ss = Ret (ss1, objs')"
      "ss' = (if r = 0 \<and> ordered then s\<lparr>s_status := STATE_REG_FAILED\<rparr> else s) # ss1"
      by (auto simp: oc_bind_eq_Ret)
    from "2.IH"(1) [OF True o(1) refl refl refl o(2)] "2.prems"(2) failed o(3) show ?thesis by simp
  next
    case False
    with "2.prems"(1) obtain ss1 where o: "fail_others mem objs ss = Ret (ss1, objs')" "ss' = s # ss1"
      by (auto simp: oc_bind_eq_Ret)
    from "2.IH"(2) [OF False o(1)] "2.prems"(2) o(2) show ?thesis by simp
  qed
qed simp

lemma sequence_order_ok:
  assumes "sequence_order mem now s0 c = Ret (ordered, blocking, c')" "servers_ok c"
  shows "servers_ok c'" "server_of c i = Some s \<Longrightarrow> s_status s \<noteq> STATE_DEREGISTERED \<Longrightarrow> server_of c' i = Some s"
proof -
  have "(\<exists>objs. c' = set_objects objs c) \<or> (\<exists>objs r. registration_start mem now False (set_objects objs c) = Ret (r, c'))"
    using assms(1) by (auto simp: sequence_order_def oc_bind_eq_Ret Let_def split: if_splits)
  then have "servers_ok c' \<and> (server_of c i = Some s \<longrightarrow> s_status s \<noteq> STATE_DEREGISTERED \<longrightarrow> server_of c' i = Some s)"
  proof (elim disjE exE)
    fix objs assume "c' = set_objects objs c"
    with assms(2) show ?thesis by simp
  next
    fix objs r assume e: "registration_start mem now False (set_objects objs c) = Ret (r, c')"
    have "servers_ok (set_objects objs c)" using assms(2) by simp
    from registration_start_ok(1) [OF e this] registration_start_ok(2) [OF e this, of i s] show ?thesis by simp
  qed
  then show "servers_ok c'" "server_of c i = Some s \<Longrightarrow> s_status s \<noteq> STATE_DEREGISTERED \<Longrightarrow> server_of c' i = Some s" by blast+
qed

lemma retry_failed: "retry_ok (s\<lparr>s_status := STATE_REG_FAILED\<rparr>)"
  by (simp add: retry_ok_def)

lemma sequenceFailure_ok:
  assumes "prv_handleRegistrationSequenceFailure mem now i c = Ret c'" "servers_ok c" "server_of c i = Some s0"
    "s_status s0 = STATE_REG_PENDING"
  shows "servers_ok c'"
proof -
  from assms(1,3) obtain ordered blocking c1 where o: "sequence_order mem now s0 c = Ret (ordered, blocking, c1)"
    by (auto simp: prv_handleRegistrationSequenceFailure_def oc_bind_eq_Ret)
  note c1 = sequence_order_ok [OF o assms(2)]
  have s: "server_of c1 i = Some s0" by (rule c1(2) [OF assms(3)]) (simp add: assms(4))
  have rs: "retry_ok s0" by (rule server_of_ok [OF assms(3,2)])
  from assms(1,3) o s obtain r limits objs2 where l: "prv_getRegistrationSequenceLimit mem (objectList (registry c1)) (servObjInstID s0) = Ret (r, limits, objs2)"
    by (auto simp: prv_handleRegistrationSequenceFailure_def oc_bind_eq_Ret)
  note step = assms(1) [unfolded prv_handleRegistrationSequenceFailure_def assms(3) option.case o oc_bind.simps prod.case s l Let_def]
  show ?thesis
  proof (cases "r = 0")
    case False
    with step have "c' = put_server (s0\<lparr>s_status := STATE_REG_FAILED\<rparr>) (set_objects objs2 c1)" by simp
    then show ?thesis by (simp add: put_server_ok retry_failed c1(1))
  next
    case True
    then obtain limit delay where lim: "limits = Some (limit, delay)" "limit \<le> 254"
      using read_limits_bound l unfolding prv_getRegistrationSequenceLimit_def by blast
    show ?thesis
    proof (cases "s_sequence s0 \<ge> limit")
      case True
      with step \<open>r = 0\<close> lim obtain r2 bs objs3 c3 where c3: "c3 = put_server (s0\<lparr>s_status := STATE_REG_FAILED\<rparr>) (set_objects objs3 (set_objects objs2 c1))"
        "c' = c3\<lparr>cstate := STATE_BOOTSTRAP_REQUIRED\<rparr> \<or> c' = c3
         \<or> (\<exists>ss objs4. fail_others mem objs3 (serverList (registry c3)) = Ret (ss, objs4)
              \<and> c' = c3\<lparr>registry := (registry c3)\<lparr>serverList := ss, objectList := objs4\<rparr>\<rparr>)"
        by (auto simp: oc_bind_eq_Ret split: if_splits)
      have ok3: "servers_ok c3" unfolding c3(1) by (intro put_server_ok retry_failed) (simp add: c1(1))
      from c3(2) show ?thesis
      proof (elim disjE exE conjE)
        fix ss objs4 assume "fail_others mem objs3 (serverList (registry c3)) = Ret (ss, objs4)"
          and e: "c' = c3\<lparr>registry := (registry c3)\<lparr>serverList := ss, objectList := objs4\<rparr>\<rparr>"
        from fail_others_ok [OF this(1)] ok3 show ?thesis by (simp add: e servers_ok_def)
      qed (use ok3 in simp_all)
    next
      case False
      with step \<open>r = 0\<close> lim have e: "c' = put_server (s0\<lparr>s_registration := time_after now delay, s_status := STATE_REG_HOLD_OFF,
          s_attempt := 0\<rparr>) (set_objects objs2 c1)" by simp
      have "s_sequence s0 < 254" using False lim(2) by simp
      then have "s_sequence s0 \<le> 253" by (simp add: word_less_nat_alt word_le_nat_alt)
      then show ?thesis unfolding e by (intro put_server_ok) (simp_all add: c1(1) retry_ok_def)
    qed
  qed
qed

lemma attemptFailure_ok:
  assumes "prv_handleRegistrationAttemptFailure mem now i c = Ret c'" "servers_ok c" "server_of c i = Some s"
    "s_status s = STATE_REG_PENDING"
  shows "servers_ok c'"
proof (cases "find_object (objectList (registry c)) LWM2M_SERVER_OBJECT_ID")
  case None
  with assms have "c' = put_server (s\<lparr>s_status := STATE_REG_FAILED\<rparr>) c" by (simp add: prv_handleRegistrationAttemptFailure_def)
  then show ?thesis by (simp add: put_server_ok retry_failed assms(2))
next
  case (Some so)
  with assms(1,3) obtain r limits objs1 where l: "prv_getRegistrationAttemptLimit mem (objectList (registry c)) (servObjInstID s) = Ret (r, limits, objs1)"
    by (auto simp: prv_handleRegistrationAttemptFailure_def oc_bind_eq_Ret)
  have rs: "retry_ok s" by (rule server_of_ok [OF assms(3,2)])
  show ?thesis
  proof (cases "r = 0")
    case False
    with assms(1,3) Some l have "c' = put_server (s\<lparr>s_status := STATE_REG_FAILED\<rparr>) (set_objects objs1 c)"
      by (simp add: prv_handleRegistrationAttemptFailure_def)
    then show ?thesis by (simp add: put_server_ok retry_failed assms(2))
  next
    case True
    then obtain limit delay where lim: "limits = Some (limit, delay)" "limit \<le> 254"
      using read_limits_bound l unfolding prv_getRegistrationAttemptLimit_def by blast
    show ?thesis
    proof (cases "s_attempt s \<ge> limit")
      case True
      with assms(1,3) Some l lim \<open>r = 0\<close> have "prv_handleRegistrationSequenceFailure mem now i (set_objects objs1 c) = Ret c'"
        by (simp add: prv_handleRegistrationAttemptFailure_def)
      then show ?thesis by (rule sequenceFailure_ok) (use assms in simp_all)
    next
      case False
      with assms(1,3) Some l lim \<open>r = 0\<close> have e: "c' = put_server (s\<lparr>s_registration := time_after now (delay * 2 ^ (unat (s_attempt s) - 1)),
            s_status := STATE_REG_HOLD_OFF\<rparr>) (set_objects objs1 c)" "s_attempt s \<noteq> 0"
        by (auto simp: prv_handleRegistrationAttemptFailure_def split: if_splits)
      have "s_attempt s \<le> 253" using False lim(2) by (simp add: word_less_nat_alt word_le_nat_alt)
      then show ?thesis unfolding e(1) using rs e(2) assms(4) by (intro put_server_ok) (simp_all add: assms(2) retry_ok_def)
    qed
  qed
qed

lemma start_next_ok: "start_next mem now i c = Ret c' \<Longrightarrow> servers_ok c \<Longrightarrow> servers_ok c'"
proof -
  assume a: "start_next mem now i c = Ret c'" "servers_ok c"
  have "c' = c \<or> (\<exists>objs. c' = set_objects objs c) \<or> (\<exists>objs. c' = set_objects objs (set_objects objs c))
      \<or> (\<exists>objs objs2 r. c' = set_objects objs2 (set_objects objs c)
          \<or> registration_start mem now False (set_objects objs c) = Ret (r, c')
          \<or> registration_start mem now False (set_objects objs2 (set_objects objs c)) = Ret (r, c'))"
    using a(1) unfolding start_next_def
    by (simp add: oc_bind_eq_Ret Let_def split: if_splits option.splits prod.splits) metis+
  then show ?thesis using a(2) registration_start_ok(1) [of mem now False] by (elim disjE exE) (simp_all add: registration_start_ok(1))
qed

lemma registrationReply_ok:
  assumes "prv_handleRegistrationReply mem locMem now i msg c = Ret c'" "servers_ok c"
  shows "servers_ok c'"
proof -
  from assms(1) obtain s0 where s0: "server_of c i = Some s0" by (auto simp: prv_handleRegistrationReply_def split: option.splits)
  define s where "s = (if now \<ge> 0 then s0\<lparr>s_registration := now\<rparr> else s0)"
  have rs: "retry_ok s" "secObjInstID s = i" "s_status s = s_status s0"
    using server_of_ok [OF s0 assms(2)] server_of_in [OF s0] by (simp_all add: s_def retry_ok_def)
  have c1: "servers_ok (put_server s c)" "server_of (put_server s c) i = Some s"
    using put_server_ok [OF assms(2) rs(1)] server_of_put [OF s0 rs(2)] by simp_all
  note step = assms(1) [unfolded prv_handleRegistrationReply_def s0 option.case Let_def, folded s_def]
  show ?thesis
  proof (cases "s_status s0 = STATE_REG_PENDING \<and> \<not> block_reply msg")
    case False
    with step assms(2) c1(1) show ?thesis by (auto split: if_splits)
  next
    case True
    show ?thesis
    proof (cases "map_option code msg = Some COAP_201_CREATED")
      case True
      then obtain m where m: "msg = Some m" "code m = COAP_201_CREATED" by auto
      with step \<open>s_status s0 = STATE_REG_PENDING \<and> \<not> block_reply msg\<close>
      have "start_next mem now i (put_server (s\<lparr>s_status := STATE_REGISTERED,
                    s_location := (if locMem then Some (coap_get_multi_option_as_path_string (location_path m)) else None)\<rparr>)
              (put_server s c)) = Ret c'" by simp
      then show ?thesis
        by (rule start_next_ok)
          (rule put_server_ok [OF c1(1)], use rs \<open>s_status s0 = STATE_REG_PENDING \<and> \<not> block_reply msg\<close> in
            \<open>simp add: retry_ok_def\<close>)
    next
      case False
      with step True have "prv_handleRegistrationAttemptFailure mem now i (put_server s c) = Ret c'"
        by (auto split: option.splits)
      then show ?thesis by (rule attemptFailure_ok [OF _ c1]) (use rs True in simp)
    qed
  qed
qed

lemma updateReply_ok:
  assumes "prv_handleRegistrationUpdateReply now i msg c = Ret c'" "servers_ok c"
  shows "servers_ok c'"
proof -
  from assms(1) obtain s0 where s0: "server_of c i = Some s0" by (auto simp: prv_handleRegistrationUpdateReply_def split: option.splits)
  have "retry_ok s0" by (rule server_of_ok [OF s0 assms(2)])
  then show ?thesis using assms s0
    by (auto simp: prv_handleRegistrationUpdateReply_def Let_def split: if_splits intro!: put_server_ok) (auto simp: retry_ok_def)
qed

lemma deregReply_ok: "prv_handleDeregistrationReply i c = Ret c' \<Longrightarrow> servers_ok c \<Longrightarrow> servers_ok c'"
  by (auto simp: prv_handleDeregistrationReply_def retry_ok_def split: option.splits if_splits intro!: put_server_ok)

lemma new_request_ctx: "snd (new_request env mem p method c) = c\<lparr>outgoing := (outgoing c)\<lparr>nextMID := nextMID (outgoing c) + 1\<rparr>\<rparr>"
  by (simp add: new_request_def)

lemma send_client_ctx: "send_client env mem t c = Ret (r, c', es) \<Longrightarrow> \<exists>x. c' = c\<lparr>outgoing := x\<rparr>"
  by (auto simp: send_client_def Let_def oc_bind_eq_Ret)

lemma put_outgoing: "put_server s (c\<lparr>outgoing := x\<rparr>) = (put_server s c)\<lparr>outgoing := x\<rparr>"
  by (simp add: put_server_def)

lemma register_ok:
  assumes "prv_register env mem i c = Ret (r, c', es)" "servers_ok c" "server_of c i = Some s0" "s_status s0 = STATE_REG_HOLD_OFF"
  shows "servers_ok c'"
proof -
  define s where "s = s0\<lparr>s_sessionH := (case s_sessionH s0 of Some p \<Rightarrow> Some p | None \<Rightarrow> connect env i)\<rparr>"
  have rs0: "retry_ok s0" by (rule server_of_ok [OF assms(3,2)])
  have rs: "retry_ok s" "s_status s = STATE_REG_HOLD_OFF" using rs0 assms(4) by (simp_all add: s_def retry_ok_def)
  have "(\<exists>x. c' = c\<lparr>outgoing := x\<rparr> \<or> c' = (put_server s c)\<lparr>outgoing := x\<rparr>)
      \<or> (\<exists>x. s_sessionH s \<noteq> None \<and> c' = (put_server (s\<lparr>s_sequence := (if s_attempt s = 0 then s_sequence s + 1 else s_sequence s),
           s_attempt := s_attempt s + 1, s_status := STATE_REG_PENDING\<rparr>) (put_server s c))\<lparr>outgoing := x\<rparr>)"
  proof (cases "\<exists>x. c' = c\<lparr>outgoing := x\<rparr>")
    case False
    note step = assms(1) [unfolded prv_register_def assms(3) option.case Let_def, folded s_def]
    have nc: "c' \<noteq> c" using False [simplified not_ex, rule_format, of "outgoing c"] by simp
    from step nc obtain pl n query where "registration_payload env mem c = Some pl"
      "prv_getRegistrationQuery c s0 (replicate (prv_getRegistrationQueryLength (take 21 (localBytes env)) c s0) 0) = Some (n, query)"
      by (auto split: option.splits if_splits)
    note step = step [unfolded this option.case prod.case]
    show ?thesis
    proof (cases "s_sessionH s")
      case None
      then have "c' = (put_server s c)\<lparr>outgoing := outgoing (put_server s c)\<rparr>"
        using step nc by (auto simp: s_def split: option.splits if_splits)
      then show ?thesis by blast
    next
      case (Some p)
      then have sess: "(case s_sessionH s0 of None \<Rightarrow> connect env i | Some p \<Rightarrow> Some p) = Some p"
        by (simp add: s_def split: option.splits)
      show ?thesis using step nc Some unfolding sess option.case new_request_def
        by (auto simp: oc_bind_eq_Ret put_outgoing split: option.splits if_splits prod.splits bool.splits dest!: send_client_ctx)
    qed
  qed blast
  then show ?thesis
  proof (elim disjE exE conjE)
    fix x assume e: "s_sessionH s \<noteq> None" "c' = (put_server (s\<lparr>s_sequence := (if s_attempt s = 0 then s_sequence s + 1 else s_sequence s),
           s_attempt := s_attempt s + 1, s_status := STATE_REG_PENDING\<rparr>) (put_server s c))\<lparr>outgoing := x\<rparr>"
    have att: "s_attempt s \<le> 253" "s_sequence s \<le> (if s_attempt s = 0 then 253 else 254)" "s_attempt s \<noteq> 0 \<Longrightarrow> 1 \<le> s_sequence s"
      using rs by (simp_all add: retry_ok_def)
    have up: "1 \<le> a + 1 \<and> a + 1 \<le> 254" if "a \<le> 253" for a :: u8
    proof -
      have "unat a \<le> 253" using that by (simp add: word_le_nat_alt)
      then have "unat (a + 1) = unat a + 1" by (simp add: unat_word_ariths)
      with \<open>unat a \<le> 253\<close> show ?thesis by (simp add: word_le_nat_alt)
    qed
    have "retry_ok (s\<lparr>s_sequence := (if s_attempt s = 0 then s_sequence s + 1 else s_sequence s),
           s_attempt := s_attempt s + 1, s_status := STATE_REG_PENDING\<rparr>)"
      using att up [OF att(1)] up [of "s_sequence s"] e(1) by (auto simp: retry_ok_def)
    then show ?thesis unfolding e(2) by (simp add: put_server_ok rs(1) assms(2))
  qed (use assms(2) rs(1) put_server_ok in simp_all)
qed

lemma updateRegistration_ok:
  assumes "prv_updateRegistration env mem i b c = Ret (r, c', es)" "servers_ok c"
  shows "servers_ok c'"
proof -
  from assms(1) obtain s where s: "server_of c i = Some s" by (auto simp: prv_updateRegistration_def Let_def split: option.splits)
  have rs: "retry_ok s" by (rule server_of_ok [OF s assms(2)])
  have "(\<exists>x. c' = c\<lparr>outgoing := x\<rparr>) \<or> (\<exists>x. s_sessionH s \<noteq> None \<and> c' = (put_server (s\<lparr>s_status := STATE_REG_UPDATE_PENDING\<rparr>) c)\<lparr>outgoing := x\<rparr>)"
  proof (cases "s_sessionH s")
    case None
    with assms(1) s show ?thesis by (auto simp: prv_updateRegistration_def Let_def)
  next
    case (Some p)
    with assms(1) s show ?thesis unfolding prv_updateRegistration_def Let_def new_request_def
      by (auto simp: oc_bind_eq_Ret put_outgoing split: option.splits if_splits prod.splits bool.splits dest!: send_client_ctx)
  qed
  then show ?thesis
  proof (elim disjE exE conjE)
    fix x assume e: "s_sessionH s \<noteq> None" "c' = (put_server (s\<lparr>s_status := STATE_REG_UPDATE_PENDING\<rparr>) c)\<lparr>outgoing := x\<rparr>"
    show ?thesis unfolding e(2) using e(1) by (simp add: put_server_ok retry_ok_def assms(2))
  qed (use assms(2) in simp_all)
qed

lemma deregister_ok:
  assumes "registration_deregister env mem i c = Ret (c', es)" "servers_ok c"
  shows "servers_ok c'"
proof -
  from assms(1) obtain s where s: "server_of c i = Some s" by (auto simp: registration_deregister_def split: option.splits)
  have "(\<exists>x. c' = c\<lparr>outgoing := x\<rparr>) \<or> (\<exists>x. s_sessionH s \<noteq> None \<and> c' = (put_server (s\<lparr>s_status := STATE_DEREG_PENDING\<rparr>) c)\<lparr>outgoing := x\<rparr>)"
  proof (cases "\<exists>x. c' = c\<lparr>outgoing := x\<rparr>")
    case False
    then have nc: "c' \<noteq> c" using False [simplified not_ex, rule_format, of "outgoing c"] by simp
    with assms(1) s False obtain loc p where "s_location s = Some loc" "s_sessionH s = Some p"
      "\<not> s_status s \<in> {STATE_DEREGISTERED, STATE_REG_PENDING, STATE_DEREG_PENDING, STATE_REG_FAILED}"
      by (auto simp: registration_deregister_def split: option.splits if_splits)
    with assms(1) s nc show ?thesis unfolding registration_deregister_def new_request_def
      by (auto simp: oc_bind_eq_Ret put_outgoing split: option.splits if_splits prod.splits dest!: send_client_ctx)
  qed blast
  then show ?thesis
  proof (elim disjE exE conjE)
    fix x assume e: "s_sessionH s \<noteq> None" "c' = (put_server (s\<lparr>s_status := STATE_DEREG_PENDING\<rparr>) c)\<lparr>outgoing := x\<rparr>"
    show ?thesis unfolding e(2) using e(1) by (simp add: put_server_ok retry_ok_def assms(2))
  qed (use assms(2) in simp_all)
qed

lemma update_loop_ok:
  "update_registration_loop short b ss = (r, ss') \<Longrightarrow> \<forall>s\<in>set ss. retry_ok s
    \<Longrightarrow> map secObjInstID ss' = map secObjInstID ss \<and> (\<forall>s\<in>set ss'. retry_ok s)"
proof (induction short b ss arbitrary: r ss' rule: update_registration_loop.induct)
  case (2 short b s ss)
  have needed: "s_status s = STATE_REGISTERED \<or> s_status s = STATE_REG_UPDATE_PENDING
      \<Longrightarrow> retry_ok (update_needed b s) \<and> secObjInstID (update_needed b s) = secObjInstID s"
    using "2.prems"(2) by (auto simp: update_needed_def retry_ok_def)
  have full: "s_status s = STATE_REG_FULL_UPDATE_NEEDED \<or> s_status s = STATE_REG_UPDATE_NEEDED
      \<Longrightarrow> retry_ok (s\<lparr>s_status := STATE_REG_FULL_UPDATE_NEEDED\<rparr>)"
    using "2.prems"(2) by (auto simp: retry_ok_def)
  obtain r1 ss1 where l: "update_registration_loop short b ss = (r1, ss1)" by fastforce
  show ?case
  proof (cases "short \<noteq> 0 \<and> shortID s = short")
    case True
    with "2.prems" needed full show ?thesis by (auto split: if_splits)
  next
    case False
    from "2.IH"(1) [OF False refl l] "2.prems" needed False l show ?thesis by (auto simp: Let_def split: if_splits)
  qed
qed simp

lemma step_server_ok:
  assumes "step_server env mem now timeout i c = Ret (c', t, es, cl)" "servers_ok c"
  shows "servers_ok c'"
proof -
  from assms(1) obtain s where s: "server_of c i = Some s" by (auto simp: step_server_def split: option.splits)
  have closed: "retry_ok (s\<lparr>s_sessionH := None\<rparr>)" if "s_status s = STATE_REG_FAILED" using that by (simp add: retry_ok_def)
  from assms s show ?thesis
    by (cases "s_status s")
      (auto simp: step_server_def Let_def oc_bind_eq_Ret closed split: if_splits option.splits
        intro: register_ok updateRegistration_ok put_server_ok)
qed

lemma step_servers_ok:
  "step_servers env mem now timeout is c = Ret (c', t, es, cl) \<Longrightarrow> servers_ok c \<Longrightarrow> servers_ok c'"
proof (induction env mem now timeout "is" c arbitrary: c' t es cl rule: step_servers.induct)
  case (2 env mem now timeout i "is" c)
  then obtain c1 t1 es1 cl1 c2 t2 es2 cl2 where s: "step_server env (mem i) now timeout i c = Ret (c1, t1, es1, cl1)"
    "step_servers env mem now t1 is c1 = Ret (c2, t2, es2, cl2)" "c' = c2"
    by (auto simp: oc_bind_eq_Ret)
  from "2.IH" [OF s(1) refl refl refl s(2)] step_server_ok [OF s(1) "2.prems"(2)] s(3) show ?case by simp
qed simp

text \<open>What the registration of a client goes through.\<close>

inductive registering :: "('p, 's) client_ctx \<Rightarrow> bool" where
  registering_init: "distinct (map secObjInstID (serverList (registry c)))
    \<Longrightarrow> (\<And>s. s \<in> set (serverList (registry c)) \<Longrightarrow> s_status s = STATE_DEREGISTERED) \<Longrightarrow> registering c"
| registering_start: "registering c \<Longrightarrow> registration_start mem now restart c = Ret (r, c') \<Longrightarrow> registering c'"
| registering_step: "registering c \<Longrightarrow> registration_step_client env cmem now timeout c = Ret (c', t, es, cl) \<Longrightarrow> registering c'"
| registering_reply: "registering c \<Longrightarrow> prv_handleRegistrationReply mem locMem now i msg c = Ret c' \<Longrightarrow> registering c'"
| registering_update_reply: "registering c \<Longrightarrow> prv_handleRegistrationUpdateReply now i msg c = Ret c' \<Longrightarrow> registering c'"
| registering_dereg_reply: "registering c \<Longrightarrow> prv_handleDeregistrationReply i c = Ret c' \<Longrightarrow> registering c'"
| registering_update: "registering c \<Longrightarrow> serverList (registry c) \<noteq> []
    \<Longrightarrow> lwm2m_update_registration gmem short withObjects c = Ret (r, c') \<Longrightarrow> registering c'"
| registering_deregister: "registering c \<Longrightarrow> registration_deregister env mem i c = Ret (c', es) \<Longrightarrow> registering c'"

lemma registering_servers_ok: "registering c \<Longrightarrow> servers_ok c"
proof (induction rule: registering.induct)
  case (registering_init c)
  then show ?case by (auto simp: servers_ok_def retry_ok_def)
next
  case (registering_start c mem now restart r c')
  show ?case by (rule registration_start_ok(1) [OF registering_start.hyps(2) registering_start.IH])
next
  case (registering_step c env cmem now timeout c' t es cl)
  show ?case by (rule step_servers_ok [OF registering_step.hyps(2) [unfolded registration_step_client_def] registering_step.IH])
next
  case (registering_reply c mem locMem now i msg c')
  show ?case by (rule registrationReply_ok [OF registering_reply.hyps(2) registering_reply.IH])
next
  case (registering_update_reply c now i msg c')
  show ?case by (rule updateReply_ok [OF registering_update_reply.hyps(2) registering_update_reply.IH])
next
  case (registering_dereg_reply c i c')
  show ?case by (rule deregReply_ok [OF registering_dereg_reply.hyps(2) registering_dereg_reply.IH])
next
  case (registering_update c gmem short withObjects r c')
  obtain r1 ss where l: "update_registration_loop short withObjects (serverList (registry c)) = (r1, ss)" by fastforce
  with registering_update.hyps(2,3) have "c' = c\<lparr>registry := (registry c)\<lparr>serverList := ss\<rparr>\<rparr>"
    by (simp add: lwm2m_update_registration_def)
  with update_loop_ok [OF l] registering_update.IH show ?case by (simp add: servers_ok_def)
next
  case (registering_deregister c env mem i c' es)
  show ?case by (rule deregister_ok [OF registering_deregister.hyps(2) registering_deregister.IH])
qed

text \<open>C39: In every state the registration reaches, a server whose request is under way has counted between 1 and
  254 attempts and sequences, so no counter wraps, and a server that accepted the client has a session.\<close>

theorem registration_retries_bounded:
  assumes "registering c" "server_of c i = Some s"
  shows "(s_status s = STATE_REG_PENDING \<longrightarrow> 1 \<le> s_attempt s \<and> s_attempt s \<le> 254 \<and> 1 \<le> s_sequence s \<and> s_sequence s \<le> 254)
    \<and> (s_status s = STATE_REG_HOLD_OFF \<longrightarrow> s_attempt s \<le> 253 \<and> s_sequence s \<le> 254)
    \<and> (s_status s \<in> {STATE_REG_PENDING, STATE_REGISTERED, STATE_REG_UPDATE_NEEDED, STATE_REG_FULL_UPDATE_NEEDED,
         STATE_REG_UPDATE_PENDING, STATE_DEREG_PENDING} \<longrightarrow> s_sessionH s \<noteq> None)"
proof -
  have le: "(253 :: u8) \<le> 254" by simp
  from server_of_ok [OF assms(2) registering_servers_ok [OF assms(1)]] show ?thesis
    unfolding retry_ok_def using order_trans [OF _ le, of "s_sequence s"] by (auto split: if_splits)
qed

text \<open>A client with one server; its Server object has the resources \<open>f\<close>.\<close>

definition server_object :: "(u16 \<Rightarrow> u8 \<times> lwm2m_value) \<Rightarrow> unit lwm2m_object_t" where
  "server_object f = (plain_object 1 [0])\<lparr>readFunc := Some (\<lambda>u i ds. case ds of
      d # _ \<Rightarrow> (fst (f (data_id d)), [Data (data_id d) (snd (f (data_id d)))], u) | [] \<Rightarrow> (COAP_400_BAD_REQUEST, [], u))\<rparr>"

definition sample_client :: "(u16 \<Rightarrow> u8 \<times> lwm2m_value) \<Rightarrow> u8 \<Rightarrow> lwm2m_status_t \<Rightarrow> (nat, unit) client_ctx" where
  "sample_client f n st = \<lparr>cstate = STATE_REGISTERING, endpointName = ascii ''x'', ctx_msisdn = None, ctx_altPath = None,
     registry = \<lparr>bootstrapServerList = [], serverList = [(empty_server 5)\<lparr>s_lifetime := 300, s_binding := 2, s_status := st,
       s_attempt := n, s_sequence := 1\<rparr>], objectList = [server_object f]\<rparr>,
     outgoing = \<lparr>nextMID = 7, transactionList = [], peerList = []\<rparr>\<rparr>"

definition full_mem :: client_mem where
  "full_mem = \<lparr>readMem = (\<lambda>_ _. True), listMem = True, queryMem = True,
     pmem = \<lparr>parseMem = (\<lambda>_. True), newMem = (\<lambda>_. True), payloadMem = True, bufferMem = True, blockMem = (\<lambda>_. True)\<rparr>,
     dataMem2 = True, segMem = (\<lambda>_. True)\<rparr>"

lemmas sample_client_simps = sample_client_def server_object_def plain_object_def empty_server_def full_mem_def server_of_def
  find_object_def read_first_def call_read_def prv_readUint_def prv_readBoolean_def or_default_def

theorem registration_query_roundtrip_witness:
  "\<exists>n buf p. prv_getRegistrationQuery (sample_client (\<lambda>_. (COAP_404_NOT_FOUND, V_UNDEFINED)) 0 STATE_REG_HOLD_OFF)
      ((empty_server 5 :: nat lwm2m_server_t)\<lparr>s_lifetime := 300, s_binding := 2\<rparr>) (replicate n 0) = Some (n, buf)
    \<and> prv_getParameters (\<lambda>_. True) (map (\<lambda>v. (v, []))
        (uri_query (snd (coap_set_header_uri_query (\<lambda>_. True) coap_zero (take (n - 1) buf))))) = Ret (Some p)
    \<and> q_name p = Some (ascii ''x'') \<and> q_lifetime p = 300"
proof -
  let ?c = "sample_client (\<lambda>_. (COAP_404_NOT_FOUND, V_UNDEFINED)) 0 STATE_REG_HOLD_OFF"
  let ?s = "(empty_server 5 :: nat lwm2m_server_t)\<lparr>s_lifetime := 300, s_binding := 2\<rparr>"
  have ok: "query_ok ?c ?s"
    by (simp add: query_ok_def no_amp_def sample_client_def empty_server_def lifetime_ok_def ascii_def)
  have len: "length (replicate 21 (0 :: u8)) = 21" by simp
  from registration_query_roundtrip [OF ok len refl, of "\<lambda>_. []" coap_zero] show ?thesis
    by (simp add: sample_client_def empty_server_def) blast
qed

theorem registration_retries_bounded_witness:
  "\<exists>(c :: (nat, unit) client_ctx) s. server_of c 5 = Some s \<and> s_status s = STATE_REG_HOLD_OFF \<and> s_attempt s \<le> 253 \<and> s_sequence s \<le> 254"
proof -
  let ?c = "sample_client (\<lambda>_. (COAP_404_NOT_FOUND, V_UNDEFINED)) 3 STATE_DEREGISTERED"
  have init: "registering ?c" by (rule registering_init) (simp_all add: sample_client_def)
  obtain r c' where s: "registration_start full_mem 100 False ?c = Ret (r, c')"
    "\<exists>s. server_of c' 5 = Some s \<and> s_status s = STATE_REG_HOLD_OFF"
    by (simp add: registration_start_def prv_getRegistrationOrder_def prv_startRegistration_def sample_client_simps
        update_object_def put_server_def set_objects_def lwm2m_data_decode_uint_def lwm2m_data_decode_bool_def)
  then obtain s where s5: "server_of c' 5 = Some s" "s_status s = STATE_REG_HOLD_OFF" by blast
  from registration_retries_bounded [OF registering_start [OF init s(1)] s5(1)] s5 show ?thesis by auto
qed

text \<open>With more than 32 attempts allowed, the failure of the attempt 32 shifts an \<open>int\<close> by 31 bits or more.\<close>

theorem registration_backoff_overflow:
  assumes "server_of c i = Some s" "32 \<le> s_attempt s" "find_object (objectList (registry c)) LWM2M_SERVER_OBJECT_ID \<noteq> None"
    "prv_getRegistrationAttemptLimit mem (objectList (registry c)) (servObjInstID s) = Ret (COAP_NO_ERROR, Some (limit, delay), objs)"
    "s_attempt s < limit"
  shows "prv_handleRegistrationAttemptFailure mem now i c = UB"
  using assms by (auto simp: prv_handleRegistrationAttemptFailure_def not_le [symmetric])

theorem registration_backoff_overflow_witness:
  "prv_handleRegistrationAttemptFailure full_mem 100 5
     (sample_client (\<lambda>_. (COAP_205_CONTENT, V_UNSIGNED_INTEGER 100)) 32 STATE_REG_PENDING) = UB"
  by (rule registration_backoff_overflow [where limit = 100 and delay = 100])
    (simp add: sample_client_simps, simp add: sample_client_simps, simp add: sample_client_simps,
     simp add: sample_client_simps prv_getRegistrationAttemptLimit_def read_limits_def lwm2m_data_decode_uint_def update_object_def,
     simp add: sample_client_simps)

section \<open>The location\<close>

lemma start_next_keeps:
  assumes "start_next mem now i c = Ret c'" "servers_ok c" "server_of c j = Some s" "s_status s \<noteq> STATE_DEREGISTERED"
  shows "server_of c' j = Some s"
proof -
  have "c' = c \<or> (\<exists>objs. c' = set_objects objs c) \<or> (\<exists>objs. c' = set_objects objs (set_objects objs c))
      \<or> (\<exists>objs objs2 r. c' = set_objects objs2 (set_objects objs c)
          \<or> registration_start mem now False (set_objects objs c) = Ret (r, c')
          \<or> registration_start mem now False (set_objects objs2 (set_objects objs c)) = Ret (r, c'))"
    using assms(1) unfolding start_next_def
    by (simp add: oc_bind_eq_Ret Let_def split: if_splits option.splits prod.splits) metis+
  then show ?thesis using assms(2-4)
    by (elim disjE exE) (simp_all add: registration_start_ok(2))
qed

text \<open>C40: After the 2.01 of a server the client is registered with it and keeps the location; the requests to
  update or to leave then have the path that the server gave.\<close>

theorem registration_reply_location:
  assumes "servers_ok c" "server_of c i = Some s" "s_status s = STATE_REG_PENDING" "code packet = COAP_201_CREATED"
    "location_path packet = segs" "segs \<noteq> []" "\<forall>v\<in>set segs. v \<noteq> [] \<and> ch_slash \<notin> set v \<and> length v < 256"
    "prv_handleRegistrationReply mem True now i (Some packet) c = Ret c'"
  shows "\<exists>s' loc. server_of c' i = Some s' \<and> s_status s' = STATE_REGISTERED \<and> s_location s' = Some loc
    \<and> uri_path (snd (coap_set_header_uri_path (\<lambda>_. True) m loc)) = segs"
proof -
  note ok = assms(1)
  define s1 where "s1 = (if now \<ge> 0 then s\<lparr>s_registration := now\<rparr> else s)"
  let ?loc = "coap_get_multi_option_as_path_string segs"
  define s2 where "s2 = s1\<lparr>s_status := STATE_REGISTERED, s_location := Some ?loc\<rparr>"
  have r1: "retry_ok s1" "secObjInstID s1 = i" "s_status s1 = STATE_REG_PENDING"
    using server_of_ok [OF assms(2) ok] server_of_in [OF assms(2)] assms(3) by (simp_all add: s1_def retry_ok_def)
  then have r2: "retry_ok s2" "secObjInstID s2 = i" by (simp_all add: s2_def retry_ok_def)
  have "\<not> block_reply (Some packet)" using assms(4) by (simp add: block_reply_def)
  then have n: "start_next mem now i (put_server s2 (put_server s1 c)) = Ret c'"
    using assms(2-5,8) by (simp add: prv_handleRegistrationReply_def s1_def [symmetric] s2_def Let_def)
  have "servers_ok (put_server s2 (put_server s1 c))" by (intro put_server_ok ok r1 r2)
  moreover have "server_of (put_server s2 (put_server s1 c)) i = Some s2"
    by (rule server_of_put [OF server_of_put [OF assms(2) r1(2)] r2(2)])
  ultimately have "server_of c' i = Some s2" by (intro start_next_keeps [OF n]) (simp_all add: s2_def)
  moreover have "uri_path (snd (coap_set_header_uri_path (\<lambda>_. True) m ?loc)) = segs"
    using split_segments_join [of segs ch_slash "[]"] multi_option_string_join [OF assms(6)] assms(6,7)
    by (simp add: coap_set_header_uri_path_def skip_first_def cstr_at_def coap_get_multi_option_as_path_string_def)
  ultimately show ?thesis by (intro exI [of _ s2] exI [of _ ?loc]) (simp add: s2_def)
qed

text \<open>A client that waits for the reply to its first registration, and the 2.01 that answers it.\<close>

definition pending_client :: "(nat, unit) client_ctx" where
  "pending_client = put_server ((empty_server 5)\<lparr>s_lifetime := 300, s_binding := 2, s_status := STATE_REG_PENDING,
     s_attempt := 1, s_sequence := 1, s_sessionH := Some 9\<rparr>) (sample_client (\<lambda>_. (COAP_404_NOT_FOUND, V_UNDEFINED)) 1 STATE_REG_HOLD_OFF)"

definition created_reply :: coap_packet_t where
  "created_reply = coap_zero\<lparr>code := COAP_201_CREATED, location_path := [ascii ''rd'', ascii ''7'']\<rparr>"

theorem registration_reply_location_witness:
  "\<exists>c' s' loc. prv_handleRegistrationReply full_mem True 100 5 (Some created_reply) pending_client = Ret c'
    \<and> server_of c' 5 = Some s' \<and> s_status s' = STATE_REGISTERED \<and> s_location s' = Some loc
    \<and> uri_path (snd (coap_set_header_uri_path (\<lambda>_. True) coap_zero loc)) = [ascii ''rd'', ascii ''7'']"
proof -
  have ok: "servers_ok pending_client"
    by (simp add: servers_ok_def retry_ok_def pending_client_def put_server_def sample_client_def empty_server_def)
  obtain s where s: "server_of pending_client 5 = Some s" "s_status s = STATE_REG_PENDING"
    by (simp add: pending_client_def put_server_def sample_client_simps)
  have r: "code created_reply = COAP_201_CREATED" "location_path created_reply = [ascii ''rd'', ascii ''7'']"
    by (simp_all add: created_reply_def)
  obtain c' where c': "prv_handleRegistrationReply full_mem True 100 5 (Some created_reply) pending_client = Ret c'"
    by (simp add: prv_handleRegistrationReply_def pending_client_def created_reply_def block_reply_def start_next_def
        put_server_def set_objects_def sample_client_simps update_object_def coap_zero_def prv_getRegistrationOrder_def
        lwm2m_data_decode_uint_def lwm2m_data_decode_bool_def)
  from registration_reply_location [OF ok s r(1) r(2) _ _ c', of coap_zero] c' show ?thesis
    by (auto simp: ascii_def)
qed

end
