(* ===== verification/FloatText.thy ===== *)
theory FloatText
  imports FloatOps TextConv RegPayload
begin

text \<open>
  The text of floating point numbers of \<open>core/utils.c\<close>: \<open>utils_floatToText\<close>, over the arithmetic of
  \<open>double\<close> on bit patterns, and \<open>utils_textToFloat\<close>, whose conversion \<open>strtod\<close> belongs to the platform.
  The loops that scale the number go on while a test of it holds and are partial functions.
\<close>

section \<open>Arithmetic\<close>

definition double_mul :: "u64 \<Rightarrow> u64 \<Rightarrow> u64" where
  "double_mul a b =
     (let s = (if double_sign a \<noteq> double_sign b then 0x8000000000000000 else 0) in
      if double_isnan a \<or> double_isnan b then DOUBLE_NAN
      else if double_isinf a \<or> double_isinf b then
        (if double_val a = 0 \<or> double_val b = 0 then DOUBLE_NAN else s OR 0x7FF0000000000000)
      else if double_val a * double_val b = 0 then s
      else s OR double_of_val \<bar>double_val a * double_val b\<bar> 1074)"

text \<open>The conversions to unsigned integers; a value out of their range is undefined.\<close>

definition double_trunc :: "u64 \<Rightarrow> int" where
  "double_trunc d = sgn (double_val d) * (\<bar>double_val d\<bar> div 2 ^ 1074)"

definition uint_of_double :: "nat \<Rightarrow> u64 \<Rightarrow> u64 outcome" where
  "uint_of_double w d =
     (if double_isnan d \<or> double_isinf d \<or> double_trunc d < 0 \<or> double_trunc d \<ge> 2 ^ w then UB
      else Ret (word_of_int (double_trunc d)))"

text \<open>The literals.\<close>

definition DBL_MIN :: u64 where "DBL_MIN = 0x0010000000000000"
definition DBL_MAX :: u64 where "DBL_MAX = 0x7FEFFFFFFFFFFFFF"
definition DBL_EPSILON :: u64 where "DBL_EPSILON = 0x3CB0000000000000"

abbreviation (input) d_1e100 :: u64 where "d_1e100 \<equiv> 0x54B249AD2594C37D"
abbreviation (input) d_1em100 :: u64 where "d_1em100 \<equiv> 0x2B2BFF2EE48E0530"
abbreviation (input) d_1e25 :: u64 where "d_1e25 \<equiv> 0x45208B2A2C280291"
abbreviation (input) d_1e15 :: u64 where "d_1e15 \<equiv> 0x430C6BF526340000"
abbreviation (input) d_1e10 :: u64 where "d_1e10 \<equiv> 0x4202A05F20000000"
abbreviation (input) d_1em10 :: u64 where "d_1em10 \<equiv> 0x3DDB7CDFD9D7BDBB"
abbreviation (input) d_10 :: u64 where "d_10 \<equiv> 0x4024000000000000"
abbreviation (input) d_2 :: u64 where "d_2 \<equiv> 0x4000000000000000"
abbreviation (input) d_1 :: u64 where "d_1 \<equiv> 0x3FF0000000000000"
abbreviation (input) d_05 :: u64 where "d_05 \<equiv> 0x3FE0000000000000"
abbreviation (input) d_01 :: u64 where "d_01 \<equiv> 0x3FB999999999999A"
abbreviation (input) d_001 :: u64 where "d_001 \<equiv> 0x3F847AE147AE147B"
abbreviation (input) d_0001 :: u64 where "d_0001 \<equiv> 0x3F50624DD2F1A9FC"

section \<open>Scaling\<close>

text \<open>\<open>data\<close>, \<open>zeros\<close> and \<open>precisionFactor\<close>, and a loop over them.\<close>

type_synonym scaled = "u64 \<times> int \<times> int"

definition scale_by :: "u64 \<Rightarrow> int \<Rightarrow> scaled \<Rightarrow> scaled" where
  "scale_by factor k st = (case st of (data, zeros, pf) \<Rightarrow> (double_mul data factor, zeros + k, pf + 1))"

partial_function (option) scale_loop :: "(u64 \<Rightarrow> bool) \<Rightarrow> u64 \<Rightarrow> int \<Rightarrow> scaled \<Rightarrow> scaled option" where
  "scale_loop more_digits factor k st =
     (if more_digits (fst st) then scale_loop more_digits factor k (scale_by factor k st) else Some st)"

declare scale_loop.simps [code]

definition scale_exp_down :: "scaled \<Rightarrow> (scaled \<times> nat) option" where
  "scale_exp_down st0 =
     Option.bind (scale_loop (\<lambda>d. double_lt d_1e10 d) d_1em10 10 st0) (\<lambda>st1.
     Option.bind (scale_loop (\<lambda>d. double_lt d_10 d) d_01 1 st1) (\<lambda>st.
       Some (st, if fst (snd st) \<ge> 100 then 4 else if fst (snd st) \<ge> 10 then 3 else 2)))"

definition scale_plain_down :: "scaled \<Rightarrow> (scaled \<times> nat) option" where
  "scale_plain_down st0 =
     Option.bind (scale_loop (\<lambda>d. double_le d_1e25 d) d_1em10 10 st0) (\<lambda>st1.
     Option.bind (scale_loop (\<lambda>d. double_lt d_1e15 d) d_01 1 st1) (\<lambda>st.
       Some (if snd (snd st) \<ge> 19 then scale_by d_001 2 st
             else if snd (snd st) \<ge> 10 then scale_by d_01 1 st else st, 0)))"

definition scale_up :: "bool \<Rightarrow> scaled \<Rightarrow> (scaled \<times> nat) option" where
  "scale_up allowExponential st0 =
     Option.bind (scale_loop (\<lambda>d. double_lt d d_1em100) d_1e100 (-100) st0) (\<lambda>st1.
     Option.bind (scale_loop (\<lambda>d. double_lt d d_1em10) d_1e10 (-10) st1) (\<lambda>st2.
     Option.bind (scale_loop (\<lambda>d. double_lt d (if allowExponential then d_1 else d_01)) d_10 (-1) st2) (\<lambda>st.
       Some (st, if \<not> allowExponential then 0
                 else if fst (snd st) \<le> -100 then 5 else if fst (snd st) \<le> -10 then 4 else 3))))"

text \<open>The scaled number and the length of the exponent.\<close>

definition float_scale :: "bool \<Rightarrow> u64 \<Rightarrow> (scaled \<times> nat) option" where
  "float_scale allowExponential data =
     (if double_lt d_1e15 data then
        Option.bind (scale_loop (\<lambda>d. double_lt d_1e100 d) d_1em100 100 (data, 0, 1))
          (if allowExponential then scale_exp_down else scale_plain_down)
      else if double_lt data (if allowExponential then d_0001 else d_01) then scale_up allowExponential (data, 0, 1)
      else Some ((data, 0, 1), 0))"

section \<open>Digits\<close>

text \<open>The loop over the digits left of the decimal point: \<open>noiseFloor\<close> and \<open>digits\<close>.\<close>

function int_digits :: "u64 \<Rightarrow> u64 \<Rightarrow> nat \<Rightarrow> u64 \<times> nat" where
  "int_digits intPart noiseFloor digits =
     (if intPart > 0 then int_digits (intPart div 10) (double_mul noiseFloor d_10) (digits + 1) else (noiseFloor, digits))"
  by auto
termination
  by (relation "measure (\<lambda>(i, _). unat i)") (auto simp: unat_div word_gt_0 unat_gt_0 intro!: div_less_dividend)

declare int_digits.simps [simp del]

text \<open>The significant digits left of the zeros: \<open>zeros\<close>, \<open>noiseFloor\<close>, \<open>decPart\<close>, \<open>intPart\<close> and \<open>digits\<close>.\<close>

fun fill_zeros :: "nat \<Rightarrow> u64 \<Rightarrow> u64 \<Rightarrow> u64 \<Rightarrow> nat \<Rightarrow> (nat \<times> u64 \<times> u64 \<times> nat) outcome" where
  "fill_zeros 0 noiseFloor decPart intPart digits = Ret (0, noiseFloor, intPart, digits)"
| "fill_zeros (Suc zeros) noiseFloor decPart intPart digits =
     (if double_lt noiseFloor d_1 then
        (let dec1 = double_mul decPart d_10 in
         oc_bind (uint_of_double 32 dec1) (\<lambda>u.
           fill_zeros zeros (double_mul noiseFloor d_10) (double_sub dec1 (double_of_uint u)) (intPart * 10 + u) (digits + 1)))
      else Ret (Suc zeros, noiseFloor, intPart, digits))"

text \<open>The loop over the decimals while \<open>room\<close> digits more fit the buffer: \<open>decPart\<close>, \<open>roundCheck\<close>, \<open>noiseFloor\<close>.\<close>

fun dec_digits :: "nat \<Rightarrow> u64 \<Rightarrow> u64 \<Rightarrow> u64 \<Rightarrow> (u64 \<times> u64 \<times> u64) outcome" where
  "dec_digits 0 decPart roundCheck noiseFloor = Ret (decPart, roundCheck, noiseFloor)"
| "dec_digits (Suc room) decPart roundCheck noiseFloor =
     (let dec1 = double_mul decPart d_10; rc1 = double_mul roundCheck d_10; nf1 = double_mul noiseFloor d_10 in
      oc_bind (uint_of_double 64 dec1) (\<lambda>u.
        if double_lt nf1 (double_sub dec1 (double_of_uint u)) then dec_digits room dec1 rc1 nf1
        else Ret (dec1, rc1, nf1)))"

section \<open>The text\<close>

text \<open>A string at \<open>head\<close>, whole or as much as fits, with a NUL when there is room for one.\<close>

definition write_at :: "nat \<Rightarrow> bytes \<Rightarrow> bytes \<Rightarrow> bytes" where
  "write_at head s string = take head string @ s @ drop (head + length s) string"

definition put_some :: "nat \<Rightarrow> bytes \<Rightarrow> bytes \<Rightarrow> nat \<times> bytes" where
  "put_some head s string =
     (let t = take (length string - head) s; h = head + length t; string1 = write_at head t string in
      (h, if h < length string then string1[h := 0] else string1))"

text \<open>What is written after the digits are known.\<close>

definition float_write ::
    "bool \<Rightarrow> nat \<Rightarrow> nat \<Rightarrow> int \<Rightarrow> u64 \<Rightarrow> u64 \<Rightarrow> u64 \<Rightarrow> bytes \<Rightarrow> (nat \<times> bytes) outcome" where
  "float_write allowExponential head0 expLen zeros noiseFloor decPart intPart string0 =
     (let len = length string0; (res, rest) = utils_uintToText intPart (drop head0 string0);
          string = take head0 string0 @ rest; head = head0 + res in
      if res = 0 then Ret (0, string)
      else if double_le decPart noiseFloor \<or> \<not> allowExponential \<and> - zeros \<ge> signed_take_bit 31 (int (len - head)) then
        (if \<not> allowExponential \<and> zeros > 0 then
           (if head + nat zeros > len then Ret (0, string)
            else Ret (put_some (head + nat zeros) (ascii ''.0'') (write_at head (replicate (nat zeros) ch_zero) string)))
         else Ret (put_some head (ascii ''.0'') string))
      else
        let leading = (\<not> allowExponential \<and> zeros < 0) in
        if leading \<and> head + nat (- zeros) > len then Ret (0, string)
        else
          let string1 = (if leading then write_at head (ch_dot # replicate (nat (- zeros) - 1) ch_zero) string else string);
              head1 = (if leading then head + nat (- zeros) else head) in
          oc_bind (uint_of_double 64 decPart) (\<lambda>u.
            let (res2, rest2) = utils_uintToText u (drop head1 string1); string2 = take head1 string1 @ rest2 in
            if res2 = 0 then Ret (0, string2)
            else
              let string3 = string2[head1 := if leading then ch_zero else ch_dot]; head2 = head1 + res2 in
              if allowExponential \<and> zeros \<noteq> 0 then
                (if head2 + expLen > len then Ret (0, string3)
                 else let string4 = string3[head2 := 0x65];
                          (res3, rest3) = utils_intToText (word_of_int zeros) (drop (head2 + 1) string4);
                          string5 = take (head2 + 1) string4 @ rest3
                      in if res3 = 0 then Ret (0, string5) else Ret (head2 + 1 + res3, string5))
              else Ret (head2, string3)))"

text \<open>A number that is neither too small, infinite nor NaN, after its sign.\<close>

definition float_finite :: "bool \<Rightarrow> nat \<Rightarrow> u64 \<Rightarrow> bytes \<Rightarrow> (nat \<times> bytes) outcome option" where
  "float_finite allowExponential head data0 string =
     Option.bind (float_scale allowExponential data0) (\<lambda>((data, zeros, precisionFactor), expLen). Some (
       oc_bind (uint_of_double 64 data) (\<lambda>intPart.
         let (noiseFloor, digits) =
               int_digits intPart (double_mul DBL_EPSILON (double_of_int (word_of_int precisionFactor)))
                 (if intPart = 0 then 2 else 1);
             decPart = double_sub data (double_of_uint intPart) in
         oc_bind (if \<not> allowExponential \<and> zeros > 0 then
             oc_bind (fill_zeros (nat zeros) noiseFloor decPart intPart digits) (\<lambda>(zs, nf, ip, ds).
               Ret (int zs, nf, 0, ip, ds))
           else Ret (zeros, noiseFloor, decPart, intPart, digits)) (\<lambda>(zeros1, nf1, dec1, int1, digits1).
         oc_bind (if double_lt nf1 dec1 then
             oc_bind (dec_digits (length string - (head + expLen + digits1)) (double_add dec1 d_1) d_2 nf1) (\<lambda>(d, rc, nf).
               let d' = double_add d d_05 in Ret (d', nf, if double_le rc d' then int1 + 1 else int1))
           else Ret (dec1, nf1, int1)) (\<lambda>(dec2, nf2, int2).
           float_write allowExponential head expLen zeros1 nf2 dec2 int2 string)))))"

text \<open>The length, 0 for a failure, and the buffer.\<close>

definition utils_floatToText :: "u64 \<Rightarrow> bytes \<Rightarrow> bool \<Rightarrow> (nat \<times> bytes) outcome option" where
  "utils_floatToText data0 string0 allowExponential =
     (if length string0 = 0 then Some (Ret (0, string0))
      else
        let negative = double_lt data0 0; head = (if negative then 1 else 0);
            string = (if negative then string0[0 := ch_minus] else string0);
            data = (if negative then double_neg data0 else data0);
            special = (\<lambda>t. if length string < 3 + head then Some (Ret (0, string)) else Some (Ret (put_some head t string)))
        in
        if double_lt data DBL_MIN then
          (if length string < 3 then Some (Ret (0, string)) else Some (Ret (put_some 0 (ascii ''0.0'') string)))
        else if double_lt DBL_MAX data then special (ascii ''inf'')
        else if double_isnan data then special (ascii ''nan'')
        else float_finite allowExponential head data string)"

section \<open>The number of a text\<close>

text \<open>\<open>strtod\<close> gives the value and how many bytes of the string it read.\<close>

definition utils_textToFloat :: "(bytes \<Rightarrow> u64 \<times> nat) \<Rightarrow> bool \<Rightarrow> bytes \<Rightarrow> bool \<Rightarrow> u64 option" where
  "utils_textToFloat strtod allocated buffer allowExponential =
     (if length buffer = 0 \<or> \<not> allocated then None
      else let s = takeWhile (\<lambda>c. c \<noteq> 0) buffer in
        if \<not> allowExponential \<and> (0x65 \<in> set s \<or> 0x45 \<in> set s) then None
        else case strtod s of (v, read) \<Rightarrow> if read = 0 then None else Some v)"

end
