(* ===== verification/FloatTextProps.thy ===== *)
theory FloatTextProps
  imports FloatText
begin

text \<open>
  The text of floating point numbers: \<open>utils_floatToText\<close> returns for every number, because each of its
  loops moves the bit pattern by at least one binade towards its bound; integers up to 10^15 are written
  exactly; and the exponent of a power of ten is lost.
\<close>

section \<open>Rounding is monotone\<close>

lemma round_shift_mono: "a \<le> b \<Longrightarrow> round_shift a k \<le> round_shift b k"
proof -
  assume ab: "a \<le> b"
  define qa qb ra rb where "qa = a div 2 ^ k" and "qb = b div 2 ^ k" and "ra = a mod 2 ^ k" and "rb = b mod 2 ^ k"
  have q: "qa \<le> qb" using ab by (simp add: qa_def qb_def div_le_mono)
  have A: "round_shift a k = (if 2 * ra > 2 ^ k \<or> 2 * ra = 2 ^ k \<and> odd qa then qa + 1 else qa)"
    and B: "round_shift b k = (if 2 * rb > 2 ^ k \<or> 2 * rb = 2 ^ k \<and> odd qb then qb + 1 else qb)"
    by (simp_all add: round_shift_def qa_def qb_def ra_def rb_def Let_def)
  show ?thesis
  proof (cases "qa = qb")
    case True
    have "a = qa * 2 ^ k + ra" "b = qb * 2 ^ k + rb" unfolding qa_def qb_def ra_def rb_def by (simp_all only: div_mult_mod_eq)
    with ab True have "ra \<le> rb" by simp
    then show ?thesis unfolding A B True by (auto split: if_splits)
  next
    case False
    then have "qa + 1 \<le> qb" using q by simp
    then show ?thesis unfolding A B by (auto split: if_splits)
  qed
qed

lemma round_shift_ge: "m * 2 ^ k \<le> n \<Longrightarrow> m \<le> round_shift n k"
  using round_shift_mono [of "m * 2 ^ k" n k] by (simp add: round_shift_exact)

lemma round_shift_le: "n \<le> m * 2 ^ k \<Longrightarrow> round_shift n k \<le> m"
  using round_shift_mono [of n "m * 2 ^ k" k] by (simp add: round_shift_exact)

lemma high_bit_0 [simp]: "high_bit 0 = 0"
  by (subst high_bit.simps) simp

lemma high_bit_mono:
  assumes "a \<le> b"
  shows "high_bit a \<le> high_bit b"
proof (cases "a = 0")
  case True
  then show ?thesis by simp
next
  case False
  with assms have "(2::nat) ^ high_bit a < 2 ^ Suc (high_bit b)"
    using high_bit_bounds [of a] high_bit_bounds [of b] by simp
  then show ?thesis by (simp only: power_strict_increasing_iff less_Suc_eq_le)
qed

lemma mag_bits_mono:
  assumes "a \<le> b"
  shows "mag_bits p emax s a \<le> mag_bits p emax s b"
proof -
  define ka kb where "ka = max s (high_bit a - p)" and "kb = max s (high_bit b - p)"
  have k: "ka \<le> kb" "s \<le> ka" using high_bit_mono [OF assms] by (auto simp: ka_def kb_def)
  have "(ka - s) * 2 ^ p + round_shift a ka \<le> (kb - s) * 2 ^ p + round_shift b kb"
  proof (cases "ka = kb")
    case True
    with round_shift_mono [OF assms] show ?thesis by simp
  next
    case False
    with k have kb: "ka + 1 \<le> kb" "kb = high_bit b - p" by (auto simp: kb_def)
    have "0 < b" using kb k by (cases "b = 0") simp_all
    have "a \<le> 2 ^ (p + 1) * 2 ^ ka"
    proof (cases "a = 0")
      case False
      then have "a \<le> 2 ^ (high_bit a + 1)" using high_bit_bounds [of a] by simp
      also have "\<dots> \<le> 2 ^ (p + 1 + ka)"
      proof (rule power_increasing)
        have "high_bit a - p \<le> ka" by (simp add: ka_def)
        then show "high_bit a + 1 \<le> p + 1 + ka" by linarith
      qed simp
      finally show ?thesis by (simp add: power_add)
    qed simp
    then have a: "round_shift a ka \<le> 2 ^ (p + 1)" by (rule round_shift_le)
    have "2 ^ p * 2 ^ kb = (2::nat) ^ high_bit b" using kb k by (simp add: power_add [symmetric])
    then have "2 ^ p * 2 ^ kb \<le> b" using high_bit_bounds [OF \<open>0 < b\<close>] by simp
    then have b: "2 ^ p \<le> round_shift b kb" by (rule round_shift_ge)
    have "(ka - s) * 2 ^ p + 2 ^ (p + 1) = (ka - s + 1) * 2 ^ p + 2 ^ p" by simp
    also have "\<dots> \<le> (kb - s) * 2 ^ p + 2 ^ p" using kb(1) k by (intro add_right_mono mult_right_mono) auto
    finally show ?thesis using a b by linarith
  qed
  then show ?thesis unfolding mag_bits_def Let_def ka_def [symmetric] kb_def [symmetric] by (rule min.mono [OF order_refl])
qed

lemma high_bit_shift:
  assumes "0 < n"
  shows "high_bit (n * 2 ^ s) = high_bit n + s"
proof (rule high_bit_unique)
  show "2 ^ (high_bit n + s) \<le> n * 2 ^ s" using high_bit_bounds [OF assms] by (simp add: power_add)
  have "n * 2 ^ s < (2 * 2 ^ high_bit n) * 2 ^ s" using high_bit_bounds [OF assms] by simp
  then show "n * 2 ^ s < 2 * 2 ^ (high_bit n + s)" by (simp add: power_add mult.assoc)
qed

lemma round_shift_shift: "round_shift (n * 2 ^ s) (s + j) = round_shift n j"
proof -
  have e: "(2::nat) ^ (s + j) = 2 ^ j * 2 ^ s" by (simp add: power_add)
  have "n * 2 ^ s div 2 ^ (s + j) = n div 2 ^ j" unfolding e by simp
  moreover have m: "n * 2 ^ s mod 2 ^ (s + j) = (n mod 2 ^ j) * 2 ^ s" unfolding e by (rule mod_mult_mult2)
  moreover have "2 * (n * 2 ^ s mod 2 ^ (s + j)) > 2 ^ (s + j) \<longleftrightarrow> 2 * (n mod 2 ^ j) > 2 ^ j"
    "2 * (n * 2 ^ s mod 2 ^ (s + j)) = 2 ^ (s + j) \<longleftrightarrow> 2 * (n mod 2 ^ j) = 2 ^ j"
    unfolding m unfolding e mult.assoc [symmetric] by simp_all
  ultimately show ?thesis unfolding round_shift_def Let_def by presburger
qed

lemma mag_bits_shift: "mag_bits p emax s (n * 2 ^ s) = mag_bits p emax 0 n"
proof (cases "n = 0")
  case True
  then show ?thesis by (simp add: mag_bits_def round_shift_def Let_def)
next
  case False
  have k: "max s (high_bit n + s - p) = s + (high_bit n - p)" by auto
  show ?thesis using False by (simp add: mag_bits_def Let_def high_bit_shift k round_shift_shift)
qed

text \<open>Twice and half of a number move its pattern by one binade.\<close>

lemma mag_of_half:
  assumes "2 * 2 ^ p \<le> m"
  shows "mag_of p m = 2 * mag_of p (m - 2 ^ p)"
proof -
  have "m div 2 ^ p \<ge> 2" using div_le_mono [OF assms, of "2 ^ p"] by simp
  then obtain e where e: "m div 2 ^ p = e + 2" by (metis le_add_diff_inverse2)
  define r where "r = m - 2 ^ p"
  have m: "m = r + 2 ^ p" using assms by (simp add: r_def)
  have d: "r div 2 ^ p = e + 1" "m mod 2 ^ p = r mod 2 ^ p" using e div_add_self2 [of "2 ^ p" r] unfolding m by simp_all
  then show ?thesis unfolding r_def [symmetric] using e by (simp add: mag_of_def)
qed

lemma mag_bits_below:
  assumes "m \<le> emax * 2 ^ p" "0 < p" "n \<le> mag_of p m * 2 ^ s"
  shows "mag_bits p emax s n \<le> m"
  using mag_bits_mono [OF assms(3)] mag_bits_shift mag_bits_mag_of [OF assms(1,2)] by metis

lemma mag_bits_above:
  assumes "m \<le> emax * 2 ^ p" "0 < p" "mag_of p m * 2 ^ s \<le> n"
  shows "m \<le> mag_bits p emax s n"
  using mag_bits_mono [OF assms(3)] mag_bits_shift mag_bits_mag_of [OF assms(1,2)] by metis

section \<open>Positive numbers\<close>

text \<open>Zero and the positive numbers, without and with infinity.\<close>

definition positive :: "u64 \<Rightarrow> bool" where
  "positive d \<longleftrightarrow> unat d \<le> 2047 * 2 ^ 52"

definition finite_pos :: "u64 \<Rightarrow> bool" where
  "finite_pos d \<longleftrightarrow> unat d < 2047 * 2 ^ 52"

lemma finite_positive [simp]: "finite_pos d \<Longrightarrow> positive d"
  by (simp add: finite_pos_def positive_def)

lemma positive_fields:
  assumes "positive d"
  shows "double_sign d = 0" "\<not> double_isnan d" "double_isinf d \<longleftrightarrow> unat d = 2047 * 2 ^ 52"
    "double_val d = int (mag_of 52 (unat d))"
proof -
  have u: "unat d \<le> 2047 * 2 ^ 52" using assms by (simp add: positive_def)
  then show sign: "double_sign d = 0" by (simp add: double_sign_def)
  have "unat d div 2 ^ 52 \<le> 2047" using div_le_mono [OF u, of "2 ^ 52"] by simp
  then have e: "double_exp d = unat d div 2 ^ 52" by (simp add: double_exp_def)
  have split: "unat d = double_exp d * 2 ^ 52 + double_frac d" unfolding e double_frac_def by (simp only: div_mult_mod_eq)
  show "\<not> double_isnan d"
  proof
    assume "double_isnan d"
    then have n: "double_exp d = 2047" "0 < double_frac d" by (simp_all add: double_isnan_def)
    show False using u n(2) split [unfolded n(1)] by simp
  qed
  show "double_isinf d \<longleftrightarrow> unat d = 2047 * 2 ^ 52"
  proof
    assume "double_isinf d"
    then show "unat d = 2047 * 2 ^ 52" unfolding double_isinf_def by (subst split) simp
  next
    assume d: "unat d = 2047 * 2 ^ 52"
    then have n: "double_exp d = 2047" unfolding e by simp
    have "double_frac d = 0" using d split [unfolded n] by simp
    with n show "double_isinf d" by (simp add: double_isinf_def)
  qed
  show "double_val d = int (mag_of 52 (unat d))" using u sign by (simp add: double_val_def)
qed

lemma mag_of_less_iff: "mag_of p a < mag_of p b \<longleftrightarrow> a < b"
proof
  show "a < b" if "mag_of p a < mag_of p b"
  proof (rule ccontr)
    assume "\<not> a < b"
    then consider "a = b" | "b < a" by linarith
    then show False using that mag_of_mono_strict [of b a p] by cases simp_all
  qed
qed (rule mag_of_mono_strict)

lemma positive_lt: "positive a \<Longrightarrow> positive b \<Longrightarrow> double_lt a b \<longleftrightarrow> unat a < unat b"
  unfolding double_lt_def by (simp only: positive_fields of_nat_less_iff mag_of_less_iff) simp

lemma positive_le: "positive a \<Longrightarrow> positive b \<Longrightarrow> double_le a b \<longleftrightarrow> unat a \<le> unat b"
  unfolding double_le_def linorder_not_less [symmetric]
  by (simp only: positive_fields of_nat_less_iff mag_of_less_iff) simp

lemma unat_mag_bits: "unat (word_of_nat (mag_bits 52 2047 s n) :: u64) = mag_bits 52 2047 s n"
  by (simp add: unat_of_nat mag_bits_def Let_def min_def)

lemma positive_mul:
  assumes "finite_pos a" "finite_pos b"
  shows "unat (double_mul a b) = mag_bits 52 2047 1074 (mag_of 52 (unat a) * mag_of 52 (unat b))"
    and "positive (double_mul a b)"
proof -
  have n: "\<not> double_isinf a" "\<not> double_isinf b" using assms by (simp_all add: positive_fields finite_pos_def)
  let ?n = "mag_of 52 (unat a) * mag_of 52 (unat b)"
  have z: "mag_bits 52 2047 1074 0 = 0" by (simp add: mag_bits_def round_shift_def)
  have eq: "double_mul a b = word_of_nat (mag_bits 52 2047 1074 ?n)"
  proof (cases "?n = 0")
    case True
    then have "double_val a * double_val b = 0" using assms by (simp add: positive_fields)
    then show ?thesis using True z assms n by (simp only: double_mul_def positive_fields finite_positive Let_def) simp
  next
    case False
    have v: "double_val a * double_val b = int ?n" using assms by (simp add: positive_fields)
    then have "double_val a * double_val b \<noteq> 0" using False by (simp only: of_nat_eq_0_iff) simp
    moreover have "nat (int (mag_of 52 (unat a)) * int (mag_of 52 (unat b))) = ?n"
      by (simp only: of_nat_mult [symmetric] nat_int)
    ultimately show ?thesis using assms n unfolding double_mul_def Let_def v
      by (simp add: positive_fields double_of_val_def mult_less_0_iff)
  qed
  show "unat (double_mul a b) = mag_bits 52 2047 1074 ?n" unfolding eq by (rule unat_mag_bits)
  then show "positive (double_mul a b)" by (simp add: positive_def mag_bits_def Let_def)
qed

section \<open>The loops end\<close>

text \<open>A factor of at most a half, and one of at least two.\<close>

lemma mul_down:
  assumes "finite_pos d" "finite_pos f" "2 * 2 ^ 52 \<le> unat d" "mag_of 52 (unat f) \<le> 2 ^ 1073"
  shows "unat (double_mul d f) \<le> unat d - 2 ^ 52"
  unfolding positive_mul(1) [OF assms(1,2)]
proof (rule mag_bits_below)
  show "unat d - 2 ^ 52 \<le> 2047 * 2 ^ 52" using assms(1) by (simp add: finite_pos_def)
  have "mag_of 52 (unat d) * mag_of 52 (unat f) = mag_of 52 (unat d - 2 ^ 52) * (2 * mag_of 52 (unat f))"
    unfolding mag_of_half [OF assms(3)] by simp
  also have "\<dots> \<le> mag_of 52 (unat d - 2 ^ 52) * 2 ^ 1074"
  proof (rule mult_left_mono)
    have "(2::nat) ^ 1074 = 2 * 2 ^ 1073" by simp
    then show "2 * mag_of 52 (unat f) \<le> 2 ^ 1074" using assms(4) by linarith
  qed simp
  finally show "mag_of 52 (unat d) * mag_of 52 (unat f) \<le> mag_of 52 (unat d - 2 ^ 52) * 2 ^ 1074" .
qed simp

lemma mul_up:
  assumes "finite_pos d" "finite_pos f" "2 ^ 52 \<le> unat d" "unat d \<le> 2046 * 2 ^ 52" "2 ^ 1075 \<le> mag_of 52 (unat f)"
  shows "unat d + 2 ^ 52 \<le> unat (double_mul d f)"
  unfolding positive_mul(1) [OF assms(1,2)]
proof (rule mag_bits_above)
  show "unat d + 2 ^ 52 \<le> 2047 * 2 ^ 52" using assms(4) by simp
  have m: "mag_of 52 (unat d + 2 ^ 52) = 2 * mag_of 52 (unat d)"
    using mag_of_half [of 52 "unat d + 2 ^ 52"] assms(3) by simp
  have "mag_of 52 (unat d + 2 ^ 52) * 2 ^ 1074 = mag_of 52 (unat d) * 2 ^ 1075" unfolding m by simp
  also have "\<dots> \<le> mag_of 52 (unat d) * mag_of 52 (unat f)" using assms(5) by (rule mult_left_mono) simp
  finally show "mag_of 52 (unat d + 2 ^ 52) * 2 ^ 1074 \<le> mag_of 52 (unat d) * mag_of 52 (unat f)" .
qed simp

lemma mul_finite:
  assumes "finite_pos d" "finite_pos f" "unat d \<le> b" "mag_of 52 b * mag_of 52 (unat f) \<le> mag_of 52 (2046 * 2 ^ 52) * 2 ^ 1074"
  shows "finite_pos (double_mul d f)"
proof -
  have "mag_of 52 (unat d) \<le> mag_of 52 b" using assms(3) mag_of_less_iff [of 52 b "unat d"] by linarith
  then have "mag_of 52 (unat d) * mag_of 52 (unat f) \<le> mag_of 52 (2046 * 2 ^ 52) * 2 ^ 1074"
    by (rule order_trans [OF mult_right_mono assms(4)]) simp
  then have "mag_bits 52 2047 1074 (mag_of 52 (unat d) * mag_of 52 (unat f)) \<le> 2046 * 2 ^ 52"
    by (intro mag_bits_below) simp_all
  then show ?thesis using positive_mul(1) [OF assms(1,2)] by (simp add: finite_pos_def)
qed

text \<open>A loop that goes down, and one that goes up.\<close>

lemma scale_loop_down:
  assumes "finite_pos f" "mag_of 52 (unat f) \<le> 2 ^ 1073"
    "\<And>d. finite_pos d \<Longrightarrow> goes_on d \<Longrightarrow> 2 * 2 ^ 52 \<le> unat d" "finite_pos (fst st)"
  shows "\<exists>st'. scale_loop goes_on f k st = Some st' \<and> finite_pos (fst st')"
  using assms(4)
proof (induction "unat (fst st)" arbitrary: st rule: less_induct)
  case less
  show ?case
  proof (cases "goes_on (fst st)")
    case True
    have ge: "2 * 2 ^ 52 \<le> unat (fst st)" by (rule assms(3) [OF less.prems True])
    have f: "fst (scale_by f k st) = double_mul (fst st) f" by (simp add: scale_by_def split: prod.splits)
    have le: "unat (fst (scale_by f k st)) \<le> unat (fst st) - 2 ^ 52"
      unfolding f by (rule mul_down [OF less.prems assms(1) ge assms(2)])
    then have "unat (fst (scale_by f k st)) < unat (fst st)" "finite_pos (fst (scale_by f k st))"
      using ge less.prems by (simp_all add: finite_pos_def)
    from less.hyps [OF this] show ?thesis using True by (simp add: scale_loop.simps [of goes_on f k st])
  next
    case False
    then show ?thesis using less.prems by (simp add: scale_loop.simps [of goes_on f k st])
  qed
qed

lemma scale_loop_up:
  assumes "finite_pos f" "2 ^ 1075 \<le> mag_of 52 (unat f)"
    "mag_of 52 b * mag_of 52 (unat f) \<le> mag_of 52 (2046 * 2 ^ 52) * 2 ^ 1074" "b \<le> 2046 * 2 ^ 52"
    "\<And>d. finite_pos d \<Longrightarrow> goes_on d \<Longrightarrow> unat d \<le> b" "finite_pos (fst st)" "2 ^ 52 \<le> unat (fst st)"
  shows "\<exists>st'. scale_loop goes_on f k st = Some st' \<and> finite_pos (fst st') \<and> 2 ^ 52 \<le> unat (fst st')"
  using assms(6,7)
proof (induction "2047 * 2 ^ 52 - unat (fst st)" arbitrary: st rule: less_induct)
  case less
  show ?case
  proof (cases "goes_on (fst st)")
    case True
    have ub: "unat (fst st) \<le> b" by (rule assms(5) [OF less.prems(1) True])
    have f: "fst (scale_by f k st) = double_mul (fst st) f" by (simp add: scale_by_def split: prod.splits)
    have fin: "finite_pos (fst (scale_by f k st))"
      unfolding f by (rule mul_finite [OF less.prems(1) assms(1) ub assms(3)])
    have ge: "unat (fst st) + 2 ^ 52 \<le> unat (fst (scale_by f k st))"
      unfolding f by (rule mul_up [OF less.prems(1) assms(1) less.prems(2) order_trans [OF ub assms(4)] assms(2)])
    then have "2047 * 2 ^ 52 - unat (fst (scale_by f k st)) < 2047 * 2 ^ 52 - unat (fst st)"
      using less.prems(1) by (simp add: finite_pos_def)
    from less.hyps [OF this fin] ge show ?thesis using True by (simp add: scale_loop.simps [of goes_on f k st])
  next
    case False
    then show ?thesis using less.prems by (simp add: scale_loop.simps [of goes_on f k st])
  qed
qed

text \<open>The constants of the loops.\<close>

lemma scale_constants:
  "mag_of 52 (unat d_1em100) \<le> 2 ^ 1073" "mag_of 52 (unat d_1em10) \<le> 2 ^ 1073" "mag_of 52 (unat d_01) \<le> 2 ^ 1073"
  "2 ^ 1075 \<le> mag_of 52 (unat d_1e100)" "2 ^ 1075 \<le> mag_of 52 (unat d_1e10)" "2 ^ 1075 \<le> mag_of 52 (unat d_10)"
  "mag_of 52 (unat d_1) * mag_of 52 (unat d_1e100) \<le> mag_of 52 (2046 * 2 ^ 52) * 2 ^ 1074"
  "mag_of 52 (unat d_1) * mag_of 52 (unat d_1e10) \<le> mag_of 52 (2046 * 2 ^ 52) * 2 ^ 1074"
  "mag_of 52 (unat d_1) * mag_of 52 (unat d_10) \<le> mag_of 52 (2046 * 2 ^ 52) * 2 ^ 1074"
  by (simp_all add: mag_of_def)

lemma small_finite [simp]: "unat d \<le> 2046 * 2 ^ 52 \<Longrightarrow> finite_pos d" for d :: u64
  by (simp add: finite_pos_def)

text \<open>A test of a loop, as a test of the patterns.\<close>

lemma down_test:
  "finite_pos d \<Longrightarrow> finite_pos b \<Longrightarrow> 2 * 2 ^ 52 \<le> unat b \<Longrightarrow> double_lt b d \<or> double_le b d \<Longrightarrow> 2 * 2 ^ 52 \<le> unat d"
  using positive_lt [of b d] positive_le [of b d] by auto

lemma up_test: "finite_pos d \<Longrightarrow> finite_pos b \<Longrightarrow> b \<le> d_1 \<Longrightarrow> double_lt d b \<Longrightarrow> unat d \<le> unat d_1"
  using positive_lt [of d b] by (auto simp: word_le_nat_alt)

lemma loop_down:
  assumes "f \<in> {d_1em100, d_1em10, d_01}" "b \<in> {d_1e100, d_1e10, d_10, d_1e25, d_1e15}" "finite_pos (fst st)"
    "\<And>d. goes_on d \<Longrightarrow> double_lt b d \<or> double_le b d"
  shows "\<exists>st'. scale_loop goes_on f k st = Some st' \<and> finite_pos (fst st')"
proof (rule scale_loop_down)
  show "mag_of 52 (unat f) \<le> 2 ^ 1073" using assms(1) scale_constants(1-3) by blast
  show "finite_pos f" using assms(1) by auto
  have "finite_pos b" "2 * 2 ^ 52 \<le> unat b" using assms(2) by auto
  then show "2 * 2 ^ 52 \<le> unat d" if "finite_pos d" "goes_on d" for d
    using that assms(4) down_test by blast
qed (rule assms(3))

lemma loop_up:
  assumes "f \<in> {d_1e100, d_1e10, d_10}" "b \<in> {d_1em100, d_1em10, d_1, d_01}" "finite_pos (fst st)" "2 ^ 52 \<le> unat (fst st)"
  shows "\<exists>st'. scale_loop (\<lambda>d. double_lt d b) f k st = Some st' \<and> finite_pos (fst st') \<and> 2 ^ 52 \<le> unat (fst st')"
proof (rule scale_loop_up)
  show "2 ^ 1075 \<le> mag_of 52 (unat f)" using assms(1) scale_constants(4-6) by blast
  show "mag_of 52 (unat d_1) * mag_of 52 (unat f) \<le> mag_of 52 (2046 * 2 ^ 52) * 2 ^ 1074"
    using assms(1) scale_constants(7-9) by blast
  show "finite_pos f" using assms(1) by auto
  have "finite_pos b" "b \<le> d_1" using assms(2) by auto
  then show "unat d \<le> unat d_1" if "finite_pos d" "double_lt d b" for d using that up_test by blast
qed (use assms(3,4) in simp_all)

lemma scale_exp_down_returns: "finite_pos (fst st) \<Longrightarrow> \<exists>r. scale_exp_down st = Some r"
  using loop_down [of d_1em10 d_1e10 st "\<lambda>d. double_lt d_1e10 d" 10]
    loop_down [of d_01 d_10 _ "\<lambda>d. double_lt d_10 d" 1]
  by (fastforce simp: scale_exp_down_def)

lemma scale_plain_down_returns: "finite_pos (fst st) \<Longrightarrow> \<exists>r. scale_plain_down st = Some r"
  using loop_down [of d_1em10 d_1e25 st "\<lambda>d. double_le d_1e25 d" 10]
    loop_down [of d_01 d_1e15 _ "\<lambda>d. double_lt d_1e15 d" 1]
  by (fastforce simp: scale_plain_down_def)

lemma scale_up_returns:
  assumes "finite_pos (fst st)" "2 ^ 52 \<le> unat (fst st)"
  shows "\<exists>r. scale_up e st = Some r"
proof -
  let ?b = "if e then d_1 else d_01"
  obtain st1 where 1: "scale_loop (\<lambda>d. double_lt d d_1em100) d_1e100 (-100) st = Some st1" "finite_pos (fst st1)" "2 ^ 52 \<le> unat (fst st1)"
    using loop_up [of d_1e100 d_1em100 st "-100"] assms by auto
  obtain st2 where 2: "scale_loop (\<lambda>d. double_lt d d_1em10) d_1e10 (-10) st1 = Some st2" "finite_pos (fst st2)" "2 ^ 52 \<le> unat (fst st2)"
    using loop_up [of d_1e10 d_1em10 st1 "-10"] 1 by auto
  obtain st3 where "scale_loop (\<lambda>d. double_lt d ?b) d_10 (-1) st2 = Some st3"
    using loop_up [of d_10 ?b st2 "-1"] 2 by (cases e) auto
  with 1 2 show ?thesis by (cases st3) (simp add: scale_up_def)
qed

lemma float_scale_returns:
  assumes "finite_pos d" "2 ^ 52 \<le> unat d"
  shows "\<exists>r. float_scale e d = Some r"
proof -
  obtain st1 where "scale_loop (\<lambda>d. double_lt d_1e100 d) d_1em100 100 (d, 0, 1) = Some st1" "finite_pos (fst st1)"
    using loop_down [of d_1em100 d_1e100 "(d, 0, 1)" "\<lambda>d. double_lt d_1e100 d" 100] assms(1) by auto
  moreover have "\<exists>r. scale_up e (d, 0, 1) = Some r" using scale_up_returns [of "(d, 0, 1)" e] assms by simp
  ultimately show ?thesis
    using scale_exp_down_returns [of st1] scale_plain_down_returns [of st1] by (simp add: float_scale_def)
qed

lemma normal_range:
  assumes "\<not> double_lt d DBL_MIN" "\<not> double_lt DBL_MAX d" "\<not> double_isnan d"
  shows "finite_pos d" "2 ^ 52 \<le> unat d"
proof -
  have min: "positive DBL_MIN" "positive DBL_MAX" "unat DBL_MIN = 2 ^ 52" "unat DBL_MAX = 2047 * 2 ^ 52 - 1"
    by (simp_all add: positive_def DBL_MIN_def DBL_MAX_def)
  have v: "0 < double_val DBL_MIN" by (simp add: positive_fields min mag_of_def)
  have s: "double_sign d \<noteq> 1"
  proof
    assume "double_sign d = 1"
    then have "double_val d \<le> 0" by (simp add: double_val_def)
    with v assms(1,3) min(1) show False by (simp add: double_lt_def positive_fields)
  qed
  have "unat d div 2 ^ 63 < 2" by (rule less_mult_imp_div_less) simp
  then have "double_sign d \<le> 1" by (simp add: double_sign_def)
  with s have s0: "unat d div 2 ^ 63 = 0" by (simp add: double_sign_def)
  then have "unat d < 2 ^ 63" by (simp add: div_eq_0_iff)
  then have e: "double_exp d = unat d div 2 ^ 52" by (simp add: double_exp_def less_mult_imp_div_less)
  have p: "positive d"
  proof (rule ccontr)
    assume "\<not> positive d"
    then have big: "2047 * 2 ^ 52 < unat d" by (simp add: positive_def)
    then have "2047 \<le> unat d div 2 ^ 52" using div_le_mono [of "2047 * 2 ^ 52" "unat d" "2 ^ 52"] by simp
    moreover have "unat d div 2 ^ 52 < 2048" using \<open>unat d < 2 ^ 63\<close> by (simp add: less_mult_imp_div_less)
    ultimately have x: "double_exp d = 2047" using e by simp
    moreover have "2047 * 2 ^ 52 + double_frac d = unat d"
      using div_mult_mod_eq [of "unat d" "2 ^ 52"] unfolding x [unfolded e] double_frac_def .
    then have "double_frac d \<noteq> 0" using big by linarith
    ultimately show False using assms(3) by (simp add: double_isnan_def)
  qed
  show "2 ^ 52 \<le> unat d" using assms(1) positive_lt [OF p min(1)] min(3) by simp
  show "finite_pos d" using assms(2) positive_lt [OF min(2) p] min(4) by (simp add: finite_pos_def)
qed

text \<open>C15: \<open>utils_floatToText\<close> returns for every number, buffer and notation: each of its loops ends.\<close>

theorem utils_floatToText_returns: "\<exists>r. utils_floatToText data0 string0 allowExponential = Some r"
proof -
  have fin: "\<exists>r. float_finite e h d s = Some r" if "finite_pos d" "2 ^ 52 \<le> unat d" for e h d s
    using float_scale_returns [OF that, of e] by (auto simp: float_finite_def split: prod.splits)
  show ?thesis
    unfolding utils_floatToText_def Let_def
    using fin [OF normal_range] by (auto split: if_splits)
qed

section \<open>Products of normal numbers\<close>

lemma mag_bits_normal:
  assumes "2 ^ 52 \<le> n" "1074 + 52 \<le> high_bit n + t"
  shows "mag_bits 52 2047 1074 (n * 2 ^ t) =
    min (2047 * 2 ^ 52) ((high_bit n + t - 52 - 1074) * 2 ^ 52 + round_shift n (high_bit n - 52))"
proof -
  have n: "0 < n" using assms(1) by (cases n) simp_all
  have h: "52 \<le> high_bit n" using high_bit_mono [OF assms(1)] high_bit_unique [of 52 "2 ^ 52"] by simp
  have k: "max 1074 (high_bit (n * 2 ^ t) - 52) = t + (high_bit n - 52)"
    using assms(2) h by (simp add: high_bit_shift n)
  show ?thesis unfolding mag_bits_def Let_def k round_shift_shift using h by (simp add: add.commute)
qed

lemma normal_mul:
  assumes "finite_pos a" "finite_pos b" "unat a = ea * 2 ^ 52 + fa" "unat b = eb * 2 ^ 52 + fb" "fa < 2 ^ 52" "fb < 2 ^ 52"
    "0 < ea" "0 < eb" "(2 ^ 52 + fa) * (2 ^ 52 + fb) = n" "2 ^ h \<le> n" "n < 2 * 2 ^ h" "52 \<le> h" "1074 + 52 \<le> h + (ea - 1 + (eb - 1))"
    "unat c = (h + (ea - 1 + (eb - 1)) - 52 - 1074) * 2 ^ 52 + round_shift n (h - 52)" "unat c < 2047 * 2 ^ 52"
  shows "double_mul a b = c"
proof -
  have m: "mag_of 52 (unat a) = (2 ^ 52 + fa) * 2 ^ (ea - 1)" "mag_of 52 (unat b) = (2 ^ 52 + fb) * 2 ^ (eb - 1)"
    unfolding assms(3,4) using assms(5-8) by (simp_all add: mag_of_def)
  have hb: "high_bit n = h" by (rule high_bit_unique [OF assms(10,11)])
  have "(2::nat) ^ 52 \<le> 2 ^ h" using assms(12) by (rule power_increasing) simp
  then have n: "2 ^ 52 \<le> n" using assms(10) by linarith
  have "mag_of 52 (unat a) * mag_of 52 (unat b) = n * 2 ^ (ea - 1 + (eb - 1))"
    unfolding m assms(9) [symmetric] by (simp add: power_add)
  then have "unat (double_mul a b) = unat c"
    using positive_mul(1) [OF assms(1,2)] mag_bits_normal [OF n, of "ea - 1 + (eb - 1)"] assms(13-15) by (simp add: hb)
  then show ?thesis by (simp only: word_unat_eq_iff)
qed

lemma mul_steps:
  "double_mul 0x3F40624DD2F1A9FC 0x4024000000000000 = 0x3F747AE147AE147B"
  "double_mul 0x3F747AE147AE147B 0x4024000000000000 = 0x3FA999999999999A"
  "double_mul 0x3FA999999999999A 0x4024000000000000 = 0x3FE0000000000000"
  "double_mul 0x3FE0000000000000 0x4024000000000000 = 0x4014000000000000"
  "double_mul 0x3CB0000000000000 0x4014000000000000 = 0x3CD4000000000000"
  "double_mul 0x3CD4000000000000 0x4024000000000000 = 0x3D09000000000000"
proof -
  show "double_mul 0x3F40624DD2F1A9FC 0x4024000000000000 = 0x3F747AE147AE147B"
    by (rule normal_mul [of _ _ 1012 108086391056892 1026 1125899906842624 25961484292674138683084436930560 104], simp_all add: round_shift_def)
  show "double_mul 0x3F747AE147AE147B 0x4024000000000000 = 0x3FA999999999999A"
    by (rule normal_mul [of _ _ 1015 1261007895663739 1026 1125899906842624 32451855365842673353855546163200 104], simp_all add: round_shift_def)
  show "double_mul 0x3FA999999999999A 0x4024000000000000 = 0x3FE0000000000000"
    by (rule normal_mul [of _ _ 1018 2702159776422298 1026 1125899906842624 40564819207303343099694316257280 105], simp_all add: round_shift_def)
  show "double_mul 0x3FE0000000000000 0x4024000000000000 = 0x4014000000000000"
    by (rule normal_mul [of _ _ 1022 0 1026 1125899906842624 25353012004564588029934064107520 104], simp_all add: round_shift_def)
  show "double_mul 0x3CB0000000000000 0x4014000000000000 = 0x3CD4000000000000"
    by (rule normal_mul [of _ _ 971 0 1025 1125899906842624 25353012004564588029934064107520 104], simp_all add: round_shift_def)
  show "double_mul 0x3CD4000000000000 0x4024000000000000 = 0x3D09000000000000"
    by (rule normal_mul [of _ _ 973 1125899906842624 1026 1125899906842624 31691265005705735037417580134400 104], simp_all add: round_shift_def)
qed

section \<open>Integers\<close>

lemma positive_mul_any:
  assumes "positive a" "finite_pos b" "2 ^ 52 \<le> unat b"
  shows "positive (double_mul a b)"
proof (cases "finite_pos a")
  case True
  then show ?thesis by (rule positive_mul(2) [OF _ assms(2)])
next
  case False
  then have u: "unat a = 2047 * 2 ^ 52" using assms(1) by (simp add: positive_def finite_pos_def)
  have "mag_of 52 0 < mag_of 52 (unat b)" using assms(3) by (simp only: mag_of_less_iff) simp
  then have "mag_of 52 (unat b) \<noteq> 0" by simp
  moreover have "mag_of 52 (unat a) \<noteq> 0" unfolding u by (simp add: mag_of_def)
  ultimately have "double_mul a b = 0x7FF0000000000000"
    using assms u by (simp add: double_mul_def positive_fields)
  then show ?thesis by (simp add: positive_def)
qed

lemma int_digits_positive: "positive nf \<Longrightarrow> positive (fst (int_digits u nf k))"
proof (induction u nf k rule: int_digits.induct)
  case (1 u nf k)
  have "positive (double_mul nf d_10)" by (rule positive_mul_any [OF "1.prems"]) simp_all
  with 1 show ?case by (simp add: int_digits.simps [of u nf k])
qed

text \<open>What is written when there are no decimals.\<close>

lemma float_write_integral:
  assumes "positive nf" "e \<or> zeros \<le> 0" "head + length (dec_text (unat u)) + 2 \<le> length s"
  shows "\<exists>b. float_write e head expLen zeros nf 0 u s = Ret (head + length (dec_text (unat u)) + 2, b)
    \<and> take (head + length (dec_text (unat u)) + 2) b = take head s @ dec_text (unat u) @ ascii ''.0''"
proof -
  let ?t = "dec_text (unat u)"
  obtain rest where r: "utils_uintToText u (drop head s) = (length ?t, rest)" "take (length ?t) rest = ?t" "length rest = length s - head"
    using utils_uintToText_fits [of u "drop head s"] length_utils_uintToText [of u "drop head s"] assms(3)
    by (cases "utils_uintToText u (drop head s)") auto
  have le: "double_le 0 nf" using positive_le [OF _ assms(1), of 0] by (simp add: positive_def)
  let ?s = "take head s @ rest" and ?h = "head + length ?t"
  have w: "float_write e head expLen zeros nf 0 u s = Ret (put_some ?h (ascii ''.0'') ?s)"
    using r(1) le assms(2) by (auto simp: float_write_def Let_def)
  have len: "length ?s = length s" using r(3) assms(3) by simp
  have h: "take ?h ?s = take head s @ ?t" using r(2) assms(3) by simp
  have "put_some ?h (ascii ''.0'') ?s = (?h + 2, snd (put_some ?h (ascii ''.0'') ?s))
    \<and> take (?h + 2) (snd (put_some ?h (ascii ''.0'') ?s)) = take ?h ?s @ ascii ''.0''"
    using assms(3) len r(3) by (simp add: put_some_def write_at_def ascii_def Let_def)
  with w h show ?thesis by (metis append_assoc)
qed

lemma float_finite_integral:
  assumes "float_scale e d = Some ((x, zeros, pf), expLen)" "uint_of_double 64 x = Ret u" "double_sub x (double_of_uint u) = 0"
    "positive (double_mul DBL_EPSILON (double_of_int (word_of_int pf)))" "e \<or> zeros \<le> 0"
  shows "\<exists>nf. positive nf \<and> float_finite e head d s = Some (float_write e head expLen zeros nf 0 u s)"
proof -
  obtain nf dg where n: "int_digits u (double_mul DBL_EPSILON (double_of_int (word_of_int pf))) (if u = 0 then 2 else 1) = (nf, dg)"
    by fastforce
  have pos: "positive nf" using int_digits_positive [OF assms(4), of u "if u = 0 then 2 else 1"] n by simp
  then have "\<not> double_lt nf 0" using positive_lt [OF pos, of 0] by (simp add: positive_def)
  with pos n assms show ?thesis by (auto simp: float_finite_def)
qed

lemma double_of_uint_small:
  assumes "0 < unat u" "unat u < 2 ^ 53"
  shows "finite_pos (double_of_uint u)" "mag_of 52 (unat (double_of_uint u)) = unat u * 2 ^ 1074"
proof -
  define n k x where "n = unat u" and "k = high_bit n" and "x = n * 2 ^ (52 - k)"
  have n: "0 < n" "n < 2 ^ 53" using assms by (simp_all add: n_def)
  have kb: "2 ^ k \<le> n" "n < 2 * 2 ^ k" using high_bit_bounds [OF n(1)] by (simp_all add: k_def)
  have k: "k \<le> 52" using high_bit_less [OF n(2)] by (simp add: k_def)
  have pw: "(2::nat) ^ k * 2 ^ (52 - k) = 2 ^ 52" using k by (simp add: power_add [symmetric])
  have x: "2 ^ 52 \<le> x" "x < 2 * 2 ^ 52"
    unfolding x_def pw [symmetric] using kb by (simp_all add: mult.assoc [symmetric])
  have d: "double_of_nat n = (k + 1022) * 2 ^ 52 + x" using n k by (simp add: double_of_nat_def k_def x_def Let_def)
  then have lt: "double_of_nat n < 2047 * 2 ^ 52" using k x by simp
  then have u: "unat (double_of_uint u) = (k + 1022) * 2 ^ 52 + x"
    unfolding double_of_uint_def n_def [symmetric] d [symmetric] by (simp add: unat_of_nat)
  with lt show "finite_pos (double_of_uint u)" unfolding finite_pos_def d by simp
  define y where "y = x - 2 ^ 52"
  have y: "x = 2 ^ 52 + y" "y < 2 ^ 52" using x by (simp_all add: y_def)
  have u2: "unat (double_of_uint u) = (k + 1023) * 2 ^ 52 + y" unfolding u y(1) by simp
  have dm: "((k + 1023) * 2 ^ 52 + y) div 2 ^ 52 = k + 1023" "((k + 1023) * 2 ^ 52 + y) mod 2 ^ 52 = y"
    using y(2) by (simp_all only: div_mult_self3 mod_mult_self3 mod_less div_less)
  have "mag_of 52 (unat (double_of_uint u)) = x * 2 ^ (k + 1022)"
    unfolding u2 mag_of_def using dm by (simp only: y(1)) simp
  also have "\<dots> = n * (2 ^ (52 - k) * 2 ^ (k + 1022))" by (simp add: x_def)
  also have "(2::nat) ^ (52 - k) * 2 ^ (k + 1022) = 2 ^ 1074" using k by (simp add: power_add [symmetric])
  finally show "mag_of 52 (unat (double_of_uint u)) = unat u * 2 ^ 1074" by (simp add: n_def)
qed

lemma uint_of_double_of_uint:
  assumes "0 < unat u" "unat u < 2 ^ 53"
  shows "uint_of_double 64 (double_of_uint u) = Ret u" "double_sub (double_of_uint u) (double_of_uint u) = 0"
proof -
  let ?d = "double_of_uint u"
  note f = double_of_uint_small [OF assms]
  have v: "double_val ?d = int (unat u) * 2 ^ 1074" using f by (simp add: positive_fields)
  have ni: "\<not> double_isinf ?d" using f(1) by (simp add: positive_fields finite_pos_def)
  have sg: "sgn (int n * 2 ^ 1074) = 1" "\<bar>int n * 2 ^ 1074\<bar> div 2 ^ 1074 = int n" if "0 < n" for n
    using that by (simp_all add: sgn_mult abs_mult)
  from sg [OF assms(1)] have t: "double_trunc ?d = int (unat u)" unfolding double_trunc_def v by (simp only: mult_1)
  have "unat u < 2 ^ 64" by simp
  then have "int (unat u) < 2 ^ 64" unfolding of_nat_less_iff [where 'a = int, symmetric] by (simp only: of_nat_power of_nat_numeral)
  then show "uint_of_double 64 ?d = Ret u" using f(1) ni t by (simp add: uint_of_double_def positive_fields)
  have neg: "double_val (double_neg d) = - double_val d" "double_isnan (double_neg d) = double_isnan d"
    "double_isinf (double_neg d) = double_isinf d" if "positive d" for d
  proof -
    have b: "unat d < 2 ^ 63" using that by (simp add: positive_def)
    have "\<not> bit (unat d) 63" using b by (simp add: bit_iff_odd)
    then have "\<not> bit d 63" by (simp add: bit_unsigned_iff)
    then have "d AND 2 ^ 63 = 0" by (rule iffD2 [OF and_exp_eq_0_iff_not_bit])
    then have "d + 2 ^ 63 = d XOR 2 ^ 63" by (rule disjunctive_add_eq_xor)
    then have "double_neg d = d + 0x8000000000000000" by (simp add: double_neg_def)
    then have u: "unat (double_neg d) = 2 ^ 63 + unat d" using b by (simp add: unat_word_ariths)
    have dm: "(2 ^ 63 + unat d) div 2 ^ 63 = 1" "(2 ^ 63 + unat d) mod 2 ^ 63 = unat d"
      using b by (simp_all add: div_add_self1 mod_add_self1)
    have ex: "(2 ^ 63 + unat d) div 2 ^ 52 mod 2 ^ 11 = unat d div 2 ^ 52 mod 2 ^ 11" "(2 ^ 63 + unat d) mod 2 ^ 52 = unat d mod 2 ^ 52"
    proof -
      have e: "2 ^ 63 + unat d = 2048 * 2 ^ 52 + unat d" by simp
      have "(2048 * 2 ^ 52 + unat d) div 2 ^ 52 = 2048 + unat d div 2 ^ 52" by (rule div_mult_self3) simp
      then show "(2 ^ 63 + unat d) div 2 ^ 52 mod 2 ^ 11 = unat d div 2 ^ 52 mod 2 ^ 11" unfolding e by simp
      show "(2 ^ 63 + unat d) mod 2 ^ 52 = unat d mod 2 ^ 52" unfolding e by (simp only: mod_mult_self3)
    qed
    have s0: "unat d div 2 ^ 63 = 0" using b by simp
    show "double_val (double_neg d) = - double_val d"
      unfolding double_val_def double_sign_def u dm s0 using b by simp
    show "double_isnan (double_neg d) = double_isnan d" "double_isinf (double_neg d) = double_isinf d"
      unfolding double_isnan_def double_isinf_def double_exp_def double_frac_def u ex by simp_all
  qed
  have nz: "int n * 2 ^ 1074 \<noteq> 0" if "0 < n" for n using that by simp
  have "double_val ?d \<noteq> 0" unfolding v by (rule nz [OF assms(1)])
  then show "double_sub ?d ?d = 0"
    using f(1) ni by (simp add: double_sub_def double_add_def neg positive_fields double_of_val_def mag_bits_def round_shift_def)
qed

lemma noise_positive: "positive (double_mul DBL_EPSILON (double_of_int (word_of_int 1)))"
proof -
  have "double_of_int 1 = 0x3FF0000000000000"
    by (simp add: double_of_int_def double_of_nat_def high_bit.simps [of 1] high_bit.simps [of "Suc 0"] Let_def)
  then show ?thesis by (simp add: positive_mul(2) DBL_EPSILON_def)
qed

text \<open>C14: An integer up to 10^15 is written as its decimal digits and \<open>.0\<close>, in either notation, into any buffer
  that is long enough.\<close>

theorem utils_floatToText_integer:
  assumes "0 < u" "u \<le> 1000000000000000" "length (dec_text (unat u)) + 2 \<le> length s"
  shows "\<exists>b. utils_floatToText (double_of_uint u) s e = Some (Ret (length (dec_text (unat u)) + 2, b))
    \<and> take (length (dec_text (unat u)) + 2) b = dec_text (unat u) @ ascii ''.0''"
proof -
  let ?d = "double_of_uint u"
  have n: "0 < unat u" "unat u \<le> 10 ^ 15" using assms(1,2) by (simp_all add: word_less_nat_alt word_le_nat_alt)
  then have small: "0 < unat u" "unat u < 2 ^ 53" by simp_all
  note f = double_of_uint_small [OF small]
  have cmp: "unat ?d \<le> b \<longleftrightarrow> unat u * 2 ^ 1074 \<le> mag_of 52 b" "b \<le> unat ?d \<longleftrightarrow> mag_of 52 b \<le> unat u * 2 ^ 1074" for b
    using f(2) mag_of_less_iff [of 52 b "unat ?d"] mag_of_less_iff [of 52 "unat ?d" b] by linarith+
  have "unat u * 2 ^ 1074 \<le> 10 ^ 15 * 2 ^ 1074" using n(2) by (rule mult_right_mono) simp
  also have "\<dots> \<le> mag_of 52 (unat d_1e15)" by (simp add: mag_of_def)
  finally have le: "unat ?d \<le> unat d_1e15" by (simp only: cmp)
  have "mag_of 52 (unat d_1) \<le> 1 * 2 ^ 1074" by (simp add: mag_of_def)
  also have "\<dots> \<le> unat u * 2 ^ 1074" using n(1) by (intro mult_right_mono) simp_all
  finally have ge: "unat d_1 \<le> unat ?d" by (simp only: cmp)
  have pos: "positive ?d" using f(1) by simp
  have not_lt: "\<not> double_lt ?d b" if "unat b \<le> unat d_1" for b
  proof -
    have "positive b" using that by (simp add: positive_def)
    then show ?thesis using positive_lt [OF pos, of b] that ge by simp
  qed
  have "\<not> double_lt d_1e15 ?d" using positive_lt [OF _ pos, of d_1e15] le by simp
  then have sc: "float_scale e ?d = Some ((?d, 0, 1), 0)" by (simp add: float_scale_def not_lt)
  obtain nf where w: "positive nf" "float_finite e 0 ?d s = Some (float_write e 0 0 0 nf 0 u s)"
    using float_finite_integral [OF sc uint_of_double_of_uint [OF small] noise_positive] by auto
  have "\<not> double_lt DBL_MAX ?d" using positive_lt [OF _ pos, of DBL_MAX] f(1) by (simp add: DBL_MAX_def positive_def finite_pos_def)
  moreover have "length s \<noteq> 0" using assms(3) by auto
  ultimately have "utils_floatToText ?d s e = Some (float_write e 0 0 0 nf 0 u s)"
    using w(2) positive_fields(2) [OF pos] not_lt [of 0] not_lt [of DBL_MIN]
    by (simp add: utils_floatToText_def Let_def DBL_MIN_def)
  then show ?thesis using float_write_integral [OF w(1), of e 0 0 u s 0] assms(3) by auto
qed

theorem utils_floatToText_integer_witness:
  "\<exists>b. utils_floatToText (double_of_uint 42) (replicate 8 0) True = Some (Ret (4, b)) \<and> take 4 b = ascii ''42.0''"
proof -
  have t: "dec_text 42 = ascii ''42''" by (simp add: dec_text_step dec_text_less_ten digit_char_def ascii_def)
  have l: "length (dec_text (unat (42 :: u64))) + 2 \<le> length (replicate 8 (0 :: u8))" by (simp add: t ascii_def)
  have n: "length (dec_text (unat (42 :: u64))) + 2 = 4" by (simp add: t ascii_def)
  from utils_floatToText_integer [OF _ _ l, of True] show ?thesis unfolding n by (simp add: t ascii_def)
qed

section \<open>The exponent is lost\<close>

text \<open>In the exponential notation 0.0005 is written as \<open>5.0\<close>: a scaled number without decimals is written
  without its exponent.\<close>

theorem utils_floatToText_exponent_lost:
  "\<exists>b. utils_floatToText 0x3F40624DD2F1A9FC (replicate 64 0) True = Some (Ret (3, b)) \<and> take 3 b = ascii ''5.0''"
proof -
  let ?d = "0x3F40624DD2F1A9FC :: u64" and ?five = "0x4014000000000000 :: u64"
  have five: "double_of_uint 5 = ?five"
    by (simp add: double_of_uint_def double_of_nat_def high_bit.simps [of 5] high_bit.simps [of 2] high_bit.simps [of 1]
        high_bit.simps [of "Suc 0"] Let_def)
  have lt: "double_lt a b \<longleftrightarrow> unat a < unat b" if "unat a \<le> 2047 * 2 ^ 52" "unat b \<le> 2047 * 2 ^ 52" for a b
    using that by (intro positive_lt) (simp_all add: positive_def)
  have "scale_loop (\<lambda>d. double_lt d d_1) d_10 (-1) (?d, 0, 1) = Some (?five, -4, 5)"
    by (simp add: scale_loop.simps [where st = "(_, _, _)"] scale_by_def lt mul_steps)
  moreover have "scale_loop (\<lambda>d. double_lt d d_1em100) d_1e100 (-100) (?d, 0, 1) = Some (?d, 0, 1)"
    "scale_loop (\<lambda>d. double_lt d d_1em10) d_1e10 (-10) (?d, 0, 1) = Some (?d, 0, 1)"
    by (simp_all add: scale_loop.simps [where st = "(_, _, _)"] lt)
  ultimately have sc: "float_scale True ?d = Some ((?five, -4, 5), 3)"
    by (simp add: float_scale_def scale_up_def lt)
  have "double_of_int 5 = ?five" using five by (simp add: double_of_int_def double_of_uint_def)
  then have noise: "positive (double_mul DBL_EPSILON (double_of_int (word_of_int 5)))"
    by (simp add: positive_mul(2) DBL_EPSILON_def)
  have u5: "uint_of_double 64 ?five = Ret 5" "double_sub ?five (double_of_uint 5) = 0"
    using uint_of_double_of_uint [of 5] by (simp_all add: five)
  obtain nf where w: "positive nf" "float_finite True 0 ?d (replicate 64 0) = Some (float_write True 0 3 (-4) nf 0 5 (replicate 64 0))"
    using float_finite_integral [OF sc u5 noise] by auto
  have "double_isnan ?d = False" using positive_fields(2) [of ?d] by (simp add: positive_def)
  with w(2) have "utils_floatToText ?d (replicate 64 0) True = Some (float_write True 0 3 (-4) nf 0 5 (replicate 64 0))"
    by (simp add: utils_floatToText_def Let_def lt DBL_MIN_def DBL_MAX_def)
  then show ?thesis using float_write_integral [OF w(1), of True "-4" 0 5 "replicate 64 0" 3]
    by (auto simp: dec_text_less_ten digit_char_def ascii_def numeral_3_eq_3)
qed

end
