(* ===== verification/Spec2Isabelle.thy ===== *)
theory Spec2Isabelle
  imports SortedList TextConv Formats Base64 Uri CoapCodec CoapRoundtrip TransactionProps BlockProps PacketProps TlvProps CborProps RegPayload Servers ObserveProps RegLinksProps ObserveServer RegServerProps RegClientProps FloatTextProps
begin

text \<open>
  A model of the Wakaama LwM2M library, \<open>src/wakaama\<close> in this repository, with its properties.

  The program.  An LwM2M endpoint is a context (\<open>lwm2m_context_t\<close>) that holds the servers it knows,
  the transactions under way and the watched resources.  A datagram is parsed by the CoAP codec
  (\<open>coap/er-coap-13\<close>), dispatched by \<open>core/packet.c\<close> to the block-wise transfers (\<open>coap/block.c\<close>), to
  the transaction it answers (\<open>coap/transaction.c\<close>), or to the handler of its URI (\<open>core/uri.c\<close>);
  payloads are trees of values (\<open>data/data.c\<close>) in one of the content formats (\<open>data/\<close>).

  The theories, each a component with the file it models:
  Prelude, the integer types, buffers, undefined behaviour as a value, result codes and decimal
  numerals; SortedList, \<open>core/list.c\<close>, with the interface \<open>id_store\<close> of a store keyed by an id;
  TextConv, the number conversions of \<open>core/utils.c\<close>; Formats, its enumerations, version, binding,
  media type and response format functions; Base64, its Base64 coder; Uri, \<open>core/uri.c\<close>;
  Coap, CoapCodec and CoapRoundtrip, \<open>coap/er-coap-13\<close>: the option codec, the serializer and the
  parser, the size the serializer needs, the round trip of a message; Transaction and
  TransactionProps, \<open>coap/transaction.c\<close>: retransmission, matching of responses, the periodic step;
  Block and BlockProps, \<open>coap/block.c\<close>, with the interface \<open>block_receiver\<close> of an endpoint that puts
  blocks together; Packet and PacketProps, \<open>core/packet.c\<close>: what a request and its answers do to the
  context, and the whole of a block-wise upload; Floats, IEEE numbers as bit patterns; Data,
  \<open>data/data.c\<close>; Tlv and TlvProps, \<open>data/tlv.c\<close>; Cbor and CborProps, \<open>data/cbor.c\<close>;
  DataFormats, the choice of the content format; FloatOps, the arithmetic of floating point numbers
  on bit patterns, DataFloat, the numbers of a value, FloatText and FloatTextProps, the text of
  floating point numbers in \<open>core/utils.c\<close>; Objects, RegPayload and Servers,
  \<open>core/objects.c\<close>: the operations on the objects by the callbacks of the application, the list of
  links sent at registration, the server accounts and the composite reads; Observe and ObserveProps,
  the client side of \<open>core/observe.c\<close>, and ObserveServer, its server side; RegLinks and RegLinksProps,
  the parsers of \<open>core/registration.c\<close> for the query and the links of a registration; RegServer and
  RegServerProps, its server side, the clients a server knows; RegClient and RegClientProps, its client
  side, a state machine for each server of the client.

  How code becomes definitions.  A definition has the name of the C function or, for a part of one,
  a name made from it; a loop is a recursive function named after the function it is in.  Words have
  the width of the C type and wrap; an \<open>int\<close> whose overflow is undefined is an integer with a test.
  A buffer is the list of its bytes, a C string the bytes before its NUL, a linked list a list.  The
  type \<open>outcome\<close> has the constructor \<open>UB\<close> for undefined behaviour: a write outside a buffer, a
  dereferenced NULL, a signed overflow, a read of memory that was not written.  A call that may fail
  to allocate takes an oracle for its allocations.  Time, the message ids and the tokens that the
  platform generates, and the connection of a peer are arguments or fields of the state.

  What the lemmas show.  Lists, numbers, Base64 and URIs: functional correctness and round trips,
  with the inputs on which the code overflows.  CoAP: the parser inverts the serializer on
  well-formed messages, what it stores is bounded by the packet and by the datagram, the computed size
  suffices except for two options.  Transactions: the number and times of the transmissions, one callback per transaction,
  the invariant of the periodic step.  Block-wise transfers: what the receiver hands out is what was
  sent.  TLV: the serializer that fills a buffer of the computed size refines a functional
  description of the format, and the parser inverts it.  CBOR: round trip of the content format.

  Observation: the invariant of the list over all sequences of operations, up to the allocation failure
  that leaves a freed entry in it, and the periods; the deletion of all instances of an object, which
  reads a freed instance, fails or does not end.  Floating point text: it is written for every number,
  integers as their digits, with the notation in which the exponent is lost.
  Registration: what a client writes is what the server reads, for the query and for the list of links,
  with the inputs read past their end; on the server, the invariant of the list of clients and what each
  request does to it, with the use of a freed client and the loss of the alternative path; on the client,
  the bounds of the counters in every reachable state, the location kept after a 2.01, the summary of
  the states, the overflowing back-off.

  Bounds and termination.  The deletion of all instances of an object (\<open>delete_loop\<close>) may not end
  and is a partial function; the loops of \<open>utils_floatToText\<close> that scale a number (\<open>scale_loop\<close>) are
  partial functions and proved to end; every other definition is a total function; recursions that are not structural
  are justified by a measure (the rest of the input for the parsers, the size of the tree for the
  TLV serializer, one tag for CBOR).  No fuel is used.

  Not modelled.  The conversion \<open>strtod\<close> of the platform, an argument of \<open>utils_textToFloat\<close>; the JSON, SenML JSON and SenML CBOR formats; the device
  management, bootstrap and discovery components; the LWM2M_VERSION_1_0 build; the sample applications under \<open>examples\<close>, the vendored TinyDTLS, and the tests.
\<close>

end
